(* ===== verification/Prelude.thy ===== *)
theory Prelude imports Main begin

text \<open>
  The prelude of the development: the computation type shared by every service (a
  state-passing function that ends in a value or in a thrown error), the combinators
  the translated \<open>async\<close> methods are composed with, their weakest-precondition calculus,
  the JavaScript string functions the source calls, and generic lemmas on lists.
\<close>

section \<open>Computations\<close>

text \<open>
  An \<open>async\<close> method of the source reads and writes the world and either resolves with a
  value (\<open>Inr\<close>) or rejects with an error (\<open>Inl\<close>). What it did to the world before the
  error stays done: the final state is returned in both cases.
\<close>

type_synonym ('s, 'e, 'a) io = "'s \<Rightarrow> ('e + 'a) \<times> 's"

named_theorems wp \<open>rewrite rules that compute a weakest precondition\<close>

definition returnE :: "'a \<Rightarrow> ('s, 'e, 'a) io" where
  "returnE a = (\<lambda>s. (Inr a, s))"

definition throwE :: "'e \<Rightarrow> ('s, 'e, 'a) io" where
  "throwE e = (\<lambda>s. (Inl e, s))"

text \<open>\<open>const a = await m; f a\<close>.\<close>

definition bindE :: "('s, 'e, 'a) io \<Rightarrow> ('a \<Rightarrow> ('s, 'e, 'b) io) \<Rightarrow> ('s, 'e, 'b) io" where
  "bindE m f = (\<lambda>s. case m s of (Inl e, t) \<Rightarrow> (Inl e, t) | (Inr a, t) \<Rightarrow> f a t)"

text \<open>\<open>try { m } catch (error) { h error }\<close>.\<close>

definition catchE :: "('s, 'e, 'a) io \<Rightarrow> ('e \<Rightarrow> ('s, 'e, 'a) io) \<Rightarrow> ('s, 'e, 'a) io" where
  "catchE m h = (\<lambda>s. case m s of (Inl e, t) \<Rightarrow> h e t | (Inr a, t) \<Rightarrow> (Inr a, t))"

text \<open>\<open>await m1; m2\<close>: the first result is dropped.\<close>

definition thenE :: "('s, 'e, 'a) io \<Rightarrow> ('s, 'e, 'b) io \<Rightarrow> ('s, 'e, 'b) io" where
  "thenE m n = bindE m (\<lambda>_. n)"

text \<open>A pure call that may throw.\<close>

definition liftE :: "'e + 'a \<Rightarrow> ('s, 'e, 'a) io" where
  "liftE x = (\<lambda>s. (x, s))"

text \<open>A query: an answer computed from the state, which it leaves as it is, or an error.\<close>

definition readE :: "('s \<Rightarrow> 'e + 'a) \<Rightarrow> ('s, 'e, 'a) io" where
  "readE f = (\<lambda>s. (f s, s))"

text \<open>Reading a part of the state (the clock).\<close>

definition getE :: "('s \<Rightarrow> 'a) \<Rightarrow> ('s, 'e, 'a) io" where
  "getE f = (\<lambda>s. (Inr (f s), s))"

text \<open>
  A computation on a part of the state (one external service) run on the whole:
  \<open>get\<close> reads the part and \<open>put\<close> writes it back.
\<close>

definition zoomE :: "('w \<Rightarrow> 's) \<Rightarrow> ('s \<Rightarrow> 'w \<Rightarrow> 'w) \<Rightarrow> ('s, 'e, 'a) io \<Rightarrow> ('w, 'e, 'a) io" where
  "zoomE get put m = (\<lambda>w. case m (get w) of (x, s) \<Rightarrow> (x, put s w))"

text \<open>\<open>await Promise.all(xs.map(f))\<close>, the elements one after the other.\<close>

fun mapE :: "('b \<Rightarrow> ('s, 'e, 'a) io) \<Rightarrow> 'b list \<Rightarrow> ('s, 'e, 'a list) io" where
  "mapE f [] = returnE []"
| "mapE f (x # xs) = bindE (f x) (\<lambda>y. bindE (mapE f xs) (\<lambda>ys. returnE (y # ys)))"

text \<open>\<open>for (const x of xs) { await f(x) }\<close>.\<close>

fun forE :: "'b list \<Rightarrow> ('b \<Rightarrow> ('s, 'e, unit) io) \<Rightarrow> ('s, 'e, unit) io" where
  "forE [] f = returnE ()"
| "forE (x # xs) f = bindE (f x) (\<lambda>_. forE xs f)"

section \<open>Weakest preconditions\<close>

text \<open>
  \<open>wp m Q E s\<close>: from \<open>s\<close>, \<open>m\<close> either resolves with \<open>Q\<close> or rejects with \<open>E\<close>. The
  computations are total functions, so this is total correctness.
\<close>

definition wp :: "('s, 'e, 'a) io \<Rightarrow> ('a \<Rightarrow> 's \<Rightarrow> bool) \<Rightarrow> ('e \<Rightarrow> 's \<Rightarrow> bool) \<Rightarrow> 's \<Rightarrow> bool" where
  "wp m Q E s = (case m s of (Inl e, t) \<Rightarrow> E e t | (Inr a, t) \<Rightarrow> Q a t)"

lemma wp_return [wp]: "wp (returnE a) Q E = Q a"
  by (rule ext) (simp add: wp_def returnE_def)

lemma wp_throw [wp]: "wp (throwE e) Q E = E e"
  by (rule ext) (simp add: wp_def throwE_def)

lemma wp_bind [wp]: "wp (bindE m f) Q E = wp m (\<lambda>a. wp (f a) Q E) E"
  by (rule ext) (simp add: wp_def bindE_def split: prod.splits sum.splits)

lemma wp_catch [wp]: "wp (catchE m h) Q E = wp m Q (\<lambda>e. wp (h e) Q E)"
  by (rule ext) (simp add: wp_def catchE_def split: prod.splits sum.splits)

lemma wp_then [wp]: "wp (thenE m n) Q E = wp m (\<lambda>_. wp n Q E) E"
  by (simp add: thenE_def wp_bind)

lemma wp_lift [wp]: "wp (liftE x) Q E s = (case x of Inl e \<Rightarrow> E e s | Inr a \<Rightarrow> Q a s)"
  by (simp add: wp_def liftE_def)

lemma wp_read [wp]: "wp (readE f) Q E s = (case f s of Inl e \<Rightarrow> E e s | Inr a \<Rightarrow> Q a s)"
  by (simp add: wp_def readE_def)

lemma wp_get [wp]: "wp (getE f) Q E s = Q (f s) s"
  by (simp add: wp_def getE_def)

lemma wp_zoom:
  "wp (zoomE get put m) Q E w =
   wp m (\<lambda>a s. Q a (put s w)) (\<lambda>e s. E e (put s w)) (get w)"
  by (simp add: wp_def zoomE_def split: prod.splits sum.splits)

lemma wp_if [wp]: "wp (if b then m else n) Q E s = (if b then wp m Q E s else wp n Q E s)"
  by simp

lemma wp_case_option [wp]:
  "wp (case x of None \<Rightarrow> m | Some y \<Rightarrow> n y) Q E s =
   (case x of None \<Rightarrow> wp m Q E s | Some y \<Rightarrow> wp (n y) Q E s)"
  by (simp split: option.splits)

lemma wp_case_sum [wp]:
  "wp (case x of Inl a \<Rightarrow> m a | Inr b \<Rightarrow> n b) Q E s =
   (case x of Inl a \<Rightarrow> wp (m a) Q E s | Inr b \<Rightarrow> wp (n b) Q E s)"
  by (simp split: sum.splits)

lemma wp_case_prod [wp]:
  "wp (case x of (a, b) \<Rightarrow> m a b) Q E s = (case x of (a, b) \<Rightarrow> wp (m a b) Q E s)"
  by (simp split: prod.splits)

lemma wp_let [wp]: "wp (Let x f) Q E s = (let y = x in wp (f y) Q E s)"
  by (simp add: Let_def)

lemma wp_mono:
  assumes "wp m Q E s" "\<And>a t. Q a t \<Longrightarrow> Q' a t" "\<And>e t. E e t \<Longrightarrow> E' e t"
  shows "wp m Q' E' s"
  using assms by (auto simp: wp_def split: prod.splits sum.splits)

lemma wp_conj: "wp m Q E s \<Longrightarrow> wp m Q' E' s \<Longrightarrow>
    wp m (\<lambda>a t. Q a t \<and> Q' a t) (\<lambda>e t. E e t \<and> E' e t) s"
  by (auto simp: wp_def split: prod.splits sum.splits)

lemma wp_runR: "wp m Q E s \<Longrightarrow> m s = (Inr a, t) \<Longrightarrow> Q a t"
  by (simp add: wp_def)

lemma wp_runL: "wp m Q E s \<Longrightarrow> m s = (Inl e, t) \<Longrightarrow> E e t"
  by (simp add: wp_def)

lemma wp_ignore: "(\<And>t. Q t) \<Longrightarrow> wp m (\<lambda>_. Q) (\<lambda>_. Q) s"
  by (simp add: wp_def split: prod.splits sum.splits)

lemma wp_run: "wp m (\<lambda>_. Q) (\<lambda>_. Q) s \<Longrightarrow> Q (snd (m s))"
  by (simp add: wp_def split: prod.splits sum.splits)

lemma run_wp: "(\<And>a t. m s = (Inr a, t) \<Longrightarrow> Q a t) \<Longrightarrow> (\<And>e t. m s = (Inl e, t) \<Longrightarrow> E e t) \<Longrightarrow> wp m Q E s"
  by (auto simp: wp_def split: prod.splits sum.splits)

lemma wp_returns: "wp m Q (\<lambda>_ _. False) s \<Longrightarrow> \<exists>a t. m s = (Inr a, t) \<and> Q a t"
  by (auto simp: wp_def split: prod.splits sum.splits)

lemma wp_fails: "wp m (\<lambda>_ _. False) E s \<Longrightarrow> \<exists>e t. m s = (Inl e, t) \<and> E e t"
  by (auto simp: wp_def split: prod.splits sum.splits)

text \<open>Computations that leave the state as it is.\<close>

definition readonly :: "('s, 'e, 'a) io \<Rightarrow> bool" where
  "readonly m \<longleftrightarrow> (\<forall>s. snd (m s) = s)"

lemma wp_readonly: "readonly m \<Longrightarrow> (\<And>a. m s = (Inr a, s) \<Longrightarrow> Q a s) \<Longrightarrow> (\<And>e. m s = (Inl e, s) \<Longrightarrow> E e s) \<Longrightarrow> wp m Q E s"
  by (rule run_wp) (auto simp: readonly_def dest!: spec [where x = s])

lemma readonlyI: "(\<And>s. wp m (\<lambda>_ t. t = s) (\<lambda>_ t. t = s) s) \<Longrightarrow> readonly m"
  unfolding readonly_def by (intro allI) (rule wp_run [where Q = "\<lambda>t. t = s" for s])

lemma readonly_basic [simp]: "readonly (returnE a)" "readonly (throwE e)" "readonly (readE f)"
    "readonly (getE g)" "readonly (liftE x)"
  by (simp_all add: readonly_def returnE_def throwE_def readE_def getE_def liftE_def)

lemma readonly_bind [intro]: "readonly m \<Longrightarrow> (\<And>a. readonly (f a)) \<Longrightarrow> readonly (bindE m f)"
  by (rule readonlyI) (auto simp: wp intro!: wp_readonly)

lemma readonly_mapE: "(\<And>x. readonly (f x)) \<Longrightarrow> readonly (mapE f xs)"
  by (induction xs) (simp_all add: readonly_bind)

text \<open>Loops: an invariant that every turn keeps.\<close>

lemma wp_forE:
  assumes "I s" "\<And>x t. x \<in> set xs \<Longrightarrow> I t \<Longrightarrow> wp (f x) (\<lambda>_. I) E t" "\<And>t. I t \<Longrightarrow> Q () t"
  shows "wp (forE xs f) Q E s"
  using assms
proof (induction xs arbitrary: s)
  case Nil
  then show ?case by (simp add: wp)
next
  case (Cons x xs)
  have "wp (f x) (\<lambda>_. I) E s" using Cons.prems by simp
  moreover have "\<And>t. I t \<Longrightarrow> wp (forE xs f) Q E t"
    using Cons.prems by (intro Cons.IH) auto
  ultimately show ?case by (auto simp: wp intro: wp_mono)
qed

text \<open>Loops: an invariant over the part of the list already done.\<close>

lemma wp_forE_prefix:
  assumes "I [] s"
    and "\<And>ys x zs t. xs = ys @ x # zs \<Longrightarrow> I ys t \<Longrightarrow> wp (f x) (\<lambda>_. I (ys @ [x])) E t"
    and "\<And>t. I xs t \<Longrightarrow> Q () t"
  shows "wp (forE xs f) Q E s"
proof -
  have "wp (forE zs f) (\<lambda>_. I xs) E s" if "xs = ys @ zs" "I ys s" for ys zs s
    using that
  proof (induction zs arbitrary: ys s)
    case Nil
    then show ?case by (simp add: wp)
  next
    case (Cons z zs)
    have "wp (f z) (\<lambda>_. I (ys @ [z])) E s" using assms(2) Cons.prems by blast
    moreover have "\<And>t. I (ys @ [z]) t \<Longrightarrow> wp (forE zs f) (\<lambda>_. I xs) E t"
      using Cons.prems by (intro Cons.IH [where ys = "ys @ [z]"]) auto
    ultimately show ?case by (auto simp: wp intro: wp_mono)
  qed
  from this [of "[]" xs s] assms show ?thesis by (auto intro: wp_mono)
qed

text \<open>\<open>Promise.all\<close> over reads: a relation between each input and its result.\<close>

lemma wp_mapE:
  assumes "I s"
    and "\<And>x t. x \<in> set xs \<Longrightarrow> I t \<Longrightarrow> wp (f x) (\<lambda>y t'. R x y \<and> I t') (\<lambda>e t'. E e t' \<and> I t') t"
    and "\<And>ys t. list_all2 R xs ys \<Longrightarrow> I t \<Longrightarrow> Q ys t"
  shows "wp (mapE f xs) Q (\<lambda>e t. E e t \<and> I t) s"
  using assms
proof (induction xs arbitrary: s Q)
  case Nil
  then show ?case by (simp add: wp)
next
  case (Cons x xs)
  have 1: "wp (f x) (\<lambda>y t'. R x y \<and> I t') (\<lambda>e t'. E e t' \<and> I t') s"
    using Cons.prems by simp
  have 2: "wp (mapE f xs) (\<lambda>ys t. Q (y # ys) t) (\<lambda>e t. E e t \<and> I t) t" if "R x y" "I t" for y t
    using Cons.prems that by (intro Cons.IH) auto
  show ?case unfolding mapE.simps wp_bind wp_return
    by (rule wp_mono [OF 1]) (auto intro: 2)
qed

section \<open>Option and sum helpers\<close>

definition is_ok :: "'e + 'a \<Rightarrow> bool" where
  "is_ok x = (case x of Inl _ \<Rightarrow> False | Inr _ \<Rightarrow> True)"

lemma is_ok_simps [simp]: "is_ok (Inl e) = False" "is_ok (Inr a) = True"
  by (simp_all add: is_ok_def)

lemma is_ok_iff: "is_ok x \<longleftrightarrow> (\<exists>a. x = Inr a)"
  by (cases x) auto

section \<open>Lists\<close>

text \<open>\<open>xs.some(x => ys.includes(x))\<close> and \<open>xs.includes(x)\<close>.\<close>

definition js_includes :: "'a list \<Rightarrow> 'a \<Rightarrow> bool" where
  "js_includes xs x = List.member xs x"

lemma js_includes_iff [simp]: "js_includes xs x \<longleftrightarrow> x \<in> set xs"
  by (simp add: js_includes_def)

definition some_included :: "'a list \<Rightarrow> 'a list \<Rightarrow> bool" where
  "some_included xs ys = list_ex (js_includes ys) xs"

lemma some_included_iff [simp]: "some_included xs ys \<longleftrightarrow> set xs \<inter> set ys \<noteq> {}"
  by (auto simp: some_included_def list_ex_iff)

end
