(* ===== verification/JsString.thy ===== *)
theory JsString imports Prelude begin

text \<open>
  The JavaScript string functions the source calls, on strings as lists of 8-bit code
  units: \<open>trim\<close>, \<open>split\<close> on a character and on white space, \<open>startsWith\<close>, \<open>replace\<close> of the
  first occurrence, and ASCII case folding.
\<close>

text \<open>White space of \<open>trim\<close> and of \<open>\s\<close>: TAB, LF, VT, FF, CR, space and the no-break space.\<close>

definition js_space :: "char \<Rightarrow> bool" where
  "js_space c = (let n = of_char c :: nat in (9 \<le> n \<and> n \<le> 13) \<or> n = 32 \<or> n = 160)"

definition trim :: "string \<Rightarrow> string" where
  "trim s = rev (dropWhile js_space (rev (dropWhile js_space s)))"

text \<open>\<open>s.split(c)\<close> for a one-character separator: never empty.\<close>

fun split_on :: "char \<Rightarrow> string \<Rightarrow> string list" where
  "split_on c [] = [[]]"
| "split_on c (x # xs) =
     (if x = c then [] # split_on c xs
      else (case split_on c xs of [] \<Rightarrow> [[x]] | y # ys \<Rightarrow> (x # y) # ys))"

text \<open>\<open>s.split(/\s+/)\<close>: a run of white space separates two parts.\<close>

fun split_spaces :: "string \<Rightarrow> string list" where
  "split_spaces [] = [[]]"
| "split_spaces (x # xs) =
     (if js_space x then
        (case xs of
           [] \<Rightarrow> [[], []]
         | y # ys \<Rightarrow> if js_space y then split_spaces xs else [] # split_spaces xs)
      else (case split_spaces xs of [] \<Rightarrow> [[x]] | y # ys \<Rightarrow> (x # y) # ys))"

definition starts_with :: "string \<Rightarrow> string \<Rightarrow> bool" where
  "starts_with s p = (take (length p) s = p)"

text \<open>\<open>s.replace(pat, rep)\<close> for string arguments: the first occurrence only.\<close>

fun replace_first :: "string \<Rightarrow> string \<Rightarrow> string \<Rightarrow> string" where
  "replace_first pat rep [] = (if pat = [] then rep else [])"
| "replace_first pat rep (x # xs) =
     (if starts_with (x # xs) pat then rep @ drop (length pat) (x # xs)
      else x # replace_first pat rep xs)"

definition to_lower :: "char \<Rightarrow> char" where
  "to_lower c = (let n = of_char c :: nat in if 65 \<le> n \<and> n \<le> 90 then char_of (n + 32) else c)"

definition to_upper :: "char \<Rightarrow> char" where
  "to_upper c = (let n = of_char c :: nat in if 97 \<le> n \<and> n \<le> 122 then char_of (n - 32) else c)"

definition toLowerCase :: "string \<Rightarrow> string" where
  "toLowerCase = List.map to_lower"

definition toUpperCase :: "string \<Rightarrow> string" where
  "toUpperCase = List.map to_upper"

section \<open>Facts\<close>

lemma split_on_nonempty [simp]: "split_on c s \<noteq> []"
  by (induction s) (auto split: list.splits)

lemma split_on_parts: "p \<in> set (split_on c s) \<Longrightarrow> c \<notin> set p"
proof (induction s arbitrary: p)
  case Nil
  then show ?case by simp
next
  case (Cons x xs)
  then show ?case by (fastforce split: if_splits list.splits)
qed

text \<open>Splitting a text that holds no separator gives the text; otherwise its first part.\<close>

lemma split_on_none: "c \<notin> set s \<Longrightarrow> split_on c s = [s]"
  by (induction s) auto

lemma split_on_append: "c \<notin> set p \<Longrightarrow> split_on c (p @ c # s) = p # split_on c s"
  by (induction p) auto

lemma dropWhile_trimmed: "xs = [] \<or> \<not> P (hd xs) \<Longrightarrow> dropWhile P xs = xs"
  by (cases xs) auto

lemma hd_rev_dropWhile: "dropWhile P xs \<noteq> [] \<Longrightarrow> last (dropWhile P xs) = last xs"
  by (induction xs) auto

lemma trim_ends: "trim s = [] \<or> \<not> js_space (hd (trim s)) \<and> \<not> js_space (last (trim s))"
proof -
  let ?u = "dropWhile js_space s"
  let ?v = "dropWhile js_space (rev ?u)"
  show ?thesis
  proof (cases "?v = []")
    case True
    then show ?thesis by (simp add: trim_def)
  next
    case False
    have u: "?u \<noteq> []"
    proof
      assume "?u = []"
      then have "?v = []" by (simp only: rev.simps dropWhile.simps)
      with False show False ..
    qed
    have "last ?v = last (rev ?u)" by (rule hd_rev_dropWhile) (rule False)
    then have "last ?v = hd ?u" using u by (simp add: last_rev)
    moreover have "\<not> js_space (hd ?u)" using u by (rule hd_dropWhile)
    moreover have "\<not> js_space (hd ?v)" using False by (rule hd_dropWhile)
    ultimately show ?thesis using False by (simp add: trim_def hd_rev last_rev)
  qed
qed

lemma trim_idem [simp]: "trim (trim s) = trim s"
proof -
  have "dropWhile js_space (trim s) = trim s"
    using trim_ends [of s] by (intro dropWhile_trimmed) auto
  moreover have "dropWhile js_space (rev (trim s)) = rev (trim s)"
    using trim_ends [of s] by (intro dropWhile_trimmed) (auto simp: hd_rev)
  ultimately show ?thesis by (simp add: trim_def [of "trim s"])
qed

lemma starts_with_append [simp]: "starts_with (p @ s) p"
  by (simp add: starts_with_def)

lemma starts_with_iff: "starts_with s p \<longleftrightarrow> (\<exists>t. s = p @ t)"
  by (metis append_eq_conv_conj append_take_drop_id starts_with_def)

lemma replace_first_prefix:
  "starts_with s pat \<Longrightarrow> s \<noteq> [] \<Longrightarrow> replace_first pat rep s = rep @ drop (length pat) s"
  by (cases s) auto

end
