(* ===== verification/Exceptions.thy ===== *)
theory Exceptions imports JsString begin

text \<open>
  The errors of the service: the values that are thrown (\<open>src/src/common/exceptions\<close>, the
  exception class and the error-code enum of each service module), the traversals of the
  cause chain, and the global filter that turns an exception into a response.
\<close>

section \<open>Thrown values\<close>

text \<open>The statuses of \<open>HttpStatus\<close> that the source uses.\<close>

abbreviation "BAD_REQUEST \<equiv> 400 :: nat"
abbreviation "UNAUTHORIZED \<equiv> 401 :: nat"
abbreviation "FORBIDDEN \<equiv> 403 :: nat"
abbreviation "NOT_FOUND \<equiv> 404 :: nat"
abbreviation "INTERNAL_SERVER_ERROR \<equiv> 500 :: nat"

text \<open>The classes that extend \<open>BaseServiceException\<close>.\<close>

datatype service_class =
  UsersException | RolesException | PermissionsException | ApiKeyException
| EndpointPRException | JwtException | AuthException

text \<open>The response object of a framework \<open>HttpException\<close>: a text, or an object whose
  \<open>message\<close> may be missing, a text or an array, and which may hold an \<open>errorCode\<close>.\<close>

datatype http_message = NoMessage | OneMessage string | ManyMessages "string list"

datatype http_response = TextResponse string | ObjectResponse http_message "string option"

text \<open>
  A thrown value. \<open>ServiceException cls message errorCode status cause\<close> is an instance of a
  subclass of \<open>BaseServiceException\<close>; \<open>HttpException name response message status cause\<close>
  any other framework exception; \<open>JsError name message status cause\<close> any other \<open>Error\<close> (it
  may carry a \<open>status\<close> of its own); \<open>NonError\<close> a thrown value that is no \<open>Error\<close>.
\<close>

datatype exn =
  ServiceException service_class string string nat "exn option"
| HttpException string http_response string nat "exn option"
| JsError string string "nat option" "exn option"
| NonError string

fun is_error :: "exn \<Rightarrow> bool" where
  "is_error (NonError _) = False"
| "is_error _ = True"

fun is_http :: "exn \<Rightarrow> bool" where
  "is_http (ServiceException _ _ _ _ _) = True"
| "is_http (HttpException _ _ _ _ _) = True"
| "is_http _ = False"

fun is_service :: "exn \<Rightarrow> bool" where
  "is_service (ServiceException _ _ _ _ _) = True"
| "is_service _ = False"

text \<open>\<open>error.status\<close>: \<open>undefined\<close> on an error without the property.\<close>

fun status_of :: "exn \<Rightarrow> nat option" where
  "status_of (ServiceException _ _ _ st _) = Some st"
| "status_of (HttpException _ _ _ st _) = Some st"
| "status_of (JsError _ _ st _) = st"
| "status_of (NonError _) = None"

text \<open>\<open>error.status ?? d\<close>.\<close>

definition status_or :: "exn \<Rightarrow> nat \<Rightarrow> nat" where
  "status_or e d = (case status_of e of Some st \<Rightarrow> st | None \<Rightarrow> d)"

fun cause_of :: "exn \<Rightarrow> exn option" where
  "cause_of (ServiceException _ _ _ _ c) = c"
| "cause_of (HttpException _ _ _ _ c) = c"
| "cause_of (JsError _ _ _ c) = c"
| "cause_of (NonError _) = None"

text \<open>\<open>current.cause instanceof Error ? current.cause : undefined\<close>.\<close>

definition error_cause :: "exn \<Rightarrow> exn option" where
  "error_cause e = (case cause_of e of Some c \<Rightarrow> if is_error c then Some c else None | None \<Rightarrow> None)"

lemma cause_size: "error_cause e = Some c \<Longrightarrow> size c < size e"
  by (cases e) (auto simp: error_cause_def split: option.splits if_splits)

fun error_message :: "exn \<Rightarrow> string" where
  "error_message (ServiceException _ m _ _ _) = m"
| "error_message (HttpException _ _ m _ _) = m"
| "error_message (JsError _ m _ _) = m"
| "error_message (NonError m) = m"

fun class_name :: "service_class \<Rightarrow> string" where
  "class_name UsersException = ''UsersException''"
| "class_name RolesException = ''RolesException''"
| "class_name PermissionsException = ''PermissionsException''"
| "class_name ApiKeyException = ''ApiKeyException''"
| "class_name EndpointPRException = ''EndpointPRException''"
| "class_name JwtException = ''JwtException''"
| "class_name AuthException = ''AuthException''"

fun constructor_name :: "exn \<Rightarrow> string" where
  "constructor_name (ServiceException k _ _ _ _) = class_name k"
| "constructor_name (HttpException n _ _ _ _) = n"
| "constructor_name (JsError n _ _ _) = n"
| "constructor_name (NonError _) = ''''"

section \<open>BaseServiceException\<close>

text \<open>\<open>getErrorCode\<close>, on the instances that have one.\<close>

fun getErrorCode :: "exn \<Rightarrow> string option" where
  "getErrorCode (ServiceException _ _ code _ _) = Some code"
| "getErrorCode _ = None"

text \<open>\<open>msg.join(', ')\<close>.\<close>

fun join_comma :: "string list \<Rightarrow> string" where
  "join_comma [] = ''''"
| "join_comma [x] = x"
| "join_comma (x # y # xs) = x @ '', '' @ join_comma (y # xs)"

text \<open>\<open>extractMessage\<close>: a response text, a joined array, or \<open>msg || err.message\<close>.\<close>

fun extractMessage :: "exn \<Rightarrow> string" where
  "extractMessage (ServiceException _ m _ _ _) = m"
| "extractMessage (HttpException _ (TextResponse t) _ _ _) = t"
| "extractMessage (HttpException _ (ObjectResponse (ManyMessages ms) _) _ _ _) = join_comma ms"
| "extractMessage (HttpException _ (ObjectResponse (OneMessage m) _) em _ _) = (if m \<noteq> '''' then m else em)"
| "extractMessage (HttpException _ (ObjectResponse NoMessage _) em _ _) = em"
| "extractMessage e = error_message e"

text \<open>The loop of \<open>getDeepestHttpExceptionMessage\<close>, with the message found so far.\<close>

function deepest_message_loop :: "string \<Rightarrow> exn \<Rightarrow> string" where
  "deepest_message_loop found current =
     (case error_cause current of
        None \<Rightarrow> found
      | Some c \<Rightarrow> deepest_message_loop (if is_http c then extractMessage c else found) c)"
  by pat_completeness auto
termination
  by (relation "measure (\<lambda>(found, current). size current)") (auto dest: cause_size)

declare deepest_message_loop.simps [simp del]

definition getDeepestHttpExceptionMessage :: "exn \<Rightarrow> string" where
  "getDeepestHttpExceptionMessage e =
     deepest_message_loop (if is_http e then extractMessage e else ''An unexpected error occurred'') e"

text \<open>\<open>getCauseChain\<close>: class name and message of every link, outermost first.\<close>

function getCauseChain :: "exn \<Rightarrow> (string \<times> string) list" where
  "getCauseChain current =
     (constructor_name current, error_message current) #
     (case error_cause current of None \<Rightarrow> [] | Some c \<Rightarrow> getCauseChain c)"
  by pat_completeness auto
termination
  by (relation "measure size") (auto dest: cause_size)

declare getCauseChain.simps [simp del]

text \<open>The loop of \<open>getDeepestErrorCode\<close>, with the code found so far.\<close>

function deepest_code_loop :: "string option \<Rightarrow> exn \<Rightarrow> string option" where
  "deepest_code_loop found current =
     (let found' = (if is_service current then getErrorCode current else found)
      in case error_cause current of None \<Rightarrow> found' | Some c \<Rightarrow> deepest_code_loop found' c)"
  by pat_completeness auto
termination
  by (relation "measure (\<lambda>(found, current). size current)") (auto dest: cause_size)

declare deepest_code_loop.simps [simp del]

definition getDeepestErrorCode :: "exn \<Rightarrow> string option" where
  "getDeepestErrorCode e = deepest_code_loop None e"

section \<open>AllExceptionsFilter\<close>

record error_response =
  er_statusCode :: nat
  er_timestamp :: string
  er_path :: string
  er_errorCode :: string
  er_causeCode :: "string option"
  er_message :: string

text \<open>The error code of the thrown value itself.\<close>

fun top_error_code :: "exn \<Rightarrow> string" where
  "top_error_code (ServiceException _ _ code _ _) = code"
| "top_error_code (HttpException _ (ObjectResponse _ (Some code)) _ _ _) =
     (if code \<noteq> '''' then code else ''INTERNAL_ERROR'')"
| "top_error_code _ = ''INTERNAL_ERROR''"

text \<open>\<open>exception instanceof HttpException ? exception.getStatus() : 500\<close>.\<close>

definition filter_status :: "exn \<Rightarrow> nat" where
  "filter_status e = (if is_http e then status_or e INTERNAL_SERVER_ERROR else INTERNAL_SERVER_ERROR)"

text \<open>The method \<open>catch\<close> of the filter: the response it sends for a request to \<open>url\<close> at \<open>now\<close>.
  \<open>causeCode\<close> is left out when it equals \<open>errorCode\<close> and when it is empty.\<close>

definition catch_exception :: "string \<Rightarrow> string \<Rightarrow> exn \<Rightarrow> error_response" where
  "catch_exception now url e =
     (let errorCode = top_error_code e;
          deepest = (if is_error e then getDeepestErrorCode e else None);
          causeCode = (if deepest = Some errorCode then None else deepest);
          userMessage = (if is_error e then getDeepestHttpExceptionMessage e
                         else ''An unexpected error occurred'')
      in \<lparr>er_statusCode = filter_status e, er_timestamp = now, er_path = url,
          er_errorCode = errorCode,
          er_causeCode = (if causeCode = Some '''' then None else causeCode),
          er_message = userMessage\<rparr>)"

section \<open>Error codes and exception constructors of the modules\<close>

datatype users_error =
  SESSION_INVALID | WRONG_CREDENTIALS | INSUFFICIENT_PERMISSIONS | USER_NOT_REGISTERED
| USER_ALREADY_REGISTERED | USER_PERSON_ALREADY_REGISTERED | USER_ALREADY_INACTIVE
| USER_ALREADY_ACTIVE | USER_NOT_FOUND | USER_INACTIVE | USER_NOT_INITIALIZED
| TOKENS_ISSUE_ERROR | RESET_PASSWORD_INVALID | RESET_PASSWORD_USER_NOT_FOUND
| REFRESH_TOKEN_MISSING

fun UsersErrorCodes :: "users_error \<Rightarrow> string" where
  "UsersErrorCodes SESSION_INVALID = ''SESSION_INVALID''"
| "UsersErrorCodes WRONG_CREDENTIALS = ''WRONG_CREDENTIALS''"
| "UsersErrorCodes INSUFFICIENT_PERMISSIONS = ''INSUFFICIENT_PERMISSIONS''"
| "UsersErrorCodes USER_NOT_REGISTERED = ''USER_NOT_REGISTERED''"
| "UsersErrorCodes USER_ALREADY_REGISTERED = ''USER_ALREADY_REGISTERED''"
| "UsersErrorCodes USER_PERSON_ALREADY_REGISTERED = ''USER_PERSON_ALREADY_REGISTERED''"
| "UsersErrorCodes USER_ALREADY_INACTIVE = ''USER_ALREADY_INACTIVE''"
| "UsersErrorCodes USER_ALREADY_ACTIVE = ''USER_ALREADY_ACTIVE''"
| "UsersErrorCodes USER_NOT_FOUND = ''USER_NOT_FOUND''"
| "UsersErrorCodes USER_INACTIVE = ''USER_INACTIVE''"
| "UsersErrorCodes USER_NOT_INITIALIZED = ''USER_NOT_INITIALIZED''"
| "UsersErrorCodes TOKENS_ISSUE_ERROR = ''TOKENS_ISSUE_ERROR''"
| "UsersErrorCodes RESET_PASSWORD_INVALID = ''RESET_PASSWORD_INVALID''"
| "UsersErrorCodes RESET_PASSWORD_USER_NOT_FOUND = ''RESET_PASSWORD_USER_NOT_FOUND''"
| "UsersErrorCodes REFRESH_TOKEN_MISSING = ''REFRESH_TOKEN_MISSING''"

definition users_exception :: "string \<Rightarrow> users_error \<Rightarrow> nat \<Rightarrow> exn option \<Rightarrow> exn" where
  "users_exception message errorCode status cause =
     ServiceException UsersException message (UsersErrorCodes errorCode) status cause"

datatype roles_error =
  ROLES_NOT_FOUND | ROLES_ALREADY_EXISTS | ROLES_ASSIGN_ERROR | ROLES_NOT_DELETED
| ROLES_NOT_UPDATED | ROLES_NOT_CREATED

fun RolesErrorCodes :: "roles_error \<Rightarrow> string" where
  "RolesErrorCodes roles_error.ROLES_NOT_FOUND = ''ROLE_NOT_FOUND''"
| "RolesErrorCodes roles_error.ROLES_ALREADY_EXISTS = ''ROLE_ALREADY_EXISTS''"
| "RolesErrorCodes roles_error.ROLES_ASSIGN_ERROR = ''ROLE_PERMISSION_ASSIGN_ERROR''"
| "RolesErrorCodes roles_error.ROLES_NOT_DELETED = ''ROLE_NOT_DELETED''"
| "RolesErrorCodes roles_error.ROLES_NOT_UPDATED = ''ROLE_NOT_UPDATED''"
| "RolesErrorCodes roles_error.ROLES_NOT_CREATED = ''ROLE_NOT_CREATED''"

definition roles_exception :: "string \<Rightarrow> roles_error \<Rightarrow> nat \<Rightarrow> exn option \<Rightarrow> exn" where
  "roles_exception message errorCode status cause =
     ServiceException RolesException message (RolesErrorCodes errorCode) status cause"

datatype permissions_error =
  CREATE_PERMISSION_FAILED | UPDATE_PERMISSION_FAILED | DELETE_PERMISSION_FAILED
| PERMISSION_NOT_FOUND | PERMISSION_ALREADY_EXISTS

fun PermissionsErrorCodes :: "permissions_error \<Rightarrow> string" where
  "PermissionsErrorCodes permissions_error.CREATE_PERMISSION_FAILED = ''CREATE_PERMISSION_FAILED''"
| "PermissionsErrorCodes permissions_error.UPDATE_PERMISSION_FAILED = ''UPDATE_PERMISSION_FAILED''"
| "PermissionsErrorCodes permissions_error.DELETE_PERMISSION_FAILED = ''DELETE_PERMISSION_FAILED''"
| "PermissionsErrorCodes permissions_error.PERMISSION_NOT_FOUND = ''PERMISSION_NOT_FOUND''"
| "PermissionsErrorCodes permissions_error.PERMISSION_ALREADY_EXISTS = ''PERMISSION_ALREADY_EXISTS''"

definition permissions_exception :: "string \<Rightarrow> permissions_error \<Rightarrow> nat \<Rightarrow> exn option \<Rightarrow> exn" where
  "permissions_exception message errorCode status cause =
     ServiceException PermissionsException message (PermissionsErrorCodes errorCode) status cause"

datatype api_key_error =
  API_KEY_NOT_CREATED | API_KEY_NOT_FOUND | API_KEY_ALREADY_DEACTIVATE
| API_KEY_ALREADY_ACTIVATE | API_KEY_PERMISSIONS_ASSIGN_FAILED
| API_KEY_CACHE_INVALIDATION_FAILED

fun ApiKeyErrorCodes :: "api_key_error \<Rightarrow> string" where
  "ApiKeyErrorCodes api_key_error.API_KEY_NOT_CREATED = ''API_KEY_NOT_CREATED''"
| "ApiKeyErrorCodes api_key_error.API_KEY_NOT_FOUND = ''API_KEY_NOT_FOUND''"
| "ApiKeyErrorCodes api_key_error.API_KEY_ALREADY_DEACTIVATE = ''API_KEY_ALREADY_DEACTIVATE''"
| "ApiKeyErrorCodes api_key_error.API_KEY_ALREADY_ACTIVATE = ''API_KEY_ALREADY_ACTIVATE''"
| "ApiKeyErrorCodes api_key_error.API_KEY_PERMISSIONS_ASSIGN_FAILED = ''API_KEY_PERMISSIONS_ASSIGN_FAILED''"
| "ApiKeyErrorCodes api_key_error.API_KEY_CACHE_INVALIDATION_FAILED = ''API_KEY_CACHE_INVALIDATION_FAILED''"

definition api_key_exception :: "string \<Rightarrow> api_key_error \<Rightarrow> nat \<Rightarrow> exn option \<Rightarrow> exn" where
  "api_key_exception message errorCode status cause =
     ServiceException ApiKeyException message (ApiKeyErrorCodes errorCode) status cause"

datatype epr_error =
  ENDPOINT_PERMISSION_RULE_NOT_CREATED | ENDPOINT_PERMISSION_RULE_NOT_UPDATED
| ENDPOINT_PERMISSION_RULE_NOT_DELETED | ENDPOINT_PERMISSION_RULE_ASSIGN_FAILED
| ENDPOINT_PERMISSION_RULE_ALREADY_EXISTS | ENDPOINT_PERMISSION_RULE_ALREADY_ENABLED
| ENDPOINT_PERMISSION_RULE_ALREADY_DISABLED | ENDPOINT_PERMISSION_RULE_NOT_FOUND

fun EndpointPermissionRulesErrorCodes :: "epr_error \<Rightarrow> string" where
  "EndpointPermissionRulesErrorCodes epr_error.ENDPOINT_PERMISSION_RULE_NOT_CREATED = ''ENDPOINT_PERMISSION_RULE_NOT_CREATED''"
| "EndpointPermissionRulesErrorCodes epr_error.ENDPOINT_PERMISSION_RULE_NOT_UPDATED = ''ENDPOINT_PERMISSION_RULE_NOT_UPDATED''"
| "EndpointPermissionRulesErrorCodes epr_error.ENDPOINT_PERMISSION_RULE_NOT_DELETED = ''ENDPOINT_PERMISSION_RULE_NOT_DELETED''"
| "EndpointPermissionRulesErrorCodes epr_error.ENDPOINT_PERMISSION_RULE_ASSIGN_FAILED = ''ENDPOINT_PERMISSION_RULE_ASSIGN_FAILED''"
| "EndpointPermissionRulesErrorCodes epr_error.ENDPOINT_PERMISSION_RULE_ALREADY_EXISTS = ''ENDPOINT_PERMISSION_RULE_ALREADY_EXISTS''"
| "EndpointPermissionRulesErrorCodes epr_error.ENDPOINT_PERMISSION_RULE_ALREADY_ENABLED = ''ENDPOINT_PERMISSION_RULE_ALREADY_ENABLED''"
| "EndpointPermissionRulesErrorCodes epr_error.ENDPOINT_PERMISSION_RULE_ALREADY_DISABLED = ''ENDPOINT_PERMISSION_RULE_ALREADY_DISABLED''"
| "EndpointPermissionRulesErrorCodes epr_error.ENDPOINT_PERMISSION_RULE_NOT_FOUND = ''ENDPOINT_PERMISSION_RULE_NOT_FOUND''"

definition epr_exception :: "string \<Rightarrow> epr_error \<Rightarrow> nat \<Rightarrow> exn option \<Rightarrow> exn" where
  "epr_exception message errorCode status cause =
     ServiceException EndpointPRException message (EndpointPermissionRulesErrorCodes errorCode) status cause"

datatype jwt_error =
  TOKEN_EXPIRED | TOKEN_GENERATION_FAILED | TOKEN_VERIFICATION_FAILED | TOKEN_SIGNING_FAILED
| PAYLOAD_MISSING_DATA | INVALID_REFRESH_TOKEN | INVALID_PAYLOAD

fun JwtErrorCodes :: "jwt_error \<Rightarrow> string" where
  "JwtErrorCodes jwt_error.TOKEN_EXPIRED = ''TOKEN_EXPIRED''"
| "JwtErrorCodes jwt_error.TOKEN_GENERATION_FAILED = ''TOKEN_GENERATION_FAILED''"
| "JwtErrorCodes jwt_error.TOKEN_VERIFICATION_FAILED = ''TOKEN_VERIFICATION_FAILED''"
| "JwtErrorCodes jwt_error.TOKEN_SIGNING_FAILED = ''TOKEN_SIGNING_FAILED''"
| "JwtErrorCodes jwt_error.PAYLOAD_MISSING_DATA = ''TOKEN_PAYLOAD_MISSING_DATA''"
| "JwtErrorCodes jwt_error.INVALID_REFRESH_TOKEN = ''INVALID_REFRESH_TOKEN''"
| "JwtErrorCodes jwt_error.INVALID_PAYLOAD = ''INVALID_PAYLOAD''"

definition jwt_exception :: "string \<Rightarrow> jwt_error \<Rightarrow> nat \<Rightarrow> exn option \<Rightarrow> exn" where
  "jwt_exception message errorCode status cause =
     ServiceException JwtException message (JwtErrorCodes errorCode) status cause"

datatype auth_error =
  AUTH_HEADER_MISSING | AUTH_HEADER_INVALID | AUTH_COOKIE_EXPIRED_INVALID | SESSION_INVALID
| SESSION_EXPIRED | SESSION_TOKEN_MISMATCH | SESSION_IP_MISMATCH | SESSION_USER_AGENT_MISMATCH
| INSUFFICIENT_PERMISSIONS | API_KEY_INVALID | API_KEY_HEADER_MISSING | API_KEY_HEADER_INVALID

fun AuthErrorCodes :: "auth_error \<Rightarrow> string" where
  "AuthErrorCodes auth_error.AUTH_HEADER_MISSING = ''AUTH_HEADER_MISSING''"
| "AuthErrorCodes auth_error.AUTH_HEADER_INVALID = ''AUTH_HEADER_INVALID''"
| "AuthErrorCodes auth_error.AUTH_COOKIE_EXPIRED_INVALID = ''AUTH_COOKIE_EXPIRED_INVALID''"
| "AuthErrorCodes auth_error.SESSION_INVALID = ''SESSION_INVALID''"
| "AuthErrorCodes auth_error.SESSION_EXPIRED = ''SESSION_EXPIRED''"
| "AuthErrorCodes auth_error.SESSION_TOKEN_MISMATCH = ''SESSION_TOKEN_MISMATCH''"
| "AuthErrorCodes auth_error.SESSION_IP_MISMATCH = ''SESSION_IP_MISMATCH''"
| "AuthErrorCodes auth_error.SESSION_USER_AGENT_MISMATCH = ''SESSION_USER_AGENT_MISMATCH''"
| "AuthErrorCodes auth_error.INSUFFICIENT_PERMISSIONS = ''INSUFFICIENT_PERMISSIONS''"
| "AuthErrorCodes auth_error.API_KEY_INVALID = ''API_KEY_INVALID''"
| "AuthErrorCodes auth_error.API_KEY_HEADER_MISSING = ''API_KEY_HEADER_MISSING''"
| "AuthErrorCodes auth_error.API_KEY_HEADER_INVALID = ''API_KEY_HEADER_INVALID''"

definition auth_exception :: "string \<Rightarrow> auth_error \<Rightarrow> nat \<Rightarrow> exn option \<Rightarrow> exn" where
  "auth_exception message errorCode status cause =
     ServiceException AuthException message (AuthErrorCodes errorCode) status cause"

section \<open>The cause chain of wrapped errors\<close>

text \<open>
  The services rethrow with one pattern,
  \<^verbatim>\<open>catch (error) { throw new XException(message, code, error.status ?? d, error) }\<close>.
  A wrapper is its message, its code and its default status.
\<close>

definition wrap_error :: "service_class \<Rightarrow> string \<Rightarrow> string \<Rightarrow> nat \<Rightarrow> exn \<Rightarrow> exn" where
  "wrap_error cls message code d e = ServiceException cls message code (status_or e d) (Some e)"

type_synonym wrapper = "service_class \<times> string \<times> string \<times> nat"

definition wrap_with :: "wrapper \<Rightarrow> exn \<Rightarrow> exn" where
  "wrap_with w e = (case w of (cls, message, code, d) \<Rightarrow> wrap_error cls message code d e)"

lemma wrap_with_simps [simp]:
  "is_error (wrap_with w e)" "is_http (wrap_with w e)" "is_service (wrap_with w e)"
  "is_error e \<Longrightarrow> error_cause (wrap_with w e) = Some e"
  "status_of (wrap_with w e) = Some (status_or e (snd (snd (snd w))))"
  "top_error_code (wrap_with w e) = fst (snd (snd w))"
  by (simp_all add: wrap_with_def wrap_error_def error_cause_def split: prod.splits)

lemma status_or_Some [simp]: "status_of e = Some st \<Longrightarrow> status_or e d = st"
  by (simp add: status_or_def)

lemma foldr_wrap_is_error [simp]: "is_error e \<Longrightarrow> is_error (foldr wrap_with ws e)"
  by (cases ws) auto

lemma foldr_wrap_is_http [simp]: "is_http e \<Longrightarrow> is_http (foldr wrap_with ws e)"
  by (cases ws) auto

lemma is_http_is_error [simp]: "is_http e \<Longrightarrow> is_error e"
  by (cases e) auto

lemma foldr_wrap_status [simp]:
  "status_of e = Some st \<Longrightarrow> status_of (foldr wrap_with ws e) = Some st"
  by (induction ws) auto

lemma deepest_message_wrapped:
  assumes "is_http e" "error_cause e = None"
  shows "deepest_message_loop found (foldr wrap_with ws e) = (if ws = [] then found else extractMessage e)"
proof (induction ws arbitrary: found)
  case Nil
  then show ?case using assms by (simp add: deepest_message_loop.simps)
next
  case (Cons w ws)
  then show ?case using assms
    by (subst deepest_message_loop.simps) (cases "ws = []"; simp)
qed

lemma getDeepestHttpExceptionMessage_wrapped:
  assumes "is_http e" "error_cause e = None"
  shows "getDeepestHttpExceptionMessage (foldr wrap_with ws e) = extractMessage e"
  using assms by (auto simp: getDeepestHttpExceptionMessage_def deepest_message_wrapped)

lemma deepest_code_wrapped:
  assumes "is_service e" "error_cause e = None"
  shows "deepest_code_loop found (foldr wrap_with ws e) = getErrorCode e"
proof -
  have err: "is_error e" using assms by (cases e) auto
  show ?thesis
  proof (induction ws arbitrary: found)
    case Nil
    then show ?case using assms by (subst deepest_code_loop.simps) simp
  next
    case (Cons w ws)
    then show ?case using err by (subst deepest_code_loop.simps) (simp add: Let_def)
  qed
qed

end
