(* ===== verification/Entities.thy ===== *)
theory Entities imports Exceptions begin

text \<open>
  The data of the service: the entities of \<open>src/src/entities\<close> with their \<open>permissionCodes\<close>
  getters and password hooks, and the interfaces of \<open>src/src/interfaces\<close> (the session and
  cache documents kept in Redis, the authenticated user, the token payload).
  The columns \<open>created_at\<close> and \<open>updated_at\<close>, which only the database writes, are left out.
  A new entity that has no \<open>id\<close> yet has the empty string there.
\<close>

section \<open>Interfaces\<close>

record auth_user =
  au_id :: string
  au_person_id :: string
  au_email :: string
  au_session_id :: string

record session =
  s_user_id :: string
  s_person_id :: string
  s_email :: string
  s_permissions :: "string list"
  s_active :: bool
  s_ip :: string
  s_userAgent :: string
  s_device :: string
  s_created_at :: string
  s_last_refresh_at :: string

record api_cache =
  c_client :: string
  c_permissionCodes :: "string list"

text \<open>\<open>ResetPasswordRedisPayload\<close>.\<close>

record reset_payload =
  rp_id :: string

text \<open>The decoded token, whose fields may be missing; \<open>exp\<close> is in seconds since the epoch.\<close>

record payload =
  pl_email :: "string option"
  pl_sid :: "string option"
  pl_exp :: "nat option"

record auth_tokens =
  t_accessToken :: string
  t_refreshToken :: string

section \<open>Entities\<close>

record permission =
  p_id :: string
  p_code :: string
  p_created_by :: "auth_user option"

record role =
  r_id :: string
  r_name :: string
  r_is_restricted :: bool
  r_created_by :: "auth_user option"
  r_permissions :: "permission list"

datatype user_status = ACTIVE | INACTIVE | PENDING

fun UserStatus :: "user_status \<Rightarrow> string" where
  "UserStatus ACTIVE = ''ACTIVE''"
| "UserStatus INACTIVE = ''INACTIVE''"
| "UserStatus PENDING = ''PENDING''"

text \<open>\<open>roles\<close> is \<open>None\<close> where the relation was not loaded; \<open>originalPassword\<close> until it is.\<close>

record user =
  u_id :: string
  u_email :: string
  u_password :: string
  u_status :: user_status
  u_person_id :: string
  u_created_by :: "auth_user option"
  u_roles :: "role list option"
  u_originalPassword :: "string option"

record api_key =
  k_id :: string
  k_key_fingerprint :: string
  k_client :: string
  k_active :: bool
  k_created_by :: "auth_user option"
  k_permissions :: "permission list option"

record epr =
  e_id :: string
  e_endpoint_key_name :: string
  e_enabled :: bool
  e_permissions :: "permission list option"
  e_created_by :: "auth_user option"

text \<open>\<open>this.roles?.flatMap((role) => role.permissions.map((p) => p.code)) || []\<close>.\<close>

definition user_permissionCodes :: "user \<Rightarrow> string list" where
  "user_permissionCodes u =
     (case u_roles u of
        None \<Rightarrow> []
      | Some rs \<Rightarrow> concat (List.map (\<lambda>r. List.map p_code (r_permissions r)) rs))"

definition api_key_permissionCodes :: "api_key \<Rightarrow> string list" where
  "api_key_permissionCodes k =
     (case k_permissions k of None \<Rightarrow> [] | Some ps \<Rightarrow> List.map p_code ps)"

definition epr_permissionCodes :: "epr \<Rightarrow> string list" where
  "epr_permissionCodes r =
     (case e_permissions r of None \<Rightarrow> [] | Some ps \<Rightarrow> List.map p_code ps)"

section \<open>Password hooks\<close>

text \<open>
  The hooks of \<open>UserEntity\<close>, over \<open>hashSync\<close> of bcrypt (a parameter). A password is falsy when
  it is the empty string.
\<close>

definition loadOriginalPassword :: "user \<Rightarrow> user" where
  "loadOriginalPassword u = u\<lparr>u_originalPassword := Some (u_password u)\<rparr>"

definition hasPasswordOnInsert :: "(string \<Rightarrow> nat \<Rightarrow> string) \<Rightarrow> user \<Rightarrow> user" where
  "hasPasswordOnInsert hashSync u =
     (if u_password u \<noteq> '''' then u\<lparr>u_password := hashSync (u_password u) 10\<rparr> else u)"

definition hashPasswordOnUpdate :: "(string \<Rightarrow> nat \<Rightarrow> string) \<Rightarrow> user \<Rightarrow> user" where
  "hashPasswordOnUpdate hashSync u =
     (if u_password u \<noteq> '''' \<and> Some (u_password u) \<noteq> u_originalPassword u
      then u\<lparr>u_password := hashSync (u_password u) 10\<rparr> else u)"

lemma hashPasswordOnUpdate_unchanged [simp]:
  "u_originalPassword u = Some (u_password u) \<Longrightarrow> hashPasswordOnUpdate h u = u"
  by (simp add: hashPasswordOnUpdate_def)

lemma hook_fields [simp]:
  "u_id (hashPasswordOnUpdate h u) = u_id u"
  "u_email (hashPasswordOnUpdate h u) = u_email u"
  "u_status (hashPasswordOnUpdate h u) = u_status u"
  "u_roles (hashPasswordOnUpdate h u) = u_roles u"
  "u_person_id (hashPasswordOnUpdate h u) = u_person_id u"
  "u_id (hasPasswordOnInsert h u) = u_id u"
  "u_email (hasPasswordOnInsert h u) = u_email u"
  "u_status (hasPasswordOnInsert h u) = u_status u"
  "u_roles (hasPasswordOnInsert h u) = u_roles u"
  "u_id (loadOriginalPassword u) = u_id u"
  "u_email (loadOriginalPassword u) = u_email u"
  "u_password (loadOriginalPassword u) = u_password u"
  "u_status (loadOriginalPassword u) = u_status u"
  "u_roles (loadOriginalPassword u) = u_roles u"
  "u_person_id (loadOriginalPassword u) = u_person_id u"
  "u_originalPassword (loadOriginalPassword u) = Some (u_password u)"
  "user_permissionCodes (loadOriginalPassword u) = user_permissionCodes u"
  "user_permissionCodes (hashPasswordOnUpdate h u) = user_permissionCodes u"
  by (simp_all add: hashPasswordOnUpdate_def hasPasswordOnInsert_def loadOriginalPassword_def
      user_permissionCodes_def)

lemma set_user_permissionCodes:
  "set (user_permissionCodes u) =
   {p_code p | p r. r \<in> set (case u_roles u of None \<Rightarrow> [] | Some rs \<Rightarrow> rs) \<and> p \<in> set (r_permissions r)}"
  by (auto simp: user_permissionCodes_def split: option.splits)

section \<open>Documents kept in Redis\<close>

text \<open>
  The text \<open>JSON.stringify\<close> makes of a document is identified with the document;
  \<open>PlainText\<close> is any other text. \<open>JSON.parse(raw) as T\<close> of a plain text throws a
  \<open>SyntaxError\<close>. A document read under the cast to another document type is outside what
  the service writes; reading it is an error of its own.
\<close>

datatype doc =
  SessionDoc session | CodesDoc "string list" | ApiCacheDoc api_cache | ResetDoc reset_payload
| PlainText string

definition syntax_error :: exn where
  "syntax_error = JsError ''SyntaxError'' ''Unexpected token in JSON'' None None"

definition type_error :: exn where
  "type_error = JsError ''TypeError'' ''Unexpected document'' None None"

fun parse_session :: "doc \<Rightarrow> exn + session" where
  "parse_session (SessionDoc s) = Inr s"
| "parse_session (PlainText _) = Inl syntax_error"
| "parse_session _ = Inl type_error"

fun parse_codes :: "doc \<Rightarrow> exn + string list" where
  "parse_codes (CodesDoc cs) = Inr cs"
| "parse_codes (PlainText _) = Inl syntax_error"
| "parse_codes _ = Inl type_error"

fun parse_api_cache :: "doc \<Rightarrow> exn + api_cache" where
  "parse_api_cache (ApiCacheDoc c) = Inr c"
| "parse_api_cache (PlainText _) = Inl syntax_error"
| "parse_api_cache _ = Inl type_error"

fun parse_reset :: "doc \<Rightarrow> exn + reset_payload" where
  "parse_reset (ResetDoc r) = Inr r"
| "parse_reset (PlainText _) = Inl syntax_error"
| "parse_reset _ = Inl type_error"

text \<open>A reply of \<open>GET\<close> is truthy when it is a text other than the empty one.\<close>

definition truthy :: "doc option \<Rightarrow> bool" where
  "truthy raw = (raw \<noteq> None \<and> raw \<noteq> Some (PlainText ''''))"

text \<open>\<open>raw ? (JSON.parse(raw) as T) : null\<close>.\<close>

definition parse_or_null :: "(doc \<Rightarrow> exn + 'a) \<Rightarrow> doc option \<Rightarrow> exn + 'a option" where
  "parse_or_null parse raw =
     (case raw of
        None \<Rightarrow> Inr None
      | Some d \<Rightarrow> if d = PlainText '''' then Inr None
                  else (case parse d of Inl e \<Rightarrow> Inl e | Inr x \<Rightarrow> Inr (Some x)))"

lemma parse_or_null_simps [simp]:
  "parse_or_null parse None = Inr None"
  "parse_or_null parse_session (Some (SessionDoc s)) = Inr (Some s)"
  "parse_or_null parse_reset (Some (ResetDoc r)) = Inr (Some r)"
  by (simp_all add: parse_or_null_def)

lemma truthy_simps [simp]:
  "\<not> truthy None" "truthy (Some (CodesDoc cs))" "truthy (Some (ApiCacheDoc c))"
  "truthy (Some (SessionDoc s))"
  by (simp_all add: truthy_def)

lemma parse_session_Inr: "parse_session d = Inr s \<longleftrightarrow> d = SessionDoc s"
  by (cases d) auto

lemma parse_session_or_null_Some:
  "parse_or_null parse_session raw = Inr (Some s) \<longleftrightarrow> raw = Some (SessionDoc s)"
  by (auto simp: parse_or_null_def parse_session_Inr split: option.splits sum.splits if_splits)

end
