(* ===== verification/Redis.thy ===== *)
theory Redis imports Entities begin

text \<open>
  The Redis server, reached through \<open>RedisService.raw\<close> of \<open>src/src/common/redis\<close>. The client
  library and the server are not code of the repository: the commands are the fields of
  a record, a parameter of every definition that uses them, and \<open>redis_laws\<close> states what
  their documentation says of them, in terms of a view of the server's data.
\<close>

section \<open>Commands\<close>

text \<open>The options of \<open>SET\<close> the source passes: none, \<open>{ PX: ms }\<close> and \<open>{ KEEPTTL: true }\<close>.\<close>

datatype set_option = NO_OPTION | PX int | KEEPTTL

datatype command =
  SET string doc set_option
| DEL string
| SADD string string
| SREM string string
| PEXPIRE string int

text \<open>
  The client: reading commands, one writing command, and \<open>multi()...exec()\<close>, which runs a
  list of writing commands as one transaction.
\<close>

record 'r redis_api =
  redis_get :: "string \<Rightarrow> 'r \<Rightarrow> exn + doc option"
  redis_mGet :: "string list \<Rightarrow> 'r \<Rightarrow> exn + doc option list"
  redis_sMembers :: "string \<Rightarrow> 'r \<Rightarrow> exn + string list"
  redis_getDel :: "string \<Rightarrow> ('r, exn, doc option) io"
  redis_write :: "command \<Rightarrow> ('r, exn, unit) io"
  redis_exec :: "command list \<Rightarrow> ('r, exn, unit) io"

section \<open>What the documentation says\<close>

text \<open>
  A view of the server: the string keys with their remaining time to live in milliseconds
  (\<open>None\<close> for a key that does not expire), and the set keys. A set with no member is an
  absent key; the time to live of a set key is not part of the view.
\<close>

record redis_view =
  strs :: "string \<Rightarrow> (doc \<times> int option) option"
  sets :: "string \<Rightarrow> string set"

text \<open>The value a string key holds.\<close>

definition val :: "redis_view \<Rightarrow> string \<Rightarrow> doc option" where
  "val v k = map_option fst (strs v k)"

definition ttl :: "redis_view \<Rightarrow> string \<Rightarrow> int option" where
  "ttl v k = (case strs v k of None \<Rightarrow> None | Some (_, t) \<Rightarrow> t)"

fun exec_cmd :: "command \<Rightarrow> redis_view \<Rightarrow> redis_view" where
  "exec_cmd (SET k d opt) v =
     v\<lparr>strs := (strs v)(k \<mapsto> (d, (case opt of NO_OPTION \<Rightarrow> None | PX n \<Rightarrow> Some n | KEEPTTL \<Rightarrow> ttl v k))),
       sets := (sets v)(k := {})\<rparr>"
| "exec_cmd (DEL k) v = v\<lparr>strs := (strs v)(k := None), sets := (sets v)(k := {})\<rparr>"
| "exec_cmd (SADD k x) v = v\<lparr>sets := (sets v)(k := insert x (sets v k))\<rparr>"
| "exec_cmd (SREM k x) v = v\<lparr>sets := (sets v)(k := sets v k - {x})\<rparr>"
| "exec_cmd (PEXPIRE k n) v =
     v\<lparr>strs := (strs v)(k := map_option (\<lambda>(d, t). (d, Some n)) (strs v k))\<rparr>"

definition exec_all :: "command list \<Rightarrow> redis_view \<Rightarrow> redis_view" where
  "exec_all cs v = fold exec_cmd cs v"

text \<open>
  \<open>view\<close> reads the server's data, \<open>up\<close> says that the server answers. A read returns what
  the view holds or fails; a write that succeeds has been executed, one that fails has been
  executed or not; while the server answers nothing fails. \<open>SMEMBERS\<close> lists the members
  once each in some order.
\<close>

definition answer_ok :: "('r \<Rightarrow> bool) \<Rightarrow> 'r \<Rightarrow> ('a \<Rightarrow> bool) \<Rightarrow> exn + 'a \<Rightarrow> bool" where
  "answer_ok up r P res = (case res of Inr x \<Rightarrow> P x | Inl _ \<Rightarrow> \<not> up r)"

definition effect_ok ::
  "('r \<Rightarrow> redis_view) \<Rightarrow> ('r \<Rightarrow> bool) \<Rightarrow> 'r \<Rightarrow> ('a \<Rightarrow> bool) \<Rightarrow> redis_view \<Rightarrow> (exn + 'a) \<times> 'r \<Rightarrow> bool" where
  "effect_ok view up r P v res = (case res of
       (Inr x, r') \<Rightarrow> view r' = v \<and> (up r \<longrightarrow> up r') \<and> P x
     | (Inl _, r') \<Rightarrow> (view r' = view r \<or> view r' = v) \<and> \<not> up r)"

definition redis_laws :: "'r redis_api \<Rightarrow> ('r \<Rightarrow> redis_view) \<Rightarrow> ('r \<Rightarrow> bool) \<Rightarrow> bool" where
  "redis_laws R view up \<longleftrightarrow>
     (\<forall>k r. answer_ok up r (\<lambda>x. x = val (view r) k) (redis_get R k r)) \<and>
     (\<forall>ks r. answer_ok up r (\<lambda>xs. xs = List.map (val (view r)) ks) (redis_mGet R ks r)) \<and>
     (\<forall>k r. answer_ok up r (\<lambda>xs. set xs = sets (view r) k \<and> distinct xs) (redis_sMembers R k r)) \<and>
     (\<forall>k r. effect_ok view up r (\<lambda>x. x = val (view r) k) (exec_cmd (DEL k) (view r)) (redis_getDel R k r)) \<and>
     (\<forall>c r. effect_ok view up r (\<lambda>_. True) (exec_cmd c (view r)) (redis_write R c r)) \<and>
     (\<forall>cs r. effect_ok view up r (\<lambda>_. True) (exec_all cs (view r)) (redis_exec R cs r))"

lemma redis_lawsD:
  assumes "redis_laws R view up"
  shows "answer_ok up r (\<lambda>x. x = val (view r) k) (redis_get R k r)"
    and "answer_ok up r (\<lambda>xs. xs = List.map (val (view r)) ks) (redis_mGet R ks r)"
    and "answer_ok up r (\<lambda>xs. set xs = sets (view r) k \<and> distinct xs) (redis_sMembers R k r)"
    and "effect_ok view up r (\<lambda>x. x = val (view r) k) (exec_cmd (DEL k) (view r)) (redis_getDel R k r)"
    and "effect_ok view up r (\<lambda>_. True) (exec_cmd c (view r)) (redis_write R c r)"
    and "effect_ok view up r (\<lambda>_. True) (exec_all cs (view r)) (redis_exec R cs r)"
  using assms unfolding redis_laws_def by simp_all

lemma wp_answer:
  assumes "answer_ok up r P (f r)" "\<And>x. P x \<Longrightarrow> Q x r" "\<And>e. \<not> up r \<Longrightarrow> E e r"
  shows "wp (readE f) Q E r"
  using assms by (auto simp: answer_ok_def wp split: sum.splits)

lemma wp_effect:
  assumes "effect_ok view up r P v (m r)"
    "\<And>x r'. view r' = v \<Longrightarrow> (up r \<Longrightarrow> up r') \<Longrightarrow> P x \<Longrightarrow> Q x r'"
    "\<And>e r'. view r' = view r \<or> view r' = v \<Longrightarrow> \<not> up r \<Longrightarrow> E e r'"
  shows "wp m Q E r"
  by (rule run_wp) (use assms(1) in \<open>auto simp: effect_ok_def intro!: assms(2,3)\<close>)

section \<open>Facts on the view\<close>

lemma exec_all_simps [simp]:
  "exec_all [] v = v" "exec_all (c # cs) v = exec_all cs (exec_cmd c v)"
  "exec_all (cs @ ds) v = exec_all ds (exec_all cs v)"
  by (simp_all add: exec_all_def)

lemma val_exec [simp]:
  "val (exec_cmd (SET k d opt) v) k' = (if k' = k then Some d else val v k')"
  "val (exec_cmd (DEL k) v) k' = (if k' = k then None else val v k')"
  "val (exec_cmd (SADD k x) v) k' = val v k'"
  "val (exec_cmd (SREM k x) v) k' = val v k'"
  "val (exec_cmd (PEXPIRE k n) v) k' = val v k'"
  by (auto simp: val_def map_option_case split: option.splits)

lemma sets_exec [simp]:
  "sets (exec_cmd (SET k d opt) v) k' = (if k' = k then {} else sets v k')"
  "sets (exec_cmd (DEL k) v) k' = (if k' = k then {} else sets v k')"
  "sets (exec_cmd (SADD k x) v) k' = (if k' = k then insert x (sets v k) else sets v k')"
  "sets (exec_cmd (SREM k x) v) k' = (if k' = k then sets v k - {x} else sets v k')"
  "sets (exec_cmd (PEXPIRE k n) v) k' = sets v k'"
  by auto

lemma ttl_exec [simp]:
  "ttl (exec_cmd (SET k d opt) v) k' =
     (if k' = k then (case opt of NO_OPTION \<Rightarrow> None | PX n \<Rightarrow> Some n | KEEPTTL \<Rightarrow> ttl v k) else ttl v k')"
  "ttl (exec_cmd (DEL k) v) k' = (if k' = k then None else ttl v k')"
  "ttl (exec_cmd (SADD k x) v) k' = ttl v k'"
  "ttl (exec_cmd (SREM k x) v) k' = ttl v k'"
  "k' \<noteq> k \<Longrightarrow> ttl (exec_cmd (PEXPIRE k n) v) k' = ttl v k'"
  by (auto simp: ttl_def split: option.splits)

declare exec_cmd.simps [simp del]

section \<open>The passing of time\<close>

text \<open>The view \<open>dt\<close> milliseconds later, when nobody has written: a string key whose time to live is
  over is gone, the others have that much less of it; a set key may have expired too.\<close>

definition elapsed :: "int \<Rightarrow> redis_view \<Rightarrow> redis_view \<Rightarrow> bool" where
  "elapsed dt v v' \<longleftrightarrow>
     (\<forall>k. strs v' k = (case strs v k of
        None \<Rightarrow> None
      | Some (d, None) \<Rightarrow> Some (d, None)
      | Some (d, Some t) \<Rightarrow> if t \<le> dt then None else Some (d, Some (t - dt)))) \<and>
     (\<forall>k. sets v' k = sets v k \<or> sets v' k = {})"

lemma elapsed_val:
  assumes "elapsed dt v v'"
  shows "val v' k = (case ttl v k of Some t \<Rightarrow> if t \<le> dt then None else val v k | None \<Rightarrow> val v k)"
  using assms by (simp add: elapsed_def val_def ttl_def split: option.split)

lemma elapsed_val_le: "elapsed dt v v' \<Longrightarrow> val v' k = Some d \<Longrightarrow> val v k = Some d"
  by (simp add: elapsed_val split: option.splits if_splits)

section \<open>An in-memory server\<close>

text \<open>
  A server that keeps its data in lists and stops answering when told to: an instance of
  the laws, at which the hypotheses of the theorems are shown to hold.
\<close>

record mem_redis =
  m_strs :: "string \<Rightarrow> (doc \<times> int option) option"
  m_sets :: "string \<Rightarrow> string list"
  m_up :: bool

fun mem_cmd :: "command \<Rightarrow> mem_redis \<Rightarrow> mem_redis" where
  "mem_cmd (SET k d opt) m =
     m\<lparr>m_strs := (m_strs m)(k \<mapsto> (d, (case opt of NO_OPTION \<Rightarrow> None | PX n \<Rightarrow> Some n
        | KEEPTTL \<Rightarrow> (case m_strs m k of None \<Rightarrow> None | Some (_, t) \<Rightarrow> t)))),
       m_sets := (m_sets m)(k := [])\<rparr>"
| "mem_cmd (DEL k) m = m\<lparr>m_strs := (m_strs m)(k := None), m_sets := (m_sets m)(k := [])\<rparr>"
| "mem_cmd (SADD k x) m = m\<lparr>m_sets := (m_sets m)(k := List.insert x (m_sets m k))\<rparr>"
| "mem_cmd (SREM k x) m = m\<lparr>m_sets := (m_sets m)(k := removeAll x (m_sets m k))\<rparr>"
| "mem_cmd (PEXPIRE k n) m =
     m\<lparr>m_strs := (m_strs m)(k := map_option (\<lambda>(d, t). (d, Some n)) (m_strs m k))\<rparr>"

definition redis_down :: exn where
  "redis_down = JsError ''ClientClosedError'' ''The client is closed'' None None"

definition read_up :: "(mem_redis \<Rightarrow> 'a) \<Rightarrow> mem_redis \<Rightarrow> exn + 'a" where
  "read_up f m = (if m_up m then Inr (f m) else Inl redis_down)"

definition write_up :: "(mem_redis \<Rightarrow> 'a \<times> mem_redis) \<Rightarrow> (mem_redis, exn, 'a) io" where
  "write_up f m = (if m_up m then (case f m of (x, m') \<Rightarrow> (Inr x, m')) else (Inl redis_down, m))"

definition mem_redis_api :: "mem_redis redis_api" where
  "mem_redis_api =
     \<lparr>redis_get = (\<lambda>k. read_up (\<lambda>m. map_option fst (m_strs m k))),
      redis_mGet = (\<lambda>ks. read_up (\<lambda>m. List.map (\<lambda>k. map_option fst (m_strs m k)) ks)),
      redis_sMembers = (\<lambda>k. read_up (\<lambda>m. remdups (m_sets m k))),
      redis_getDel = (\<lambda>k. write_up (\<lambda>m. (map_option fst (m_strs m k), mem_cmd (DEL k) m))),
      redis_write = (\<lambda>c. write_up (\<lambda>m. ((), mem_cmd c m))),
      redis_exec = (\<lambda>cs. write_up (\<lambda>m. ((), fold mem_cmd cs m)))\<rparr>"

definition mem_view :: "mem_redis \<Rightarrow> redis_view" where
  "mem_view m = \<lparr>strs = m_strs m, sets = (\<lambda>k. set (m_sets m k))\<rparr>"

lemma mem_view_cmd: "mem_view (mem_cmd c m) = exec_cmd c (mem_view m)"
  by (cases c) (auto simp: mem_view_def ttl_def exec_cmd.simps fun_eq_iff split: set_option.splits)

lemma mem_up_cmd [simp]: "m_up (mem_cmd c m) = m_up m"
  by (cases c) auto

lemma mem_view_fold: "mem_view (fold mem_cmd cs m) = exec_all cs (mem_view m)"
  by (induction cs arbitrary: m) (auto simp: mem_view_cmd)

lemma mem_up_fold [simp]: "m_up (fold mem_cmd cs m) = m_up m"
  by (induction cs arbitrary: m) auto

lemma val_mem_view: "val (mem_view m) k = map_option fst (m_strs m k)"
  by (simp add: mem_view_def val_def)

text \<open>The server some time later.\<close>

definition mem_wait :: "int \<Rightarrow> mem_redis \<Rightarrow> mem_redis" where
  "mem_wait dt m = m\<lparr>m_strs := (\<lambda>k. case m_strs m k of
       None \<Rightarrow> None
     | Some (d, None) \<Rightarrow> Some (d, None)
     | Some (d, Some t) \<Rightarrow> if t \<le> dt then None else Some (d, Some (t - dt)))\<rparr>"

lemma mem_wait_elapsed: "elapsed dt (mem_view m) (mem_view (mem_wait dt m))" "m_up (mem_wait dt m) = m_up m"
  by (simp_all add: elapsed_def mem_view_def mem_wait_def)

lemma mem_redis_laws: "redis_laws mem_redis_api mem_view m_up"
  by (auto simp: redis_laws_def answer_ok_def effect_ok_def mem_redis_api_def read_up_def write_up_def val_mem_view mem_view_cmd
      mem_view_fold simp del: mem_cmd.simps) (simp_all add: mem_view_def)

end
