(* ===== verification/Orm.thy ===== *)
theory Orm imports Redis begin

text \<open>
  The database, reached through the repositories of TypeORM. The library and the database
  are not code of the repository: a repository of one entity is a record of operations, a
  parameter of every definition that uses it, and \<open>orm_laws\<close> states what their documentation
  says, in terms of the set of rows of the entity's table.
\<close>

text \<open>
  A \<open>where\<close> clause is the predicate it stands for. \<open>orm_page\<close> is \<open>findAndCount\<close>: the order
  clause is the list of columns it names, then \<open>skip\<close> and \<open>take\<close>; \<open>orm_select\<close> is a query
  with a \<open>where\<close> and an order clause. Queries answer from the
  state and leave it as it is; \<open>save\<close> inserts an entity that has no identifier or a new one
  and updates the row otherwise, and returns the saved entity. The members of a many-to-many
  relation are a list here, but a join lists them in no documented order: what the theorems say of a
  stored request, they say of the set of members.
\<close>

record ('d, 'e) orm =
  orm_find_one :: "('e \<Rightarrow> bool) \<Rightarrow> 'd \<Rightarrow> exn + 'e option"
  orm_find :: "('e \<Rightarrow> bool) \<Rightarrow> 'd \<Rightarrow> exn + 'e list"
  orm_page :: "('e \<Rightarrow> string list) \<Rightarrow> int \<Rightarrow> int \<Rightarrow> 'd \<Rightarrow> exn + 'e list \<times> nat"
  orm_select :: "('e \<Rightarrow> bool) \<Rightarrow> ('e \<Rightarrow> string list) \<Rightarrow> 'd \<Rightarrow> exn + 'e list"
  orm_exists :: "('e \<Rightarrow> bool) \<Rightarrow> 'd \<Rightarrow> exn + bool"
  orm_save :: "'e \<Rightarrow> ('d, exn, 'e) io"
  orm_remove :: "'e \<Rightarrow> ('d, exn, unit) io"

text \<open>
  What a reader needs to know of a table: its rows, whether the database answers queries,
  the identifier of a row, how an identifier is assigned to a new row, the constraint on
  the rows of the table (primary key and unique columns), and the collation by which lists
  of column values are ordered.
\<close>

record ('d, 'e) table =
  rows :: "'d \<Rightarrow> 'e set"
  answers :: "'d \<Rightarrow> bool"
  ident :: "'e \<Rightarrow> string"
  assign :: "string \<Rightarrow> 'e \<Rightarrow> 'e"
  constraint :: "'e set \<Rightarrow> bool"
  collate :: "string list \<Rightarrow> string list \<Rightarrow> bool"

text \<open>\<open>lists_rows T key S L\<close>: \<open>L\<close> lists the rows \<open>S\<close> once each, ordered by the columns \<open>key\<close>.\<close>

definition lists_rows :: "('d, 'e) table \<Rightarrow> ('e \<Rightarrow> string list) \<Rightarrow> 'e set \<Rightarrow> 'e list \<Rightarrow> bool" where
  "lists_rows T key S L \<longleftrightarrow>
     set L = S \<and> distinct L \<and> sorted_wrt (\<lambda>a b. collate T (key a) (key b)) L"

definition saved_rows :: "('d, 'e) table \<Rightarrow> 'e \<Rightarrow> 'e set \<Rightarrow> 'e set" where
  "saved_rows T e S = insert e {x \<in> S. ident T x \<noteq> ident T e}"

text \<open>The answers of the queries: what the rows hold, or an error of a database that does
  not answer.\<close>

definition find_one_ok :: "('d, 'e) table \<Rightarrow> ('e \<Rightarrow> bool) \<Rightarrow> 'd \<Rightarrow> exn + 'e option \<Rightarrow> bool" where
  "find_one_ok T p d res = (case res of
       Inr (Some e) \<Rightarrow> e \<in> rows T d \<and> p e
     | Inr None \<Rightarrow> (\<forall>e \<in> rows T d. \<not> p e)
     | Inl _ \<Rightarrow> \<not> answers T d)"

definition find_ok :: "('d, 'e) table \<Rightarrow> ('e \<Rightarrow> bool) \<Rightarrow> 'd \<Rightarrow> exn + 'e list \<Rightarrow> bool" where
  "find_ok T p d res = (case res of
       Inr es \<Rightarrow> set es = {e \<in> rows T d. p e} \<and> distinct es
     | Inl _ \<Rightarrow> \<not> answers T d)"

definition select_ok ::
  "('d, 'e) table \<Rightarrow> ('e \<Rightarrow> bool) \<Rightarrow> ('e \<Rightarrow> string list) \<Rightarrow> 'd \<Rightarrow> exn + 'e list \<Rightarrow> bool" where
  "select_ok T p key d res = (case res of
       Inr es \<Rightarrow> lists_rows T key {e \<in> rows T d. p e} es
     | Inl _ \<Rightarrow> \<not> answers T d)"

definition exists_ok :: "('d, 'e) table \<Rightarrow> ('e \<Rightarrow> bool) \<Rightarrow> 'd \<Rightarrow> exn + bool \<Rightarrow> bool" where
  "exists_ok T p d res = (case res of
       Inr b \<Rightarrow> b = (\<exists>e \<in> rows T d. p e)
     | Inl _ \<Rightarrow> \<not> answers T d)"

definition page_ok ::
  "('d, 'e) table \<Rightarrow> ('e \<Rightarrow> string list) \<Rightarrow> int \<Rightarrow> int \<Rightarrow> 'd \<Rightarrow> exn + 'e list \<times> nat \<Rightarrow> bool" where
  "page_ok T key s t d res = (case res of
       Inr (es, n) \<Rightarrow> (\<exists>L. lists_rows T key (rows T d) L \<and> es = take (nat t) (drop (nat s) L)
                          \<and> n = length L)
     | Inl _ \<Rightarrow> \<not> answers T d)"

text \<open>The writes: one that fails leaves the rows as they were; one that succeeds keeps the
  constraint of the table.\<close>

definition save_ok :: "('d, 'e) table \<Rightarrow> 'e \<Rightarrow> 'd \<Rightarrow> (exn + 'e) \<times> 'd \<Rightarrow> bool" where
  "save_ok T e d res = (case res of
       (Inr e', d') \<Rightarrow>
          rows T d' = saved_rows T e' (rows T d) \<and> ident T e' \<noteq> '''' \<and>
          (ident T e = '''' \<longrightarrow> e' = assign T (ident T e') e \<and> ident T e' \<notin> ident T ` rows T d) \<and>
          (ident T e \<noteq> '''' \<longrightarrow> e' = e) \<and>
          (constraint T (rows T d) \<longrightarrow> constraint T (saved_rows T e' (rows T d))) \<and>
          (answers T d \<longrightarrow> answers T d')
     | (Inl _, d') \<Rightarrow> rows T d' = rows T d \<and> (answers T d \<longrightarrow> answers T d'))"

definition remove_ok :: "('d, 'e) table \<Rightarrow> 'e \<Rightarrow> 'd \<Rightarrow> (exn + unit) \<times> 'd \<Rightarrow> bool" where
  "remove_ok T e d res = (case res of
       (Inr _, d') \<Rightarrow> rows T d' = {x \<in> rows T d. ident T x \<noteq> ident T e} \<and>
          (constraint T (rows T d) \<longrightarrow> constraint T {x \<in> rows T d. ident T x \<noteq> ident T e}) \<and>
          (answers T d \<longrightarrow> answers T d')
     | (Inl _, d') \<Rightarrow> rows T d' = rows T d \<and> (answers T d \<longrightarrow> answers T d'))"

definition collation_laws :: "(string list \<Rightarrow> string list \<Rightarrow> bool) \<Rightarrow> bool" where
  "collation_laws le \<longleftrightarrow>
     (\<forall>a b. le a b \<longrightarrow> le b a \<longrightarrow> a = b) \<and> (\<forall>a b c. le a b \<longrightarrow> le b c \<longrightarrow> le a c) \<and>
     (\<forall>a b. le a b \<or> le b a)"

definition orm_laws :: "('d, 'e) orm \<Rightarrow> ('d, 'e) table \<Rightarrow> bool" where
  "orm_laws G T \<longleftrightarrow>
     (\<forall>p d. find_one_ok T p d (orm_find_one G p d)) \<and>
     (\<forall>p d. find_ok T p d (orm_find G p d)) \<and>
     (\<forall>p key d. select_ok T p key d (orm_select G p key d)) \<and>
     (\<forall>p d. exists_ok T p d (orm_exists G p d)) \<and>
     (\<forall>key s t d. 0 \<le> s \<longrightarrow> 0 \<le> t \<longrightarrow> page_ok T key s t d (orm_page G key s t d)) \<and>
     (\<forall>e d. save_ok T e d (orm_save G e d)) \<and>
     (\<forall>e d. remove_ok T e d (orm_remove G e d)) \<and>
     collation_laws (collate T)"

section \<open>Facts\<close>

lemma orm_lawsD:
  assumes "orm_laws G T"
  shows "find_one_ok T p d (orm_find_one G p d)"
    and "find_ok T p d (orm_find G p d)"
    and "exists_ok T p d (orm_exists G p d)"
    and "0 \<le> s \<Longrightarrow> 0 \<le> t \<Longrightarrow> page_ok T key s t d (orm_page G key s t d)"
    and "save_ok T e d (orm_save G e d)"
    and "remove_ok T e d (orm_remove G e d)"
    and "collation_laws (collate T)"
    and "select_ok T p key d (orm_select G p key d)"
  using assms unfolding orm_laws_def by simp_all

lemma find_one_law:
  assumes "orm_laws G T"
  shows "orm_find_one G p d = Inr (Some e) \<Longrightarrow> e \<in> rows T d \<and> p e"
    and "orm_find_one G p d = Inr None \<Longrightarrow> e \<in> rows T d \<Longrightarrow> \<not> p e"
    and "orm_find_one G p d = Inl x \<Longrightarrow> \<not> answers T d"
  using orm_lawsD(1) [OF assms, of p d] by (auto simp: find_one_ok_def)

lemma find_law:
  assumes "orm_laws G T"
  shows "orm_find G p d = Inr es \<Longrightarrow> set es = {e \<in> rows T d. p e} \<and> distinct es"
    and "orm_find G p d = Inl x \<Longrightarrow> \<not> answers T d"
  using orm_lawsD(2) [OF assms, of p d] by (auto simp: find_ok_def)

lemma select_law:
  assumes "orm_laws G T"
  shows "orm_select G p key d = Inr es \<Longrightarrow> lists_rows T key {e \<in> rows T d. p e} es"
    and "orm_select G p key d = Inl x \<Longrightarrow> \<not> answers T d"
  using orm_lawsD(8) [OF assms, of p key d] by (auto simp: select_ok_def)

lemma exists_law:
  assumes "orm_laws G T"
  shows "orm_exists G p d = Inr b \<Longrightarrow> b \<longleftrightarrow> (\<exists>e \<in> rows T d. p e)"
    and "orm_exists G p d = Inl x \<Longrightarrow> \<not> answers T d"
  using orm_lawsD(3) [OF assms, of p d] by (auto simp: exists_ok_def)

lemma page_law:
  assumes "orm_laws G T" "0 \<le> s" "0 \<le> t"
  shows "orm_page G key s t d = Inr (es, n) \<Longrightarrow>
      \<exists>L. lists_rows T key (rows T d) L \<and> es = take (nat t) (drop (nat s) L) \<and> n = length L"
    and "orm_page G key s t d = Inl x \<Longrightarrow> \<not> answers T d"
  using orm_lawsD(4) [OF assms, of key d] by (auto simp: page_ok_def)

lemma save_law:
  assumes "orm_laws G T"
  shows "orm_save G e d = (Inr e', d') \<Longrightarrow>
      rows T d' = saved_rows T e' (rows T d) \<and> ident T e' \<noteq> '''' \<and>
      (ident T e = '''' \<longrightarrow> e' = assign T (ident T e') e \<and> ident T e' \<notin> ident T ` rows T d) \<and>
      (ident T e \<noteq> '''' \<longrightarrow> e' = e) \<and>
      (constraint T (rows T d) \<longrightarrow> constraint T (saved_rows T e' (rows T d))) \<and> (answers T d \<longrightarrow> answers T d')"
    and "orm_save G e d = (Inl x, d') \<Longrightarrow> rows T d' = rows T d \<and> (answers T d \<longrightarrow> answers T d')"
  using orm_lawsD(5) [OF assms, of e d] by (simp_all add: save_ok_def)

lemma remove_law:
  assumes "orm_laws G T"
  shows "orm_remove G e d = (Inr u, d') \<Longrightarrow>
      rows T d' = {x \<in> rows T d. ident T x \<noteq> ident T e} \<and>
      (constraint T (rows T d) \<longrightarrow> constraint T {x \<in> rows T d. ident T x \<noteq> ident T e}) \<and> (answers T d \<longrightarrow> answers T d')"
    and "orm_remove G e d = (Inl x, d') \<Longrightarrow> rows T d' = rows T d \<and> (answers T d \<longrightarrow> answers T d')"
  using orm_lawsD(6) [OF assms, of e d] by (simp_all add: remove_ok_def)

text \<open>The weakest preconditions of the writes.\<close>

lemma wp_save:
  assumes "orm_laws G T"
    and "\<And>e' d'. rows T d' = saved_rows T e' (rows T d) \<Longrightarrow> ident T e' \<noteq> '''' \<Longrightarrow>
      (ident T e \<noteq> '''' \<Longrightarrow> e' = e) \<Longrightarrow>
      (ident T e = '''' \<Longrightarrow> e' = assign T (ident T e') e \<and> ident T e' \<notin> ident T ` rows T d) \<Longrightarrow>
      (constraint T (rows T d) \<Longrightarrow> constraint T (saved_rows T e' (rows T d))) \<Longrightarrow>
      (answers T d \<Longrightarrow> answers T d') \<Longrightarrow> Q e' d'"
    and "\<And>x d'. rows T d' = rows T d \<Longrightarrow> (answers T d \<Longrightarrow> answers T d') \<Longrightarrow> E x d'"
  shows "wp (orm_save G e) Q E d"
proof (rule run_wp)
  fix e' d' assume "orm_save G e d = (Inr e', d')"
  from save_law(1) [OF assms(1) this] show "Q e' d'"
    by (intro assms(2)) blast+
next
  fix x d' assume "orm_save G e d = (Inl x, d')"
  from save_law(2) [OF assms(1) this] show "E x d'"
    by (intro assms(3)) simp_all
qed

lemma wp_remove:
  assumes "orm_laws G T"
    and "\<And>d'. rows T d' = {x \<in> rows T d. ident T x \<noteq> ident T e} \<Longrightarrow>
      (constraint T (rows T d) \<Longrightarrow> constraint T {x \<in> rows T d. ident T x \<noteq> ident T e}) \<Longrightarrow>
      (answers T d \<Longrightarrow> answers T d') \<Longrightarrow> Q () d'"
    and "\<And>x d'. rows T d' = rows T d \<Longrightarrow> (answers T d \<Longrightarrow> answers T d') \<Longrightarrow> E x d'"
  shows "wp (orm_remove G e) Q E d"
proof (rule run_wp)
  fix u d' assume "orm_remove G e d = (Inr u, d')"
  from remove_law(1) [OF assms(1) this] have "Q () d'"
    by (intro assms(2)) blast+
  then show "Q u d'" by simp
next
  fix x d' assume "orm_remove G e d = (Inl x, d')"
  from remove_law(2) [OF assms(1) this] show "E x d'"
    by (intro assms(3)) simp_all
qed

end
