(* ===== verification/Env.thy ===== *)
theory Env imports Complex_Main Orm "HOL-Library.List_Lexorder" "HOL-Library.Char_ord" begin

text \<open>
  What the container injects into the services, and the world they act on. Everything in
  \<open>env\<close> is code outside the repository (database, Redis, message broker, bcrypt, HMAC, JWT,
  user-agent parser, \<open>ms\<close>, the configuration and the templates on disk): a parameter of the
  definitions. The world is the state of these services, the clock and the template cache.

  \<open>users_by_role p\<close> is the query \<open>find({ where: { roles: p }, relations: ['roles',
  'roles.permissions'] })\<close> on the users, \<open>p\<close> the condition on a role. \<open>tx_commit before now\<close> and
  \<open>tx_rollback before now\<close> end a transaction that began in the state \<open>before\<close>.
\<close>

record email_body =
  eb_recipient :: "string list"
  eb_subject :: string
  eb_html :: string
  eb_text :: "string option"

record ('r, 'd, 'q) env =
  redis_api :: "'r redis_api"
  users_orm :: "('d, user) orm"
  roles_orm :: "('d, role) orm"
  permissions_orm :: "('d, permission) orm"
  api_keys_orm :: "('d, api_key) orm"
  rules_orm :: "('d, epr) orm"
  users_by_role :: "(role \<Rightarrow> bool) \<Rightarrow> 'd \<Rightarrow> exn + user list"
  tx_commit :: "'d \<Rightarrow> 'd \<Rightarrow> (exn + unit) \<times> 'd"
  tx_rollback :: "'d \<Rightarrow> 'd \<Rightarrow> 'd"
  bcrypt_compare :: "string \<Rightarrow> string \<Rightarrow> bool"
  bcrypt_hashSync :: "string \<Rightarrow> nat \<Rightarrow> string"
  hmac_sha256 :: "string \<Rightarrow> string \<Rightarrow> string"
  jwt_sign :: "string \<times> string \<Rightarrow> string \<Rightarrow> string \<Rightarrow> int \<Rightarrow> exn + string"
  jwt_verify :: "string \<Rightarrow> string \<Rightarrow> int \<Rightarrow> exn + payload"
  ua_os :: "string \<Rightarrow> string option"
  ua_browser :: "string \<Rightarrow> string option"
  ms :: "string \<Rightarrow> rat"
  process_env :: "string \<Rightarrow> string option"
  config :: "string \<Rightarrow> string option"
  toISOString :: "int \<Rightarrow> string"
  full_year :: "int \<Rightarrow> string"
  readFile :: "string \<Rightarrow> exn + string"
  email_emit :: "string \<Rightarrow> email_body \<Rightarrow> ('q, exn, unit) io"

record ('r, 'd, 'q) world =
  w_redis :: 'r
  w_db :: 'd
  w_mq :: 'q
  w_now :: int
  w_templates :: "string \<Rightarrow> string option"

type_synonym ('r, 'd, 'q, 'a) service = "(('r, 'd, 'q) world, exn, 'a) io"

definition on_redis :: "('r, exn, 'a) io \<Rightarrow> ('r, 'd, 'q, 'a) service" where
  "on_redis = zoomE w_redis (\<lambda>s w. w\<lparr>w_redis := s\<rparr>)"

definition on_db :: "('d, exn, 'a) io \<Rightarrow> ('r, 'd, 'q, 'a) service" where
  "on_db = zoomE w_db (\<lambda>s w. w\<lparr>w_db := s\<rparr>)"

definition on_mq :: "('q, exn, 'a) io \<Rightarrow> ('r, 'd, 'q, 'a) service" where
  "on_mq = zoomE w_mq (\<lambda>s w. w\<lparr>w_mq := s\<rparr>)"

text \<open>\<open>try { m } catch (error) { throw new X(message, code, error.status ?? d, error) }\<close>.\<close>

definition rethrow_as ::
  "service_class \<Rightarrow> string \<Rightarrow> string \<Rightarrow> nat \<Rightarrow> ('r, 'd, 'q, 'a) service \<Rightarrow> ('r, 'd, 'q, 'a) service" where
  "rethrow_as cls message code d m = catchE m (\<lambda>error. throwE (wrap_error cls message code d error))"

text \<open>\<open>try { m } catch (error) { this.logger.warn(...) }\<close>.\<close>

definition swallow :: "('r, 'd, 'q, unit) service \<Rightarrow> ('r, 'd, 'q, unit) service" where
  "swallow m = catchE m (\<lambda>error. returnE ())"

text \<open>\<open>this.redis.raw.get(k)\<close> and its kin, on the world.\<close>

definition raw_get :: "('r, 'd, 'q) env \<Rightarrow> string \<Rightarrow> ('r, 'd, 'q, doc option) service" where
  "raw_get E k = on_redis (readE (redis_get (redis_api E) k))"

definition raw_mGet :: "('r, 'd, 'q) env \<Rightarrow> string list \<Rightarrow> ('r, 'd, 'q, doc option list) service" where
  "raw_mGet E ks = on_redis (readE (redis_mGet (redis_api E) ks))"

definition raw_sMembers :: "('r, 'd, 'q) env \<Rightarrow> string \<Rightarrow> ('r, 'd, 'q, string list) service" where
  "raw_sMembers E k = on_redis (readE (redis_sMembers (redis_api E) k))"

definition raw_getDel :: "('r, 'd, 'q) env \<Rightarrow> string \<Rightarrow> ('r, 'd, 'q, doc option) service" where
  "raw_getDel E k = on_redis (redis_getDel (redis_api E) k)"

definition raw_write :: "('r, 'd, 'q) env \<Rightarrow> command \<Rightarrow> ('r, 'd, 'q, unit) service" where
  "raw_write E c = on_redis (redis_write (redis_api E) c)"

definition raw_exec :: "('r, 'd, 'q) env \<Rightarrow> command list \<Rightarrow> ('r, 'd, 'q, unit) service" where
  "raw_exec E cs = on_redis (redis_exec (redis_api E) cs)"

text \<open>\<open>this.dataSource.transaction(async (manager) => ...)\<close>: the body, then a commit, or a
  rollback of the database (and of nothing else) when the body throws.\<close>

definition transaction :: "('r, 'd, 'q) env \<Rightarrow> ('r, 'd, 'q, 'a) service \<Rightarrow> ('r, 'd, 'q, 'a) service" where
  "transaction E m = (\<lambda>w.
     case m w of
       (Inl e, w') \<Rightarrow> (Inl e, w'\<lparr>w_db := tx_rollback E (w_db w) (w_db w')\<rparr>)
     | (Inr a, w') \<Rightarrow>
         (case tx_commit E (w_db w) (w_db w') of
            (Inl e, d) \<Rightarrow> (Inl e, w'\<lparr>w_db := d\<rparr>)
          | (Inr _, d) \<Rightarrow> (Inr a, w'\<lparr>w_db := d\<rparr>)))"

text \<open>A commit keeps what the transaction wrote or, when it fails, nothing of it; a rollback
  restores the rows.\<close>

definition commit_ok :: "('d, 'e) table \<Rightarrow> 'd \<Rightarrow> 'd \<Rightarrow> (exn + unit) \<times> 'd \<Rightarrow> bool" where
  "commit_ok T d d' res = (case res of
       (Inr _, d'') \<Rightarrow> rows T d'' = rows T d' \<and> (answers T d' \<longrightarrow> answers T d'')
     | (Inl _, d'') \<Rightarrow> rows T d'' = rows T d \<and> (answers T d' \<longrightarrow> answers T d''))"

definition tx_laws :: "('r, 'd, 'q) env \<Rightarrow> ('d, 'e) table \<Rightarrow> bool" where
  "tx_laws E T \<longleftrightarrow>
     (\<forall>d d'. commit_ok T d d' (tx_commit E d d')) \<and>
     (\<forall>d d'. rows T (tx_rollback E d d') = rows T d \<and>
        (answers T d \<longrightarrow> answers T d' \<longrightarrow> answers T (tx_rollback E d d')))"

text \<open>
  The query by role. The roles of a user are the rows of the table of roles whose identifiers the
  row of the user names. The query answers the users that have a role meeting the condition, each
  with some of the user's roles, among them all that meet it; whether the join loads the others too
  is left open.
\<close>

definition role_ids :: "user \<Rightarrow> string list" where
  "role_ids u = (case u_roles u of None \<Rightarrow> [] | Some rs \<Rightarrow> List.map r_id rs)"

definition roles_of_user :: "('d, role) table \<Rightarrow> 'd \<Rightarrow> user \<Rightarrow> role set" where
  "roles_of_user TR d u = {r \<in> rows TR d. r_id r \<in> set (role_ids u)}"

definition loads_roles :: "('d, role) table \<Rightarrow> (role \<Rightarrow> bool) \<Rightarrow> 'd \<Rightarrow> user \<Rightarrow> user \<Rightarrow> bool" where
  "loads_roles TR p d u v \<longleftrightarrow> (\<exists>rs. v = u\<lparr>u_roles := Some rs\<rparr> \<and> set rs \<subseteq> roles_of_user TR d u \<and>
     {r \<in> roles_of_user TR d u. p r} \<subseteq> set rs)"

definition by_role_ok ::
  "('d, user) table \<Rightarrow> ('d, role) table \<Rightarrow> (role \<Rightarrow> bool) \<Rightarrow> 'd \<Rightarrow> exn + user list \<Rightarrow> bool" where
  "by_role_ok TU TR p d res = (case res of
       Inr us \<Rightarrow>
         (\<forall>v \<in> set us. \<exists>u \<in> rows TU d. (\<exists>r \<in> roles_of_user TR d u. p r) \<and> loads_roles TR p d u v) \<and>
         (\<forall>u \<in> rows TU d. (\<exists>r \<in> roles_of_user TR d u. p r) \<longrightarrow> (\<exists>v \<in> set us. loads_roles TR p d u v))
     | Inl _ \<Rightarrow> \<not> answers TU d \<or> \<not> answers TR d)"

definition role_query_laws :: "('r, 'd, 'q) env \<Rightarrow> ('d, user) table \<Rightarrow> ('d, role) table \<Rightarrow> bool" where
  "role_query_laws E TU TR \<longleftrightarrow> (\<forall>p d. by_role_ok TU TR p d (users_by_role E p d))"

lemma wp_transaction:
  assumes "tx_laws E T"
    and "wp m (\<lambda>a w'. (\<forall>d. rows T d = rows T (w_db w') \<longrightarrow> (answers T (w_db w') \<longrightarrow> answers T d) \<longrightarrow>
                        Q a (w'\<lparr>w_db := d\<rparr>)) \<and>
                     (\<forall>d e. rows T d = rows T (w_db w) \<longrightarrow>
                        (answers T (w_db w) \<longrightarrow> answers T (w_db w') \<longrightarrow> answers T d) \<longrightarrow> F e (w'\<lparr>w_db := d\<rparr>)))
              (\<lambda>e w'. \<forall>d. rows T d = rows T (w_db w) \<longrightarrow>
                        (answers T (w_db w) \<longrightarrow> answers T (w_db w') \<longrightarrow> answers T d) \<longrightarrow> F e (w'\<lparr>w_db := d\<rparr>)) w"
  shows "wp (transaction E m) Q F w"
proof -
  have c: "commit_ok T d d' (tx_commit E d d')"
    and r: "rows T (tx_rollback E d d') = rows T d"
      "answers T d \<Longrightarrow> answers T d' \<Longrightarrow> answers T (tx_rollback E d d')" for d d'
    using assms(1) by (simp_all add: tx_laws_def)
  show ?thesis
  proof (rule run_wp)
    fix a t assume run: "transaction E m w = (Inr a, t)"
    then obtain w' d where m: "m w = (Inr a, w')" and
      tx: "tx_commit E (w_db w) (w_db w') = (Inr (), d)" and t: "t = w'\<lparr>w_db := d\<rparr>"
      by (auto simp: transaction_def split: prod.splits sum.splits)
    have "rows T d = rows T (w_db w') \<and> (answers T (w_db w') \<longrightarrow> answers T d)"
      using c [of "w_db w" "w_db w'"] tx by (simp add: commit_ok_def)
    then show "Q a t" using wp_runR [OF assms(2) m] t by blast
  next
    fix e t assume run: "transaction E m w = (Inl e, t)"
    then consider w' where "m w = (Inl e, w')" "t = w'\<lparr>w_db := tx_rollback E (w_db w) (w_db w')\<rparr>"
      | a w' d where "m w = (Inr a, w')" "tx_commit E (w_db w) (w_db w') = (Inl e, d)" "t = w'\<lparr>w_db := d\<rparr>"
      by (auto simp: transaction_def split: prod.splits sum.splits)
    then show "F e t"
    proof cases
      case 1
      then show ?thesis using wp_runL [OF assms(2) 1(1)] r by blast
    next
      case 2
      then have "rows T d = rows T (w_db w) \<and> (answers T (w_db w') \<longrightarrow> answers T d)"
        using c [of "w_db w" "w_db w'"] by (simp add: commit_ok_def)
      then show ?thesis using wp_runR [OF assms(2) 2(1)] 2 by blast
    qed
  qed
qed

section \<open>Weakest preconditions of the Redis calls\<close>

lemma wp_on_redis:
  "wp (on_redis m) Q E w = wp m (\<lambda>a r. Q a (w\<lparr>w_redis := r\<rparr>)) (\<lambda>e r. E e (w\<lparr>w_redis := r\<rparr>)) (w_redis w)"
  by (simp add: on_redis_def wp_zoom)

lemma wp_on_db:
  "wp (on_db m) Q E w = wp m (\<lambda>a r. Q a (w\<lparr>w_db := r\<rparr>)) (\<lambda>e r. E e (w\<lparr>w_db := r\<rparr>)) (w_db w)"
  by (simp add: on_db_def wp_zoom)

lemma wp_on_mq:
  "wp (on_mq m) Q E w = wp m (\<lambda>a r. Q a (w\<lparr>w_mq := r\<rparr>)) (\<lambda>e r. E e (w\<lparr>w_mq := r\<rparr>)) (w_mq w)"
  by (simp add: on_mq_def wp_zoom)

lemma wp_rethrow_as [wp]:
  "wp (rethrow_as cls message code d m) Q F =
   wp m Q (\<lambda>error. F (wrap_error cls message code d error))"
  by (simp add: rethrow_as_def wp)

lemma wp_swallow [wp]: "wp (swallow m) Q F = wp m Q (\<lambda>_. Q ())"
  by (simp add: swallow_def wp)

lemma world_same [simp]: "w\<lparr>w_redis := w_redis w\<rparr> = w" "w\<lparr>w_db := w_db w\<rparr> = w" "w\<lparr>w_mq := w_mq w\<rparr> = w"
  by simp_all

lemma readonly_on_db [simp]: "readonly m \<Longrightarrow> readonly (on_db m)"
  by (rule readonlyI) (simp add: wp_on_db wp_readonly)

text \<open>One rule per call: what it returns and what the server holds after it.\<close>

lemma wp_raw_get:
  assumes "redis_laws (redis_api E) view up"
    and "Q (val (view (w_redis w)) k) w" "\<And>e. \<not> up (w_redis w) \<Longrightarrow> F e w"
  shows "wp (raw_get E k) Q F w"
  unfolding raw_get_def wp_on_redis
  by (rule wp_answer [OF redis_lawsD(1) [OF assms(1)]]) (use assms(2,3) in auto)

lemma raw_get_run:
  assumes "redis_laws (redis_api E) view up" "up (w_redis w)"
  shows "raw_get E k w = (Inr (val (view (w_redis w)) k), w)"
  using wp_returns [OF wp_raw_get [OF assms(1), of "\<lambda>x t. x = val (view (w_redis w)) k \<and> t = w" w k]]
    assms(2) by auto

lemma wp_raw_mGet:
  assumes "redis_laws (redis_api E) view up"
    and "Q (List.map (val (view (w_redis w))) ks) w" "\<And>e. \<not> up (w_redis w) \<Longrightarrow> F e w"
  shows "wp (raw_mGet E ks) Q F w"
  unfolding raw_mGet_def wp_on_redis
  by (rule wp_answer [OF redis_lawsD(2) [OF assms(1)]]) (use assms(2,3) in auto)

lemma wp_raw_sMembers:
  assumes "redis_laws (redis_api E) view up"
    and "\<And>xs. set xs = sets (view (w_redis w)) k \<Longrightarrow> distinct xs \<Longrightarrow> Q xs w"
    and "\<And>e. \<not> up (w_redis w) \<Longrightarrow> F e w"
  shows "wp (raw_sMembers E k) Q F w"
  unfolding raw_sMembers_def wp_on_redis
  by (rule wp_answer [OF redis_lawsD(3) [OF assms(1)]]) (use assms(2,3) in auto)

lemma wp_raw_getDel:
  assumes "redis_laws (redis_api E) view up"
    and "\<And>r'. view r' = exec_cmd (DEL k) (view (w_redis w)) \<Longrightarrow> (up (w_redis w) \<Longrightarrow> up r') \<Longrightarrow>
      Q (val (view (w_redis w)) k) (w\<lparr>w_redis := r'\<rparr>)"
    and "\<And>e r'. view r' = view (w_redis w) \<or> view r' = exec_cmd (DEL k) (view (w_redis w)) \<Longrightarrow>
      \<not> up (w_redis w) \<Longrightarrow> F e (w\<lparr>w_redis := r'\<rparr>)"
  shows "wp (raw_getDel E k) Q F w"
  unfolding raw_getDel_def wp_on_redis
  by (rule wp_effect [OF redis_lawsD(4) [OF assms(1)]]) (use assms(2,3) in auto)

lemma wp_raw_write:
  assumes "redis_laws (redis_api E) view up"
    and "\<And>r'. view r' = exec_cmd c (view (w_redis w)) \<Longrightarrow> (up (w_redis w) \<Longrightarrow> up r') \<Longrightarrow>
      Q () (w\<lparr>w_redis := r'\<rparr>)"
    and "\<And>e r'. view r' = view (w_redis w) \<or> view r' = exec_cmd c (view (w_redis w)) \<Longrightarrow>
      \<not> up (w_redis w) \<Longrightarrow> F e (w\<lparr>w_redis := r'\<rparr>)"
  shows "wp (raw_write E c) Q F w"
  unfolding raw_write_def wp_on_redis
  by (rule wp_effect [OF redis_lawsD(5) [OF assms(1)]]) (use assms(2,3) in auto)

lemma wp_raw_exec:
  assumes "redis_laws (redis_api E) view up"
    and "\<And>r'. view r' = exec_all cs (view (w_redis w)) \<Longrightarrow> (up (w_redis w) \<Longrightarrow> up r') \<Longrightarrow>
      Q () (w\<lparr>w_redis := r'\<rparr>)"
    and "\<And>e r'. view r' = view (w_redis w) \<or> view r' = exec_all cs (view (w_redis w)) \<Longrightarrow>
      \<not> up (w_redis w) \<Longrightarrow> F e (w\<lparr>w_redis := r'\<rparr>)"
  shows "wp (raw_exec E cs) Q F w"
  unfolding raw_exec_def wp_on_redis
  by (rule wp_effect [OF redis_lawsD(6) [OF assms(1)]]) (use assms(2,3) in auto)

lemmas wp_raw = wp_raw_get wp_raw_mGet wp_raw_sMembers wp_raw_getDel wp_raw_write wp_raw_exec

section \<open>Weakest preconditions of the database calls\<close>

lemma wp_db_find_one:
  assumes "orm_laws G T"
    and "\<And>e. e \<in> rows T (w_db w) \<Longrightarrow> p e \<Longrightarrow> Q (Some e) w"
    and "(\<And>e. e \<in> rows T (w_db w) \<Longrightarrow> \<not> p e) \<Longrightarrow> Q None w"
    and "\<And>x. \<not> answers T (w_db w) \<Longrightarrow> F x w"
  shows "wp (on_db (readE (orm_find_one G p))) Q F w"
  using find_one_law [OF assms(1), of p "w_db w"] assms(2-4)
  by (auto simp: wp wp_on_db split: sum.splits) (metis not_None_eq)

lemma wp_db_find:
  assumes "orm_laws G T"
    and "\<And>es. set es = {e \<in> rows T (w_db w). p e} \<Longrightarrow> distinct es \<Longrightarrow> Q es w"
    and "\<And>x. \<not> answers T (w_db w) \<Longrightarrow> F x w"
  shows "wp (on_db (readE (orm_find G p))) Q F w"
  using find_law [OF assms(1), of p "w_db w"] assms(2,3) by (auto simp: wp wp_on_db split: sum.splits)

lemma wp_db_exists:
  assumes "orm_laws G T"
    and "Q (\<exists>e \<in> rows T (w_db w). p e) w" "\<And>x. \<not> answers T (w_db w) \<Longrightarrow> F x w"
  shows "wp (on_db (readE (orm_exists G p))) Q F w"
  using exists_law [OF assms(1), of p "w_db w"] assms(2,3) by (auto simp: wp wp_on_db split: sum.splits)

lemma wp_db_save:
  assumes "orm_laws G T"
    and "\<And>e' d'. rows T d' = saved_rows T e' (rows T (w_db w)) \<Longrightarrow> ident T e' \<noteq> '''' \<Longrightarrow>
      (ident T e \<noteq> '''' \<Longrightarrow> e' = e) \<Longrightarrow>
      (ident T e = '''' \<Longrightarrow> e' = assign T (ident T e') e \<and> ident T e' \<notin> ident T ` rows T (w_db w)) \<Longrightarrow>
      (constraint T (rows T (w_db w)) \<Longrightarrow> constraint T (saved_rows T e' (rows T (w_db w)))) \<Longrightarrow>
      (answers T (w_db w) \<Longrightarrow> answers T d') \<Longrightarrow> Q e' (w\<lparr>w_db := d'\<rparr>)"
    and "\<And>x d'. rows T d' = rows T (w_db w) \<Longrightarrow> (answers T (w_db w) \<Longrightarrow> answers T d') \<Longrightarrow>
      F x (w\<lparr>w_db := d'\<rparr>)"
  shows "wp (on_db (orm_save G e)) Q F w"
  unfolding wp_on_db by (rule wp_save [OF assms(1)]) (fact assms(2), fact assms(3))

lemma wp_db_remove:
  assumes "orm_laws G T"
    and "\<And>d'. rows T d' = {x \<in> rows T (w_db w). ident T x \<noteq> ident T e} \<Longrightarrow>
      (constraint T (rows T (w_db w)) \<Longrightarrow> constraint T {x \<in> rows T (w_db w). ident T x \<noteq> ident T e}) \<Longrightarrow>
      (answers T (w_db w) \<Longrightarrow> answers T d') \<Longrightarrow> Q () (w\<lparr>w_db := d'\<rparr>)"
    and "\<And>x d'. rows T d' = rows T (w_db w) \<Longrightarrow> (answers T (w_db w) \<Longrightarrow> answers T d') \<Longrightarrow>
      F x (w\<lparr>w_db := d'\<rparr>)"
  shows "wp (on_db (orm_remove G e)) Q F w"
  unfolding wp_on_db by (rule wp_remove [OF assms(1)]) (fact assms(2), fact assms(3))

section \<open>An in-memory container\<close>

text \<open>
  A database of lists, one per table, and small stand-ins of the other libraries: an
  instance of the hypotheses of the theorems, at which their witnesses evaluate.
\<close>

record mem_db =
  t_users :: "user list"
  t_roles :: "role list"
  t_permissions :: "permission list"
  t_api_keys :: "api_key list"
  t_rules :: "epr list"
  t_up :: bool

definition db_down :: exn where
  "db_down = JsError ''QueryFailedError'' ''connection terminated'' None None"

definition unique_violation :: exn where
  "unique_violation = JsError ''QueryFailedError'' ''duplicate key value'' None None"

definition fresh_id :: "string list \<Rightarrow> string" where
  "fresh_id xs = replicate (Suc (sum_list (List.map length xs))) (CHR ''n'')"

lemma fresh_id_fresh: "fresh_id xs \<notin> set xs"
proof
  assume "fresh_id xs \<in> set xs"
  then have "length (fresh_id xs) \<le> sum_list (List.map length xs)"
    by (simp add: member_le_sum_list)
  then show False by (simp add: fresh_id_def)
qed

lemma fresh_id_nonempty [simp]: "fresh_id xs \<noteq> ''''"
  by (simp add: fresh_id_def)

definition columns_unique :: "('e \<Rightarrow> string) list \<Rightarrow> 'e list \<Rightarrow> bool" where
  "columns_unique cols xs = list_all (\<lambda>c. distinct (List.map c (remdups xs))) cols"

lemma columns_unique_iff: "columns_unique cols xs \<longleftrightarrow> (\<forall>c \<in> set cols. inj_on c (set xs))"
  by (simp add: columns_unique_def list_all_iff distinct_map)

definition mem_orm ::
  "('d \<Rightarrow> bool) \<Rightarrow> ('d \<Rightarrow> 'e list) \<Rightarrow> ('e list \<Rightarrow> 'd \<Rightarrow> 'd) \<Rightarrow> ('e \<Rightarrow> string) \<Rightarrow> (string \<Rightarrow> 'e \<Rightarrow> 'e) \<Rightarrow>
   ('e \<Rightarrow> string) list \<Rightarrow> ('d, 'e) orm" where
  "mem_orm ok get put idf asg cols =
     \<lparr>orm_find_one = (\<lambda>p d. if ok d then Inr (List.find p (get d)) else Inl db_down),
      orm_find = (\<lambda>p d. if ok d then Inr (filter p (remdups (get d))) else Inl db_down),
      orm_page = (\<lambda>key s t d. if ok d then
          Inr (take (nat t) (drop (nat s) (sort_key key (remdups (get d)))), length (remdups (get d)))
        else Inl db_down),
      orm_select = (\<lambda>p key d. if ok d then Inr (sort_key key (filter p (remdups (get d)))) else Inl db_down),
      orm_exists = (\<lambda>p d. if ok d then Inr (list_ex p (get d)) else Inl db_down),
      orm_save = (\<lambda>e d. let e' = (if idf e = '''' then asg (fresh_id (List.map idf (get d))) e else e);
            xs = e' # filter (\<lambda>x. idf x \<noteq> idf e') (get d)
          in if \<not> ok d then (Inl db_down, d)
             else if columns_unique cols xs then (Inr e', put xs d) else (Inl unique_violation, d)),
      orm_remove = (\<lambda>e d. if ok d then (Inr (), put (filter (\<lambda>x. idf x \<noteq> idf e) (get d)) d)
          else (Inl db_down, d))\<rparr>"

definition mem_table ::
  "('d \<Rightarrow> bool) \<Rightarrow> ('d \<Rightarrow> 'e list) \<Rightarrow> ('e \<Rightarrow> string) \<Rightarrow> (string \<Rightarrow> 'e \<Rightarrow> 'e) \<Rightarrow> ('e \<Rightarrow> string) list \<Rightarrow>
   ('d, 'e) table" where
  "mem_table ok get idf asg cols =
     \<lparr>rows = (\<lambda>d. set (get d)), answers = ok, ident = idf, assign = asg,
      constraint = (\<lambda>S. \<forall>c \<in> set cols. inj_on c S), collate = (\<le>)\<rparr>"

lemma mem_orm_laws:
  assumes put: "\<And>xs d. get (put xs d) = xs" "\<And>xs d. ok (put xs d) = ok d"
    and asg: "\<And>i e. idf (asg i e) = i"
  shows "orm_laws (mem_orm ok get put idf asg cols) (mem_table ok get idf asg cols)"
proof -
  let ?G = "mem_orm ok get put idf asg cols" and ?T = "mem_table ok get idf asg cols"
  have "find_one_ok ?T p d (orm_find_one ?G p d)" for p d
    by (auto simp: find_one_ok_def mem_orm_def mem_table_def find_None_iff find_Some_iff
        split: option.splits)
  moreover have "find_ok ?T p d (orm_find ?G p d)" "exists_ok ?T p d (orm_exists ?G p d)" for p d
    by (auto simp: find_ok_def exists_ok_def mem_orm_def mem_table_def list_ex_iff)
  moreover have "page_ok ?T key s t d (orm_page ?G key s t d)" for key s t d
  proof -
    let ?L = "sort_key key (remdups (get d))"
    have "sorted_wrt (\<lambda>a b. key a \<le> key b) ?L"
      using sorted_sort_key [of key "remdups (get d)"] by (simp only: sorted_map)
    then have "lists_rows ?T key (rows ?T d) ?L"
      by (simp add: lists_rows_def mem_table_def)
    moreover have "orm_page ?G key s t d = (if ok d then
        Inr (take (nat t) (drop (nat s) ?L), length ?L) else Inl db_down)"
      by (simp add: mem_orm_def)
    moreover have "answers ?T d = ok d" by (simp add: mem_table_def)
    ultimately show ?thesis unfolding page_ok_def by (cases "ok d") auto
  qed
  moreover have "select_ok ?T p key d (orm_select ?G p key d)" for p key d
  proof -
    have "sorted_wrt (\<lambda>a b. key a \<le> key b) (sort_key key (filter p (remdups (get d))))"
      using sorted_sort_key [of key "filter p (remdups (get d))"] by (simp only: sorted_map)
    then show ?thesis by (auto simp: select_ok_def lists_rows_def mem_orm_def mem_table_def)
  qed
  moreover have "save_ok ?T e d (orm_save ?G e d)" for e d
  proof -
    define e' where "e' = (if idf e = '''' then asg (fresh_id (List.map idf (get d))) e else e)"
    define xs where "xs = e' # filter (\<lambda>x. idf x \<noteq> idf e') (get d)"
    have run: "orm_save ?G e d = (if \<not> ok d then (Inl db_down, d)
        else if columns_unique cols xs then (Inr e', put xs d) else (Inl unique_violation, d))"
      by (simp add: mem_orm_def e'_def xs_def Let_def)
    have id: "idf e' \<noteq> ''''" "idf e = '''' \<Longrightarrow> e' = asg (idf e') e \<and> idf e' \<notin> idf ` set (get d)"
      "idf e \<noteq> '''' \<Longrightarrow> e' = e"
      using fresh_id_fresh [of "List.map idf (get d)"] by (auto simp: e'_def asg)
    have T: "rows ?T = (\<lambda>d. set (get d))" "ident ?T = idf" "assign ?T = asg" "answers ?T = ok"
      "constraint ?T S = (\<forall>c \<in> set cols. inj_on c S)" for S
      by (simp_all add: mem_table_def)
    have xs: "set xs = saved_rows ?T e' (set (get d))"
      by (auto simp: xs_def saved_rows_def T)
    show ?thesis
      using id xs by (simp add: save_ok_def run T put columns_unique_iff)
  qed
  moreover have "remove_ok ?T e d (orm_remove ?G e d)" for e d
    by (auto simp: remove_ok_def mem_orm_def mem_table_def put intro: inj_on_subset)
  moreover have "collation_laws (collate ?T)"
    by (auto simp: collation_laws_def mem_table_def)
  ultimately show ?thesis by (simp add: orm_laws_def)
qed

end
