(* ===== verification/Utils.thy ===== *)
theory Utils imports Env begin

text \<open>
  The helpers of \<open>src/src/common/utils\<close>: the client address and the subnet comparison the
  guards use, the API key header, times to live read from the environment and the cookie
  options, and the search of a validation-error tree.
\<close>

section \<open>Requests\<close>

text \<open>A header holds one text or, when it was sent more than once, an array.\<close>

datatype header = Single string | Multiple "string list"

record request =
  rq_headers :: "string \<Rightarrow> header option"
  rq_cookies :: "string \<Rightarrow> string option"
  rq_ip :: "string option"
  rq_remoteAddress :: "string option"

text \<open>\<open>a || b\<close> for a text that may be missing or empty.\<close>

definition or_else :: "string option \<Rightarrow> string \<Rightarrow> string" where
  "or_else a b = (case a of Some s \<Rightarrow> if s \<noteq> '''' then s else b | None \<Rightarrow> b)"

section \<open>getClientIp and sameSubnetCheck\<close>

definition forwarded_for :: "request \<Rightarrow> string option" where
  "forwarded_for req =
     (case rq_headers req ''x-forwarded-for'' of
        Some (Single s) \<Rightarrow> Some (trim (hd (split_on (CHR '','') s)))
      | _ \<Rightarrow> None)"

definition getClientIp :: "request \<Rightarrow> string" where
  "getClientIp req =
     (let ip = or_else (forwarded_for req)
                 (or_else (rq_ip req) (or_else (rq_remoteAddress req) ''unknown''))
      in if ip = ''::1'' then ''127.0.0.1''
         else if starts_with ip ''::ffff:'' then replace_first ''::ffff:'' '''' ip
         else ip)"

definition sameSubnetCheck :: "string \<Rightarrow> string \<Rightarrow> bool" where
  "sameSubnetCheck ip1 ip2 =
     (let ip1Array = split_on (CHR ''.'') ip1; ip2Array = split_on (CHR ''.'') ip2
      in if length ip1Array \<noteq> 4 \<or> length ip2Array \<noteq> 4 then False
         else ip1Array ! 0 = ip2Array ! 0 \<and> ip1Array ! 1 = ip2Array ! 1 \<and> ip1Array ! 2 = ip2Array ! 2)"

section \<open>extractApiKey\<close>

definition extractApiKey :: "request \<Rightarrow> exn + string" where
  "extractApiKey req =
     (case rq_headers req ''x-api-key'' of
        Some (Multiple _) \<Rightarrow>
          Inl (auth_exception ''API key header must be a single value'' auth_error.API_KEY_INVALID
                 UNAUTHORIZED None)
      | Some (Single s) \<Rightarrow>
          if trim s = '''' then
            Inl (auth_exception ''API key header missing'' auth_error.API_KEY_HEADER_MISSING UNAUTHORIZED None)
          else Inr (trim s)
      | None \<Rightarrow>
          Inl (auth_exception ''API key header missing'' auth_error.API_KEY_HEADER_MISSING UNAUTHORIZED None))"

section \<open>getTtlFromEnv and the cookie options\<close>

text \<open>\<open>Math.floor(ms(value))\<close>; a value that \<open>ms\<close> cannot read is outside the model.\<close>

definition getTtlFromEnv :: "('r, 'd, 'q) env \<Rightarrow> string \<Rightarrow> exn + int" where
  "getTtlFromEnv E key =
     (case process_env E key of
        None \<Rightarrow> Inl (JsError ''Error'' (''Missing environment variable '' @ key) None None)
      | Some v \<Rightarrow>
          if v = '''' then Inl (JsError ''Error'' (''Missing environment variable '' @ key) None None)
          else Inr \<lfloor>ms E v\<rfloor>)"

record cookie_options =
  httpOnly :: bool
  secure :: bool
  sameSite :: string
  path :: string
  domain :: "string option"
  maxAge :: int

definition cookie_options_for :: "('r, 'd, 'q) env \<Rightarrow> string \<Rightarrow> int \<Rightarrow> cookie_options" where
  "cookie_options_for E pth age =
     \<lparr>httpOnly = True, secure = (process_env E ''COOKIE_SECURE'' \<noteq> Some ''false''),
      sameSite = ''strict'', path = pth,
      domain = (if process_env E ''COOKIE_DOMAIN'' = Some '''' then None
                else process_env E ''COOKIE_DOMAIN''),
      maxAge = age\<rparr>"

definition getAuthCookieOptions :: "('r, 'd, 'q) env \<Rightarrow> exn + cookie_options" where
  "getAuthCookieOptions E =
     (case getTtlFromEnv E ''JWT_AUTH_EXPIRES_IN'' of
        Inl e \<Rightarrow> Inl e | Inr age \<Rightarrow> Inr (cookie_options_for E ''/'' age))"

definition getRefreshCookieOptions :: "('r, 'd, 'q) env \<Rightarrow> exn + cookie_options" where
  "getRefreshCookieOptions E =
     (case getTtlFromEnv E ''JWT_REFRESH_EXPIRES_IN'' of
        Inl e \<Rightarrow> Inl e | Inr age \<Rightarrow> Inr (cookie_options_for E ''/users/refresh-token'' age))"

section \<open>findFirstErrorCode and findFirstMessage\<close>

text \<open>
  A \<open>ValidationError\<close>: the constraint contexts (each with an \<open>errorCode\<close> or none), the
  constraint messages, and the errors of the nested properties.
\<close>

datatype verror = VError "(string \<times> string option) list option" "(string \<times> string) list option" "verror list"

fun v_contexts :: "verror \<Rightarrow> (string \<times> string option) list" where
  "v_contexts (VError c _ _) = (case c of None \<Rightarrow> [] | Some xs \<Rightarrow> xs)"

fun v_constraints :: "verror \<Rightarrow> (string \<times> string) list" where
  "v_constraints (VError _ c _) = (case c of None \<Rightarrow> [] | Some xs \<Rightarrow> xs)"

fun v_children :: "verror \<Rightarrow> verror list" where
  "v_children (VError _ _ ch) = ch"

text \<open>\<open>for (const key of ...) if (ctx?.errorCode) return ctx.errorCode\<close>: an empty code is falsy.\<close>

fun first_code :: "(string \<times> string option) list \<Rightarrow> string option" where
  "first_code [] = None"
| "first_code ((k, Some code) # xs) = (if code \<noteq> '''' then Some code else first_code xs)"
| "first_code ((k, None) # xs) = first_code xs"

text \<open>The message of the first constraint, unless its key is the empty text.\<close>

definition first_message :: "(string \<times> string) list \<Rightarrow> string option" where
  "first_message xs = (case xs of [] \<Rightarrow> None | (k, m) # _ \<Rightarrow> if k \<noteq> '''' then Some m else None)"

text \<open>The work list: take the first error, look at it, append its children.\<close>

function search_errors :: "(verror \<Rightarrow> 'a option) \<Rightarrow> verror list \<Rightarrow> 'a option" where
  "search_errors f [] = None"
| "search_errors f (err # rest) =
     (case f err of Some x \<Rightarrow> Some x | None \<Rightarrow> search_errors f (rest @ v_children err))"
  by pat_completeness auto

lemma children_size: "sum_list (List.map size (v_children e)) < size e"
proof (cases e)
  case (VError a b ch)
  have "sum_list (List.map size ch) \<le> size_list size ch"
    by (induction ch) auto
  with VError show ?thesis by simp
qed

termination search_errors
  by (relation "measure (\<lambda>(f, stack). sum_list (List.map size stack))")
    (use children_size in auto)

definition findFirstErrorCode :: "verror list \<Rightarrow> string option" where
  "findFirstErrorCode errors = search_errors (\<lambda>e. first_code (v_contexts e)) errors"

definition findFirstMessage :: "verror list \<Rightarrow> string" where
  "findFirstMessage errors =
     (case search_errors (\<lambda>e. first_message (v_constraints e)) errors of
        Some m \<Rightarrow> m | None \<Rightarrow> ''Validation failed'')"

section \<open>Facts\<close>

lemma or_else_Some [simp]: "s \<noteq> '''' \<Longrightarrow> or_else (Some s) b = s"
  by (simp add: or_else_def)

lemma sameSubnetCheck_sym: "sameSubnetCheck a b = sameSubnetCheck b a"
  by (auto simp: sameSubnetCheck_def Let_def)

lemma sameSubnetCheck_trans: "sameSubnetCheck a b \<Longrightarrow> sameSubnetCheck b c \<Longrightarrow> sameSubnetCheck a c"
  by (auto simp: sameSubnetCheck_def Let_def split: if_splits)

lemma sameSubnetCheck_refl: "sameSubnetCheck a a \<longleftrightarrow> length (split_on (CHR ''.'') a) = 4"
  by (auto simp: sameSubnetCheck_def Let_def)

text \<open>The address of four dot-free parts.\<close>

definition dotted :: "string \<Rightarrow> string \<Rightarrow> string \<Rightarrow> string \<Rightarrow> string" where
  "dotted a b c d = a @ ''.'' @ b @ ''.'' @ c @ ''.'' @ d"

definition dot_free :: "string \<Rightarrow> bool" where
  "dot_free s \<longleftrightarrow> CHR ''.'' \<notin> set s"

lemma split_dotted:
  "dot_free a \<Longrightarrow> dot_free b \<Longrightarrow> dot_free c \<Longrightarrow> dot_free d \<Longrightarrow>
   split_on (CHR ''.'') (dotted a b c d) = [a, b, c, d]"
  by (simp add: dotted_def dot_free_def split_on_append split_on_none)

lemma sameSubnetCheck_dotted:
  assumes "dot_free a" "dot_free b" "dot_free c" "dot_free d"
    and "dot_free a'" "dot_free b'" "dot_free c'" "dot_free d'"
  shows "sameSubnetCheck (dotted a b c d) (dotted a' b' c' d') \<longleftrightarrow> a = a' \<and> b = b' \<and> c = c'"
  using assms by (simp add: sameSubnetCheck_def split_dotted numeral_2_eq_2)

lemma sameSubnetCheck_no_dot:
  "dot_free a \<Longrightarrow> \<not> sameSubnetCheck a b" "dot_free b \<Longrightarrow> \<not> sameSubnetCheck a b"
  by (simp_all add: sameSubnetCheck_def dot_free_def split_on_none)

lemma extractApiKey_Inr:
  "extractApiKey req = Inr k \<longleftrightarrow>
   (\<exists>s. rq_headers req ''x-api-key'' = Some (Single s) \<and> k = trim s \<and> k \<noteq> '''')"
  by (auto simp: extractApiKey_def split: option.splits header.splits)

text \<open>The level order of a forest of validation errors, the order the work list visits.\<close>

function levels :: "verror list \<Rightarrow> verror list list" where
  "levels [] = []"
| "levels (e # es) = (e # es) # levels (concat (List.map v_children (e # es)))"
  by pat_completeness auto

lemma children_size_list:
  "sum_list (List.map size (concat (List.map v_children es))) \<le> sum_list (List.map size es)"
proof (induction es)
  case (Cons e es)
  then show ?case using children_size [of e] by simp
qed simp

termination levels
proof (relation "measure (\<lambda>es. sum_list (List.map size es))")
  fix e es
  show "(concat (List.map v_children (e # es)), e # es) \<in> measure (\<lambda>es. sum_list (List.map size es))"
    using children_size [of e] children_size_list [of es] by simp
qed simp

definition first_some :: "('b \<Rightarrow> 'a option) \<Rightarrow> 'b list \<Rightarrow> 'a option" where
  "first_some f xs = (case dropWhile (\<lambda>x. f x = None) xs of [] \<Rightarrow> None | y # _ \<Rightarrow> f y)"

lemma first_some_simps [simp]:
  "first_some f [] = None"
  "first_some f (x # xs) = (case f x of Some y \<Rightarrow> Some y | None \<Rightarrow> first_some f xs)"
  by (auto simp: first_some_def split: option.splits)

lemma first_some_append:
  "first_some f (xs @ ys) = (case first_some f xs of Some y \<Rightarrow> Some y | None \<Rightarrow> first_some f ys)"
  by (induction xs) (auto split: option.splits)

lemma search_errors_prefix:
  "search_errors f (xs @ ys) =
   (case first_some f xs of
      Some x \<Rightarrow> Some x
    | None \<Rightarrow> search_errors f (ys @ concat (List.map v_children xs)))"
proof (induction xs arbitrary: ys)
  case (Cons x xs)
  show ?case
    using Cons.IH [of "ys @ v_children x"] by (auto split: option.splits)
qed simp

lemma search_errors_level_order: "search_errors f es = first_some f (concat (levels es))"
proof (induction es rule: levels.induct)
  case (2 e es)
  have "search_errors f (e # es) =
      (case first_some f (e # es) of Some x \<Rightarrow> Some x
       | None \<Rightarrow> search_errors f (concat (List.map v_children (e # es))))"
    using search_errors_prefix [of f "e # es" "[]"] by (simp only: append_Nil append_Nil2)
  then show ?case
    using 2 by (simp only: levels.simps concat.simps first_some_append)
qed simp

end
