(* ===== verification/Pagination.thy ===== *)
theory Pagination imports Utils begin

text \<open>
  Paged listings: the query and response of \<open>src/src/interfaces/DTO/pagination.dto.ts\<close>, and
  the contract that the \<open>findAll\<close> operations of the five services share. The contract is a
  locale; its client lemma says that walking the pages visits every row exactly once.
\<close>

record pagination_query =
  q_page :: int
  q_limit :: int

text \<open>\<open>new PaginationQueryDto()\<close>, and the validation of its fields.\<close>

definition PaginationQueryDto :: pagination_query where
  "PaginationQueryDto = \<lparr>q_page = 1, q_limit = 20\<rparr>"

definition valid_query :: "pagination_query \<Rightarrow> bool" where
  "valid_query q \<longleftrightarrow> 1 \<le> q_page q \<and> 1 \<le> q_limit q \<and> q_limit q \<le> 100"

record 'e paginated =
  pg_data :: "'e list"
  pg_total :: nat
  pg_page :: int
  pg_limit :: int
  pg_totalPages :: int

text \<open>The constructor of \<open>PaginatedResponseDto\<close>; the quotient is exact before \<open>Math.ceil\<close>.\<close>

definition PaginatedResponseDto :: "'e list \<Rightarrow> nat \<Rightarrow> int \<Rightarrow> int \<Rightarrow> 'e paginated" where
  "PaginatedResponseDto data count page limit =
     \<lparr>pg_data = data, pg_total = count, pg_page = page, pg_limit = limit,
      pg_totalPages = (if count = 0 then 0 else \<lceil>(of_nat count :: rat) / of_int limit\<rceil>)\<rparr>"

text \<open>\<open>skip: (page - 1) * limit, take: limit\<close>.\<close>

definition find_and_count ::
  "('d, 'e) orm \<Rightarrow> ('e \<Rightarrow> string list) \<Rightarrow> pagination_query \<Rightarrow> 'd \<Rightarrow> exn + 'e list \<times> nat" where
  "find_and_count G key q d = orm_page G key ((q_page q - 1) * q_limit q) (q_limit q) d"

section \<open>Ordered listings are unique\<close>

lemma sorted_wrt_unique:
  assumes "sorted_wrt P xs" "sorted_wrt P ys" "distinct xs" "distinct ys" "set xs = set ys"
    and anti: "\<And>a b. a \<in> set xs \<Longrightarrow> b \<in> set xs \<Longrightarrow> P a b \<Longrightarrow> P b a \<Longrightarrow> a = b"
  shows "xs = ys"
  using assms
proof (induction xs arbitrary: ys)
  case Nil
  then show ?case by simp
next
  case (Cons x xs)
  then obtain y ys' where ys: "ys = y # ys'" by (cases ys) auto
  have "x = y"
  proof (rule ccontr)
    assume "x \<noteq> y"
    have "x \<in> set (y # ys')" "y \<in> set (x # xs)" using Cons.prems(5) ys by auto
    with \<open>x \<noteq> y\<close> have "x \<in> set ys'" "y \<in> set xs" by auto
    with Cons.prems ys have "P y x" "P x y" by auto
    with Cons.prems(6) [of x y] \<open>y \<in> set xs\<close> \<open>x \<noteq> y\<close> show False by simp
  qed
  moreover have "set xs = set ys'" using Cons.prems(3-5) ys \<open>x = y\<close> by (auto simp: insert_ident)
  ultimately show ?case using Cons ys by auto
qed

lemma lists_rows_unique:
  assumes "orm_laws G T" "inj_on key S" "lists_rows T key S L" "lists_rows T key S L'"
  shows "L = L'"
proof (rule sorted_wrt_unique)
  show "sorted_wrt (\<lambda>a b. collate T (key a) (key b)) L" "sorted_wrt (\<lambda>a b. collate T (key a) (key b)) L'"
    "distinct L" "distinct L'" "set L = set L'"
    using assms by (auto simp: lists_rows_def)
  fix a b assume "a \<in> set L" "b \<in> set L" "collate T (key a) (key b)" "collate T (key b) (key a)"
  moreover have "collation_laws (collate T)" by (rule orm_lawsD(7) [OF assms(1)])
  ultimately show "a = b" using assms(2,3) by (auto simp: collation_laws_def lists_rows_def dest: inj_onD)
qed

text \<open>The rows of a table in the order of a key that tells them apart.\<close>

definition ordered_rows :: "('d, 'e) table \<Rightarrow> ('e \<Rightarrow> string list) \<Rightarrow> 'd \<Rightarrow> 'e list" where
  "ordered_rows T key d = (THE L. lists_rows T key (rows T d) L)"

lemma ordered_rows_eq:
  assumes "orm_laws G T" "inj_on key (rows T d)" "lists_rows T key (rows T d) L"
  shows "ordered_rows T key d = L"
  unfolding ordered_rows_def using assms by (blast intro: lists_rows_unique)

lemma find_and_count_law:
  assumes "orm_laws G T" "inj_on key (rows T d)" "1 \<le> q_page q" "1 \<le> q_limit q"
  shows "find_and_count G key q d = Inr (es, n) \<Longrightarrow>
      es = take (nat (q_limit q)) (drop (nat ((q_page q - 1) * q_limit q)) (ordered_rows T key d)) \<and>
      n = length (ordered_rows T key d) \<and> lists_rows T key (rows T d) (ordered_rows T key d)"
    and "find_and_count G key q d = Inl x \<Longrightarrow> \<not> answers T d"
proof -
  have nn: "0 \<le> (q_page q - 1) * q_limit q" "0 \<le> q_limit q" using assms(3,4) by auto
  show "es = take (nat (q_limit q)) (drop (nat ((q_page q - 1) * q_limit q)) (ordered_rows T key d)) \<and>
      n = length (ordered_rows T key d) \<and> lists_rows T key (rows T d) (ordered_rows T key d)"
    if "find_and_count G key q d = Inr (es, n)"
    using page_law(1) [OF assms(1) nn, of key d es n] that ordered_rows_eq [OF assms(1,2)]
    by (auto simp: find_and_count_def)
  show "\<not> answers T d" if "find_and_count G key q d = Inl x"
    using page_law(2) [OF assms(1) nn] that by (auto simp: find_and_count_def)
qed

text \<open>The page a service reads while the database answers.\<close>

definition listing_available ::
  "('d, 'e) orm \<Rightarrow> ('d, 'e) table \<Rightarrow> ('e \<Rightarrow> string list) \<Rightarrow> 'd \<Rightarrow> bool" where
  "listing_available G T key d \<longleftrightarrow> orm_laws G T \<and> answers T d \<and> inj_on key (rows T d)"

lemma find_and_count_run:
  assumes "listing_available G T key d" "1 \<le> q_page q" "1 \<le> q_limit q"
  shows "find_and_count G key q d =
    Inr (take (nat (q_limit q)) (drop (nat ((q_page q - 1) * q_limit q)) (ordered_rows T key d)),
         length (ordered_rows T key d))"
proof (cases "find_and_count G key q d")
  case (Inl x)
  then show ?thesis
    using find_and_count_law(2) [of G T key d q x] assms by (simp add: listing_available_def)
next
  case (Inr p)
  then obtain es n where "find_and_count G key q d = Inr (es, n)" by (cases p) auto
  then show ?thesis
    using find_and_count_law(1) [of G T key d q es n] assms by (simp add: listing_available_def)
qed

lemma ordered_rows_listing:
  assumes "listing_available G T key d"
  shows "set (ordered_rows T key d) = rows T d" "distinct (ordered_rows T key d)"
proof -
  let ?q = "\<lparr>q_page = 1, q_limit = 1\<rparr>"
  have "lists_rows T key (rows T d) (ordered_rows T key d)"
    using find_and_count_run [OF assms, of ?q] assms
      find_and_count_law(1) [of G T key d ?q] by (simp add: listing_available_def)
  then show "set (ordered_rows T key d) = rows T d" "distinct (ordered_rows T key d)"
    by (simp_all add: lists_rows_def)
qed

section \<open>The contract of a paged listing\<close>

text \<open>Cutting a list into pages of \<open>n\<close> and joining them gives the list back.\<close>

lemma concat_pages:
  assumes "0 < n" "length L \<le> m * n"
  shows "concat (List.map (\<lambda>i. take n (drop (i * n) L)) [0..<m]) = L"
  using assms(2)
proof (induction m arbitrary: L)
  case 0
  then show ?case by simp
next
  case (Suc m)
  have "[0..<Suc m] = 0 # List.map Suc [0..<m]" by (simp add: map_Suc_upt upt_conv_Cons del: upt_Suc)
  then have "concat (List.map (\<lambda>i. take n (drop (i * n) L)) [0..<Suc m]) =
      take n L @ concat (List.map (\<lambda>i. take n (drop (i * n) (drop n L))) [0..<m])"
    by (simp add: comp_def add.commute del: upt_Suc)
  also have "\<dots> = take n L @ drop n L" using Suc.prems by (subst Suc.IH) auto
  finally show ?case by simp
qed

lemma total_pages_enough:
  assumes "0 < limit"
  shows "count \<le> nat (pg_totalPages (PaginatedResponseDto xs count page limit)) * nat limit"
proof (cases "count = 0")
  case True
  then show ?thesis by simp
next
  case False
  let ?c = "\<lceil>(of_nat count :: rat) / of_int limit\<rceil>"
  have "(of_nat count :: rat) / of_int limit \<le> of_int ?c" by (rule le_of_int_ceiling)
  then have "(of_nat count :: rat) \<le> of_int ?c * of_int limit"
    using assms by (simp only: pos_divide_le_eq of_int_0_less_iff)
  then have "(of_int (int count) :: rat) \<le> of_int (?c * limit)" by simp
  then have *: "int count \<le> ?c * limit" by (simp only: of_int_le_iff)
  have "0 \<le> ?c"
  proof (rule ccontr)
    assume "\<not> 0 \<le> ?c"
    then have "?c * limit \<le> 0" using assms by (simp add: mult_nonpos_nonneg)
    with * False show False by simp
  qed
  then have "int (nat ?c * nat limit) = ?c * limit" using assms by (simp only: of_nat_mult int_nat_eq) simp
  with * have "int count \<le> int (nat ?c * nat limit)" by simp
  then have "count \<le> nat ?c * nat limit" by (simp only: of_nat_le_iff)
  with False show ?thesis by (simp add: PaginatedResponseDto_def)
qed

locale paged_listing =
  fixes findAll :: "'env \<Rightarrow> pagination_query \<Rightarrow> 's \<Rightarrow> (exn + 'e paginated) \<times> 's"
    and available :: "'env \<Rightarrow> 's \<Rightarrow> bool"
    and ordered :: "'env \<Rightarrow> 's \<Rightarrow> 'e list"
    and stored :: "'env \<Rightarrow> 's \<Rightarrow> 'e set"
  assumes findAll_page: "available env s \<Longrightarrow> 1 \<le> q_page q \<Longrightarrow> 1 \<le> q_limit q \<Longrightarrow>
      findAll env q s =
        (Inr (PaginatedResponseDto
                (take (nat (q_limit q)) (drop (nat ((q_page q - 1) * q_limit q)) (ordered env s)))
                (length (ordered env s)) (q_page q) (q_limit q)), s)"
    and ordered_stored: "available env s \<Longrightarrow> set (ordered env s) = stored env s"
    and ordered_distinct: "available env s \<Longrightarrow> distinct (ordered env s)"
begin

definition page_data :: "'env \<Rightarrow> int \<Rightarrow> 's \<Rightarrow> int \<Rightarrow> 'e list" where
  "page_data env limit s page =
     (case findAll env \<lparr>q_page = page, q_limit = limit\<rparr> s of (Inr p, _) \<Rightarrow> pg_data p | (Inl _, _) \<Rightarrow> [])"

lemma page_data_eq:
  assumes "available env s" "1 \<le> limit"
  shows "page_data env limit s (int i + 1) = take (nat limit) (drop (i * nat limit) (ordered env s))"
  using assms by (simp add: page_data_def findAll_page PaginatedResponseDto_def nat_mult_distrib)

lemma walk_pages:
  assumes "available env s" "1 \<le> limit" "length (ordered env s) \<le> m * nat limit"
  shows "concat (List.map (\<lambda>i. page_data env limit s (int i + 1)) [0..<m]) = ordered env s"
  using assms concat_pages [of "nat limit" "ordered env s" m] by (simp add: page_data_eq)

lemma page_bounds:
  assumes "available env s" "1 \<le> q_page q" "1 \<le> q_limit q" "findAll env q s = (Inr p, s')"
  shows "length (pg_data p) \<le> nat (q_limit q)" "pg_total p = card (stored env s)"
    "set (pg_data p) \<subseteq> stored env s" "s' = s"
  using findAll_page [OF assms(1-3)] assms(4) ordered_distinct [OF assms(1)]
    ordered_stored [OF assms(1)] distinct_card [of "ordered env s"]
  by (auto simp: PaginatedResponseDto_def dest: in_set_takeD in_set_dropD)

text \<open>A client that asks for every page up to \<open>totalPages\<close> receives each row once.\<close>

lemma walk_all_pages:
  assumes "available env s" "1 \<le> limit"
    and "findAll env \<lparr>q_page = 1, q_limit = limit\<rparr> s = (Inr p, s')"
    and "L = concat (List.map (\<lambda>i. page_data env limit s (int i + 1)) [0..<nat (pg_totalPages p)])"
  shows "set L = stored env s" "distinct L" "length L = pg_total p"
proof -
  have p: "p = PaginatedResponseDto (take (nat limit) (ordered env s)) (length (ordered env s)) 1 limit"
    using findAll_page [OF assms(1), of "\<lparr>q_page = 1, q_limit = limit\<rparr>"] assms(2,3) by simp
  have "length (ordered env s) \<le> nat (pg_totalPages p) * nat limit"
    unfolding p using assms(2) by (intro total_pages_enough) simp
  then have "L = ordered env s" unfolding assms(4) using assms(1,2) by (intro walk_pages)
  then show "set L = stored env s" "distinct L" "length L = pg_total p"
    using ordered_stored [OF assms(1)] ordered_distinct [OF assms(1)]
    by (simp_all add: p PaginatedResponseDto_def)
qed

end

end
