(* ===== verification/Permissions.thy ===== *)
theory Permissions imports Pagination begin

text \<open>
  The permissions component: \<open>PermissionsRepository\<close> and \<open>PermissionsService\<close> of
  \<open>src/src/services/permissions\<close>. A permission is a code that roles, API keys and endpoint
  rules refer to.
\<close>

section \<open>Repository\<close>

definition permissionsRepository_save ::
  "('r, 'd, 'q) env \<Rightarrow> permission \<Rightarrow> ('r, 'd, 'q, permission) service" where
  "permissionsRepository_save E perm = on_db (orm_save (permissions_orm E) perm)"

record permission_dto =
  dto_code :: string

definition permissionsRepository_create :: "permission_dto \<Rightarrow> auth_user option \<Rightarrow> permission" where
  "permissionsRepository_create dto created_by =
     \<lparr>p_id = '''', p_code = dto_code dto, p_created_by = created_by\<rparr>"

definition permissionsRepository_merge :: "permission \<Rightarrow> permission_dto \<Rightarrow> permission" where
  "permissionsRepository_merge perm dto = perm\<lparr>p_code := dto_code dto\<rparr>"

definition permissionsRepository_findOneById ::
  "('r, 'd, 'q) env \<Rightarrow> string \<Rightarrow> ('r, 'd, 'q, permission option) service" where
  "permissionsRepository_findOneById E pid =
     on_db (readE (orm_find_one (permissions_orm E) (\<lambda>p. p_id p = pid)))"

definition permission_order :: "permission \<Rightarrow> string list" where
  "permission_order p = [p_code p]"

definition permissionsRepository_findAll ::
  "('r, 'd, 'q) env \<Rightarrow> pagination_query \<Rightarrow> ('r, 'd, 'q, permission list \<times> nat) service" where
  "permissionsRepository_findAll E q =
     on_db (readE (find_and_count (permissions_orm E) permission_order q))"

definition permissionsRepository_findAllForDetails ::
  "('r, 'd, 'q) env \<Rightarrow> ('r, 'd, 'q, (string \<times> string) list) service" where
  "permissionsRepository_findAllForDetails E =
     bindE (on_db (readE (orm_select (permissions_orm E) (\<lambda>_. True) permission_order)))
       (\<lambda>ps. returnE (List.map (\<lambda>p. (p_id p, p_code p)) ps))"

definition permissionsRepository_remove ::
  "('r, 'd, 'q) env \<Rightarrow> permission \<Rightarrow> ('r, 'd, 'q, unit) service" where
  "permissionsRepository_remove E perm = on_db (orm_remove (permissions_orm E) perm)"

section \<open>Service\<close>

definition permissions_findOne ::
  "('r, 'd, 'q) env \<Rightarrow> string \<Rightarrow> ('r, 'd, 'q, permission) service" where
  "permissions_findOne E pid =
     bindE (permissionsRepository_findOneById E pid) (\<lambda>found.
       case found of
         None \<Rightarrow> throwE (permissions_exception (''Permission with id '' @ pid @ '' not found'')
                          permissions_error.PERMISSION_NOT_FOUND NOT_FOUND None)
       | Some perm \<Rightarrow> returnE perm)"

definition permissions_create ::
  "('r, 'd, 'q) env \<Rightarrow> permission_dto \<Rightarrow> auth_user option \<Rightarrow> ('r, 'd, 'q, permission) service" where
  "permissions_create E dto request_user =
     rethrow_as PermissionsException ''Permission creation failed''
       (PermissionsErrorCodes permissions_error.CREATE_PERMISSION_FAILED) INTERNAL_SERVER_ERROR
       (permissionsRepository_save E (permissionsRepository_create dto request_user))"

definition permissions_update ::
  "('r, 'd, 'q) env \<Rightarrow> string \<Rightarrow> permission_dto \<Rightarrow> ('r, 'd, 'q, permission) service" where
  "permissions_update E pid dto =
     rethrow_as PermissionsException ''Permission update failed''
       (PermissionsErrorCodes permissions_error.UPDATE_PERMISSION_FAILED) INTERNAL_SERVER_ERROR
       (bindE (permissions_findOne E pid) (\<lambda>perm.
          permissionsRepository_save E (permissionsRepository_merge perm dto)))"

definition permissions_delete :: "('r, 'd, 'q) env \<Rightarrow> string \<Rightarrow> ('r, 'd, 'q, string) service" where
  "permissions_delete E pid =
     rethrow_as PermissionsException ''Permission deletion failed''
       (PermissionsErrorCodes permissions_error.DELETE_PERMISSION_FAILED) INTERNAL_SERVER_ERROR
       (bindE (permissions_findOne E pid) (\<lambda>perm.
          thenE (permissionsRepository_remove E perm)
            (returnE (''Permission '' @ p_code perm @ '' deleted''))))"

definition permissions_getDetails ::
  "('r, 'd, 'q) env \<Rightarrow> ('r, 'd, 'q, (string \<times> string) list) service" where
  "permissions_getDetails E = permissionsRepository_findAllForDetails E"

definition permissions_findAll ::
  "('r, 'd, 'q) env \<Rightarrow> pagination_query \<Rightarrow> ('r, 'd, 'q, permission paginated) service" where
  "permissions_findAll E query =
     rethrow_as PermissionsException ''Permissions not found''
       (PermissionsErrorCodes permissions_error.PERMISSION_NOT_FOUND) NOT_FOUND
       (bindE (permissionsRepository_findAll E query) (\<lambda>(data, count).
          returnE (PaginatedResponseDto data count (q_page query) (q_limit query))))"

section \<open>Lemmas\<close>

lemmas permissions_repo = permissionsRepository_save_def permissionsRepository_create_def
  permissionsRepository_merge_def permissionsRepository_findOneById_def
  permissionsRepository_findAll_def permissionsRepository_findAllForDetails_def
  permissionsRepository_remove_def

text \<open>A lookup by identifier returns the row or rejects, and changes nothing.\<close>

lemma wp_permissions_findOne:
  assumes "orm_laws (permissions_orm E) T"
    and "\<And>p. p \<in> rows T (w_db w) \<Longrightarrow> p_id p = pid \<Longrightarrow> Q p w"
    and "\<And>e. (\<forall>p \<in> rows T (w_db w). p_id p \<noteq> pid) \<or> \<not> answers T (w_db w) \<Longrightarrow> F e w"
  shows "wp (permissions_findOne E pid) Q F w"
  unfolding permissions_findOne_def permissions_repo wp
  by (rule wp_db_find_one [OF assms(1)]) (auto simp: wp intro!: assms(2,3))

lemma readonly_permissions_findOne [simp]: "readonly (permissions_findOne E pid)"
  unfolding permissions_findOne_def permissions_repo by (auto split: option.splits)

text \<open>\<open>await Promise.all(ids.map((id) => this.permissionService.findOne(id)))\<close>: the permissions
  in the order of the identifiers.\<close>

lemma wp_permissions_findOnes:
  assumes "orm_laws (permissions_orm E) T"
    and "\<And>ps. list_all2 (\<lambda>pid p. p \<in> rows T (w_db w) \<and> p_id p = pid) ids ps \<Longrightarrow> Q ps w"
    and "\<And>e. F e w"
  shows "wp (mapE (permissions_findOne E) ids) Q F w"
proof -
  have "wp (mapE (permissions_findOne E) ids) Q (\<lambda>e t. F e w \<and> t = w) w"
  proof (rule wp_mapE [where I = "\<lambda>t. t = w"])
    fix pid t assume "t = w"
    show "wp (permissions_findOne E pid)
      (\<lambda>p t'. (p \<in> rows T (w_db w) \<and> p_id p = pid) \<and> t' = w) (\<lambda>e t'. F e w \<and> t' = w) t"
      by (rule wp_permissions_findOne [OF assms(1)]) (use \<open>t = w\<close> assms(3) in auto)
  qed (use assms(2) in auto)
  then show ?thesis by (rule wp_mono) auto
qed

definition permissions_listing :: "('r, 'd, 'q) env \<times> ('d, permission) table \<Rightarrow> ('r, 'd, 'q) world \<Rightarrow> bool" where
  "permissions_listing ET w \<longleftrightarrow> listing_available (permissions_orm (fst ET)) (snd ET) permission_order (w_db w)"

lemma find_and_count_service:
  assumes "listing_available G T key (w_db w)" "1 \<le> q_page q" "1 \<le> q_limit q"
  shows "bindE (on_db (readE (find_and_count G key q))) (\<lambda>(data, count).
          returnE (PaginatedResponseDto data count (q_page q) (q_limit q))) w =
    (Inr (PaginatedResponseDto
            (take (nat (q_limit q)) (drop (nat ((q_page q - 1) * q_limit q)) (ordered_rows T key (w_db w))))
            (length (ordered_rows T key (w_db w))) (q_page q) (q_limit q)), w)"
  by (simp add: bindE_def on_db_def zoomE_def readE_def returnE_def find_and_count_run [OF assms])

interpretation permission_pages: paged_listing
  "\<lambda>ET q w. permissions_findAll (fst ET) q w" permissions_listing
  "\<lambda>ET w. ordered_rows (snd ET) permission_order (w_db w)" "\<lambda>ET w. rows (snd ET) (w_db w)"
  by unfold_locales
    (simp_all add: permissions_listing_def permissions_findAll_def permissions_repo rethrow_as_def
      catchE_def find_and_count_service ordered_rows_listing)

end
