(* ===== verification/Sessions.thy ===== *)
theory Sessions imports Permissions begin

text \<open>
  The sessions component: \<open>SessionsService\<close> of \<open>src/src/services/sessions\<close>. A session is a
  document under \<open>auth_session:<sid>\<close>; the set \<open>user_sessions:<user id>\<close> indexes the sessions
  of a user and may name sessions that have expired since.
\<close>

definition session_key :: "string \<Rightarrow> string" where
  "session_key sid = ''auth_session:'' @ sid"

definition user_index :: "string \<Rightarrow> string" where
  "user_index userId = ''user_sessions:'' @ userId"

section \<open>Service\<close>

text \<open>\<open>raw ? (JSON.parse(raw) as Session) : null\<close> on the reply of \<open>GET auth_session:<sid>\<close>.\<close>

definition read_session :: "('r, 'd, 'q) env \<Rightarrow> string \<Rightarrow> ('r, 'd, 'q, session option) service" where
  "read_session E sid =
     bindE (raw_get E (session_key sid)) (\<lambda>raw. liftE (parse_or_null parse_session raw))"

text \<open>The loop of \<open>findUserSessions\<close> over the pairs \<open>(sids[i], raws[i])\<close>.\<close>

fun collect_sessions ::
  "('r, 'd, 'q) env \<Rightarrow> string \<Rightarrow> (string \<times> doc option) list \<Rightarrow> ('r, 'd, 'q, (string \<times> session) list) service"
where
  "collect_sessions E indexKey [] = returnE []"
| "collect_sessions E indexKey ((sid, raw) # rest) =
     (case parse_or_null parse_session raw of
        Inr (Some parsed) \<Rightarrow>
          bindE (collect_sessions E indexKey rest) (\<lambda>sessions. returnE ((sid, parsed) # sessions))
      | _ \<Rightarrow> thenE (raw_write E (SREM indexKey sid)) (collect_sessions E indexKey rest))"

definition findUserSessions ::
  "('r, 'd, 'q) env \<Rightarrow> string \<Rightarrow> ('r, 'd, 'q, (string \<times> session) list \<times> nat) service" where
  "findUserSessions E userId =
     bindE (raw_sMembers E (user_index userId)) (\<lambda>sids.
       if sids = [] then returnE ([], 0)
       else bindE (raw_mGet E (List.map session_key sids)) (\<lambda>raws.
         bindE (collect_sessions E (user_index userId) (zip sids raws)) (\<lambda>sessions.
           returnE (sessions, length sessions))))"

definition deactivateSession :: "('r, 'd, 'q) env \<Rightarrow> string \<Rightarrow> ('r, 'd, 'q, string) service" where
  "deactivateSession E sid =
     bindE (read_session E sid) (\<lambda>session.
       case session of
         Some s \<Rightarrow>
           thenE (raw_write E (SET (session_key sid) (SessionDoc (s\<lparr>s_active := False\<rparr>)) KEEPTTL))
             (returnE ''Session deactivated'')
       | None \<Rightarrow> returnE ''Session not found'')"

text \<open>The command that the loop of \<open>refreshSessionPermissions\<close> queues for one session.\<close>

definition refresh_command :: "string \<Rightarrow> string list \<Rightarrow> string \<times> doc option \<Rightarrow> command" where
  "refresh_command indexKey permissions entry =
     (case entry of (sid, raw) \<Rightarrow>
        (case parse_or_null parse_session raw of
           Inr (Some parsed) \<Rightarrow>
             SET (session_key sid) (SessionDoc (parsed\<lparr>s_permissions := permissions\<rparr>)) KEEPTTL
         | _ \<Rightarrow> SREM indexKey sid))"

definition refreshSessionPermissions ::
  "('r, 'd, 'q) env \<Rightarrow> string \<Rightarrow> string list \<Rightarrow> ('r, 'd, 'q, unit) service" where
  "refreshSessionPermissions E userId permissions =
     bindE (raw_sMembers E (user_index userId)) (\<lambda>sids.
       if sids = [] then returnE ()
       else bindE (raw_mGet E (List.map session_key sids)) (\<lambda>raws.
         raw_exec E (List.map (refresh_command (user_index userId) permissions) (zip sids raws))))"

definition refreshSessionPermissionsByRole :: "('r, 'd, 'q) env \<Rightarrow> string \<Rightarrow> ('r, 'd, 'q, unit) service" where
  "refreshSessionPermissionsByRole E roleId =
     bindE (on_db (readE (users_by_role E (\<lambda>role. r_id role = roleId)))) (\<lambda>users.
       if users = [] then returnE ()
       else forE users (\<lambda>user. refreshSessionPermissions E (u_id user) (user_permissionCodes user)))"

section \<open>The sessions a server holds\<close>

definition session_at :: "redis_view \<Rightarrow> string \<Rightarrow> session option" where
  "session_at v sid = (case val v (session_key sid) of Some (SessionDoc s) \<Rightarrow> Some s | _ \<Rightarrow> None)"

text \<open>Every document under a session key is a session.\<close>

definition sessions_wf :: "redis_view \<Rightarrow> bool" where
  "sessions_wf v \<longleftrightarrow> (\<forall>sid d. val v (session_key sid) = Some d \<longrightarrow> (\<exists>s. d = SessionDoc s))"

lemma session_key_eq [simp]: "session_key a = session_key b \<longleftrightarrow> a = b"
  by (simp add: session_key_def)

lemma user_index_eq [simp]: "user_index a = user_index b \<longleftrightarrow> a = b"
  by (simp add: user_index_def)

lemma session_index_keys [simp]: "session_key a \<noteq> user_index b" "user_index b \<noteq> session_key a"
  by (simp_all add: session_key_def user_index_def)

lemma session_at_Some: "session_at v sid = Some s \<longleftrightarrow> val v (session_key sid) = Some (SessionDoc s)"
  by (simp add: session_at_def split: option.splits doc.splits)

lemma session_at_parse: "parse_or_null parse_session (val v (session_key sid)) = Inr x \<Longrightarrow> x = session_at v sid"
  by (cases x) (auto simp: session_at_def parse_or_null_def split: option.splits doc.splits if_splits)

lemma case_session_at:
  "(case parse_or_null parse_session (val v (session_key sid)) of Inr (Some s) \<Rightarrow> f s | _ \<Rightarrow> g) =
   (case session_at v sid of Some s \<Rightarrow> f s | None \<Rightarrow> g)"
proof (cases "val v (session_key sid)")
  case (Some d)
  then show ?thesis by (cases d) (auto simp: session_at_def parse_or_null_def)
qed (simp add: session_at_def)

lemma parse_session_fails:
  "parse_or_null parse_session raw = Inl e \<Longrightarrow> \<exists>d. raw = Some d \<and> (\<forall>s. d \<noteq> SessionDoc s)"
  by (cases raw; cases "the raw") (auto simp: parse_or_null_def split: if_splits)

lemma session_at_exec [simp]:
  "session_at (exec_cmd (SET k d opt) v) sid =
     (if k = session_key sid then (case d of SessionDoc s \<Rightarrow> Some s | _ \<Rightarrow> None) else session_at v sid)"
  "session_at (exec_cmd (DEL k) v) sid = (if k = session_key sid then None else session_at v sid)"
  "session_at (exec_cmd (SADD k x) v) sid = session_at v sid"
  "session_at (exec_cmd (SREM k x) v) sid = session_at v sid"
  "session_at (exec_cmd (PEXPIRE k n) v) sid = session_at v sid"
  by (auto simp: session_at_def)

text \<open>Reading a session: the session the server holds, or an error, and no change.\<close>

lemma wp_read_session:
  assumes "redis_laws (redis_api E) view up"
    and "Q (session_at (view (w_redis w)) sid) w"
    and "\<And>e. \<not> up (w_redis w) \<or> \<not> sessions_wf (view (w_redis w)) \<Longrightarrow> F e w"
  shows "wp (read_session E sid) Q F w"
proof -
  let ?v = "view (w_redis w)"
  have "wp (liftE (parse_or_null parse_session (val ?v (session_key sid)))) Q F w"
  proof (cases "parse_or_null parse_session (val ?v (session_key sid))")
    case (Inl e)
    then have "\<not> sessions_wf ?v"
      by (auto simp: sessions_wf_def dest!: parse_session_fails)
    then show ?thesis using assms(3) Inl by (simp add: wp)
  next
    case (Inr x)
    then show ?thesis using assms(2) session_at_parse [OF Inr] by (simp add: wp)
  qed
  then show ?thesis unfolding read_session_def wp_bind
    by (intro wp_raw_get [OF assms(1)]) (use assms(3) in auto)
qed

text \<open>While the server answers and holds only sessions there, the read is the lookup.\<close>

lemma read_session_run:
  assumes "redis_laws (redis_api E) view up" "up (w_redis w)" "sessions_wf (view (w_redis w))"
  shows "read_session E sid w = (Inr (session_at (view (w_redis w)) sid), w)"
proof -
  have "wp (read_session E sid) (\<lambda>x t. x = session_at (view (w_redis w)) sid \<and> t = w) (\<lambda>_ _. False) w"
    by (rule wp_read_session [OF assms(1)]) (use assms in auto)
  then show ?thesis by (auto simp: wp_def split: prod.splits sum.splits)
qed

section \<open>The effect of refreshing permissions\<close>

text \<open>What the queued transaction does, command by command; \<open>v0\<close> is the view the replies were
  read from.\<close>

definition refresh_commands :: "redis_view \<Rightarrow> string \<Rightarrow> string list \<Rightarrow> string list \<Rightarrow> command list" where
  "refresh_commands v0 userId perms sids =
     List.map (\<lambda>sid. refresh_command (user_index userId) perms (sid, val v0 (session_key sid))) sids"

lemma refresh_command_cases:
  "refresh_command idx perms (sid, val v0 (session_key sid)) =
   (case session_at v0 sid of
      Some s \<Rightarrow> SET (session_key sid) (SessionDoc (s\<lparr>s_permissions := perms\<rparr>)) KEEPTTL
    | None \<Rightarrow> SREM idx sid)"
  by (simp add: refresh_command_def case_session_at)

lemma refresh_session_at:
  "session_at (exec_all (refresh_commands v0 userId perms sids) v) sid =
   (case session_at v0 sid of
      Some s \<Rightarrow> if sid \<in> set sids then Some (s\<lparr>s_permissions := perms\<rparr>) else session_at v sid
    | None \<Rightarrow> session_at v sid)"
  by (induction sids arbitrary: v)
    (auto simp: refresh_commands_def refresh_command_cases split: option.splits)

lemma refresh_val_other:
  "(\<And>sid. sid \<in> set sids \<Longrightarrow> k \<noteq> session_key sid) \<Longrightarrow>
   val (exec_all (refresh_commands v0 userId perms sids) v) k = val v k"
  by (induction sids arbitrary: v)
    (auto simp: refresh_commands_def refresh_command_cases split: option.splits)

lemma refresh_ttl: "ttl (exec_all (refresh_commands v0 userId perms sids) v) k = ttl v k"
  by (induction sids arbitrary: v)
    (auto simp: refresh_commands_def refresh_command_cases split: option.splits)

lemma refresh_index:
  "sets (exec_all (refresh_commands v0 userId perms sids) v) (user_index userId) =
   sets v (user_index userId) - {sid \<in> set sids. session_at v0 sid = None}"
  by (induction sids arbitrary: v)
    (auto simp: refresh_commands_def refresh_command_cases split: option.splits)

lemma refresh_other_index:
  "u \<noteq> userId \<Longrightarrow> sets (exec_all (refresh_commands v0 userId perms sids) v) (user_index u) =
   sets v (user_index u)"
  by (induction sids arbitrary: v)
    (auto simp: refresh_commands_def refresh_command_cases split: option.splits)

lemmas refresh_facts = refresh_session_at refresh_val_other refresh_ttl refresh_index refresh_other_index

lemma zip_map_snd: "zip xs (List.map f xs) = List.map (\<lambda>x. (x, f x)) xs"
  by (induction xs) auto

text \<open>The abstract step: every session the index of the user names carries the permissions,
  with its time to live and the rest as they were, and the index names live sessions only.\<close>

definition permissions_refreshed :: "string \<Rightarrow> string list \<Rightarrow> redis_view \<Rightarrow> redis_view \<Rightarrow> bool" where
  "permissions_refreshed userId perms v v' \<longleftrightarrow>
     (\<forall>sid. session_at v' sid =
        (if sid \<in> sets v (user_index userId)
         then map_option (\<lambda>s. s\<lparr>s_permissions := perms\<rparr>) (session_at v sid) else session_at v sid)) \<and>
     (\<forall>k. ttl v' k = ttl v k) \<and>
     (\<forall>k. k \<notin> session_key ` sets v (user_index userId) \<longrightarrow> val v' k = val v k) \<and>
     sets v' (user_index userId) = {sid \<in> sets v (user_index userId). session_at v sid \<noteq> None} \<and>
     (\<forall>u. u \<noteq> userId \<longrightarrow> sets v' (user_index u) = sets v (user_index u))"

lemma exec_refresh_commands:
  assumes "set sids = sets v (user_index userId)"
  shows "permissions_refreshed userId perms v (exec_all (refresh_commands v userId perms sids) v)"
  unfolding permissions_refreshed_def refresh_session_at refresh_ttl refresh_index
  using assms by (auto simp: refresh_other_index split: option.splits intro!: refresh_val_other)

lemma permissions_refreshed_none:
  "sets v (user_index userId) = {} \<Longrightarrow> permissions_refreshed userId perms v v"
  by (auto simp: permissions_refreshed_def)

text \<open>The call refines the abstract step; when it fails it did nothing or the whole step.\<close>

lemma wp_refreshSessionPermissions:
  assumes laws: "redis_laws (redis_api E) view up"
    and Q: "\<And>r'. permissions_refreshed userId perms (view (w_redis w)) (view r') \<Longrightarrow>
      (up (w_redis w) \<Longrightarrow> up r') \<Longrightarrow> Q () (w\<lparr>w_redis := r'\<rparr>)"
    and F: "\<And>e r'. view r' = view (w_redis w) \<or>
        permissions_refreshed userId perms (view (w_redis w)) (view r') \<Longrightarrow>
      \<not> up (w_redis w) \<Longrightarrow> F e (w\<lparr>w_redis := r'\<rparr>)"
  shows "wp (refreshSessionPermissions E userId perms) Q F w"
proof -
  let ?v = "view (w_redis w)"
  have F0: "\<And>e. \<not> up (w_redis w) \<Longrightarrow> F e w" using F [of "w_redis w"] by simp
  show ?thesis unfolding refreshSessionPermissions_def wp_bind
  proof (rule wp_raw_sMembers [OF laws])
    fix sids assume sids: "set sids = sets ?v (user_index userId)" "distinct sids"
    show "wp (if sids = [] then returnE ()
       else bindE (raw_mGet E (List.map session_key sids)) (\<lambda>raws.
         raw_exec E (List.map (refresh_command (user_index userId) perms) (zip sids raws)))) Q F w"
    proof (cases "sids = []")
      case True
      then show ?thesis
        using Q [of "w_redis w"] sids by (simp add: wp permissions_refreshed_none)
    next
      case False
      have cmds: "List.map (refresh_command (user_index userId) perms)
          (zip sids (List.map (val ?v) (List.map session_key sids))) = refresh_commands ?v userId perms sids"
        by (simp add: zip_map_snd refresh_commands_def comp_def)
      have "wp (raw_exec E (List.map (refresh_command (user_index userId) perms)
          (zip sids (List.map (val ?v) (List.map session_key sids))))) Q F w"
        unfolding cmds by (rule wp_raw_exec [OF laws]) (use exec_refresh_commands [OF sids(1)] Q F in auto)
      with False F0 show ?thesis
        by (simp only: if_False wp_bind) (intro wp_raw_mGet [OF laws], auto)
    qed
  qed (rule F0)
qed

section \<open>The effect of listing sessions\<close>

definition live_entries :: "redis_view \<Rightarrow> string list \<Rightarrow> (string \<times> session) list" where
  "live_entries v sids = List.map (\<lambda>sid. (sid, the (session_at v sid))) (filter (\<lambda>sid. session_at v sid \<noteq> None) sids)"

definition pruned :: "string \<Rightarrow> string list \<Rightarrow> redis_view \<Rightarrow> redis_view \<Rightarrow> redis_view" where
  "pruned userId sids v0 v =
     fold (\<lambda>sid. if session_at v0 sid = None then exec_cmd (SREM (user_index userId) sid) else (\<lambda>x. x)) sids v"

lemma pruned_facts:
  "val (pruned userId sids v0 v) k = val v k"
  "ttl (pruned userId sids v0 v) k = ttl v k"
  "sets (pruned userId sids v0 v) k =
     (if k = user_index userId then sets v k - {sid \<in> set sids. session_at v0 sid = None} else sets v k)"
  unfolding pruned_def by (induction sids arbitrary: v) auto

lemma collect_sessions_case:
  "collect_sessions E idx ((sid, val v (session_key sid)) # rest) =
   (case session_at v sid of
      Some s \<Rightarrow> bindE (collect_sessions E idx rest) (\<lambda>sessions. returnE ((sid, s) # sessions))
    | None \<Rightarrow> thenE (raw_write E (SREM idx sid)) (collect_sessions E idx rest))"
  by (simp add: case_session_at)

lemma wp_collect_sessions:
  assumes "redis_laws (redis_api E) view up" "up (w_redis w)"
    and "\<And>r'. view r' = pruned userId sids v0 (view (w_redis w)) \<Longrightarrow> up r' \<Longrightarrow>
      Q (live_entries v0 sids) (w\<lparr>w_redis := r'\<rparr>)"
  shows "wp (collect_sessions E (user_index userId) (List.map (\<lambda>sid. (sid, val v0 (session_key sid))) sids)) Q F w"
  using assms(2,3)
proof (induction sids arbitrary: w Q)
  case Nil
  show ?case using Nil.prems(2) [of "w_redis w"] Nil.prems(1) by (simp add: wp live_entries_def pruned_def)
next
  case (Cons sid sids)
  show ?case
  proof (cases "session_at v0 sid")
    case None
    have "wp (raw_write E (SREM (user_index userId) sid))
        (\<lambda>_. wp (collect_sessions E (user_index userId) (List.map (\<lambda>sid. (sid, val v0 (session_key sid))) sids)) Q F) F w"
    proof (rule wp_raw_write [OF assms(1)])
      fix r' assume r': "view r' = exec_cmd (SREM (user_index userId) sid) (view (w_redis w))"
        "up (w_redis w) \<Longrightarrow> up r'"
      show "wp (collect_sessions E (user_index userId) (List.map (\<lambda>sid. (sid, val v0 (session_key sid))) sids)) Q F
          (w\<lparr>w_redis := r'\<rparr>)"
      proof (rule Cons.IH)
        fix r'' assume "view r'' = pruned userId sids v0 (view (w_redis (w\<lparr>w_redis := r'\<rparr>)))" "up r''"
        then show "Q (live_entries v0 sids) (w\<lparr>w_redis := r'\<rparr>\<lparr>w_redis := r''\<rparr>)"
          using Cons.prems(2) [of r''] None r' by (simp add: live_entries_def pruned_def)
      qed (use r' Cons.prems(1) in simp)
    qed (use Cons.prems(1) in simp)
    then show ?thesis using None by (simp only: list.map collect_sessions_case option.case wp_then)
  next
    case (Some s)
    have "wp (collect_sessions E (user_index userId) (List.map (\<lambda>sid. (sid, val v0 (session_key sid))) sids))
        (\<lambda>sessions. Q ((sid, s) # sessions)) F w"
      by (rule Cons.IH) (use Cons.prems Some in \<open>simp_all add: live_entries_def pruned_def\<close>)
    then show ?thesis using Some
      by (simp add: collect_sessions_case wp_bind wp_return del: collect_sessions.simps)
  qed
qed

text \<open>The list holds exactly the live sessions the index names, each once, and the dangling
  entries are gone from the index.\<close>

lemma wp_findUserSessions:
  assumes laws: "redis_laws (redis_api E) view up" "up (w_redis w)"
    and Q: "\<And>r' sids. set sids = sets (view (w_redis w)) (user_index userId) \<Longrightarrow> distinct sids \<Longrightarrow>
      view r' = pruned userId sids (view (w_redis w)) (view (w_redis w)) \<Longrightarrow> up r' \<Longrightarrow>
      Q (live_entries (view (w_redis w)) sids, length (live_entries (view (w_redis w)) sids))
        (w\<lparr>w_redis := r'\<rparr>)"
  shows "wp (findUserSessions E userId) Q F w"
  unfolding findUserSessions_def wp_bind
proof (rule wp_raw_sMembers [OF laws(1)])
  let ?v = "view (w_redis w)"
  fix sids assume sids: "set sids = sets ?v (user_index userId)" "distinct sids"
  have "wp (bindE (collect_sessions E (user_index userId)
      (zip sids (List.map (val ?v) (List.map session_key sids)))) (\<lambda>sessions. returnE (sessions, length sessions))) Q F w"
    unfolding wp_bind wp_return list.map_comp comp_def zip_map_snd
    by (rule wp_collect_sessions [OF laws]) (use Q [OF sids] in simp)
  then have "wp (bindE (raw_mGet E (List.map session_key sids)) (\<lambda>raws.
      bindE (collect_sessions E (user_index userId) (zip sids raws)) (\<lambda>sessions.
        returnE (sessions, length sessions)))) Q F w"
    unfolding wp_bind [of "raw_mGet E (List.map session_key sids)"]
    by (rule wp_raw_mGet [OF laws(1)]) (use laws(2) in simp)
  then show "wp (if sids = [] then returnE ([], 0)
       else bindE (raw_mGet E (List.map session_key sids)) (\<lambda>raws.
         bindE (collect_sessions E (user_index userId) (zip sids raws)) (\<lambda>sessions.
           returnE (sessions, length sessions)))) Q F w"
    using Q [OF sids, of "w_redis w"] laws(2)
    by (cases "sids = []") (simp_all add: wp_return live_entries_def pruned_def)
qed (use laws in simp)

end
