(* ===== verification/Roles.thy ===== *)
theory Roles imports Sessions begin

text \<open>
  The roles component: \<open>RolesRepository\<close> and \<open>RolesService\<close> of \<open>src/src/services/roles\<close>. Its
  \<open>assignPermissions\<close> also refreshes the sessions of the users that have the role.
\<close>

record role_dto =
  dto_name :: string
  dto_is_restricted :: bool

section \<open>Repository\<close>

definition rolesRepository_save :: "('r, 'd, 'q) env \<Rightarrow> role \<Rightarrow> ('r, 'd, 'q, role) service" where
  "rolesRepository_save E role = on_db (orm_save (roles_orm E) role)"

definition rolesRepository_create :: "role_dto \<Rightarrow> auth_user option \<Rightarrow> role" where
  "rolesRepository_create dto created_by =
     \<lparr>r_id = '''', r_name = dto_name dto, r_is_restricted = dto_is_restricted dto,
      r_created_by = created_by, r_permissions = []\<rparr>"

definition rolesRepository_merge :: "role \<Rightarrow> role_dto \<Rightarrow> role" where
  "rolesRepository_merge role dto =
     role\<lparr>r_name := dto_name dto, r_is_restricted := dto_is_restricted dto\<rparr>"

definition rolesRepository_findOneById ::
  "('r, 'd, 'q) env \<Rightarrow> string \<Rightarrow> ('r, 'd, 'q, role option) service" where
  "rolesRepository_findOneById E rid = on_db (readE (orm_find_one (roles_orm E) (\<lambda>r. r_id r = rid)))"

definition role_order :: "role \<Rightarrow> string list" where
  "role_order r = [r_name r]"

definition rolesRepository_findAll ::
  "('r, 'd, 'q) env \<Rightarrow> pagination_query \<Rightarrow> ('r, 'd, 'q, role list \<times> nat) service" where
  "rolesRepository_findAll E q = on_db (readE (find_and_count (roles_orm E) role_order q))"

definition rolesRepository_findAllUnrestrictedForDetails ::
  "('r, 'd, 'q) env \<Rightarrow> ('r, 'd, 'q, (string \<times> string) list) service" where
  "rolesRepository_findAllUnrestrictedForDetails E =
     bindE (on_db (readE (orm_select (roles_orm E) (\<lambda>r. r_is_restricted r = False) role_order)))
       (\<lambda>rs. returnE (List.map (\<lambda>r. (r_id r, r_name r)) rs))"

definition rolesRepository_findAllForDetails ::
  "('r, 'd, 'q) env \<Rightarrow> ('r, 'd, 'q, (string \<times> string) list) service" where
  "rolesRepository_findAllForDetails E =
     bindE (on_db (readE (orm_select (roles_orm E) (\<lambda>_. True) role_order)))
       (\<lambda>rs. returnE (List.map (\<lambda>r. (r_id r, r_name r)) rs))"

definition rolesRepository_remove :: "('r, 'd, 'q) env \<Rightarrow> role \<Rightarrow> ('r, 'd, 'q, unit) service" where
  "rolesRepository_remove E role = on_db (orm_remove (roles_orm E) role)"

section \<open>Service\<close>

definition roles_findOne :: "('r, 'd, 'q) env \<Rightarrow> string \<Rightarrow> ('r, 'd, 'q, role) service" where
  "roles_findOne E rid =
     bindE (rolesRepository_findOneById E rid) (\<lambda>found.
       case found of
         None \<Rightarrow> throwE (roles_exception (''Role with id '' @ rid @ '' not found'')
                          roles_error.ROLES_NOT_FOUND NOT_FOUND None)
       | Some role \<Rightarrow> returnE role)"

definition roles_create ::
  "('r, 'd, 'q) env \<Rightarrow> role_dto \<Rightarrow> auth_user option \<Rightarrow> ('r, 'd, 'q, role) service" where
  "roles_create E dto request_user =
     rethrow_as RolesException ''Role creation failed'' (RolesErrorCodes roles_error.ROLES_NOT_CREATED)
       INTERNAL_SERVER_ERROR
       (rolesRepository_save E (rolesRepository_create dto request_user))"

definition roles_update :: "('r, 'd, 'q) env \<Rightarrow> string \<Rightarrow> role_dto \<Rightarrow> ('r, 'd, 'q, role) service" where
  "roles_update E rid dto =
     rethrow_as RolesException ''Role update failed'' (RolesErrorCodes roles_error.ROLES_NOT_UPDATED)
       INTERNAL_SERVER_ERROR
       (bindE (roles_findOne E rid) (\<lambda>role. rolesRepository_save E (rolesRepository_merge role dto)))"

definition roles_delete :: "('r, 'd, 'q) env \<Rightarrow> string \<Rightarrow> ('r, 'd, 'q, string) service" where
  "roles_delete E rid =
     rethrow_as RolesException ''Role deletion failed'' (RolesErrorCodes roles_error.ROLES_NOT_DELETED)
       INTERNAL_SERVER_ERROR
       (bindE (roles_findOne E rid) (\<lambda>role.
          thenE (rolesRepository_remove E role) (returnE (''Role '' @ r_name role @ '' deleted''))))"

definition roles_getUnrestrictedDetails :: "('r, 'd, 'q) env \<Rightarrow> ('r, 'd, 'q, (string \<times> string) list) service" where
  "roles_getUnrestrictedDetails E = rolesRepository_findAllUnrestrictedForDetails E"

definition roles_getAllDetails :: "('r, 'd, 'q) env \<Rightarrow> ('r, 'd, 'q, (string \<times> string) list) service" where
  "roles_getAllDetails E = rolesRepository_findAllForDetails E"

definition roles_findAll ::
  "('r, 'd, 'q) env \<Rightarrow> pagination_query \<Rightarrow> ('r, 'd, 'q, role paginated) service" where
  "roles_findAll E query =
     rethrow_as RolesException ''Roles not found'' (RolesErrorCodes roles_error.ROLES_NOT_FOUND) NOT_FOUND
       (bindE (rolesRepository_findAll E query) (\<lambda>(data, count).
          returnE (PaginatedResponseDto data count (q_page query) (q_limit query))))"

definition roles_assignPermissions ::
  "('r, 'd, 'q) env \<Rightarrow> string \<Rightarrow> string list \<Rightarrow> ('r, 'd, 'q, role) service" where
  "roles_assignPermissions E roleId permissionsIds =
     rethrow_as RolesException ''Permission assignment failed''
       (RolesErrorCodes roles_error.ROLES_ASSIGN_ERROR) INTERNAL_SERVER_ERROR
       (bindE (roles_findOne E roleId) (\<lambda>role.
        bindE (mapE (permissions_findOne E) permissionsIds) (\<lambda>permissions.
        bindE (rolesRepository_save E (role\<lparr>r_permissions := permissions\<rparr>)) (\<lambda>savedRole.
        thenE (swallow (refreshSessionPermissionsByRole E roleId))
        (returnE savedRole)))))"

section \<open>Lemmas\<close>

lemmas roles_repo = rolesRepository_save_def rolesRepository_create_def rolesRepository_merge_def
  rolesRepository_findOneById_def rolesRepository_findAll_def rolesRepository_remove_def
  rolesRepository_findAllUnrestrictedForDetails_def rolesRepository_findAllForDetails_def

lemma wp_roles_findOne:
  assumes "orm_laws (roles_orm E) T"
    and "\<And>r. r \<in> rows T (w_db w) \<Longrightarrow> r_id r = rid \<Longrightarrow> Q r w"
    and "\<And>e. (\<forall>r \<in> rows T (w_db w). r_id r \<noteq> rid) \<or> \<not> answers T (w_db w) \<Longrightarrow> F e w"
  shows "wp (roles_findOne E rid) Q F w"
  unfolding roles_findOne_def roles_repo wp_bind
  by (rule wp_db_find_one [OF assms(1)]) (auto simp: wp intro!: assms(2,3))

lemma readonly_roles_findOne [simp]: "readonly (roles_findOne E rid)"
  unfolding roles_findOne_def roles_repo by (auto split: option.splits)

lemma wp_roles_findOnes:
  assumes "orm_laws (roles_orm E) T"
    and "\<And>rs. list_all2 (\<lambda>rid r. r \<in> rows T (w_db w) \<and> r_id r = rid) ids rs \<Longrightarrow> Q rs w"
    and "\<And>e. F e w"
  shows "wp (mapE (roles_findOne E) ids) Q F w"
proof -
  have "wp (mapE (roles_findOne E) ids) Q (\<lambda>e t. F e w \<and> t = w) w"
  proof (rule wp_mapE [where I = "\<lambda>t. t = w"])
    fix rid t assume "t = w"
    show "wp (roles_findOne E rid)
      (\<lambda>r t'. (r \<in> rows T (w_db w) \<and> r_id r = rid) \<and> t' = w) (\<lambda>e t'. F e w \<and> t' = w) t"
      by (rule wp_roles_findOne [OF assms(1)]) (use \<open>t = w\<close> assms(3) in auto)
  qed (use assms(2) in auto)
  then show ?thesis by (rule wp_mono) auto
qed

definition roles_listing :: "('r, 'd, 'q) env \<times> ('d, role) table \<Rightarrow> ('r, 'd, 'q) world \<Rightarrow> bool" where
  "roles_listing ET w \<longleftrightarrow> listing_available (roles_orm (fst ET)) (snd ET) role_order (w_db w)"

interpretation role_pages: paged_listing
  "\<lambda>ET q w. roles_findAll (fst ET) q w" roles_listing
  "\<lambda>ET w. ordered_rows (snd ET) role_order (w_db w)" "\<lambda>ET w. rows (snd ET) (w_db w)"
  by unfold_locales
    (simp_all add: roles_listing_def roles_findAll_def roles_repo rethrow_as_def
      catchE_def find_and_count_service ordered_rows_listing)

section \<open>Refreshing the sessions of a role\<close>

text \<open>The users to refresh, one abstract step each.\<close>

inductive refreshes :: "user list \<Rightarrow> redis_view \<Rightarrow> redis_view \<Rightarrow> bool" where
  refreshes_Nil: "refreshes [] v v"
| refreshes_Cons: "permissions_refreshed (u_id u) (user_permissionCodes u) v v' \<Longrightarrow> refreshes us v' v'' \<Longrightarrow>
    refreshes (u # us) v v''"

inductive_simps refreshes_simps: "refreshes [] v v'" "refreshes (u # us) v v'"

lemma wp_forE_refresh:
  assumes laws: "redis_laws (redis_api E) view up"
    and "up (w_redis w)"
    and "\<And>r'. refreshes us (view (w_redis w)) (view r') \<Longrightarrow> up r' \<Longrightarrow> Q () (w\<lparr>w_redis := r'\<rparr>)"
  shows "wp (forE us (\<lambda>user. refreshSessionPermissions E (u_id user) (user_permissionCodes user))) Q F w"
  using assms(2,3)
proof (induction us arbitrary: w)
  case Nil
  then show ?case using Nil.prems(2) [of "w_redis w"] by (simp add: wp refreshes_Nil)
next
  case (Cons u us)
  show ?case unfolding forE.simps wp_bind
  proof (rule wp_refreshSessionPermissions [OF laws])
    fix r' assume r': "permissions_refreshed (u_id u) (user_permissionCodes u) (view (w_redis w)) (view r')"
      "up (w_redis w) \<Longrightarrow> up r'"
    show "wp (forE us (\<lambda>user. refreshSessionPermissions E (u_id user) (user_permissionCodes user))) Q F
        (w\<lparr>w_redis := r'\<rparr>)"
    proof (rule Cons.IH)
      fix r'' assume "refreshes us (view (w_redis (w\<lparr>w_redis := r'\<rparr>))) (view r'')" "up r''"
      then show "Q () (w\<lparr>w_redis := r'\<rparr>\<lparr>w_redis := r''\<rparr>)"
        using Cons.prems(2) [of r''] r'(1) by (simp add: refreshes_Cons)
    qed (use r' Cons.prems(1) in simp)
  qed (use Cons.prems(1) in simp)
qed

text \<open>A session no listed user has is left as it was; one that listed users have ends with the codes
  of one of them.\<close>

lemma refreshes_keeps:
  assumes "refreshes us v v'"
  shows "ttl v' k = ttl v k" and "session_at v' sid = None \<longleftrightarrow> session_at v sid = None"
    and "sets v' (user_index uid) \<subseteq> sets v (user_index uid)"
    and "(\<And>u. u \<in> set us \<Longrightarrow> sid \<notin> sets v (user_index (u_id u))) \<Longrightarrow> session_at v' sid = session_at v sid"
  using assms
proof (induction rule: refreshes.induct)
  case (refreshes_Cons u v v' us v'')
  have step: "permissions_refreshed (u_id u) (user_permissionCodes u) v v'" by fact
  have sub: "sets v' (user_index i) \<subseteq> sets v (user_index i)" for i
    using step by (cases "i = u_id u") (auto simp: permissions_refreshed_def)
  {
    case 1 show ?case using refreshes_Cons step by (simp add: permissions_refreshed_def)
  next
    case 2 show ?case using refreshes_Cons step by (simp add: permissions_refreshed_def)
  next
    case 3 show ?case using refreshes_Cons sub by blast
  next
    case 4
    then have "session_at v'' sid = session_at v' sid"
      using refreshes_Cons sub by (meson list.set_intros(2) subsetD)
    moreover have "session_at v' sid = session_at v sid"
      using step 4 by (simp add: permissions_refreshed_def)
    ultimately show ?case by simp
  }
qed auto

lemma refreshes_sets_codes:
  assumes "refreshes us v v'" "session_at v sid = Some s"
    and "\<exists>u \<in> set us. sid \<in> sets v (user_index (u_id u))"
  shows "\<exists>u \<in> set us. sid \<in> sets v (user_index (u_id u)) \<and>
    session_at v' sid = Some (s\<lparr>s_permissions := user_permissionCodes u\<rparr>)"
  using assms
proof (induction arbitrary: s rule: refreshes.induct)
  case (refreshes_Cons u v v' us v'')
  have step: "permissions_refreshed (u_id u) (user_permissionCodes u) v v'" by fact
  have sub: "sets v' (user_index i) \<subseteq> sets v (user_index i)" for i
    using step by (cases "i = u_id u") (auto simp: permissions_refreshed_def)
  have sat: "session_at v' sid = (if sid \<in> sets v (user_index (u_id u))
      then Some (s\<lparr>s_permissions := user_permissionCodes u\<rparr>) else Some s)"
    using step refreshes_Cons.prems(1) by (simp add: permissions_refreshed_def)
  have live: "sid \<in> sets v' (user_index i)" if "sid \<in> sets v (user_index i)" for i
    using step that refreshes_Cons.prems(1) by (cases "i = u_id u") (auto simp: permissions_refreshed_def)
  show ?case
  proof (cases "\<exists>x \<in> set us. sid \<in> sets v (user_index (u_id x))")
    case True
    then have "\<exists>x \<in> set us. sid \<in> sets v' (user_index (u_id x))" using live by blast
    from refreshes_Cons.IH [OF _ this, of "the (session_at v' sid)"] sat
    obtain x where "x \<in> set us" "sid \<in> sets v' (user_index (u_id x))"
      "session_at v'' sid = Some ((the (session_at v' sid))\<lparr>s_permissions := user_permissionCodes x\<rparr>)"
      by auto
    then show ?thesis using sat sub by (intro bexI [where x = x]) (auto split: if_splits)
  next
    case False
    then have "session_at v'' sid = session_at v' sid"
      using refreshes_keeps(4) [OF refreshes_Cons.hyps(2)] sub by blast
    moreover have "sid \<in> sets v (user_index (u_id u))" using False refreshes_Cons.prems(2) by auto
    ultimately show ?thesis using sat by auto
  qed
qed simp

end
