(* ===== verification/Jwt.thy ===== *)
theory Jwt imports Roles begin

text \<open>
  The tokens component: \<open>JwtService\<close> of \<open>src/src/services/jwt\<close>. Signing and verifying are the
  library's (\<open>jwt_sign\<close>, \<open>jwt_verify\<close>); the service chooses secrets and lifetimes, checks
  the claims and decides when a refresh token is replaced.
\<close>

section \<open>Number\<close>

text \<open>\<open>Number(s)\<close> on a text: a decimal literal between white space, the empty text as 0;
  \<open>None\<close> for \<open>NaN\<close> and the infinities. Hexadecimal, octal and binary literals are not read.\<close>

definition digit :: "char \<Rightarrow> nat option" where
  "digit c = (let n = of_char c :: nat in if 48 \<le> n \<and> n \<le> 57 then Some (n - 48) else None)"

fun digits :: "nat \<Rightarrow> string \<Rightarrow> nat \<times> nat \<times> string" where
  "digits acc [] = (acc, 0, [])"
| "digits acc (c # cs) =
     (case digit c of
        None \<Rightarrow> (acc, 0, c # cs)
      | Some d \<Rightarrow> (case digits (acc * 10 + d) cs of (v, n, rest) \<Rightarrow> (v, Suc n, rest)))"

definition exponent :: "string \<Rightarrow> int option" where
  "exponent s =
     (case s of
        [] \<Rightarrow> Some 0
      | c # cs \<Rightarrow>
          if c = CHR ''e'' \<or> c = CHR ''E'' then
            (let (sgn, body) = (case cs of
                   [] \<Rightarrow> (1, [])
                 | x # xs \<Rightarrow> if x = CHR ''-'' then (-1, xs) else if x = CHR ''+'' then (1, xs) else (1, cs))
             in case digits 0 body of (v, n, rest) \<Rightarrow>
                  if 0 < n \<and> rest = [] then Some (sgn * int v) else None)
          else None)"

definition decimal :: "string \<Rightarrow> rat option" where
  "decimal s =
     (case digits 0 s of (v, n, rest) \<Rightarrow>
        (let (w, m, rest') = (case rest of
               [] \<Rightarrow> (v, 0, [])
             | c # cs \<Rightarrow> if c = CHR ''.'' then digits v cs else (v, 0, rest))
         in if n + m = 0 then None
            else (case exponent rest' of
                    None \<Rightarrow> None
                  | Some x \<Rightarrow>
                      Some (of_nat w / 10 ^ m * (if 0 \<le> x then 10 ^ nat x else 1 / 10 ^ nat (- x))))))"

definition js_Number :: "string \<Rightarrow> rat option" where
  "js_Number s =
     (case trim s of
        [] \<Rightarrow> Some 0
      | c # cs \<Rightarrow>
          if c = CHR ''-'' then map_option uminus (decimal cs)
          else if c = CHR ''+'' then decimal cs else decimal (c # cs))"

section \<open>Configuration\<close>

datatype token_type = RefreshToken | AuthToken

text \<open>\<open>this.configService.get(key, default)\<close>.\<close>

definition config_or :: "('r, 'd, 'q) env \<Rightarrow> string \<Rightarrow> string \<Rightarrow> string" where
  "config_or E key d = (case config E key of Some v \<Rightarrow> v | None \<Rightarrow> d)"

fun token_secret :: "('r, 'd, 'q) env \<Rightarrow> token_type \<Rightarrow> string" where
  "token_secret E AuthToken = config_or E ''JWT_AUTH_SECRET'' ''authSecret''"
| "token_secret E RefreshToken = config_or E ''JWT_REFRESH_SECRET'' ''refreshSecret''"

fun token_expiresIn :: "('r, 'd, 'q) env \<Rightarrow> token_type \<Rightarrow> string" where
  "token_expiresIn E AuthToken = config_or E ''JWT_AUTH_EXPIRES_IN'' ''1d''"
| "token_expiresIn E RefreshToken = config_or E ''JWT_REFRESH_EXPIRES_IN'' ''1d''"

definition refreshRenewThresholdMinutes :: "('r, 'd, 'q) env \<Rightarrow> rat" where
  "refreshRenewThresholdMinutes E =
     (case js_Number (config_or E ''JWT_REFRESH_RENEW_THRESHOLD_MINUTES'' ''20'') of
        Some threshold \<Rightarrow> if 0 \<le> threshold then threshold else 20
      | None \<Rightarrow> 20)"

section \<open>Service\<close>

text \<open>The claims the service signs: \<open>email\<close> and \<open>sid\<close>.\<close>

definition signToken ::
  "('r, 'd, 'q) env \<Rightarrow> string \<times> string \<Rightarrow> token_type \<Rightarrow> ('r, 'd, 'q, string) service" where
  "signToken E claims type =
     bindE (getE w_now) (\<lambda>now.
       case jwt_sign E claims (token_secret E type) (token_expiresIn E type) now of
         Inl err \<Rightarrow> throwE err
       | Inr token \<Rightarrow>
           if token = '''' then
             throwE (jwt_exception ''Token signing failed'' jwt_error.TOKEN_SIGNING_FAILED
                       INTERNAL_SERVER_ERROR None)
           else returnE token)"

definition generateToken ::
  "('r, 'd, 'q) env \<Rightarrow> string \<times> string \<Rightarrow> token_type \<Rightarrow> ('r, 'd, 'q, string) service" where
  "generateToken E claims type =
     rethrow_as JwtException ''Failed to generate token''
       (JwtErrorCodes jwt_error.TOKEN_GENERATION_FAILED) INTERNAL_SERVER_ERROR
       (signToken E claims type)"

definition missing :: "string option \<Rightarrow> bool" where
  "missing x = (x = None \<or> x = Some '''')"

definition check_claims :: "token_type \<Rightarrow> payload \<Rightarrow> exn + payload" where
  "check_claims type decoded =
     (if missing (pl_email decoded) \<or> pl_exp decoded = None \<or> pl_exp decoded = Some 0 then
        Inl (jwt_exception ''Token payload is invalid'' jwt_error.INVALID_PAYLOAD UNAUTHORIZED None)
      else if type = RefreshToken \<and> missing (pl_sid decoded) then
        Inl (jwt_exception ''Token payload is missing data'' jwt_error.PAYLOAD_MISSING_DATA UNAUTHORIZED None)
      else Inr decoded)"

text \<open>The three error classes of the library; \<open>TokenExpiredError\<close> and \<open>NotBeforeError\<close> extend
  \<open>JsonWebTokenError\<close>.\<close>

definition map_jwt_error :: "exn \<Rightarrow> exn" where
  "map_jwt_error error =
     (case error of
        JsError name _ _ _ \<Rightarrow>
          if name = ''TokenExpiredError'' then
            jwt_exception ''Token has expired'' jwt_error.TOKEN_EXPIRED UNAUTHORIZED None
          else if name = ''JsonWebTokenError'' \<or> name = ''NotBeforeError'' then
            jwt_exception ''Token verification failed'' jwt_error.TOKEN_VERIFICATION_FAILED UNAUTHORIZED None
          else error
      | _ \<Rightarrow> error)"

definition getPayload ::
  "('r, 'd, 'q) env \<Rightarrow> string \<Rightarrow> token_type \<Rightarrow> ('r, 'd, 'q, payload) service" where
  "getPayload E token type =
     catchE
       (bindE (getE w_now) (\<lambda>now.
        bindE (liftE (jwt_verify E token (token_secret E type) now)) (\<lambda>decoded.
        liftE (check_claims type decoded))))
       (\<lambda>error. throwE (map_jwt_error error))"

text \<open>\<open>dayjs.unix(exp).diff(dayjs(), 'minute')\<close>: whole minutes, truncated toward zero.\<close>

definition minutes_left :: "nat \<Rightarrow> int \<Rightarrow> int" where
  "minutes_left expiry now =
     (let d = int expiry * 1000 - now in if 0 \<le> d then d div 60000 else - ((- d) div 60000))"

definition rethrown_as_is :: "exn \<Rightarrow> bool" where
  "rethrown_as_is error =
     (case error of
        HttpException name _ _ _ _ \<Rightarrow>
          name = ''UnauthorizedException'' \<or> name = ''InternalServerErrorException''
      | _ \<Rightarrow> False)"

definition jwt_refreshToken ::
  "('r, 'd, 'q) env \<Rightarrow> string \<Rightarrow> ('r, 'd, 'q, auth_tokens) service" where
  "jwt_refreshToken E refreshToken =
     catchE
       (bindE (getPayload E refreshToken RefreshToken) (\<lambda>payload.
        bindE (getE w_now) (\<lambda>now.
        let shouldRotateRefresh =
              of_int (minutes_left (the (pl_exp payload)) now) < refreshRenewThresholdMinutes E;
            claims = (the (pl_email payload), the (pl_sid payload))
        in bindE (generateToken E claims AuthToken) (\<lambda>accessToken.
           bindE (if shouldRotateRefresh then generateToken E claims RefreshToken
                  else returnE refreshToken) (\<lambda>nextRefreshToken.
           returnE \<lparr>t_accessToken = accessToken, t_refreshToken = nextRefreshToken\<rparr>)))))
       (\<lambda>error.
          if rethrown_as_is error then throwE error
          else throwE (wrap_error JwtException ''Invalid refresh token''
                         (JwtErrorCodes jwt_error.INVALID_REFRESH_TOKEN) UNAUTHORIZED error))"

section \<open>What the library documents\<close>

text \<open>The expiry in seconds of a token signed at \<open>now\<close> (in milliseconds).\<close>

definition token_exp :: "('r, 'd, 'q) env \<Rightarrow> string \<Rightarrow> int \<Rightarrow> int" where
  "token_exp E expiresIn now = \<lfloor>of_int (now div 1000) + ms E expiresIn / 1000\<rfloor>"

definition signed_claims :: "string \<times> string \<Rightarrow> nat \<Rightarrow> payload" where
  "signed_claims claims expiry =
     \<lparr>pl_email = Some (fst claims), pl_sid = Some (snd claims), pl_exp = Some expiry\<rparr>"

text \<open>A signed token is not empty; with the same secret it verifies to its claims until it
  expires and is reported expired from then on; with another secret it is rejected.\<close>

definition token_ok :: "('r, 'd, 'q) env \<Rightarrow> string \<times> string \<Rightarrow> string \<Rightarrow> string \<Rightarrow> int \<Rightarrow> string \<Rightarrow> bool" where
  "token_ok E claims secret expiresIn now token \<longleftrightarrow> token \<noteq> '''' \<and>
     (\<forall>t. t div 1000 < token_exp E expiresIn now \<longrightarrow>
        jwt_verify E token secret t = Inr (signed_claims claims (nat (token_exp E expiresIn now)))) \<and>
     (\<forall>t. token_exp E expiresIn now \<le> t div 1000 \<longrightarrow>
        (\<exists>m. jwt_verify E token secret t = Inl (JsError ''TokenExpiredError'' m None None))) \<and>
     (\<forall>other t. other \<noteq> secret \<longrightarrow>
        (\<exists>m. jwt_verify E token other t = Inl (JsError ''JsonWebTokenError'' m None None)))"

definition jwt_laws :: "('r, 'd, 'q) env \<Rightarrow> bool" where
  "jwt_laws E \<longleftrightarrow>
     (\<forall>claims secret expiresIn now token.
        jwt_sign E claims secret expiresIn now = Inr token \<longrightarrow>
        token_ok E claims secret expiresIn now token)"

text \<open>Signing does not fail at this time (the library refuses, for instance, an expiry it cannot
  read).\<close>

definition signing :: "('r, 'd, 'q) env \<Rightarrow> int \<Rightarrow> bool" where
  "signing E now \<longleftrightarrow>
     (\<forall>claims type. \<exists>token. jwt_sign E claims (token_secret E type) (token_expiresIn E type) now = Inr token)"

section \<open>Lemmas\<close>

lemma jwt_lawsD:
  "jwt_laws E \<Longrightarrow> jwt_sign E claims secret ex now = Inr token \<Longrightarrow> token_ok E claims secret ex now token"
  unfolding jwt_laws_def by blast

lemma signToken_run:
  assumes "jwt_laws E" "jwt_sign E claims (token_secret E type) (token_expiresIn E type) (w_now w) = Inr token"
  shows "signToken E claims type w = (Inr token, w)"
proof -
  have "token \<noteq> ''''" using jwt_lawsD [OF assms] by (simp add: token_ok_def)
  with assms(2) show ?thesis by (simp add: signToken_def bindE_def getE_def returnE_def)
qed

lemma generateToken_cases:
  assumes "jwt_laws E"
  shows "(\<exists>token. generateToken E claims type w = (Inr token, w) \<and>
            token_ok E claims (token_secret E type) (token_expiresIn E type) (w_now w) token) \<or>
    (\<exists>e. generateToken E claims type w = (Inl e, w) \<and> \<not> signing E (w_now w) \<and>
       getErrorCode e = Some (JwtErrorCodes jwt_error.TOKEN_GENERATION_FAILED))"
proof (cases "jwt_sign E claims (token_secret E type) (token_expiresIn E type) (w_now w)")
  case (Inl err)
  then have "\<not> signing E (w_now w)" unfolding signing_def by (metis Inl_Inr_False)
  with Inl show ?thesis
    by (simp add: generateToken_def rethrow_as_def catchE_def signToken_def bindE_def getE_def throwE_def
        wrap_error_def)
next
  case (Inr token)
  then have "generateToken E claims type w = (Inr token, w)"
    using signToken_run [OF assms Inr] by (simp add: generateToken_def rethrow_as_def catchE_def)
  with jwt_lawsD [OF assms Inr] show ?thesis by blast
qed

lemma wp_generateToken:
  assumes "jwt_laws E"
    and "\<And>token. token_ok E claims (token_secret E type) (token_expiresIn E type) (w_now w) token \<Longrightarrow> Q token w"
    and "\<And>e. \<not> signing E (w_now w) \<Longrightarrow>
      getErrorCode e = Some (JwtErrorCodes jwt_error.TOKEN_GENERATION_FAILED) \<Longrightarrow> F e w"
  shows "wp (generateToken E claims type) Q F w"
  using generateToken_cases [OF assms(1), of claims type w] assms(2,3) by (auto simp: wp_def)

text \<open>Reading the payload changes nothing: the outcome is a function of token and clock.\<close>

definition payload_of :: "('r, 'd, 'q) env \<Rightarrow> string \<Rightarrow> token_type \<Rightarrow> int \<Rightarrow> exn + payload" where
  "payload_of E token type now =
     (case jwt_verify E token (token_secret E type) now of
        Inl e \<Rightarrow> Inl (map_jwt_error e)
      | Inr decoded \<Rightarrow> check_claims type decoded)"

lemma map_jwt_error_jwt [simp]: "map_jwt_error (jwt_exception m c st k) = jwt_exception m c st k"
  by (simp add: map_jwt_error_def jwt_exception_def)

lemma check_claims_mapped: "check_claims type d = Inl e \<Longrightarrow> map_jwt_error e = e"
  by (auto simp: check_claims_def split: if_splits)

lemma getPayload_run: "getPayload E token type w = (payload_of E token type (w_now w), w)"
  by (auto simp: getPayload_def payload_of_def catchE_def bindE_def getE_def liftE_def throwE_def
      check_claims_mapped split: sum.splits)

lemma wp_getPayload [wp]:
  "wp (getPayload E token type) Q F w =
   (case payload_of E token type (w_now w) of Inl e \<Rightarrow> F e w | Inr p \<Rightarrow> Q p w)"
  by (simp add: wp_def getPayload_run split: sum.splits)

lemma payload_of_Inr:
  "payload_of E token type now = Inr p \<longleftrightarrow>
   jwt_verify E token (token_secret E type) now = Inr p \<and> \<not> missing (pl_email p) \<and>
   pl_exp p \<noteq> None \<and> pl_exp p \<noteq> Some 0 \<and> (type = RefreshToken \<longrightarrow> \<not> missing (pl_sid p))"
  by (auto simp: payload_of_def check_claims_def split: sum.splits if_splits)

lemma token_payload:
  assumes "token_ok E (email, sid) (token_secret E type) (token_expiresIn E type) signed token"
    and "email \<noteq> ''''" "sid \<noteq> ''''"
    and "now div 1000 < token_exp E (token_expiresIn E type) signed"
    and "0 < token_exp E (token_expiresIn E type) signed"
  shows "payload_of E token type now =
    Inr (signed_claims (email, sid) (nat (token_exp E (token_expiresIn E type) signed)))"
  unfolding payload_of_Inr using assms by (auto simp: token_ok_def signed_claims_def missing_def)

lemma token_expired:
  assumes "token_ok E claims (token_secret E type) (token_expiresIn E type) signed token"
    and "token_exp E (token_expiresIn E type) signed \<le> now div 1000"
  shows "payload_of E token type now =
    Inl (jwt_exception ''Token has expired'' jwt_error.TOKEN_EXPIRED UNAUTHORIZED None)"
proof -
  obtain m where "jwt_verify E token (token_secret E type) now = Inl (JsError ''TokenExpiredError'' m None None)"
    using assms unfolding token_ok_def by blast
  then show ?thesis by (simp add: payload_of_def map_jwt_error_def)
qed

lemma token_other_secret:
  assumes "token_ok E claims secret ex signed token" "token_secret E type \<noteq> secret"
  shows "payload_of E token type now =
    Inl (jwt_exception ''Token verification failed'' jwt_error.TOKEN_VERIFICATION_FAILED UNAUTHORIZED None)"
proof -
  obtain m where "jwt_verify E token (token_secret E type) now = Inl (JsError ''JsonWebTokenError'' m None None)"
    using assms unfolding token_ok_def by blast
  then show ?thesis by (simp add: payload_of_def map_jwt_error_def)
qed

text \<open>What \<open>refreshToken\<close> answers: a new access token for the same session and the refresh
  token itself or, with less than the threshold left, a new one.\<close>

lemma wp_jwt_refreshToken:
  assumes "jwt_laws E"
    and ok: "\<And>p a r. payload_of E rt RefreshToken (w_now w) = Inr p \<Longrightarrow>
      token_ok E (the (pl_email p), the (pl_sid p)) (token_secret E AuthToken) (token_expiresIn E AuthToken) (w_now w) a \<Longrightarrow>
      (if of_int (minutes_left (the (pl_exp p)) (w_now w)) < refreshRenewThresholdMinutes E
       then token_ok E (the (pl_email p), the (pl_sid p)) (token_secret E RefreshToken) (token_expiresIn E RefreshToken) (w_now w) r
       else r = rt) \<Longrightarrow> Q \<lparr>t_accessToken = a, t_refreshToken = r\<rparr> w"
    and err: "\<And>e. \<not> signing E (w_now w) \<or> (\<exists>e'. payload_of E rt RefreshToken (w_now w) = Inl e') \<Longrightarrow> F e w"
  shows "wp (jwt_refreshToken E rt) Q F w"
proof (cases "payload_of E rt RefreshToken (w_now w)")
  case (Inl e)
  then show ?thesis using err by (simp add: jwt_refreshToken_def wp)
next
  case (Inr p)
  let ?rot = "of_int (minutes_left (the (pl_exp p)) (w_now w)) < refreshRenewThresholdMinutes E"
  let ?c = "(the (pl_email p), the (pl_sid p))"
  let ?F = "\<lambda>error w. (if rethrown_as_is error then F error w
          else F (wrap_error JwtException ''Invalid refresh token''
                         (JwtErrorCodes jwt_error.INVALID_REFRESH_TOKEN) UNAUTHORIZED error) w)"
  let ?next = "\<lambda>a. wp (if ?rot then generateToken E ?c RefreshToken else returnE rt)
         (\<lambda>r. Q \<lparr>t_accessToken = a, t_refreshToken = r\<rparr>) ?F"
  have next_ok: "?next a w"
    if a: "token_ok E ?c (token_secret E AuthToken) (token_expiresIn E AuthToken) (w_now w) a" for a
    using ok [OF Inr a] by (cases ?rot) (auto simp: wp intro!: wp_generateToken [OF assms(1)] err)
  have handler: "wp (if rethrown_as_is e then throwE e
          else throwE (wrap_error JwtException ''Invalid refresh token''
                         (JwtErrorCodes jwt_error.INVALID_REFRESH_TOKEN) UNAUTHORIZED e)) Q F = ?F e" for e
    by (rule ext) (simp add: wp)
  have "wp (generateToken E ?c AuthToken) ?next ?F w"
    by (rule wp_generateToken [OF assms(1)]) (use next_ok err in auto)
  then show ?thesis
    unfolding jwt_refreshToken_def wp_catch wp_bind wp_getPayload handler Inr sum.case wp_get Let_def wp_return .
qed

end
