(* ===== verification/PermissionCache.thy ===== *)
theory PermissionCache imports Jwt begin

text \<open>
  The contract of a read-through permission cache, which the endpoint rules and the API keys
  both promise to the guards: a lookup answers from Redis when it holds an entry and from
  the database otherwise, storing what it found. The client's lemmas say when that is the
  lookup in the database.
\<close>

text \<open>
  What a guard does with the permissions of an endpoint: an empty list lets everybody pass,
  otherwise one of them must be among the permissions the caller has.
\<close>

definition gate :: "('k \<Rightarrow> ('s, exn, string list) io) \<Rightarrow> 'k \<Rightarrow> string list \<Rightarrow> exn \<Rightarrow> ('s, exn, unit) io" where
  "gate lookup key permissions denied =
     bindE (lookup key) (\<lambda>dynamicPermissions.
       if length dynamicPermissions = 0 then returnE ()
       else if some_included dynamicPermissions permissions then returnE ()
       else throwE denied)"

definition admits :: "string list \<Rightarrow> string list \<Rightarrow> bool" where
  "admits required permissions \<longleftrightarrow> required = [] \<or> set required \<inter> set permissions \<noteq> {}"

locale permission_cache =
  fixes lookup :: "'env \<Rightarrow> 'k \<Rightarrow> 's \<Rightarrow> (exn + string list) \<times> 's"
    and available :: "'env \<Rightarrow> 's \<Rightarrow> bool"
    and cached :: "'env \<Rightarrow> 's \<Rightarrow> 'k \<Rightarrow> string list option"
    and stored :: "'env \<Rightarrow> 's \<Rightarrow> 'k \<Rightarrow> string list \<Rightarrow> bool"
  assumes stored_unique: "available env s \<Longrightarrow> stored env s k cs \<Longrightarrow> stored env s k cs' \<Longrightarrow> cs = cs'"
    and hit: "available env s \<Longrightarrow> cached env s k = Some cs \<Longrightarrow> lookup env k s = (Inr cs, s)"
    and miss: "available env s \<Longrightarrow> cached env s k = None \<Longrightarrow> stored env s k cs \<Longrightarrow>
      \<exists>s'. lookup env k s = (Inr cs, s') \<and> available env s' \<and>
        cached env s' = (cached env s)(k \<mapsto> cs) \<and> stored env s' = stored env s"
    and absent: "available env s \<Longrightarrow> cached env s k = None \<Longrightarrow> (\<And>cs. \<not> stored env s k cs) \<Longrightarrow>
      \<exists>e. lookup env k s = (Inl e, s)"
begin

definition coherent :: "'env \<Rightarrow> 's \<Rightarrow> bool" where
  "coherent env s \<longleftrightarrow> (\<forall>k cs. cached env s k = Some cs \<longrightarrow> stored env s k cs)"

definition coherent_but :: "'env \<Rightarrow> 'k set \<Rightarrow> 's \<Rightarrow> bool" where
  "coherent_but env K s \<longleftrightarrow> (\<forall>k cs. k \<notin> K \<longrightarrow> cached env s k = Some cs \<longrightarrow> stored env s k cs)"

lemma coherent_but_empty: "coherent_but env {} s = coherent env s"
  by (simp add: coherent_but_def coherent_def)

text \<open>A write to the database endangers only the keys whose stored codes it changed.\<close>

lemma coherent_store:
  assumes "coherent_but env J s" "cached env s' = cached env s"
    and "\<And>k cs. k \<notin> K \<Longrightarrow> k \<notin> J \<Longrightarrow> stored env s k cs \<Longrightarrow> stored env s' k cs"
  shows "coherent_but env (K \<union> J) s'"
  using assms unfolding coherent_but_def by (metis UnCI)

text \<open>Dropping an entry, or replacing it by what is stored, settles its key.\<close>

lemma coherent_settle:
  assumes "coherent_but env K s" "stored env s' = stored env s"
    and "cached env s' = (cached env s)(k := x)" "\<And>cs. x = Some cs \<Longrightarrow> stored env s k cs"
  shows "coherent_but env (K - {k}) s'"
  using assms by (auto simp: coherent_but_def)

lemma lookup_cases:
  assumes "available env s" "coherent env s"
  obtains cs s' where "stored env s k cs" "lookup env k s = (Inr cs, s')" "available env s'"
      "stored env s' = stored env s" "cached env s' = (cached env s)(k \<mapsto> cs)"
    | e where "\<And>cs. \<not> stored env s k cs" "lookup env k s = (Inl e, s)"
proof (cases "cached env s k")
  case (Some cs)
  then have "stored env s k cs" using assms(2) by (auto simp: coherent_def)
  moreover have "cached env s = (cached env s)(k \<mapsto> cs)" using Some by auto
  ultimately show ?thesis using hit [OF assms(1) Some] assms(1) that(1) by blast
next
  case None
  show ?thesis
  proof (cases "\<exists>cs. stored env s k cs")
    case True
    then show ?thesis using miss [OF assms(1) None] that(1) by metis
  next
    case False
    then show ?thesis using absent [OF assms(1) None] that(2) by blast
  qed
qed

text \<open>Functional refinement: through a coherent cache a lookup is the lookup in the database.\<close>

lemma lookup_refines:
  assumes "available env s" "coherent env s"
  shows "fst (lookup env k s) = Inr cs \<longleftrightarrow> stored env s k cs"
  using stored_unique [OF assms(1)] by (cases rule: lookup_cases [OF assms, of k]) auto

lemma lookup_keeps:
  assumes "available env s" "coherent env s"
  shows "available env (snd (lookup env k s))" "coherent env (snd (lookup env k s))"
    "stored env (snd (lookup env k s)) = stored env s"
proof -
  show "available env (snd (lookup env k s))" "stored env (snd (lookup env k s)) = stored env s"
    using assms(1) by (cases rule: lookup_cases [OF assms, of k]; simp)+
  show "coherent env (snd (lookup env k s))"
    using assms(2) by (cases rule: lookup_cases [OF assms, of k]) (auto simp: coherent_def)
qed

text \<open>Any number of lookups answer what was stored before the first of them.\<close>

lemma lookups_refine:
  assumes "available env s" "coherent env s" "mapE (lookup env) ks s = (Inr css, s')"
  shows "list_all2 (stored env s) ks css \<and> coherent env s'"
  using assms
proof (induction ks arbitrary: s css)
  case Nil
  then show ?case by (auto simp: returnE_def)
next
  case (Cons k ks)
  from Cons.prems(3) obtain cs s1 css' where
    1: "lookup env k s = (Inr cs, s1)" and 2: "mapE (lookup env) ks s1 = (Inr css', s')" and
    3: "css = cs # css'"
    by (auto simp: bindE_def returnE_def split: prod.splits sum.splits)
  have "available env s1" "coherent env s1" "stored env s1 = stored env s"
    using lookup_keeps [OF Cons.prems(1,2), of k] 1 by simp_all
  moreover have "stored env s k cs" using lookup_refines [OF Cons.prems(1,2), of k cs] 1 by simp
  ultimately show ?case using Cons.IH [of s1 css'] 2 3 by simp
qed

text \<open>Through a coherent cache the gate opens exactly to the callers that the stored permissions
  admit; a key without stored permissions is closed to everybody.\<close>

lemma gate_cases:
  assumes "available env s" "coherent env s"
  obtains cs s' where "stored env s k cs" "available env s'" "coherent env s'" "stored env s' = stored env s"
      "gate (lookup env) k permissions denied s = (if admits cs permissions then Inr () else Inl denied, s')"
    | e where "\<And>cs. \<not> stored env s k cs" "gate (lookup env) k permissions denied s = (Inl e, s)"
      "lookup env k s = (Inl e, s)"
proof (cases rule: lookup_cases [OF assms, of k])
  case (1 cs s')
  have "coherent env s'" using lookup_keeps(2) [OF assms, of k] 1(2) by simp
  moreover have "gate (lookup env) k permissions denied s =
      (if admits cs permissions then Inr () else Inl denied, s')"
    using 1(2) by (simp add: gate_def bindE_def returnE_def throwE_def admits_def)
  ultimately show ?thesis using 1 that(1) by blast
next
  case (2 e)
  have "gate (lookup env) k permissions denied s = (Inl e, s)" using 2(2) by (simp add: gate_def bindE_def)
  then show ?thesis using 2 that(2) by blast
qed

lemma gate_opens_iff:
  assumes "available env s" "coherent env s"
  shows "fst (gate (lookup env) k permissions denied s) = Inr () \<longleftrightarrow>
    (\<exists>cs. stored env s k cs \<and> admits cs permissions)"
  using stored_unique [OF assms(1)] by (cases rule: gate_cases [OF assms, of k permissions denied]) auto

end

end
