(* ===== verification/Epr.thy ===== *)
theory Epr imports PermissionCache begin

text \<open>
  The endpoint permission rules: \<open>EndpointPermissionRulesRepository\<close> and
  \<open>EndpointPermissionRulesService\<close> of \<open>src/src/services/endpoint-permission-rules\<close>, and the
  hourly reconciliation of its cache, \<open>EprCacheReconciliationService\<close> of \<open>src/src/cron\<close>.
  A rule gives the permission codes of which a caller of the endpoint needs one; enabled
  rules are cached under \<open>epr:<endpoint key>\<close>, and the set \<open>epr_keys\<close> indexes the cache.
\<close>

section \<open>Repository\<close>

record epr_dto =
  dto_endpoint_key_name :: string

definition rulesRepository_save :: "('r, 'd, 'q) env \<Rightarrow> epr \<Rightarrow> ('r, 'd, 'q, epr) service" where
  "rulesRepository_save E rule = on_db (orm_save (rules_orm E) rule)"

definition rulesRepository_create :: "epr_dto \<Rightarrow> auth_user option \<Rightarrow> epr" where
  "rulesRepository_create dto created_by =
     \<lparr>e_id = '''', e_endpoint_key_name = dto_endpoint_key_name dto, e_enabled = True,
      e_permissions = None, e_created_by = created_by\<rparr>"

definition rulesRepository_merge :: "epr \<Rightarrow> epr_dto \<Rightarrow> epr" where
  "rulesRepository_merge rule dto = rule\<lparr>e_endpoint_key_name := dto_endpoint_key_name dto\<rparr>"

definition rulesRepository_findOneById ::
  "('r, 'd, 'q) env \<Rightarrow> string \<Rightarrow> ('r, 'd, 'q, epr option) service" where
  "rulesRepository_findOneById E rid = on_db (readE (orm_find_one (rules_orm E) (\<lambda>r. e_id r = rid)))"

definition epr_order :: "epr \<Rightarrow> string list" where
  "epr_order r = [e_endpoint_key_name r]"

definition rulesRepository_findAll ::
  "('r, 'd, 'q) env \<Rightarrow> pagination_query \<Rightarrow> ('r, 'd, 'q, epr list \<times> nat) service" where
  "rulesRepository_findAll E q = on_db (readE (find_and_count (rules_orm E) epr_order q))"

definition rulesRepository_findByEndpointKey ::
  "('r, 'd, 'q) env \<Rightarrow> string \<Rightarrow> ('r, 'd, 'q, epr option) service" where
  "rulesRepository_findByEndpointKey E endpointKeyName =
     on_db (readE (orm_find_one (rules_orm E) (\<lambda>r. e_endpoint_key_name r = endpointKeyName)))"

definition rulesRepository_findAllEnabled :: "('r, 'd, 'q) env \<Rightarrow> ('r, 'd, 'q, epr list) service" where
  "rulesRepository_findAllEnabled E = on_db (readE (orm_find (rules_orm E) (\<lambda>r. e_enabled r)))"

definition rulesRepository_remove :: "('r, 'd, 'q) env \<Rightarrow> epr \<Rightarrow> ('r, 'd, 'q, unit) service" where
  "rulesRepository_remove E rule = on_db (orm_remove (rules_orm E) rule)"

section \<open>Service: the cache\<close>

definition epr_redisKey :: "string \<Rightarrow> string" where
  "epr_redisKey endpointKeyName = ''epr:'' @ endpointKeyName"

definition epr_index :: string where
  "epr_index = ''epr_keys''"

definition epr_warm_commands :: "epr list \<Rightarrow> command list" where
  "epr_warm_commands rules =
     concat (List.map (\<lambda>rule.
       [SET (epr_redisKey (e_endpoint_key_name rule)) (CodesDoc (epr_permissionCodes rule)) NO_OPTION,
        SADD epr_index (e_endpoint_key_name rule)]) rules)"

definition epr_warmUpCache :: "('r, 'd, 'q) env \<Rightarrow> ('r, 'd, 'q, unit) service" where
  "epr_warmUpCache E =
     swallow (bindE (rulesRepository_findAllEnabled E) (\<lambda>rules.
       if length rules = 0 then returnE ()
       else raw_exec E (epr_warm_commands rules)))"

definition epr_onModuleInit :: "('r, 'd, 'q) env \<Rightarrow> ('r, 'd, 'q, unit) service" where
  "epr_onModuleInit E = swallow (epr_warmUpCache E)"

definition invalidateRuleCache :: "('r, 'd, 'q) env \<Rightarrow> string \<Rightarrow> ('r, 'd, 'q, unit) service" where
  "invalidateRuleCache E endpointKeyName =
     swallow (thenE (raw_write E (DEL (epr_redisKey endpointKeyName)))
                    (raw_write E (SREM epr_index endpointKeyName)))"

text \<open>\<open>redis.set(redisKey(k), JSON.stringify(codes)); redis.sAdd('epr_keys', k)\<close>.\<close>

definition epr_store :: "('r, 'd, 'q) env \<Rightarrow> string \<Rightarrow> string list \<Rightarrow> ('r, 'd, 'q, unit) service" where
  "epr_store E endpointKeyName codes =
     thenE (raw_write E (SET (epr_redisKey endpointKeyName) (CodesDoc codes) NO_OPTION))
           (raw_write E (SADD epr_index endpointKeyName))"

definition loadRuleToRedis :: "('r, 'd, 'q) env \<Rightarrow> string \<Rightarrow> ('r, 'd, 'q, unit) service" where
  "loadRuleToRedis E endpointKeyName =
     swallow (bindE (rulesRepository_findByEndpointKey E endpointKeyName) (\<lambda>found.
       case found of
         Some rule \<Rightarrow>
           if e_enabled rule then epr_store E endpointKeyName (epr_permissionCodes rule)
           else invalidateRuleCache E endpointKeyName
       | None \<Rightarrow> invalidateRuleCache E endpointKeyName))"

text \<open>The first \<open>try\<close> of \<open>getPermissionsForEndpoint\<close>: a hit, or \<open>None\<close> to go on.\<close>

definition epr_from_redis ::
  "('r, 'd, 'q) env \<Rightarrow> string \<Rightarrow> ('r, 'd, 'q, string list option) service" where
  "epr_from_redis E endpointKey =
     catchE
       (bindE (raw_get E (epr_redisKey endpointKey)) (\<lambda>cached.
          if truthy cached then bindE (liftE (parse_codes (the cached))) (\<lambda>codes. returnE (Some codes))
          else returnE None))
       (\<lambda>error. returnE None)"

definition epr_from_db :: "('r, 'd, 'q) env \<Rightarrow> string \<Rightarrow> ('r, 'd, 'q, string list) service" where
  "epr_from_db E endpointKey =
     catchE
       (bindE (rulesRepository_findByEndpointKey E endpointKey) (\<lambda>found.
          case found of
            None \<Rightarrow> throwE (epr_exception
              ''This endpoint does not have a permission rule defined and is temporally disabled.''
              epr_error.ENDPOINT_PERMISSION_RULE_NOT_FOUND NOT_FOUND None)
          | Some rule \<Rightarrow>
              if \<not> e_enabled rule then throwE (epr_exception
                ''This endpoint is temporarily disabled. Please try again later.''
                epr_error.ENDPOINT_PERMISSION_RULE_NOT_FOUND NOT_FOUND None)
              else
                thenE (swallow (epr_store E endpointKey (epr_permissionCodes rule)))
                  (returnE (epr_permissionCodes rule))))
       throwE"

definition getPermissionsForEndpoint ::
  "('r, 'd, 'q) env \<Rightarrow> string \<Rightarrow> ('r, 'd, 'q, string list) service" where
  "getPermissionsForEndpoint E endpointKey =
     bindE (epr_from_redis E endpointKey) (\<lambda>hit.
       case hit of Some codes \<Rightarrow> returnE codes | None \<Rightarrow> epr_from_db E endpointKey)"

section \<open>Service: the rules\<close>

definition epr_create ::
  "('r, 'd, 'q) env \<Rightarrow> epr_dto \<Rightarrow> auth_user option \<Rightarrow> ('r, 'd, 'q, epr) service" where
  "epr_create E dto request_user =
     rethrow_as EndpointPRException ''Endpoint Permission Rule creation failed''
       (EndpointPermissionRulesErrorCodes epr_error.ENDPOINT_PERMISSION_RULE_NOT_CREATED)
       INTERNAL_SERVER_ERROR
       (bindE (rulesRepository_save E (rulesRepository_create dto request_user)) (\<lambda>saved.
        thenE (loadRuleToRedis E (e_endpoint_key_name saved))
        (returnE saved)))"

definition epr_findOne :: "('r, 'd, 'q) env \<Rightarrow> string \<Rightarrow> ('r, 'd, 'q, epr) service" where
  "epr_findOne E rid =
     bindE (rulesRepository_findOneById E rid) (\<lambda>found.
       case found of
         None \<Rightarrow> throwE (epr_exception (''Endpoint Permission Rule with id: '' @ rid @ '' not found'')
                          epr_error.ENDPOINT_PERMISSION_RULE_NOT_FOUND NOT_FOUND None)
       | Some rule \<Rightarrow> returnE rule)"

definition epr_update :: "('r, 'd, 'q) env \<Rightarrow> string \<Rightarrow> epr_dto \<Rightarrow> ('r, 'd, 'q, epr) service" where
  "epr_update E rid dto =
     rethrow_as EndpointPRException ''Endpoint Permission Rule update failed''
       (EndpointPermissionRulesErrorCodes epr_error.ENDPOINT_PERMISSION_RULE_NOT_UPDATED)
       INTERNAL_SERVER_ERROR
       (bindE (epr_findOne E rid) (\<lambda>existing.
        bindE (rulesRepository_save E (rulesRepository_merge existing dto)) (\<lambda>saved.
        thenE
          (if dto_endpoint_key_name dto \<noteq> '''' \<and> dto_endpoint_key_name dto \<noteq> e_endpoint_key_name existing
           then thenE (invalidateRuleCache E (e_endpoint_key_name existing))
                      (loadRuleToRedis E (dto_endpoint_key_name dto))
           else loadRuleToRedis E (e_endpoint_key_name saved))
        (returnE saved))))"

definition epr_delete :: "('r, 'd, 'q) env \<Rightarrow> string \<Rightarrow> ('r, 'd, 'q, string) service" where
  "epr_delete E rid =
     rethrow_as EndpointPRException ''Endpoint Permission Rule delete failed''
       (EndpointPermissionRulesErrorCodes epr_error.ENDPOINT_PERMISSION_RULE_NOT_DELETED)
       INTERNAL_SERVER_ERROR
       (bindE (epr_findOne E rid) (\<lambda>rule.
        thenE (rulesRepository_remove E rule)
        (thenE (invalidateRuleCache E (e_endpoint_key_name rule))
        (returnE (''Endpoint Permission Rule '' @ e_endpoint_key_name rule @ '' deleted'')))))"

definition epr_findAll :: "('r, 'd, 'q) env \<Rightarrow> pagination_query \<Rightarrow> ('r, 'd, 'q, epr paginated) service" where
  "epr_findAll E query =
     rethrow_as EndpointPRException ''Endpoint Permission Rules not found''
       (EndpointPermissionRulesErrorCodes epr_error.ENDPOINT_PERMISSION_RULE_NOT_FOUND) NOT_FOUND
       (bindE (rulesRepository_findAll E query) (\<lambda>(data, count).
          returnE (PaginatedResponseDto data count (q_page query) (q_limit query))))"

definition epr_assignPermissions ::
  "('r, 'd, 'q) env \<Rightarrow> string \<Rightarrow> string list \<Rightarrow> ('r, 'd, 'q, epr) service" where
  "epr_assignPermissions E rid permissionsIds =
     rethrow_as EndpointPRException ''Endpoint Permission Rule permission assignment failed''
       (EndpointPermissionRulesErrorCodes epr_error.ENDPOINT_PERMISSION_RULE_ASSIGN_FAILED)
       INTERNAL_SERVER_ERROR
       (bindE (epr_findOne E rid) (\<lambda>rule.
        bindE (mapE (permissions_findOne E) permissionsIds) (\<lambda>permissions.
        bindE (rulesRepository_save E (rule\<lparr>e_permissions := Some permissions\<rparr>)) (\<lambda>saved.
        thenE (loadRuleToRedis E (e_endpoint_key_name saved))
        (returnE saved)))))"

definition enableRule :: "('r, 'd, 'q) env \<Rightarrow> string \<Rightarrow> ('r, 'd, 'q, string) service" where
  "enableRule E rid =
     bindE (epr_findOne E rid) (\<lambda>rule.
       if e_enabled rule then
         throwE (epr_exception ''Endpoint Permission Rule already enabled''
                   epr_error.ENDPOINT_PERMISSION_RULE_ALREADY_ENABLED BAD_REQUEST None)
       else
         thenE (rulesRepository_save E (rule\<lparr>e_enabled := True\<rparr>))
         (thenE (loadRuleToRedis E (e_endpoint_key_name rule))
         (returnE (''Endpoint Permission Rule '' @ e_endpoint_key_name rule @ '' enabled''))))"

definition disableRule :: "('r, 'd, 'q) env \<Rightarrow> string \<Rightarrow> ('r, 'd, 'q, string) service" where
  "disableRule E rid =
     bindE (epr_findOne E rid) (\<lambda>rule.
       if \<not> e_enabled rule then
         throwE (epr_exception ''Endpoint Permission Rule already disabled''
                   epr_error.ENDPOINT_PERMISSION_RULE_ALREADY_DISABLED BAD_REQUEST None)
       else
         thenE (rulesRepository_save E (rule\<lparr>e_enabled := False\<rparr>))
         (thenE (invalidateRuleCache E (e_endpoint_key_name rule))
         (returnE (''Endpoint Permission Rule '' @ e_endpoint_key_name rule @ '' disabled''))))"

section \<open>EprCacheReconciliationService\<close>

definition epr_deleteStaleKeys :: "('r, 'd, 'q) env \<Rightarrow> ('r, 'd, 'q, unit) service" where
  "epr_deleteStaleKeys E =
     bindE (raw_sMembers E epr_index) (\<lambda>keysToDelete.
       if keysToDelete = [] then returnE ()
       else raw_exec E (List.map (\<lambda>key. DEL (epr_redisKey key)) keysToDelete @ [DEL epr_index]))"

definition epr_handleCacheReconciliation :: "('r, 'd, 'q) env \<Rightarrow> ('r, 'd, 'q, unit) service" where
  "epr_handleCacheReconciliation E =
     thenE (swallow (epr_deleteStaleKeys E)) (swallow (epr_warmUpCache E))"

section \<open>The rules stored and the rules cached\<close>

type_synonym ('r, 'd, 'q) epr_env =
  "('r, 'd, 'q) env \<times> ('r \<Rightarrow> redis_view) \<times> ('r \<Rightarrow> bool) \<times> ('d, epr) table"

text \<open>What the database keeps of its table: identifiers and key names are unique.\<close>

definition epr_table :: "('d, epr) table \<Rightarrow> bool" where
  "epr_table T \<longleftrightarrow> ident T = e_id \<and> assign T = (\<lambda>i e. e\<lparr>e_id := i\<rparr>) \<and>
     (\<forall>S. constraint T S \<longrightarrow> inj_on e_id S \<and> inj_on e_endpoint_key_name S)"

definition epr_ready :: "('r, 'd, 'q) epr_env \<Rightarrow> ('r, 'd, 'q) world \<Rightarrow> bool" where
  "epr_ready env w = (case env of (E, view, up, T) \<Rightarrow>
     redis_laws (redis_api E) view up \<and> orm_laws (rules_orm E) T \<and> epr_table T \<and>
     up (w_redis w) \<and> answers T (w_db w) \<and> constraint T (rows T (w_db w)))"

definition epr_cached :: "('r, 'd, 'q) epr_env \<Rightarrow> ('r, 'd, 'q) world \<Rightarrow> string \<Rightarrow> string list option" where
  "epr_cached env w key = (case env of (E, view, up, T) \<Rightarrow>
     (case val (view (w_redis w)) (epr_redisKey key) of Some (CodesDoc cs) \<Rightarrow> Some cs | _ \<Rightarrow> None))"

definition epr_stored :: "('r, 'd, 'q) epr_env \<Rightarrow> ('r, 'd, 'q) world \<Rightarrow> string \<Rightarrow> string list \<Rightarrow> bool" where
  "epr_stored env w key cs = (case env of (E, view, up, T) \<Rightarrow>
     (\<exists>r \<in> rows T (w_db w). e_endpoint_key_name r = key \<and> e_enabled r \<and> epr_permissionCodes r = cs))"

lemma epr_redisKey_eq [simp]: "epr_redisKey a = epr_redisKey b \<longleftrightarrow> a = b"
  by (simp add: epr_redisKey_def)

lemma epr_redisKey_index [simp]: "epr_redisKey a \<noteq> epr_index" "epr_index \<noteq> epr_redisKey a"
  by (simp_all add: epr_redisKey_def epr_index_def)

lemmas rules_repo = rulesRepository_save_def rulesRepository_create_def rulesRepository_merge_def
  rulesRepository_findOneById_def rulesRepository_findAll_def rulesRepository_findByEndpointKey_def
  rulesRepository_findAllEnabled_def rulesRepository_remove_def

lemma epr_readyD:
  assumes "epr_ready (E, view, up, T) w"
  shows "redis_laws (redis_api E) view up" "orm_laws (rules_orm E) T" "epr_table T"
    "up (w_redis w)" "answers T (w_db w)" "constraint T (rows T (w_db w))"
    "inj_on e_id (rows T (w_db w))" "inj_on e_endpoint_key_name (rows T (w_db w))"
    "ident T = e_id"
  using assms by (auto simp: epr_ready_def epr_table_def)

text \<open>Writing the cache entry of a key, and dropping it, while the server answers.\<close>

lemma wp_epr_store:
  assumes ready: "epr_ready (E, view, up, T) w"
    and Q: "\<And>r'. epr_ready (E, view, up, T) (w\<lparr>w_redis := r'\<rparr>) \<Longrightarrow>
      view r' = exec_all [SET (epr_redisKey k) (CodesDoc cs) NO_OPTION, SADD epr_index k] (view (w_redis w)) \<Longrightarrow>
      Q () (w\<lparr>w_redis := r'\<rparr>)"
  shows "wp (epr_store E k cs) Q F w"
  unfolding epr_store_def wp_then
proof (rule wp_raw_write [OF epr_readyD(1) [OF ready]])
  fix r1 assume r1: "view r1 = exec_cmd (SET (epr_redisKey k) (CodesDoc cs) NO_OPTION) (view (w_redis w))"
    "up (w_redis w) \<Longrightarrow> up r1"
  show "wp (raw_write E (SADD epr_index k)) Q F (w\<lparr>w_redis := r1\<rparr>)"
  proof (rule wp_raw_write [OF epr_readyD(1) [OF ready]])
    fix r2 assume "view r2 = exec_cmd (SADD epr_index k) (view (w_redis (w\<lparr>w_redis := r1\<rparr>)))"
      "up (w_redis (w\<lparr>w_redis := r1\<rparr>)) \<Longrightarrow> up r2"
    then show "Q () (w\<lparr>w_redis := r1\<rparr>\<lparr>w_redis := r2\<rparr>)"
      using Q [of r2] r1 ready by (simp add: epr_ready_def)
  qed (use r1 epr_readyD(4) [OF ready] in simp)
qed (use epr_readyD(4) [OF ready] in simp)

lemma wp_invalidateRuleCache:
  assumes ready: "epr_ready (E, view, up, T) w"
    and Q: "\<And>r'. epr_ready (E, view, up, T) (w\<lparr>w_redis := r'\<rparr>) \<Longrightarrow>
      view r' = exec_all [DEL (epr_redisKey k), SREM epr_index k] (view (w_redis w)) \<Longrightarrow>
      Q () (w\<lparr>w_redis := r'\<rparr>)"
  shows "wp (invalidateRuleCache E k) Q F w"
  unfolding invalidateRuleCache_def wp_swallow wp_then
proof (rule wp_raw_write [OF epr_readyD(1) [OF ready]])
  fix r1 assume r1: "view r1 = exec_cmd (DEL (epr_redisKey k)) (view (w_redis w))" "up (w_redis w) \<Longrightarrow> up r1"
  show "wp (raw_write E (SREM epr_index k)) Q (\<lambda>_. Q ()) (w\<lparr>w_redis := r1\<rparr>)"
  proof (rule wp_raw_write [OF epr_readyD(1) [OF ready]])
    fix r2 assume "view r2 = exec_cmd (SREM epr_index k) (view (w_redis (w\<lparr>w_redis := r1\<rparr>)))"
      "up (w_redis (w\<lparr>w_redis := r1\<rparr>)) \<Longrightarrow> up r2"
    then show "Q () (w\<lparr>w_redis := r1\<rparr>\<lparr>w_redis := r2\<rparr>)"
      using Q [of r2] r1 ready by (simp add: epr_ready_def)
  qed (use r1 epr_readyD(4) [OF ready] in simp)
qed (use epr_readyD(4) [OF ready] in simp)

end
