(* ===== verification/EprCache.thy ===== *)
theory EprCache imports Epr begin

text \<open>
  The cache of the endpoint permission rules meets the contract of a read-through cache,
  and every operation of the service keeps it coherent with the rules in the database while
  Redis and the database answer; the hourly reconciliation makes it exact from any state.
\<close>

section \<open>The lookup\<close>

lemma epr_from_redis_run:
  assumes "epr_ready (E, view, up, T) w"
  shows "epr_from_redis E key w = (Inr (epr_cached (E, view, up, T) w key), w)"
proof -
  let ?x = "val (view (w_redis w)) (epr_redisKey key)"
  have "raw_get E (epr_redisKey key) w = (Inr ?x, w)"
    by (rule raw_get_run [OF epr_readyD(1,4) [OF assms]])
  then show ?thesis
    by (cases ?x; cases "the ?x")
      (simp_all add: epr_from_redis_def epr_cached_def catchE_def bindE_def liftE_def returnE_def truthy_def)
qed

lemma epr_stored_redis [simp]: "epr_stored (E, view, up, T) (w\<lparr>w_redis := r\<rparr>) = epr_stored (E, view, up, T) w"
  by (intro ext) (simp add: epr_stored_def)

lemma epr_cached_store:
  "view r' = exec_all [SET (epr_redisKey k) (CodesDoc cs) NO_OPTION, SADD epr_index k] (view (w_redis w)) \<Longrightarrow>
   epr_cached (E, view, up, T) (w\<lparr>w_redis := r'\<rparr>) = (epr_cached (E, view, up, T) w)(k \<mapsto> cs)"
  by (rule ext) (simp add: epr_cached_def)

lemma epr_cached_drop:
  "view r' = exec_all [DEL (epr_redisKey k), SREM epr_index k] (view (w_redis w)) \<Longrightarrow>
   epr_cached (E, view, up, T) (w\<lparr>w_redis := r'\<rparr>) = (epr_cached (E, view, up, T) w)(k := None)"
  by (rule ext) (simp add: epr_cached_def)

text \<open>The database branch: the enabled rule of the key, cached on the way, or a 404.\<close>

lemma wp_epr_from_db:
  assumes ready: "epr_ready (E, view, up, T) w"
    and hit: "\<And>cs w'. epr_stored (E, view, up, T) w key cs \<Longrightarrow> epr_ready (E, view, up, T) w' \<Longrightarrow>
      epr_cached (E, view, up, T) w' = (epr_cached (E, view, up, T) w)(key \<mapsto> cs) \<Longrightarrow>
      epr_stored (E, view, up, T) w' = epr_stored (E, view, up, T) w \<Longrightarrow> Q cs w'"
    and absent: "\<And>m. (\<And>cs. \<not> epr_stored (E, view, up, T) w key cs) \<Longrightarrow>
      F (epr_exception m epr_error.ENDPOINT_PERMISSION_RULE_NOT_FOUND NOT_FOUND None) w"
  shows "wp (epr_from_db E key) Q F w"
  unfolding epr_from_db_def rules_repo wp_catch wp_bind wp_throw
proof (rule wp_db_find_one [OF epr_readyD(2) [OF ready]])
  fix r assume r: "r \<in> rows T (w_db w)" "e_endpoint_key_name r = key"
  show "wp (case Some r of
      None \<Rightarrow> throwE (epr_exception
        ''This endpoint does not have a permission rule defined and is temporally disabled.''
        epr_error.ENDPOINT_PERMISSION_RULE_NOT_FOUND NOT_FOUND None)
    | Some rule \<Rightarrow>
        if \<not> e_enabled rule then throwE (epr_exception
          ''This endpoint is temporarily disabled. Please try again later.''
          epr_error.ENDPOINT_PERMISSION_RULE_NOT_FOUND NOT_FOUND None)
        else thenE (swallow (epr_store E key (epr_permissionCodes rule))) (returnE (epr_permissionCodes rule)))
    Q F w"
  proof (cases "e_enabled r")
    case True
    then have stored: "epr_stored (E, view, up, T) w key (epr_permissionCodes r)"
      using r by (auto simp: epr_stored_def)
    have "wp (epr_store E key (epr_permissionCodes r)) (\<lambda>_. Q (epr_permissionCodes r))
        (\<lambda>_. Q (epr_permissionCodes r)) w"
      by (rule wp_epr_store [OF ready]) (rule hit [OF stored], simp_all add: epr_cached_store)
    with True show ?thesis by (simp add: wp)
  next
    case False
    have "\<not> epr_stored (E, view, up, T) w key cs" for cs
      using r False epr_readyD(8) [OF ready] by (auto simp: epr_stored_def dest: inj_onD)
    with False absent show ?thesis by (simp add: wp)
  qed
next
  assume none: "\<And>e. e \<in> rows T (w_db w) \<Longrightarrow> e_endpoint_key_name e \<noteq> key"
  then have "\<not> epr_stored (E, view, up, T) w key cs" for cs by (auto simp: epr_stored_def)
  with absent show "wp (case None of
      None \<Rightarrow> throwE (epr_exception
        ''This endpoint does not have a permission rule defined and is temporally disabled.''
        epr_error.ENDPOINT_PERMISSION_RULE_NOT_FOUND NOT_FOUND None)
    | Some rule \<Rightarrow>
        if \<not> e_enabled rule then throwE (epr_exception
          ''This endpoint is temporarily disabled. Please try again later.''
          epr_error.ENDPOINT_PERMISSION_RULE_NOT_FOUND NOT_FOUND None)
        else thenE (swallow (epr_store E key (epr_permissionCodes rule))) (returnE (epr_permissionCodes rule)))
    Q F w" by (simp add: wp)
qed (use epr_readyD(5) [OF ready] in simp)

lemma getPermissionsForEndpoint_hit:
  assumes "epr_ready (E, view, up, T) w" "epr_cached (E, view, up, T) w key = Some cs"
  shows "getPermissionsForEndpoint E key w = (Inr cs, w)"
  using epr_from_redis_run [OF assms(1), of key] assms(2)
  by (simp add: getPermissionsForEndpoint_def bindE_def returnE_def)

lemma getPermissionsForEndpoint_miss:
  assumes "epr_ready (E, view, up, T) w" "epr_cached (E, view, up, T) w key = None"
  shows "getPermissionsForEndpoint E key w = epr_from_db E key w"
  using epr_from_redis_run [OF assms(1), of key] assms(2)
  by (simp add: getPermissionsForEndpoint_def bindE_def)

lemma epr_stored_unique:
  assumes "epr_ready (E, view, up, T) w" "epr_stored (E, view, up, T) w k cs" "epr_stored (E, view, up, T) w k cs'"
  shows "cs = cs'"
  using assms epr_readyD(8) [OF assms(1)] by (auto simp: epr_stored_def dest: inj_onD)

lemma epr_lookup_found:
  assumes ready: "epr_ready (E, view, up, T) w" and "epr_cached (E, view, up, T) w k = None"
    and stored: "epr_stored (E, view, up, T) w k cs"
  shows "\<exists>w'. getPermissionsForEndpoint E k w = (Inr cs, w') \<and> epr_ready (E, view, up, T) w' \<and>
    epr_cached (E, view, up, T) w' = (epr_cached (E, view, up, T) w)(k \<mapsto> cs) \<and>
    epr_stored (E, view, up, T) w' = epr_stored (E, view, up, T) w"
proof -
  have "wp (epr_from_db E k) (\<lambda>x w'. x = cs \<and> epr_ready (E, view, up, T) w' \<and>
      epr_cached (E, view, up, T) w' = (epr_cached (E, view, up, T) w)(k \<mapsto> cs) \<and>
      epr_stored (E, view, up, T) w' = epr_stored (E, view, up, T) w) (\<lambda>_ _. False) w"
    by (rule wp_epr_from_db [OF ready]) (use epr_stored_unique [OF ready _ stored] stored in auto)
  from wp_returns [OF this] getPermissionsForEndpoint_miss [OF assms(1,2)] show ?thesis by auto
qed

lemma epr_lookup_absent:
  assumes ready: "epr_ready (E, view, up, T) w" and "epr_cached (E, view, up, T) w k = None"
    and absent: "\<And>cs. \<not> epr_stored (E, view, up, T) w k cs"
  shows "\<exists>m. getPermissionsForEndpoint E k w =
    (Inl (epr_exception m epr_error.ENDPOINT_PERMISSION_RULE_NOT_FOUND NOT_FOUND None), w)"
proof -
  have "wp (epr_from_db E k) (\<lambda>_ _. False) (\<lambda>e w'.
      (\<exists>m. e = epr_exception m epr_error.ENDPOINT_PERMISSION_RULE_NOT_FOUND NOT_FOUND None) \<and> w' = w) w"
    by (rule wp_epr_from_db [OF ready]) (use absent in auto)
  from wp_fails [OF this] getPermissionsForEndpoint_miss [OF assms(1,2)] show ?thesis by auto
qed

interpretation epr_cache: permission_cache
  "\<lambda>env k w. getPermissionsForEndpoint (fst env) k w" epr_ready epr_cached epr_stored
proof
  fix env :: "('a, 'b, 'c) epr_env" and w :: "('a, 'b, 'c) world" and k cs cs'
  obtain E view up T where env: "env = (E, view, up, T)" by (cases env)
  show "epr_ready env w \<Longrightarrow> epr_stored env w k cs \<Longrightarrow> epr_stored env w k cs' \<Longrightarrow> cs = cs'"
    unfolding env by (rule epr_stored_unique)
  show "epr_ready env w \<Longrightarrow> epr_cached env w k = Some cs \<Longrightarrow>
      getPermissionsForEndpoint (fst env) k w = (Inr cs, w)"
    unfolding env fst_conv by (rule getPermissionsForEndpoint_hit)
  show "epr_ready env w \<Longrightarrow> epr_cached env w k = None \<Longrightarrow> epr_stored env w k cs \<Longrightarrow>
      \<exists>s'. getPermissionsForEndpoint (fst env) k w = (Inr cs, s') \<and> epr_ready env s' \<and>
        epr_cached env s' = (epr_cached env w)(k \<mapsto> cs) \<and> epr_stored env s' = epr_stored env w"
    unfolding env fst_conv by (rule epr_lookup_found)
  show "epr_ready env w \<Longrightarrow> epr_cached env w k = None \<Longrightarrow> (\<And>cs. \<not> epr_stored env w k cs) \<Longrightarrow>
      \<exists>e. getPermissionsForEndpoint (fst env) k w = (Inl e, w)"
    unfolding env fst_conv using epr_lookup_absent by metis
qed

definition epr_listing :: "('r, 'd, 'q) env \<times> ('d, epr) table \<Rightarrow> ('r, 'd, 'q) world \<Rightarrow> bool" where
  "epr_listing ET w \<longleftrightarrow> listing_available (rules_orm (fst ET)) (snd ET) epr_order (w_db w)"

interpretation epr_pages: paged_listing
  "\<lambda>ET q w. epr_findAll (fst ET) q w" epr_listing
  "\<lambda>ET w. ordered_rows (snd ET) epr_order (w_db w)" "\<lambda>ET w. rows (snd ET) (w_db w)"
  by unfold_locales
    (simp_all add: epr_listing_def epr_findAll_def rules_repo rethrow_as_def
      catchE_def find_and_count_service ordered_rows_listing)

section \<open>The cache entry of one key\<close>

abbreviation "epr_coherent_but E view up T K w \<equiv> epr_cache.coherent_but (E, view, up, T) K w"

lemma wp_epr_invalidate:
  assumes ready: "epr_ready (E, view, up, T) w" and coh: "epr_coherent_but E view up T K w"
    and Q: "\<And>r'. epr_ready (E, view, up, T) (w\<lparr>w_redis := r'\<rparr>) \<Longrightarrow>
      epr_coherent_but E view up T (K - {k}) (w\<lparr>w_redis := r'\<rparr>) \<Longrightarrow>
      epr_cached (E, view, up, T) (w\<lparr>w_redis := r'\<rparr>) = (epr_cached (E, view, up, T) w)(k := None) \<Longrightarrow>
      Q () (w\<lparr>w_redis := r'\<rparr>)"
  shows "wp (invalidateRuleCache E k) Q F w"
proof (rule wp_invalidateRuleCache [OF ready])
  fix r' assume r': "epr_ready (E, view, up, T) (w\<lparr>w_redis := r'\<rparr>)"
    "view r' = exec_all [DEL (epr_redisKey k), SREM epr_index k] (view (w_redis w))"
  note drop = epr_cached_drop [OF r'(2), of E up T]
  show "Q () (w\<lparr>w_redis := r'\<rparr>)"
    by (rule Q [OF r'(1) epr_cache.coherent_settle [OF coh _ drop] drop]) simp_all
qed

lemma wp_loadRuleToRedis:
  assumes ready: "epr_ready (E, view, up, T) w" and coh: "epr_coherent_but E view up T K w"
    and Q: "\<And>r'. epr_ready (E, view, up, T) (w\<lparr>w_redis := r'\<rparr>) \<Longrightarrow>
      epr_coherent_but E view up T (K - {k}) (w\<lparr>w_redis := r'\<rparr>) \<Longrightarrow> Q () (w\<lparr>w_redis := r'\<rparr>)"
  shows "wp (loadRuleToRedis E k) Q F w"
  unfolding loadRuleToRedis_def rules_repo wp_swallow wp_bind
proof (rule wp_db_find_one [OF epr_readyD(2) [OF ready]])
  fix r assume r: "r \<in> rows T (w_db w)" "e_endpoint_key_name r = k"
  have stored: "e_enabled r \<Longrightarrow> epr_stored (E, view, up, T) w k (epr_permissionCodes r)"
    using r by (auto simp: epr_stored_def)
  show "wp (case Some r of
      Some rule \<Rightarrow> if e_enabled rule then epr_store E k (epr_permissionCodes rule) else invalidateRuleCache E k
    | None \<Rightarrow> invalidateRuleCache E k) Q (\<lambda>_. Q ()) w"
    by (cases "e_enabled r")
      (auto intro!: wp_epr_store [OF ready] wp_epr_invalidate [OF ready coh] Q
        epr_cache.coherent_settle [OF coh _ epr_cached_store] stored)
next
  show "wp (case None of
      Some rule \<Rightarrow> if e_enabled rule then epr_store E k (epr_permissionCodes rule) else invalidateRuleCache E k
    | None \<Rightarrow> invalidateRuleCache E k) Q (\<lambda>_. Q ()) w"
    by (auto intro!: wp_epr_invalidate [OF ready coh] Q)
qed (use epr_readyD(5) [OF ready] in simp)

section \<open>Writes to the table\<close>

lemma epr_cached_db [simp]: "epr_cached (E, view, up, T) (w\<lparr>w_db := d\<rparr>) = epr_cached (E, view, up, T) w"
  by (rule ext) (simp add: epr_cached_def)

text \<open>The key names whose rule a save or a removal of \<open>e\<close> changes.\<close>

definition touched :: "epr set \<Rightarrow> epr \<Rightarrow> string set" where
  "touched S e = insert (e_endpoint_key_name e) (e_endpoint_key_name ` {x \<in> S. e_id x = e_id e})"

lemma fresh_name: "e' = e\<lparr>e_id := i\<rparr> \<Longrightarrow> e_endpoint_key_name e' = e_endpoint_key_name e"
  by simp

lemma touched_existing:
  "inj_on e_id S \<Longrightarrow> r \<in> S \<Longrightarrow> e_id e = e_id r \<Longrightarrow>
   touched S e = {e_endpoint_key_name e, e_endpoint_key_name r}"
  by (auto simp: touched_def dest: inj_onD)

lemma touched_fresh: "e_id e \<notin> e_id ` S \<Longrightarrow> touched S e = {e_endpoint_key_name e}"
  by (auto simp: touched_def) (metis imageI)

lemma wp_rule_save:
  assumes ready: "epr_ready (E, view, up, T) w" and coh: "epr_cache.coherent (E, view, up, T) w"
    and Q: "\<And>e' d'. epr_ready (E, view, up, T) (w\<lparr>w_db := d'\<rparr>) \<Longrightarrow>
      epr_coherent_but E view up T (touched (rows T (w_db w)) e') (w\<lparr>w_db := d'\<rparr>) \<Longrightarrow>
      (e_id e \<noteq> '''' \<Longrightarrow> e' = e) \<Longrightarrow>
      (e_id e = '''' \<Longrightarrow> e' = e\<lparr>e_id := e_id e'\<rparr> \<and> e_id e' \<notin> e_id ` rows T (w_db w)) \<Longrightarrow>
      rows T d' = saved_rows T e' (rows T (w_db w)) \<Longrightarrow> Q e' (w\<lparr>w_db := d'\<rparr>)"
    and F: "\<And>x d'. epr_ready (E, view, up, T) (w\<lparr>w_db := d'\<rparr>) \<Longrightarrow>
      epr_cache.coherent (E, view, up, T) (w\<lparr>w_db := d'\<rparr>) \<Longrightarrow> F x (w\<lparr>w_db := d'\<rparr>)"
  shows "wp (rulesRepository_save E e) Q F w"
  unfolding rules_repo
proof (rule wp_db_save [OF epr_readyD(2) [OF ready]])
  fix e' d'
  assume rows: "rows T d' = saved_rows T e' (rows T (w_db w))"
    and fresh: "ident T e = '''' \<Longrightarrow> e' = assign T (ident T e') e \<and> ident T e' \<notin> ident T ` rows T (w_db w)"
    and same: "ident T e \<noteq> '''' \<Longrightarrow> e' = e"
    and con: "constraint T (rows T (w_db w)) \<Longrightarrow> constraint T (saved_rows T e' (rows T (w_db w)))"
    and ans: "answers T (w_db w) \<Longrightarrow> answers T d'"
  have tab: "ident T = e_id" "assign T = (\<lambda>i e. e\<lparr>e_id := i\<rparr>)"
    using epr_readyD(3) [OF ready] by (simp_all add: epr_table_def)
  have "epr_coherent_but E view up T (touched (rows T (w_db w)) e' \<union> {}) (w\<lparr>w_db := d'\<rparr>)"
  proof (rule epr_cache.coherent_store)
    show "epr_coherent_but E view up T {} w" using coh by (simp add: epr_cache.coherent_but_empty)
    show "epr_stored (E, view, up, T) (w\<lparr>w_db := d'\<rparr>) k cs"
      if "k \<notin> touched (rows T (w_db w)) e'" "epr_stored (E, view, up, T) w k cs" for k cs
      using that rows tab by (auto simp: epr_stored_def saved_rows_def touched_def)
  qed simp
  then show "Q e' (w\<lparr>w_db := d'\<rparr>)"
    using Q [of d' e'] ready rows con ans fresh same tab by (simp add: epr_ready_def)
next
  fix x d' assume "rows T d' = rows T (w_db w)" "answers T (w_db w) \<Longrightarrow> answers T d'"
  then show "F x (w\<lparr>w_db := d'\<rparr>)"
    using F [of d' x] ready coh by (simp add: epr_ready_def epr_cache.coherent_def epr_stored_def)
qed

lemma wp_rule_remove:
  assumes ready: "epr_ready (E, view, up, T) w" and coh: "epr_cache.coherent (E, view, up, T) w"
    and e: "e \<in> rows T (w_db w)"
    and Q: "\<And>d'. epr_ready (E, view, up, T) (w\<lparr>w_db := d'\<rparr>) \<Longrightarrow>
      epr_coherent_but E view up T {e_endpoint_key_name e} (w\<lparr>w_db := d'\<rparr>) \<Longrightarrow> Q () (w\<lparr>w_db := d'\<rparr>)"
    and F: "\<And>x d'. epr_ready (E, view, up, T) (w\<lparr>w_db := d'\<rparr>) \<Longrightarrow>
      epr_cache.coherent (E, view, up, T) (w\<lparr>w_db := d'\<rparr>) \<Longrightarrow> F x (w\<lparr>w_db := d'\<rparr>)"
  shows "wp (rulesRepository_remove E e) Q F w"
  unfolding rules_repo
proof (rule wp_db_remove [OF epr_readyD(2) [OF ready]])
  fix d'
  assume rows: "rows T d' = {x \<in> rows T (w_db w). ident T x \<noteq> ident T e}"
    and con: "constraint T (rows T (w_db w)) \<Longrightarrow> constraint T {x \<in> rows T (w_db w). ident T x \<noteq> ident T e}"
    and ans: "answers T (w_db w) \<Longrightarrow> answers T d'"
  have tab: "ident T = e_id" using epr_readyD(9) [OF ready] .
  have "epr_coherent_but E view up T ({e_endpoint_key_name e} \<union> {}) (w\<lparr>w_db := d'\<rparr>)"
  proof (rule epr_cache.coherent_store)
    show "epr_coherent_but E view up T {} w" using coh by (simp add: epr_cache.coherent_but_empty)
    show "epr_stored (E, view, up, T) (w\<lparr>w_db := d'\<rparr>) k cs"
      if "k \<notin> {e_endpoint_key_name e}" "epr_stored (E, view, up, T) w k cs" for k cs
      using that rows tab e epr_readyD(7) [OF ready] by (auto simp: epr_stored_def dest: inj_onD)
  qed simp
  then show "Q () (w\<lparr>w_db := d'\<rparr>)"
    using Q [of d'] ready rows con ans tab by (simp add: epr_ready_def)
next
  fix x d' assume "rows T d' = rows T (w_db w)" "answers T (w_db w) \<Longrightarrow> answers T d'"
  then show "F x (w\<lparr>w_db := d'\<rparr>)"
    using F [of d' x] ready coh by (simp add: epr_ready_def epr_cache.coherent_def epr_stored_def)
qed

lemma wp_epr_findOne:
  assumes ready: "epr_ready (E, view, up, T) w"
    and Q: "\<And>r. r \<in> rows T (w_db w) \<Longrightarrow> e_id r = rid \<Longrightarrow> Q r w"
    and F: "\<And>e. (\<forall>r \<in> rows T (w_db w). e_id r \<noteq> rid) \<Longrightarrow> F e w"
  shows "wp (epr_findOne E rid) Q F w"
  unfolding epr_findOne_def rules_repo wp_bind
  by (rule wp_db_find_one [OF epr_readyD(2) [OF ready]])
    (use epr_readyD(5) [OF ready] in \<open>auto simp: wp intro!: Q F\<close>)

section \<open>Every operation keeps the cache coherent\<close>

definition epr_ok :: "('r, 'd, 'q) epr_env \<Rightarrow> ('r, 'd, 'q) world \<Rightarrow> bool" where
  "epr_ok env w \<longleftrightarrow> epr_ready env w \<and> epr_cache.coherent env w"

lemma epr_okI:
  "epr_ready (E, view, up, T) w \<Longrightarrow> epr_coherent_but E view up T K w \<Longrightarrow> K = {} \<Longrightarrow> epr_ok (E, view, up, T) w"
  by (simp add: epr_ok_def epr_cache.coherent_but_empty)

lemma wp_ok_load:
  assumes "epr_ready (E, view, up, T) w" "epr_coherent_but E view up T K w" "K \<subseteq> {k}"
  shows "wp (loadRuleToRedis E k) (\<lambda>_. epr_ok (E, view, up, T)) (\<lambda>_. epr_ok (E, view, up, T)) w"
  by (rule wp_loadRuleToRedis [OF assms(1,2)], rule epr_okI, assumption, assumption) (use assms(3) in auto)

lemma wp_ok_create:
  assumes "epr_ok (E, view, up, T) w"
  shows "wp (epr_create E dto u) (\<lambda>_. epr_ok (E, view, up, T)) (\<lambda>_. epr_ok (E, view, up, T)) w"
proof -
  have ok: "epr_ready (E, view, up, T) w" "epr_cache.coherent (E, view, up, T) w"
    using assms by (simp_all add: epr_ok_def)
  show ?thesis unfolding epr_create_def wp_rethrow_as wp_bind wp_then wp_return
    by (rule wp_rule_save [OF ok])
      (auto simp: touched_fresh rulesRepository_create_def epr_ok_def intro!: wp_ok_load)
qed

lemma wp_ok_update:
  assumes "epr_ok (E, view, up, T) w" "dto_endpoint_key_name dto \<noteq> ''''"
  shows "wp (epr_update E rid dto) (\<lambda>_. epr_ok (E, view, up, T)) (\<lambda>_. epr_ok (E, view, up, T)) w"
proof -
  have ok: "epr_ready (E, view, up, T) w" "epr_cache.coherent (E, view, up, T) w"
    using assms(1) by (simp_all add: epr_ok_def)
  let ?P = "epr_ok (E, view, up, T)"
  show ?thesis unfolding epr_update_def wp_rethrow_as wp_bind wp_then wp_return
  proof (rule wp_epr_findOne [OF ok(1)])
    fix r assume r: "r \<in> rows T (w_db w)" "e_id r = rid"
    let ?new = "dto_endpoint_key_name dto" and ?old = "e_endpoint_key_name r"
    show "wp (rulesRepository_save E (rulesRepository_merge r dto))
        (\<lambda>saved. wp (if ?new \<noteq> '''' \<and> ?new \<noteq> ?old
            then thenE (invalidateRuleCache E ?old) (loadRuleToRedis E ?new)
            else loadRuleToRedis E (e_endpoint_key_name saved)) (\<lambda>_. ?P) (\<lambda>_. ?P)) (\<lambda>_. ?P) w"
    proof (rule wp_rule_save [OF ok])
      fix e' d'
      assume ready: "epr_ready (E, view, up, T) (w\<lparr>w_db := d'\<rparr>)"
        and coh: "epr_coherent_but E view up T (touched (rows T (w_db w)) e') (w\<lparr>w_db := d'\<rparr>)"
        and same: "e_id (rulesRepository_merge r dto) \<noteq> '''' \<Longrightarrow> e' = rulesRepository_merge r dto"
        and fresh: "e_id (rulesRepository_merge r dto) = '''' \<Longrightarrow>
          e' = rulesRepository_merge r dto\<lparr>e_id := e_id e'\<rparr> \<and> e_id e' \<notin> e_id ` rows T (w_db w)"
      have name: "e_endpoint_key_name e' = ?new"
      proof (cases "e_id (rulesRepository_merge r dto) = ''''")
        case True
        then show ?thesis using fresh_name [OF conjunct1 [OF fresh]] by (simp add: rulesRepository_merge_def)
      qed (use same in \<open>simp add: rulesRepository_merge_def\<close>)
      have "touched (rows T (w_db w)) e' \<subseteq> {?new, ?old}"
      proof (cases "e_id (rulesRepository_merge r dto) = ''''")
        case True
        then show ?thesis using fresh name by (auto simp: touched_fresh)
      next
        case False
        then have "e_id e' = e_id r" using same by (simp add: rulesRepository_merge_def)
        then show ?thesis using touched_existing [OF epr_readyD(7) [OF ok(1)] r(1)] name by auto
      qed
      then have K: "touched (rows T (w_db w)) e' - {?old} \<subseteq> {?new}" "?new = ?old \<Longrightarrow> touched (rows T (w_db w)) e' \<subseteq> {?new}"
        by auto
      show "wp (if ?new \<noteq> '''' \<and> ?new \<noteq> ?old
            then thenE (invalidateRuleCache E ?old) (loadRuleToRedis E ?new)
            else loadRuleToRedis E (e_endpoint_key_name e')) (\<lambda>_. ?P) (\<lambda>_. ?P) (w\<lparr>w_db := d'\<rparr>)"
        using assms(2) K name
        by (auto simp: wp_then intro!: wp_epr_invalidate [OF ready coh] wp_ok_load ready coh)
    qed (simp add: epr_ok_def)
  qed (use assms in simp)
qed

text \<open>Saving a found rule with other columns changed touches the key of the rule alone.\<close>

lemma wp_save_found:
  assumes "epr_ok (E, view, up, T) w" "r \<in> rows T (w_db w)"
    and "e_id e = e_id r" "e_endpoint_key_name e = e_endpoint_key_name r"
    and Q: "\<And>e' d'. epr_ready (E, view, up, T) (w\<lparr>w_db := d'\<rparr>) \<Longrightarrow>
      epr_coherent_but E view up T {e_endpoint_key_name r} (w\<lparr>w_db := d'\<rparr>) \<Longrightarrow>
      e_endpoint_key_name e' = e_endpoint_key_name r \<Longrightarrow> (e_id r \<noteq> '''' \<Longrightarrow> e' = e) \<Longrightarrow>
      rows T d' = saved_rows T e' (rows T (w_db w)) \<Longrightarrow> Q e' (w\<lparr>w_db := d'\<rparr>)"
    and F: "\<And>x d'. epr_ok (E, view, up, T) (w\<lparr>w_db := d'\<rparr>) \<Longrightarrow> F x (w\<lparr>w_db := d'\<rparr>)"
  shows "wp (rulesRepository_save E e) Q F w"
proof -
  have ok: "epr_ready (E, view, up, T) w" "epr_cache.coherent (E, view, up, T) w"
    using assms(1) by (simp_all add: epr_ok_def)
  show ?thesis
  proof (rule wp_rule_save [OF ok])
    fix e' d'
    assume ready: "epr_ready (E, view, up, T) (w\<lparr>w_db := d'\<rparr>)"
      and coh: "epr_coherent_but E view up T (touched (rows T (w_db w)) e') (w\<lparr>w_db := d'\<rparr>)"
      and same: "e_id e \<noteq> '''' \<Longrightarrow> e' = e"
      and fresh: "e_id e = '''' \<Longrightarrow> e' = e\<lparr>e_id := e_id e'\<rparr> \<and> e_id e' \<notin> e_id ` rows T (w_db w)"
      and rows: "rows T d' = saved_rows T e' (rows T (w_db w))"
    have name: "e_endpoint_key_name e' = e_endpoint_key_name r"
    proof (cases "e_id e = ''''")
      case True
      then show ?thesis using fresh_name [OF conjunct1 [OF fresh]] assms(4) by simp
    qed (use same assms(4) in simp)
    have "touched (rows T (w_db w)) e' = {e_endpoint_key_name r}"
    proof (cases "e_id e = ''''")
      case True
      then show ?thesis using fresh name by (simp add: touched_fresh)
    next
      case False
      then show ?thesis
        using same touched_existing [OF epr_readyD(7) [OF ok(1)] assms(2), of e'] name assms(3) by simp
    qed
    then show "Q e' (w\<lparr>w_db := d'\<rparr>)"
      using Q [OF ready _ name _ rows] coh same assms(3) by simp
  qed (use F in \<open>simp add: epr_ok_def\<close>)
qed

lemma wp_ok_delete:
  assumes "epr_ok (E, view, up, T) w"
  shows "wp (epr_delete E rid) (\<lambda>_. epr_ok (E, view, up, T)) (\<lambda>_. epr_ok (E, view, up, T)) w"
proof -
  have ok: "epr_ready (E, view, up, T) w" "epr_cache.coherent (E, view, up, T) w"
    using assms by (simp_all add: epr_ok_def)
  show ?thesis unfolding epr_delete_def wp_rethrow_as wp_bind wp_then wp_return
  proof (rule wp_epr_findOne [OF ok(1)])
    fix r assume r: "r \<in> rows T (w_db w)"
    show "wp (rulesRepository_remove E r)
        (\<lambda>_. wp (invalidateRuleCache E (e_endpoint_key_name r)) (\<lambda>_. epr_ok (E, view, up, T)) (\<lambda>_. epr_ok (E, view, up, T)))
        (\<lambda>_. epr_ok (E, view, up, T)) w"
      by (rule wp_rule_remove [OF ok r])
        (auto simp: epr_ok_def intro!: wp_epr_invalidate epr_cache.coherent_but_empty [THEN iffD1])
  qed (use assms in simp)
qed

lemma wp_ok_assign:
  assumes "epr_ok (E, view, up, T) w"
  shows "wp (epr_assignPermissions E rid ids) (\<lambda>_. epr_ok (E, view, up, T)) (\<lambda>_. epr_ok (E, view, up, T)) w"
proof -
  have ready: "epr_ready (E, view, up, T) w" using assms by (simp add: epr_ok_def)
  show ?thesis unfolding epr_assignPermissions_def wp_rethrow_as wp_bind wp_then wp_return
  proof (rule wp_epr_findOne [OF ready])
    fix r assume r: "r \<in> rows T (w_db w)"
    have save: "wp (rulesRepository_save E (r\<lparr>e_permissions := Some ps\<rparr>))
        (\<lambda>saved. wp (loadRuleToRedis E (e_endpoint_key_name saved)) (\<lambda>_. epr_ok (E, view, up, T)) (\<lambda>_. epr_ok (E, view, up, T)))
        (\<lambda>_. epr_ok (E, view, up, T)) w" for ps
      by (rule wp_save_found [OF assms r]) (auto intro!: wp_ok_load)
    show "wp (mapE (permissions_findOne E) ids)
        (\<lambda>ps. wp (rulesRepository_save E (r\<lparr>e_permissions := Some ps\<rparr>))
          (\<lambda>saved. wp (loadRuleToRedis E (e_endpoint_key_name saved)) (\<lambda>_. epr_ok (E, view, up, T)) (\<lambda>_. epr_ok (E, view, up, T)))
          (\<lambda>_. epr_ok (E, view, up, T))) (\<lambda>_. epr_ok (E, view, up, T)) w"
      by (rule wp_readonly [OF readonly_mapE]) (use assms save in simp_all)
  qed (use assms in simp)
qed

lemma wp_ok_enable:
  assumes "epr_ok (E, view, up, T) w"
  shows "wp (enableRule E rid) (\<lambda>_. epr_ok (E, view, up, T)) (\<lambda>_. epr_ok (E, view, up, T)) w"
proof -
  have ready: "epr_ready (E, view, up, T) w" using assms by (simp add: epr_ok_def)
  show ?thesis unfolding enableRule_def wp_bind
  proof (rule wp_epr_findOne [OF ready])
    fix r assume r: "r \<in> rows T (w_db w)"
    have "wp (rulesRepository_save E (r\<lparr>e_enabled := True\<rparr>))
        (\<lambda>_. wp (loadRuleToRedis E (e_endpoint_key_name r)) (\<lambda>_. epr_ok (E, view, up, T)) (\<lambda>_. epr_ok (E, view, up, T)))
        (\<lambda>_. epr_ok (E, view, up, T)) w"
      by (rule wp_save_found [OF assms r]) (auto intro!: wp_ok_load)
    then show "wp (if e_enabled r then throwE (epr_exception ''Endpoint Permission Rule already enabled''
            epr_error.ENDPOINT_PERMISSION_RULE_ALREADY_ENABLED BAD_REQUEST None)
          else thenE (rulesRepository_save E (r\<lparr>e_enabled := True\<rparr>))
           (thenE (loadRuleToRedis E (e_endpoint_key_name r))
             (returnE (''Endpoint Permission Rule '' @ e_endpoint_key_name r @ '' enabled''))))
        (\<lambda>_. epr_ok (E, view, up, T)) (\<lambda>_. epr_ok (E, view, up, T)) w"
      using assms by (simp add: wp)
  qed (use assms in simp)
qed

text \<open>Disabling: besides coherence, the key has neither an entry nor an enabled rule afterwards.\<close>

lemma wp_disableRule:
  assumes ok: "epr_ok (E, view, up, T) w"
    and Q: "\<And>r m w'. r \<in> rows T (w_db w) \<Longrightarrow> e_id r = rid \<Longrightarrow> epr_ok (E, view, up, T) w' \<Longrightarrow>
      (e_id r \<noteq> '''' \<Longrightarrow> \<forall>cs. \<not> epr_stored (E, view, up, T) w' (e_endpoint_key_name r) cs) \<Longrightarrow> Q m w'"
    and F: "\<And>e w'. epr_ok (E, view, up, T) w' \<Longrightarrow> F e w'"
  shows "wp (disableRule E rid) Q F w"
  unfolding disableRule_def wp_bind
proof (rule wp_epr_findOne)
  show ready: "epr_ready (E, view, up, T) w" using ok by (simp add: epr_ok_def)
  fix r assume r: "r \<in> rows T (w_db w)" "e_id r = rid"
  have "wp (rulesRepository_save E (r\<lparr>e_enabled := False\<rparr>))
      (\<lambda>_. wp (invalidateRuleCache E (e_endpoint_key_name r)) (\<lambda>_. Q m) F) F w" for m
  proof (rule wp_save_found [OF ok r(1)])
    fix e' d'
    assume ready': "epr_ready (E, view, up, T) (w\<lparr>w_db := d'\<rparr>)"
      and coh: "epr_coherent_but E view up T {e_endpoint_key_name r} (w\<lparr>w_db := d'\<rparr>)"
      and e': "e_id r \<noteq> '''' \<Longrightarrow> e' = r\<lparr>e_enabled := False\<rparr>"
      and rows: "rows T d' = saved_rows T e' (rows T (w_db w))"
    have none: "\<not> epr_stored (E, view, up, T) (w\<lparr>w_db := d'\<rparr>) (e_endpoint_key_name r) cs" if "e_id r \<noteq> ''''" for cs
      using that r e' rows epr_readyD(8,9) [OF ready]
      by (auto simp: epr_stored_def saved_rows_def dest: inj_onD)
    show "wp (invalidateRuleCache E (e_endpoint_key_name r)) (\<lambda>_. Q m) F (w\<lparr>w_db := d'\<rparr>)"
      by (rule wp_epr_invalidate [OF ready' coh])
        (rule Q [OF r], auto intro: epr_okI simp: none)
  qed (use F in auto)
  then show "wp (if \<not> e_enabled r then throwE (epr_exception ''Endpoint Permission Rule already disabled''
          epr_error.ENDPOINT_PERMISSION_RULE_ALREADY_DISABLED BAD_REQUEST None)
        else thenE (rulesRepository_save E (r\<lparr>e_enabled := False\<rparr>))
         (thenE (invalidateRuleCache E (e_endpoint_key_name r))
           (returnE (''Endpoint Permission Rule '' @ e_endpoint_key_name r @ '' disabled'')))) Q F w"
    using F [OF ok] by (simp add: wp)
qed (use F ok in auto)

section \<open>Warm-up and reconciliation\<close>

lemma epr_warm_val:
  "val (exec_all (epr_warm_commands rules) v) (epr_redisKey k) =
   (case find (\<lambda>r. e_endpoint_key_name r = k) (rev rules) of
      Some r \<Rightarrow> Some (CodesDoc (epr_permissionCodes r)) | None \<Rightarrow> val v (epr_redisKey k))"
proof (induction rules rule: rev_induct)
  case (snoc r rules)
  have "epr_warm_commands (rules @ [r]) = epr_warm_commands rules @
      [SET (epr_redisKey (e_endpoint_key_name r)) (CodesDoc (epr_permissionCodes r)) NO_OPTION,
       SADD epr_index (e_endpoint_key_name r)]"
    by (simp add: epr_warm_commands_def)
  then show ?case using snoc by simp
qed (simp add: epr_warm_commands_def)

lemma find_SomeD: "find P xs = Some x \<Longrightarrow> x \<in> set xs \<and> P x"
  by (induction xs) (auto split: if_splits)

lemma epr_warm_cached:
  assumes ready: "epr_ready (E, view, up, T) w"
    and rules: "set rules = {r \<in> rows T (w_db w). e_enabled r}"
    and r': "view r' = exec_all (epr_warm_commands rules) (view (w_redis w))"
  shows "epr_cached (E, view, up, T) (w\<lparr>w_redis := r'\<rparr>) k = Some cs \<longleftrightarrow>
    epr_stored (E, view, up, T) w k cs \<or>
    (\<forall>cs. \<not> epr_stored (E, view, up, T) w k cs) \<and> epr_cached (E, view, up, T) w k = Some cs"
proof (cases "find (\<lambda>r. e_endpoint_key_name r = k) (rev rules)")
  case None
  then have "\<not> epr_stored (E, view, up, T) w k cs" for cs
    using rules by (auto simp: epr_stored_def find_None_iff)
  then show ?thesis using r' None by (simp add: epr_cached_def epr_warm_val)
next
  case (Some r)
  from find_SomeD [OF this] have "r \<in> set rules" "e_endpoint_key_name r = k" by simp_all
  then have stored: "epr_stored (E, view, up, T) w k (epr_permissionCodes r)"
    using rules by (auto simp: epr_stored_def)
  then have "epr_stored (E, view, up, T) w k cs \<longleftrightarrow> cs = epr_permissionCodes r"
    using epr_stored_unique [OF ready] by blast
  then show ?thesis using r' Some stored by (auto simp: epr_cached_def epr_warm_val)
qed

lemma wp_epr_warmUpCache:
  assumes ready: "epr_ready (E, view, up, T) w"
    and Q: "\<And>w'. epr_ready (E, view, up, T) w' \<Longrightarrow>
      epr_stored (E, view, up, T) w' = epr_stored (E, view, up, T) w \<Longrightarrow>
      (\<And>k cs. epr_cached (E, view, up, T) w' k = Some cs \<longleftrightarrow> epr_stored (E, view, up, T) w k cs \<or>
        (\<forall>cs. \<not> epr_stored (E, view, up, T) w k cs) \<and> epr_cached (E, view, up, T) w k = Some cs) \<Longrightarrow>
      Q () w'"
  shows "wp (epr_warmUpCache E) Q F w"
  unfolding epr_warmUpCache_def rules_repo wp_swallow wp_bind
proof (rule wp_db_find [OF epr_readyD(2) [OF ready]])
  fix rules assume rules: "set rules = {r \<in> rows T (w_db w). e_enabled r}"
  note cached = epr_warm_cached [OF ready rules]
  show "wp (if length rules = 0 then returnE () else raw_exec E (epr_warm_commands rules)) Q (\<lambda>_. Q ()) w"
  proof (cases "rules = []")
    case True
    have "Q () w" by (rule Q [OF ready]) (use cached [of "w_redis w"] True in \<open>simp_all add: epr_warm_commands_def\<close>)
    with True show ?thesis by (simp add: wp)
  next
    case False
    have "wp (raw_exec E (epr_warm_commands rules)) Q (\<lambda>_. Q ()) w"
    proof (rule wp_raw_exec [OF epr_readyD(1) [OF ready]])
      fix r' assume r': "view r' = exec_all (epr_warm_commands rules) (view (w_redis w))" "up (w_redis w) \<Longrightarrow> up r'"
      show "Q () (w\<lparr>w_redis := r'\<rparr>)"
        by (rule Q) (use ready r' cached [OF r'(1)] in \<open>simp_all add: epr_ready_def\<close>)
    qed (use epr_readyD(4) [OF ready] in simp)
    with False show ?thesis by (simp add: wp)
  qed
qed (use epr_readyD(5) [OF ready] in simp)

text \<open>The index names every cached key: what the reconciliation relies on.\<close>

definition epr_indexed :: "('r, 'd, 'q) epr_env \<Rightarrow> ('r, 'd, 'q) world \<Rightarrow> bool" where
  "epr_indexed env w = (case env of (E, view, up, T) \<Rightarrow>
     (\<forall>k. epr_cached env w k \<noteq> None \<longrightarrow> k \<in> sets (view (w_redis w)) epr_index))"

lemma exec_del_keys:
  "val (exec_all (List.map (\<lambda>key. DEL (epr_redisKey key)) ks) v) (epr_redisKey k) =
   (if k \<in> set ks then None else val v (epr_redisKey k))"
  by (induction ks arbitrary: v) auto

lemma wp_epr_deleteStaleKeys:
  assumes ready: "epr_ready (E, view, up, T) w"
    and Q: "\<And>r'. epr_ready (E, view, up, T) (w\<lparr>w_redis := r'\<rparr>) \<Longrightarrow>
      (\<And>k. epr_cached (E, view, up, T) (w\<lparr>w_redis := r'\<rparr>) k =
        (if k \<in> sets (view (w_redis w)) epr_index then None else epr_cached (E, view, up, T) w k)) \<Longrightarrow>
      Q () (w\<lparr>w_redis := r'\<rparr>)"
  shows "wp (epr_deleteStaleKeys E) Q F w"
  unfolding epr_deleteStaleKeys_def wp_bind
proof (rule wp_raw_sMembers [OF epr_readyD(1) [OF ready]])
  fix ks assume ks: "set ks = sets (view (w_redis w)) epr_index" "distinct ks"
  show "wp (if ks = [] then returnE ()
      else raw_exec E (List.map (\<lambda>key. DEL (epr_redisKey key)) ks @ [DEL epr_index])) Q F w"
  proof (cases "ks = []")
    case True
    then show ?thesis using Q [of "w_redis w"] ready ks by (simp add: wp)
  next
    case False
    have "wp (raw_exec E (List.map (\<lambda>key. DEL (epr_redisKey key)) ks @ [DEL epr_index])) Q F w"
    proof (rule wp_raw_exec [OF epr_readyD(1) [OF ready]])
      fix r' assume r': "view r' = exec_all (List.map (\<lambda>key. DEL (epr_redisKey key)) ks @ [DEL epr_index]) (view (w_redis w))"
        "up (w_redis w) \<Longrightarrow> up r'"
      show "Q () (w\<lparr>w_redis := r'\<rparr>)"
        by (rule Q) (use ready r' ks in \<open>simp_all add: epr_ready_def epr_cached_def exec_del_keys\<close>)
    qed (use epr_readyD(4) [OF ready] in simp)
    with False show ?thesis by simp
  qed
qed (use epr_readyD(4) [OF ready] in simp)

lemma wp_epr_reconcile:
  assumes ready: "epr_ready (E, view, up, T) w"
    and Q: "\<And>w'. epr_ready (E, view, up, T) w' \<Longrightarrow>
      epr_stored (E, view, up, T) w' = epr_stored (E, view, up, T) w \<Longrightarrow>
      (\<And>k cs. epr_cached (E, view, up, T) w' k = Some cs \<longleftrightarrow> epr_stored (E, view, up, T) w k cs \<or>
        (\<forall>cs. \<not> epr_stored (E, view, up, T) w k cs) \<and> epr_cached (E, view, up, T) w k = Some cs \<and>
        k \<notin> sets (view (w_redis w)) epr_index) \<Longrightarrow> Q () w'"
  shows "wp (epr_handleCacheReconciliation E) Q F w"
  unfolding epr_handleCacheReconciliation_def wp_then wp_swallow
proof (rule wp_epr_deleteStaleKeys [OF ready])
  fix r' assume ready': "epr_ready (E, view, up, T) (w\<lparr>w_redis := r'\<rparr>)"
    and cached: "\<And>k. epr_cached (E, view, up, T) (w\<lparr>w_redis := r'\<rparr>) k =
        (if k \<in> sets (view (w_redis w)) epr_index then None else epr_cached (E, view, up, T) w k)"
  show "wp (epr_warmUpCache E) Q (\<lambda>_. Q ()) (w\<lparr>w_redis := r'\<rparr>)"
    by (rule wp_epr_warmUpCache [OF ready']) (rule Q, auto simp: cached)
qed

end
