(* ===== verification/Container.thy ===== *)
theory Container imports Jwt begin

text \<open>
  A container over the in-memory database and Redis with small stand-ins of the other
  libraries, shown to meet every law the theorems assume, and a world to start from: the
  concrete input at which the witnesses apply the theorems.
\<close>

section \<open>Tokens\<close>

text \<open>A token that holds its claims, its secret and its expiry, each part readable back.\<close>

fun pad :: "string \<Rightarrow> string" where
  "pad [] = [CHR ''.'']"
| "pad (c # cs) = CHR ''_'' # c # pad cs"

fun unpad :: "string \<Rightarrow> string \<times> string" where
  "unpad (x # y # zs) =
     (if x = CHR ''_'' then (case unpad zs of (a, rest) \<Rightarrow> (y # a, rest)) else ([], y # zs))"
| "unpad xs = ([], [])"

lemma unpad_pad [simp]: "unpad (pad s @ t) = (s, t)"
  by (induction s) (cases t; simp)+

fun bits :: "nat \<Rightarrow> string" where
  "bits n = (if n = 0 then [] else (if n mod 2 = 1 then CHR ''1'' else CHR ''0'') # bits (n div 2))"

declare bits.simps [simp del]

fun unbits :: "string \<Rightarrow> nat" where
  "unbits [] = 0"
| "unbits (c # cs) = (if c = CHR ''1'' then 1 else 0) + 2 * unbits cs"

lemma unbits_bits [simp]: "unbits (bits n) = n"
proof (induction n rule: bits.induct)
  case (1 n)
  then show ?case by (subst bits.simps) (auto simp: mod2_eq_if)
qed

definition mem_token :: "string \<times> string \<Rightarrow> string \<Rightarrow> nat \<Rightarrow> string" where
  "mem_token claims secret expiry = pad (fst claims) @ pad (snd claims) @ pad secret @ bits expiry"

definition mem_read :: "string \<Rightarrow> string \<times> string \<times> string \<times> nat" where
  "mem_read token =
     (case unpad token of (email, r1) \<Rightarrow> case unpad r1 of (sid, r2) \<Rightarrow> case unpad r2 of (secret, r3) \<Rightarrow>
        (email, sid, secret, unbits r3))"

lemma mem_read_token [simp]: "mem_read (mem_token claims secret expiry) = (fst claims, snd claims, secret, expiry)"
  by (simp add: mem_read_def mem_token_def)

text \<open>One time span for every text: an hour.\<close>

definition mem_ms :: "string \<Rightarrow> rat" where
  "mem_ms s = 3600000"

definition mem_sign :: "string \<times> string \<Rightarrow> string \<Rightarrow> string \<Rightarrow> int \<Rightarrow> exn + string" where
  "mem_sign claims secret expiresIn now =
     (let e = \<lfloor>of_int (now div 1000) + mem_ms expiresIn / 1000\<rfloor> in
      if e < 0 then Inl (JsError ''Error'' ''expired at birth'' None None)
      else Inr (mem_token claims secret (nat e)))"

definition mem_verify :: "string \<Rightarrow> string \<Rightarrow> int \<Rightarrow> exn + payload" where
  "mem_verify token secret now =
     (case mem_read token of (email, sid, secret', expiry) \<Rightarrow>
        if secret' \<noteq> secret then Inl (JsError ''JsonWebTokenError'' ''invalid signature'' None None)
        else if int expiry \<le> now div 1000 then Inl (JsError ''TokenExpiredError'' ''jwt expired'' None None)
        else Inr (signed_claims (email, sid) expiry))"

section \<open>The container\<close>

text \<open>The join of a user with the table of roles.\<close>

definition mem_joined :: "user \<Rightarrow> mem_db \<Rightarrow> role list" where
  "mem_joined u d = filter (\<lambda>r. r_id r \<in> set (role_ids u)) (t_roles d)"

type_synonym mem_env = "(mem_redis, mem_db, email_body list) env"
type_synonym mem_world = "(mem_redis, mem_db, email_body list) world"

definition mem_env :: mem_env where
  "mem_env =
     \<lparr>redis_api = mem_redis_api,
      users_orm = mem_orm t_up t_users (\<lambda>x d. d\<lparr>t_users := x\<rparr>) u_id (\<lambda>i e. e\<lparr>u_id := i\<rparr>) [u_id, u_email, u_person_id],
      roles_orm = mem_orm t_up t_roles (\<lambda>x d. d\<lparr>t_roles := x\<rparr>) r_id (\<lambda>i e. e\<lparr>r_id := i\<rparr>) [r_id, r_name],
      permissions_orm = mem_orm t_up t_permissions (\<lambda>x d. d\<lparr>t_permissions := x\<rparr>) p_id (\<lambda>i e. e\<lparr>p_id := i\<rparr>) [p_id, p_code],
      api_keys_orm = mem_orm t_up t_api_keys (\<lambda>x d. d\<lparr>t_api_keys := x\<rparr>) k_id (\<lambda>i e. e\<lparr>k_id := i\<rparr>) [k_id, k_key_fingerprint],
      rules_orm = mem_orm t_up t_rules (\<lambda>x d. d\<lparr>t_rules := x\<rparr>) e_id (\<lambda>i e. e\<lparr>e_id := i\<rparr>) [e_id, e_endpoint_key_name],
      users_by_role = (\<lambda>p d. if t_up d
        then Inr (List.map (\<lambda>u. u\<lparr>u_roles := Some (mem_joined u d)\<rparr>)
               (filter (\<lambda>u. list_ex p (mem_joined u d)) (t_users d)))
        else Inl db_down),
      tx_commit = (\<lambda>before now. (Inr (), now)),
      tx_rollback = (\<lambda>before now. before),
      bcrypt_compare = (\<lambda>p h. h = ''hash:'' @ p),
      bcrypt_hashSync = (\<lambda>p n. ''hash:'' @ p),
      hmac_sha256 = (\<lambda>secret s. ''fp:'' @ s),
      jwt_sign = mem_sign, jwt_verify = mem_verify,
      ua_os = (\<lambda>_. None), ua_browser = (\<lambda>_. Some ''Firefox''), ms = mem_ms,
      process_env = (\<lambda>_. Some ''1h''),
      config = (\<lambda>k. if k = ''JWT_REFRESH_RENEW_THRESHOLD_MINUTES'' then None else Some (k @ ''?'')),
      toISOString = (\<lambda>_. ''1970-01-01T00:00:00.000Z''), full_year = (\<lambda>_. ''1970''),
      readFile = (\<lambda>f. Inr ''<p>%%APP_NAME%%</p>''),
      email_emit = (\<lambda>queue body q. (Inr (), body # q))\<rparr>"

definition mem_users :: "(mem_db, user) table" where
  "mem_users = mem_table t_up t_users u_id (\<lambda>i e. e\<lparr>u_id := i\<rparr>) [u_id, u_email, u_person_id]"

definition mem_roles :: "(mem_db, role) table" where
  "mem_roles = mem_table t_up t_roles r_id (\<lambda>i e. e\<lparr>r_id := i\<rparr>) [r_id, r_name]"

definition mem_permissions :: "(mem_db, permission) table" where
  "mem_permissions = mem_table t_up t_permissions p_id (\<lambda>i e. e\<lparr>p_id := i\<rparr>) [p_id, p_code]"

definition mem_api_keys :: "(mem_db, api_key) table" where
  "mem_api_keys = mem_table t_up t_api_keys k_id (\<lambda>i e. e\<lparr>k_id := i\<rparr>) [k_id, k_key_fingerprint]"

definition mem_rules :: "(mem_db, epr) table" where
  "mem_rules = mem_table t_up t_rules e_id (\<lambda>i e. e\<lparr>e_id := i\<rparr>) [e_id, e_endpoint_key_name]"

lemma mem_env_simps [simp]:
  "redis_api mem_env = mem_redis_api" "jwt_sign mem_env = mem_sign" "jwt_verify mem_env = mem_verify"
  "ms mem_env = mem_ms"
  by (simp_all add: mem_env_def)

lemma mem_env_laws:
  "orm_laws (users_orm mem_env) mem_users" "orm_laws (roles_orm mem_env) mem_roles"
  "orm_laws (permissions_orm mem_env) mem_permissions" "orm_laws (api_keys_orm mem_env) mem_api_keys"
  "orm_laws (rules_orm mem_env) mem_rules"
  by (simp_all add: mem_env_def mem_users_def mem_roles_def mem_permissions_def mem_api_keys_def mem_rules_def
      mem_orm_laws)

lemma mem_table_simps:
  "rows (mem_table ok get idf asg cols) d = set (get d)" "answers (mem_table ok get idf asg cols) = ok"
  "ident (mem_table ok get idf asg cols) = idf" "assign (mem_table ok get idf asg cols) = asg"
  "constraint (mem_table ok get idf asg cols) S \<longleftrightarrow> (\<forall>c \<in> set cols. inj_on c S)"
  by (simp_all add: mem_table_def)

lemmas mem_tables = mem_users_def mem_roles_def mem_permissions_def mem_api_keys_def mem_rules_def
  mem_table_simps

lemma mem_tx_laws: "tx_laws mem_env T"
  by (simp add: tx_laws_def commit_ok_def mem_env_def)

lemma mem_role_query_laws: "role_query_laws mem_env mem_users mem_roles"
proof -
  have j: "roles_of_user mem_roles d u = set (mem_joined u d)" for d u
    by (auto simp: roles_of_user_def mem_joined_def mem_tables)
  have l: "loads_roles mem_roles p d u (u\<lparr>u_roles := Some (mem_joined u d)\<rparr>)" for p d u
    unfolding loads_roles_def j by blast
  have rows: "rows mem_users d = set (t_users d)" "answers mem_users d = t_up d" for d
    by (simp_all add: mem_tables)
  have q: "users_by_role mem_env p d = (if t_up d then Inr (List.map (\<lambda>u. u\<lparr>u_roles := Some (mem_joined u d)\<rparr>)
      (filter (\<lambda>u. list_ex p (mem_joined u d)) (t_users d))) else Inl db_down)" for p d
    by (simp add: mem_env_def)
  have "by_role_ok mem_users mem_roles p d (users_by_role mem_env p d)" for p d
    unfolding by_role_ok_def j q rows using l by (cases "t_up d") (auto simp: list_ex_iff)
  then show ?thesis by (simp add: role_query_laws_def)
qed

lemma mem_jwt_laws: "jwt_laws mem_env"
proof -
  have "token_ok mem_env claims secret ex now token" if "mem_sign claims secret ex now = Inr token"
    for claims secret ex now token
  proof -
    let ?e = "token_exp mem_env ex now"
    have e: "0 \<le> ?e" "token = mem_token claims secret (nat ?e)"
      using that by (auto simp: mem_sign_def Let_def token_exp_def split: if_splits)
    moreover have "pad s \<noteq> []" for s by (cases s) auto
    ultimately show ?thesis
      by (auto simp: token_ok_def mem_verify_def signed_claims_def mem_token_def [of _ _ "nat _"] simp del: mem_read_token)
        (simp_all add: mem_read_def signed_claims_def)
  qed
  then show ?thesis by (simp add: jwt_laws_def)
qed

lemma mem_signing: "signing mem_env 0"
  by (simp add: signing_def mem_sign_def Let_def mem_ms_def)

section \<open>A world\<close>

definition perm_read :: permission where
  "perm_read = \<lparr>p_id = ''p1'', p_code = ''USERS_READ'', p_created_by = None\<rparr>"

definition perm_write :: permission where
  "perm_write = \<lparr>p_id = ''p2'', p_code = ''USERS_WRITE'', p_created_by = None\<rparr>"

definition role_reader :: role where
  "role_reader = \<lparr>r_id = ''r1'', r_name = ''reader'', r_is_restricted = False, r_created_by = None,
     r_permissions = [perm_read]\<rparr>"

definition user_ana :: user where
  "user_ana = \<lparr>u_id = ''u1'', u_email = ''ana'', u_password = ''hash:pw'', u_status = ACTIVE,
     u_person_id = ''x1'', u_created_by = None, u_roles = Some [role_reader], u_originalPassword = None\<rparr>"

definition user_new :: user where
  "user_new = \<lparr>u_id = ''u2'', u_email = ''bob'', u_password = ''hash:tmp'', u_status = PENDING,
     u_person_id = ''x2'', u_created_by = None, u_roles = Some [], u_originalPassword = None\<rparr>"

definition rule_read :: epr where
  "rule_read = \<lparr>e_id = ''e1'', e_endpoint_key_name = ''users.find'', e_enabled = True,
     e_permissions = Some [perm_read], e_created_by = None\<rparr>"

definition rule_off :: epr where
  "rule_off = \<lparr>e_id = ''e2'', e_endpoint_key_name = ''users.off'', e_enabled = False,
     e_permissions = Some [perm_write], e_created_by = None\<rparr>"

definition key_active :: api_key where
  "key_active = \<lparr>k_id = ''k1'', k_key_fingerprint = ''fp:secret'', k_client = ''app'', k_active = True,
     k_created_by = None, k_permissions = Some [perm_read]\<rparr>"

definition key_inactive :: api_key where
  "key_inactive = \<lparr>k_id = ''k2'', k_key_fingerprint = ''fp:old'', k_client = ''old'', k_active = False,
     k_created_by = None, k_permissions = Some [perm_write]\<rparr>"

definition session_ana :: session where
  "session_ana = \<lparr>s_user_id = ''u1'', s_person_id = ''x1'', s_email = ''ana'', s_permissions = [''USERS_READ''],
     s_active = True, s_ip = ''10.0.0.1'', s_userAgent = ''ua'', s_device = ''d'',
     s_created_at = ''t0'', s_last_refresh_at = ''t0''\<rparr>"

definition db0 :: mem_db where
  "db0 = \<lparr>t_users = [user_ana, user_new], t_roles = [role_reader], t_permissions = [perm_read, perm_write],
     t_api_keys = [key_active, key_inactive], t_rules = [rule_read, rule_off], t_up = True\<rparr>"

definition redis0 :: mem_redis where
  "redis0 = \<lparr>m_strs = (\<lambda>_. None)(session_key ''s1'' \<mapsto> (SessionDoc session_ana, Some 5000)),
     m_sets = (\<lambda>_. [])(user_index ''u1'' := [''s1'', ''gone'']), m_up = True\<rparr>"

definition world0 :: mem_world where
  "world0 = \<lparr>w_redis = redis0, w_db = db0, w_mq = [], w_now = 0, w_templates = (\<lambda>_. None)\<rparr>"

lemmas world0_defs = world0_def db0_def redis0_def perm_read_def perm_write_def role_reader_def user_ana_def
  user_new_def rule_read_def rule_off_def key_active_def key_inactive_def session_ana_def

end
