(* ===== verification/EprProperties.thy ===== *)
theory EprProperties imports EprCache Container begin

text \<open>
  The properties of the endpoint permission rules, with the in-memory container as their
  concrete instance.
\<close>

section \<open>The operations as steps\<close>

datatype epr_op =
  OpCreate epr_dto "auth_user option" | OpUpdate string epr_dto | OpDelete string
| OpAssign string "string list" | OpEnable string | OpDisable string | OpLookup string
| OpWarmUp | OpReconcile

fun epr_perform :: "('r, 'd, 'q) env \<Rightarrow> epr_op \<Rightarrow> ('r, 'd, 'q) world \<Rightarrow> ('r, 'd, 'q) world" where
  "epr_perform E (OpCreate dto u) w = snd (epr_create E dto u w)"
| "epr_perform E (OpUpdate rid dto) w = snd (epr_update E rid dto w)"
| "epr_perform E (OpDelete rid) w = snd (epr_delete E rid w)"
| "epr_perform E (OpAssign rid ids) w = snd (epr_assignPermissions E rid ids w)"
| "epr_perform E (OpEnable rid) w = snd (enableRule E rid w)"
| "epr_perform E (OpDisable rid) w = snd (disableRule E rid w)"
| "epr_perform E (OpLookup key) w = snd (getPermissionsForEndpoint E key w)"
| "epr_perform E OpWarmUp w = snd (epr_warmUpCache E w)"
| "epr_perform E OpReconcile w = snd (epr_handleCacheReconciliation E w)"

text \<open>The validation of the DTO: a new key name is not empty.\<close>

fun epr_valid :: "epr_op \<Rightarrow> bool" where
  "epr_valid (OpUpdate rid dto) = (dto_endpoint_key_name dto \<noteq> '''')"
| "epr_valid _ = True"

lemma wp_ok_disable:
  assumes "epr_ok (E, view, up, T) w"
  shows "wp (disableRule E rid) (\<lambda>_. epr_ok (E, view, up, T)) (\<lambda>_. epr_ok (E, view, up, T)) w"
  by (rule wp_disableRule [OF assms])

lemma wp_ok_warm:
  assumes "epr_ok (E, view, up, T) w"
  shows "wp (epr_warmUpCache E) (\<lambda>_. epr_ok (E, view, up, T)) (\<lambda>_. epr_ok (E, view, up, T)) w"
proof (rule wp_epr_warmUpCache [of E view up T])
  show "epr_ready (E, view, up, T) w" using assms by (simp add: epr_ok_def)
qed (use assms in \<open>simp add: epr_ok_def epr_cache.coherent_def; blast\<close>)

lemma wp_ok_reconcile:
  assumes "epr_ok (E, view, up, T) w"
  shows "wp (epr_handleCacheReconciliation E) (\<lambda>_. epr_ok (E, view, up, T)) (\<lambda>_. epr_ok (E, view, up, T)) w"
proof (rule wp_epr_reconcile [of E view up T])
  show "epr_ready (E, view, up, T) w" using assms by (simp add: epr_ok_def)
qed (use assms in \<open>simp add: epr_ok_def epr_cache.coherent_def; blast\<close>)

lemma epr_perform_ok:
  assumes "epr_ok (E, view, up, T) w" "epr_valid op"
  shows "epr_ok (E, view, up, T) (epr_perform E op w)"
proof (cases op)
  case (OpLookup key)
  have "epr_ready (E, view, up, T) w" "epr_cache.coherent (E, view, up, T) w"
    using assms(1) by (simp_all add: epr_ok_def)
  from epr_cache.lookup_keeps [OF this, of key] show ?thesis by (simp add: OpLookup epr_ok_def)
next
  case (OpUpdate rid dto)
  then show ?thesis using assms(2) wp_run [OF wp_ok_update [OF assms(1)]] by simp
qed (use wp_run [OF wp_ok_create [OF assms(1)]] wp_run [OF wp_ok_delete [OF assms(1)]]
    wp_run [OF wp_ok_assign [OF assms(1)]] wp_run [OF wp_ok_enable [OF assms(1)]]
    wp_run [OF wp_ok_disable [OF assms(1)]] wp_run [OF wp_ok_warm [OF assms(1)]]
    wp_run [OF wp_ok_reconcile [OF assms(1)]] in simp_all)

section \<open>Concrete states\<close>

abbreviation mem_epr :: "(mem_redis, mem_db, email_body list) epr_env" where
  "mem_epr \<equiv> (mem_env, mem_view, m_up, mem_rules)"

lemma world0_epr_ready [simp]: "epr_ready mem_epr world0"
  by (simp add: epr_ready_def epr_table_def mem_redis_laws mem_env_laws)
    (simp add: mem_tables world0_defs)

lemma world0_epr_cached: "epr_cached mem_epr world0 = (\<lambda>_. None)"
  by (rule ext) (simp add: epr_cached_def val_mem_view world0_defs epr_redisKey_def session_key_def)

lemma world0_epr_coherent [simp]: "epr_cache.coherent mem_epr world0"
  by (simp add: epr_cache.coherent_def world0_epr_cached)

lemma world0_epr_stored: "epr_stored mem_epr world0 ''users.find'' [''USERS_READ'']"
  by (simp add: epr_stored_def mem_tables world0_defs epr_permissionCodes_def)

section \<open>Properties\<close>

lemma epr_lookup_is_database_parts:
  assumes "epr_ready (E, view, up, T) w" "epr_cache.coherent (E, view, up, T) w"
  shows "fst (getPermissionsForEndpoint E key w) = Inr codes \<longleftrightarrow>
      (\<exists>r \<in> rows T (w_db w). e_endpoint_key_name r = key \<and> e_enabled r \<and> epr_permissionCodes r = codes)"
    and "(\<forall>r \<in> rows T (w_db w). e_endpoint_key_name r = key \<longrightarrow> \<not> e_enabled r) \<Longrightarrow>
      \<exists>m. getPermissionsForEndpoint E key w =
        (Inl (epr_exception m epr_error.ENDPOINT_PERMISSION_RULE_NOT_FOUND NOT_FOUND None), w)"
proof -
  show "fst (getPermissionsForEndpoint E key w) = Inr codes \<longleftrightarrow>
      (\<exists>r \<in> rows T (w_db w). e_endpoint_key_name r = key \<and> e_enabled r \<and> epr_permissionCodes r = codes)"
    using epr_cache.lookup_refines [OF assms, of key codes] by (simp add: epr_stored_def)
  assume "\<forall>r \<in> rows T (w_db w). e_endpoint_key_name r = key \<longrightarrow> \<not> e_enabled r"
  then have "\<not> epr_stored (E, view, up, T) w key cs" for cs by (auto simp: epr_stored_def)
  moreover from this have "epr_cached (E, view, up, T) w key = None"
    using assms(2) by (auto simp: epr_cache.coherent_def) (metis not_None_eq)
  ultimately show "\<exists>m. getPermissionsForEndpoint E key w =
        (Inl (epr_exception m epr_error.ENDPOINT_PERMISSION_RULE_NOT_FOUND NOT_FOUND None), w)"
    using epr_lookup_absent [OF assms(1)] by blast
qed

text \<open>C4. The permissions of an endpoint: while Redis and the database answer and the cache is
  coherent, \<open>getPermissionsForEndpoint\<close> returns exactly the codes of the enabled rule that
  the database keeps for the endpoint key, whatever part of it is cached; without an enabled
  rule it rejects with a 404 and leaves the world as it was.\<close>

theorem epr_lookup_is_database:
  assumes "epr_ready (E, view, up, T) w" "epr_cache.coherent (E, view, up, T) w"
  shows "(\<forall>codes. fst (getPermissionsForEndpoint E key w) = Inr codes \<longleftrightarrow>
      (\<exists>r \<in> rows T (w_db w). e_endpoint_key_name r = key \<and> e_enabled r \<and> epr_permissionCodes r = codes)) \<and>
    ((\<forall>r \<in> rows T (w_db w). e_endpoint_key_name r = key \<longrightarrow> \<not> e_enabled r) \<longrightarrow>
      (\<exists>m. getPermissionsForEndpoint E key w =
        (Inl (epr_exception m epr_error.ENDPOINT_PERMISSION_RULE_NOT_FOUND NOT_FOUND None), w)))"
  using epr_lookup_is_database_parts [OF assms, of key] by blast

theorem epr_lookup_is_database_witness:
  "fst (getPermissionsForEndpoint mem_env ''users.find'' world0) = Inr [''USERS_READ''] \<and>
   (\<exists>m. getPermissionsForEndpoint mem_env ''users.off'' world0 =
      (Inl (epr_exception m epr_error.ENDPOINT_PERMISSION_RULE_NOT_FOUND NOT_FOUND None), world0))"
proof
  show "fst (getPermissionsForEndpoint mem_env ''users.find'' world0) = Inr [''USERS_READ'']"
    using epr_lookup_is_database [OF world0_epr_ready world0_epr_coherent, THEN conjunct1,
        THEN spec [where x = "[''USERS_READ'']"], of "''users.find''"]
    by (simp add: mem_tables world0_defs epr_permissionCodes_def)
  show "\<exists>m. getPermissionsForEndpoint mem_env ''users.off'' world0 =
      (Inl (epr_exception m epr_error.ENDPOINT_PERMISSION_RULE_NOT_FOUND NOT_FOUND None), world0)"
    by (rule epr_lookup_is_database [OF world0_epr_ready world0_epr_coherent, THEN conjunct2, THEN mp])
      (simp add: mem_tables world0_defs)
qed

text \<open>The hourly reconciliation makes the cache exact from any state, also an incoherent
  one: when the index names every cached key, afterwards a key is cached exactly when the
  database has an enabled rule for it, with the codes of that rule.\<close>

lemma epr_reconciliation_exact:
  assumes "epr_ready (E, view, up, T) w" "epr_indexed (E, view, up, T) w"
  shows "\<exists>w'. epr_handleCacheReconciliation E w = (Inr (), w') \<and> epr_ready (E, view, up, T) w' \<and>
    (\<forall>key codes. epr_cached (E, view, up, T) w' key = Some codes \<longleftrightarrow>
       epr_stored (E, view, up, T) w' key codes)"
proof -
  have "wp (epr_handleCacheReconciliation E) (\<lambda>_ w'. epr_ready (E, view, up, T) w' \<and>
      (\<forall>key codes. epr_cached (E, view, up, T) w' key = Some codes \<longleftrightarrow>
         epr_stored (E, view, up, T) w' key codes)) (\<lambda>_ _. False) w"
    by (rule wp_epr_reconcile [OF assms(1)]) (use assms(2) in \<open>auto simp: epr_indexed_def\<close>)
  from wp_returns [OF this] show ?thesis by auto
qed

text \<open>A stale entry: a key that no rule has, cached with a code, and its index entry.\<close>

definition world_stale :: mem_world where
  "world_stale = world0\<lparr>w_redis := mem_cmd (SADD epr_index ''users.gone'')
     (mem_cmd (SET (epr_redisKey ''users.gone'') (CodesDoc [''OLD'']) NO_OPTION) redis0)\<rparr>"

lemma world_stale_facts:
  "epr_ready mem_epr world_stale"
  "epr_cached mem_epr world_stale = [''users.gone'' \<mapsto> [''OLD'']]"
  "sets (mem_view (w_redis world_stale)) epr_index = {''users.gone''}"
proof -
  have v: "mem_view (w_redis world_stale) = exec_cmd (SADD epr_index ''users.gone'')
      (exec_cmd (SET (epr_redisKey ''users.gone'') (CodesDoc [''OLD'']) NO_OPTION) (mem_view redis0))"
    by (simp add: world_stale_def mem_view_cmd del: mem_cmd.simps)
  show "epr_ready mem_epr world_stale"
    using world0_epr_ready by (simp add: epr_ready_def world_stale_def) (simp add: world0_defs)
  show "epr_cached mem_epr world_stale = [''users.gone'' \<mapsto> [''OLD'']]"
    using world0_epr_cached by (intro ext) (simp add: epr_cached_def v, simp add: fun_eq_iff epr_cached_def world0_defs)
  show "sets (mem_view (w_redis world_stale)) epr_index = {''users.gone''}"
    by (simp add: v) (simp add: mem_view_def redis0_def epr_index_def user_index_def)
qed

text \<open>C5. The cache of the endpoint rules, while Redis and the database answer. From a world where it
  is coherent, after any sequence of whole creations, updates (to a key that is not empty, as the
  validation demands), deletions, permission assignments,
  enablings, disablings, lookups, warm-ups and reconciliations, those that reject included, every
  cached entry is the permission list of an enabled rule in the database. And from any world, coherent
  or not (as after a failure of Redis, which the operations swallow), a reconciliation makes it exact
  when the index names every cached key: a key is then cached if and only if the database has an
  enabled rule for it, with the codes of that rule.\<close>

theorem epr_cache_coherent:
  assumes "epr_ready (E, view, up, T) w" "list_all epr_valid ops"
  shows "(epr_cache.coherent (E, view, up, T) w \<longrightarrow>
      epr_ready (E, view, up, T) (fold (epr_perform E) ops w) \<and>
      (\<forall>key codes. epr_cached (E, view, up, T) (fold (epr_perform E) ops w) key = Some codes \<longrightarrow>
         epr_stored (E, view, up, T) (fold (epr_perform E) ops w) key codes)) \<and>
    (epr_indexed (E, view, up, T) w \<longrightarrow>
      (\<exists>w'. epr_handleCacheReconciliation E w = (Inr (), w') \<and> epr_ready (E, view, up, T) w' \<and>
        (\<forall>key codes. epr_cached (E, view, up, T) w' key = Some codes \<longleftrightarrow>
           epr_stored (E, view, up, T) w' key codes)))"
proof -
  have "epr_ok (E, view, up, T) (fold (epr_perform E) ops w)" if "epr_ok (E, view, up, T) w" for w
    using assms(2) that by (induction ops arbitrary: w) (auto intro: epr_perform_ok)
  then show ?thesis using assms(1) epr_reconciliation_exact [OF assms(1)] by (simp add: epr_ok_def epr_cache.coherent_def)
qed

theorem epr_cache_coherent_witness:
  "epr_ready mem_epr (fold (epr_perform mem_env)
     [OpLookup ''users.find'', OpUpdate ''e1'' \<lparr>dto_endpoint_key_name = ''users.get''\<rparr>, OpDisable ''e1''] world0) \<and>
   epr_cached mem_epr world_stale ''users.gone'' = Some [''OLD''] \<and>
   (\<exists>w'. epr_handleCacheReconciliation mem_env world_stale = (Inr (), w') \<and>
     (\<forall>key codes. epr_cached mem_epr w' key = Some codes \<longleftrightarrow> epr_stored mem_epr w' key codes))"
proof (intro conjI)
  show "epr_ready mem_epr (fold (epr_perform mem_env)
     [OpLookup ''users.find'', OpUpdate ''e1'' \<lparr>dto_endpoint_key_name = ''users.get''\<rparr>, OpDisable ''e1''] world0)"
    using epr_cache_coherent [OF world0_epr_ready,
        of "[OpLookup ''users.find'', OpUpdate ''e1'' \<lparr>dto_endpoint_key_name = ''users.get''\<rparr>, OpDisable ''e1'']"]
      world0_epr_coherent by simp
  show "epr_cached mem_epr world_stale ''users.gone'' = Some [''OLD'']" by (simp add: world_stale_facts)
  have "epr_indexed mem_epr world_stale" by (simp add: epr_indexed_def world_stale_facts)
  with epr_cache_coherent [OF world_stale_facts(1), of "[]"]
  show "\<exists>w'. epr_handleCacheReconciliation mem_env world_stale = (Inr (), w') \<and>
     (\<forall>key codes. epr_cached mem_epr w' key = Some codes \<longleftrightarrow> epr_stored mem_epr w' key codes)" by auto
qed

text \<open>C6. Disabling a rule closes its endpoint at once, while Redis and the database answer and the
  cache is coherent: after a successful \<open>disableRule\<close> every lookup of the rule's key rejects with a
  404 and changes nothing, also when the rule was cached before. (A failing Redis is excluded here:
  \<open>invalidateRuleCache\<close> swallows it, and \<open>disabled_rule_stays_open\<close> shows the endpoint served from
  the cache after it.)\<close>

theorem disableRule_closes_endpoint:
  assumes "epr_ready (E, view, up, T) w" "epr_cache.coherent (E, view, up, T) w"
    and "disableRule E rid w = (Inr message, w')"
    and "r \<in> rows T (w_db w)" "e_id r = rid" "rid \<noteq> ''''"
  shows "\<exists>m. getPermissionsForEndpoint E (e_endpoint_key_name r) w' =
    (Inl (epr_exception m epr_error.ENDPOINT_PERMISSION_RULE_NOT_FOUND NOT_FOUND None), w')"
proof -
  have "wp (disableRule E rid) (\<lambda>_ w'. epr_ok (E, view, up, T) w' \<and>
      (\<forall>cs. \<not> epr_stored (E, view, up, T) w' (e_endpoint_key_name r) cs)) (\<lambda>_ _. True) w"
    by (rule wp_disableRule [of E view up T])
      (use assms epr_readyD(7) [OF assms(1)] in \<open>auto simp: epr_ok_def dest: inj_onD\<close>)
  then have ok: "epr_ok (E, view, up, T) w'" "\<And>cs. \<not> epr_stored (E, view, up, T) w' (e_endpoint_key_name r) cs"
    using assms(3) by (simp_all add: wp_def)
  then have "epr_cached (E, view, up, T) w' (e_endpoint_key_name r) = None"
    by (auto simp: epr_ok_def epr_cache.coherent_def) (metis not_None_eq)
  with ok show ?thesis by (intro epr_lookup_absent) (auto simp: epr_ok_def)
qed

theorem disableRule_closes_endpoint_witness:
  "\<exists>w' m. getPermissionsForEndpoint mem_env ''users.find'' w' =
     (Inl (epr_exception m epr_error.ENDPOINT_PERMISSION_RULE_NOT_FOUND NOT_FOUND None), w')"
proof -
  have "is_ok (fst (disableRule mem_env ''e1'' world0))" by code_simp
  then obtain message w' where run: "disableRule mem_env ''e1'' world0 = (Inr message, w')"
    by (cases "disableRule mem_env ''e1'' world0") (auto simp: is_ok_iff)
  have "rule_read \<in> rows mem_rules (w_db world0)" "e_id rule_read = ''e1''"
    "e_endpoint_key_name rule_read = ''users.find''"
    by (simp_all add: mem_tables world0_defs)
  with disableRule_closes_endpoint [OF world0_epr_ready world0_epr_coherent run, of rule_read] show ?thesis
    by auto
qed

text \<open>While Redis is down, \<open>disableRule\<close> saves the rule as disabled and answers, and the cached
  entry stays: as soon as Redis is back, a lookup is answered with the codes of the disabled rule.\<close>

definition world_outage :: mem_world where
  "world_outage = (let w = snd (getPermissionsForEndpoint mem_env ''users.find'' world0) in
     w\<lparr>w_redis := (w_redis w)\<lparr>m_up := False\<rparr>\<rparr>)"

lemma disabled_rule_stays_open:
  "let (res, w1) = disableRule mem_env ''e1'' world_outage;
       w2 = w1\<lparr>w_redis := (w_redis w1)\<lparr>m_up := True\<rparr>\<rparr> in
     is_ok res \<and> List.map e_enabled (filter (\<lambda>r. e_id r = ''e1'') (t_rules (w_db w2))) = [False] \<and>
     fst (getPermissionsForEndpoint mem_env ''users.find'' w2) = Inr [''USERS_READ'']"
  by code_simp

text \<open>Without Redis the rules still hold: when reading the cache fails, the lookup answers
  from the database alone, and a failing backfill changes neither the answer nor raises an
  error.\<close>

lemma epr_lookup_without_redis:
  assumes "orm_laws (rules_orm E) T" "epr_table T" "answers T (w_db w)" "constraint T (rows T (w_db w))"
    and "redis_get (redis_api E) (epr_redisKey key) (w_redis w) = Inl err"
  shows "fst (getPermissionsForEndpoint E key w) = Inr codes \<longleftrightarrow>
    (\<exists>r \<in> rows T (w_db w). e_endpoint_key_name r = key \<and> e_enabled r \<and> epr_permissionCodes r = codes)"
proof -
  have inj: "inj_on e_endpoint_key_name (rows T (w_db w))" using assms(2,4) by (auto simp: epr_table_def)
  have miss: "epr_from_redis E key w = (Inr None, w)"
    using assms(5) by (simp add: epr_from_redis_def catchE_def bindE_def raw_get_def on_redis_def zoomE_def
        readE_def returnE_def)
  let ?P = "\<lambda>cs. \<exists>r \<in> rows T (w_db w). e_endpoint_key_name r = key \<and> e_enabled r \<and> epr_permissionCodes r = cs"
  have none: "\<not> ?P cs" if "r \<in> rows T (w_db w)" "e_endpoint_key_name r = key" "\<not> e_enabled r" for r cs
    using that inj by (auto dest: inj_onD)
  have "wp (epr_from_db E key) (\<lambda>cs _. ?P cs) (\<lambda>_ _. \<forall>cs. \<not> ?P cs) w"
    unfolding epr_from_db_def rules_repo wp_catch wp_bind wp_throw
  proof (rule wp_db_find_one [OF assms(1)])
    fix r assume r: "r \<in> rows T (w_db w)" "e_endpoint_key_name r = key"
    show "wp (case Some r of
      None \<Rightarrow> throwE (epr_exception
        ''This endpoint does not have a permission rule defined and is temporally disabled.''
        epr_error.ENDPOINT_PERMISSION_RULE_NOT_FOUND NOT_FOUND None)
    | Some rule \<Rightarrow>
        if \<not> e_enabled rule then throwE (epr_exception
          ''This endpoint is temporarily disabled. Please try again later.''
          epr_error.ENDPOINT_PERMISSION_RULE_NOT_FOUND NOT_FOUND None)
        else thenE (swallow (epr_store E key (epr_permissionCodes rule))) (returnE (epr_permissionCodes rule)))
      (\<lambda>cs _. ?P cs) (\<lambda>_ _. \<forall>cs. \<not> ?P cs) w"
      using r none [OF r] by (cases "e_enabled r") (auto simp: wp intro!: wp_ignore)
  qed (use assms(3) in \<open>auto simp: wp\<close>)
  moreover have "fst (getPermissionsForEndpoint E key w) = fst (epr_from_db E key w)"
    using miss by (simp add: getPermissionsForEndpoint_def bindE_def)
  moreover have "?P a \<Longrightarrow> ?P b \<Longrightarrow> a = b" for a b using inj by (auto dest: inj_onD)
  ultimately show ?thesis
    by (auto simp: wp_def split: prod.splits sum.splits)
qed

lemma epr_lookup_without_redis_example:
  "fst (getPermissionsForEndpoint mem_env ''users.find'' (world0\<lparr>w_redis := redis0\<lparr>m_up := False\<rparr>\<rparr>)) =
   Inr [''USERS_READ'']"
proof -
  let ?w = "world0\<lparr>w_redis := redis0\<lparr>m_up := False\<rparr>\<rparr>"
  note ready = world0_epr_ready [THEN epr_readyD(2)] world0_epr_ready [THEN epr_readyD(3)]
    world0_epr_ready [THEN epr_readyD(5)] world0_epr_ready [THEN epr_readyD(6)]
  have down: "redis_get (redis_api mem_env) (epr_redisKey ''users.find'') (w_redis ?w) = Inl redis_down"
    by (simp add: mem_redis_api_def read_up_def)
  show ?thesis
    by (subst epr_lookup_without_redis [of mem_env mem_rules ?w "''users.find''" redis_down "[''USERS_READ'']",
          OF ready(1,2) _ _ down])
      (use ready(3,4) in \<open>simp_all add: mem_tables world0_defs epr_permissionCodes_def\<close>)
qed

end
