(* ===== verification/ApiKeys.thy ===== *)
theory ApiKeys imports PermissionCache begin

text \<open>
  The API keys: \<open>ApiKeysRepository\<close> and \<open>ApiKeysService\<close> of \<open>src/src/services/api-keys\<close>, and
  the hourly \<open>ApiKeysCacheReconciliationService\<close> of \<open>src/src/cron\<close>. A key is kept as its HMAC
  fingerprint only; the permission codes of a key are cached under \<open>api_key:fp:<fingerprint>\<close>,
  and the set \<open>api_keys\<close> indexes the cache.
\<close>

section \<open>Repository\<close>

definition apiKeysRepository_save :: "('r, 'd, 'q) env \<Rightarrow> api_key \<Rightarrow> ('r, 'd, 'q, api_key) service" where
  "apiKeysRepository_save E key = on_db (orm_save (api_keys_orm E) key)"

definition apiKeysRepository_findOneById ::
  "('r, 'd, 'q) env \<Rightarrow> string \<Rightarrow> ('r, 'd, 'q, api_key option) service" where
  "apiKeysRepository_findOneById E kid = on_db (readE (orm_find_one (api_keys_orm E) (\<lambda>k. k_id k = kid)))"

definition api_key_order :: "api_key \<Rightarrow> string list" where
  "api_key_order k = [k_client k, k_id k]"

definition apiKeysRepository_findAll ::
  "('r, 'd, 'q) env \<Rightarrow> pagination_query \<Rightarrow> ('r, 'd, 'q, api_key list \<times> nat) service" where
  "apiKeysRepository_findAll E q = on_db (readE (find_and_count (api_keys_orm E) api_key_order q))"

definition apiKeysRepository_findAllActive :: "('r, 'd, 'q) env \<Rightarrow> ('r, 'd, 'q, api_key list) service" where
  "apiKeysRepository_findAllActive E = on_db (readE (orm_find (api_keys_orm E) (\<lambda>k. k_active k)))"

definition apiKeysRepository_findByFingerprint ::
  "('r, 'd, 'q) env \<Rightarrow> string \<Rightarrow> ('r, 'd, 'q, api_key option) service" where
  "apiKeysRepository_findByFingerprint E fingerprint =
     on_db (readE (orm_find_one (api_keys_orm E) (\<lambda>k. k_key_fingerprint k = fingerprint \<and> k_active k)))"

definition apiKeysRepository_findActiveFingerprintsIn ::
  "('r, 'd, 'q) env \<Rightarrow> string list \<Rightarrow> ('r, 'd, 'q, string list) service" where
  "apiKeysRepository_findActiveFingerprintsIn E fingerprints =
     (if fingerprints = [] then returnE []
      else bindE (on_db (readE (orm_find (api_keys_orm E)
             (\<lambda>k. js_includes fingerprints (k_key_fingerprint k) \<and> k_active k))))
        (\<lambda>found. returnE (List.map k_key_fingerprint found)))"

section \<open>Service: fingerprints and cache\<close>

definition computeHmac :: "('r, 'd, 'q) env \<Rightarrow> string \<Rightarrow> ('r, 'd, 'q, string) service" where
  "computeHmac E plainKey =
     (case config E ''HMAC_SECRET'' of
        None \<Rightarrow> throwE (JsError ''TypeError'' ''Configuration key HMAC_SECRET does not exist'' None None)
      | Some secret \<Rightarrow> returnE (hmac_sha256 E secret plainKey))"

definition api_redisKey :: "string \<Rightarrow> string" where
  "api_redisKey fingerprint = ''api_key:fp:'' @ fingerprint"

definition api_index :: string where
  "api_index = ''api_keys''"

definition api_cache_of :: "api_key \<Rightarrow> api_cache" where
  "api_cache_of key = \<lparr>c_client = k_client key, c_permissionCodes = api_key_permissionCodes key\<rparr>"

text \<open>The two commands every write of a cache entry queues.\<close>

definition api_store_commands :: "string \<Rightarrow> api_key \<Rightarrow> command list" where
  "api_store_commands fingerprint key =
     [SET (api_redisKey fingerprint) (ApiCacheDoc (api_cache_of key)) NO_OPTION, SADD api_index fingerprint]"

definition api_warmUpCache :: "('r, 'd, 'q) env \<Rightarrow> ('r, 'd, 'q, unit) service" where
  "api_warmUpCache E =
     swallow (bindE (apiKeysRepository_findAllActive E) (\<lambda>active_api_keys.
       if length active_api_keys = 0 then returnE ()
       else raw_exec E (concat (List.map (\<lambda>key. api_store_commands (k_key_fingerprint key) key)
              active_api_keys))))"

definition api_onModuleInit :: "('r, 'd, 'q) env \<Rightarrow> ('r, 'd, 'q, unit) service" where
  "api_onModuleInit E = swallow (api_warmUpCache E)"

definition loadApiKeyToRedis :: "('r, 'd, 'q) env \<Rightarrow> api_key \<Rightarrow> ('r, 'd, 'q, unit) service" where
  "loadApiKeyToRedis E key = swallow (raw_exec E (api_store_commands (k_key_fingerprint key) key))"

definition invalidateApiKeyCache :: "('r, 'd, 'q) env \<Rightarrow> api_key \<Rightarrow> ('r, 'd, 'q, unit) service" where
  "invalidateApiKeyCache E key =
     rethrow_as ApiKeyException ''Failed to invalidate the API key from cache''
       (ApiKeyErrorCodes api_key_error.API_KEY_CACHE_INVALIDATION_FAILED) INTERNAL_SERVER_ERROR
       (raw_exec E [DEL (api_redisKey (k_key_fingerprint key)), SREM api_index (k_key_fingerprint key)])"

section \<open>Service: the lookup\<close>

text \<open>\<open>findActiveByPlainKey\<close> in its three steps: the cache, the database, the backfill.\<close>

definition api_from_redis :: "('r, 'd, 'q) env \<Rightarrow> string \<Rightarrow> ('r, 'd, 'q, string list option) service" where
  "api_from_redis E fingerprint =
     catchE
       (bindE (raw_get E (api_redisKey fingerprint)) (\<lambda>cached.
          if truthy cached
          then bindE (liftE (parse_api_cache (the cached))) (\<lambda>cache. returnE (Some (c_permissionCodes cache)))
          else returnE None))
       (\<lambda>error. returnE None)"

definition api_backfill :: "('r, 'd, 'q) env \<Rightarrow> string \<Rightarrow> api_key \<Rightarrow> ('r, 'd, 'q, unit) service" where
  "api_backfill E fingerprint key = swallow (raw_exec E (api_store_commands fingerprint key))"

definition api_from_db :: "('r, 'd, 'q) env \<Rightarrow> string \<Rightarrow> ('r, 'd, 'q, string list) service" where
  "api_from_db E fingerprint =
     rethrow_as ApiKeyException ''Failed to find the active API key''
       (ApiKeyErrorCodes api_key_error.API_KEY_NOT_FOUND) INTERNAL_SERVER_ERROR
       (bindE (apiKeysRepository_findByFingerprint E fingerprint) (\<lambda>found.
          case found of
            None \<Rightarrow> throwE (api_key_exception ''Invalid or inactive API key''
                             api_key_error.API_KEY_NOT_FOUND NOT_FOUND None)
          | Some key \<Rightarrow>
              thenE (api_backfill E fingerprint key) (returnE (api_key_permissionCodes key))))"

definition findActiveByFingerprint :: "('r, 'd, 'q) env \<Rightarrow> string \<Rightarrow> ('r, 'd, 'q, string list) service" where
  "findActiveByFingerprint E fingerprint =
     bindE (api_from_redis E fingerprint) (\<lambda>hit.
       case hit of Some codes \<Rightarrow> returnE codes | None \<Rightarrow> api_from_db E fingerprint)"

definition findActiveByPlainKey :: "('r, 'd, 'q) env \<Rightarrow> string \<Rightarrow> ('r, 'd, 'q, string list) service" where
  "findActiveByPlainKey E rawApiKey = bindE (computeHmac E rawApiKey) (findActiveByFingerprint E)"

definition api_canDo :: "('r, 'd, 'q) env \<Rightarrow> request \<Rightarrow> string \<Rightarrow> ('r, 'd, 'q, bool) service" where
  "api_canDo E req permissionCode =
     bindE (liftE (extractApiKey req)) (\<lambda>rawApiKey.
     bindE (findActiveByPlainKey E rawApiKey) (\<lambda>apiKeyPermissions.
     returnE (js_includes apiKeyPermissions permissionCode)))"

section \<open>Service: the keys\<close>

record api_key_dto =
  dto_client :: string
  dto_permissionIds :: "string list"

text \<open>\<open>plainApiKey\<close> is the random value that \<open>generatePlainKey\<close> draws.\<close>

definition api_create ::
  "('r, 'd, 'q) env \<Rightarrow> string \<Rightarrow> api_key_dto \<Rightarrow> auth_user option \<Rightarrow>
   ('r, 'd, 'q, string \<times> string \<times> string) service" where
  "api_create E plainApiKey dto request_user =
     rethrow_as ApiKeyException ''Failed to create API key''
       (ApiKeyErrorCodes api_key_error.API_KEY_NOT_CREATED) INTERNAL_SERVER_ERROR
       (bindE (mapE (permissions_findOne E) (dto_permissionIds dto)) (\<lambda>permissions.
        bindE (computeHmac E plainApiKey) (\<lambda>fingerprint.
        bindE (transaction E (on_db (orm_save (api_keys_orm E)
                 \<lparr>k_id = '''', k_key_fingerprint = fingerprint, k_client = dto_client dto, k_active = True,
                  k_created_by = request_user, k_permissions = Some permissions\<rparr>))) (\<lambda>apiKey.
        returnE (plainApiKey, k_id apiKey, k_client apiKey)))))"

definition api_findAll ::
  "('r, 'd, 'q) env \<Rightarrow> pagination_query \<Rightarrow> ('r, 'd, 'q, api_key paginated) service" where
  "api_findAll E query =
     rethrow_as ApiKeyException ''Api keys not found'' (ApiKeyErrorCodes api_key_error.API_KEY_NOT_FOUND)
       INTERNAL_SERVER_ERROR
       (bindE (apiKeysRepository_findAll E query) (\<lambda>(data, count).
          returnE (PaginatedResponseDto data count (q_page query) (q_limit query))))"

definition api_findOne :: "('r, 'd, 'q) env \<Rightarrow> string \<Rightarrow> ('r, 'd, 'q, api_key) service" where
  "api_findOne E kid =
     bindE (apiKeysRepository_findOneById E kid) (\<lambda>found.
       case found of
         None \<Rightarrow> throwE (api_key_exception (''API key with id: '' @ kid @ '' not found'')
                          api_key_error.API_KEY_NOT_FOUND NOT_FOUND None)
       | Some key \<Rightarrow> returnE key)"

definition api_deactivate :: "('r, 'd, 'q) env \<Rightarrow> string \<Rightarrow> ('r, 'd, 'q, string) service" where
  "api_deactivate E kid =
     bindE (api_findOne E kid) (\<lambda>key.
       if \<not> k_active key then
         throwE (api_key_exception ''Api Key already deactivated''
                   api_key_error.API_KEY_ALREADY_DEACTIVATE BAD_REQUEST None)
       else
         thenE (invalidateApiKeyCache E (key\<lparr>k_active := False\<rparr>))
         (thenE (apiKeysRepository_save E (key\<lparr>k_active := False\<rparr>))
         (returnE (''API key '' @ kid @ '' '' @ k_client key @ '' deactivated''))))"

definition api_activate :: "('r, 'd, 'q) env \<Rightarrow> string \<Rightarrow> ('r, 'd, 'q, string) service" where
  "api_activate E kid =
     bindE (api_findOne E kid) (\<lambda>key.
       if k_active key then
         throwE (api_key_exception ''Api Key already activated''
                   api_key_error.API_KEY_ALREADY_ACTIVATE BAD_REQUEST None)
       else
         thenE (apiKeysRepository_save E (key\<lparr>k_active := True\<rparr>))
         (thenE (loadApiKeyToRedis E (key\<lparr>k_active := True\<rparr>))
         (returnE (''API key '' @ kid @ '' '' @ k_client key @ '' activated''))))"

definition api_changePermissions ::
  "('r, 'd, 'q) env \<Rightarrow> string \<Rightarrow> string list \<Rightarrow> ('r, 'd, 'q, api_key) service" where
  "api_changePermissions E kid permissionsIds =
     rethrow_as ApiKeyException ''Failed to change API key permissions''
       (ApiKeyErrorCodes api_key_error.API_KEY_PERMISSIONS_ASSIGN_FAILED) INTERNAL_SERVER_ERROR
       (bindE (api_findOne E kid) (\<lambda>found.
        bindE (mapE (permissions_findOne E) permissionsIds) (\<lambda>permissions.
        let key = found\<lparr>k_permissions := Some permissions\<rparr> in
        thenE (apiKeysRepository_save E key)
        (thenE (invalidateApiKeyCache E key)
        (thenE (loadApiKeyToRedis E key)
        (returnE key))))))"

section \<open>ApiKeysCacheReconciliationService\<close>

definition api_deleteStaleKeys :: "('r, 'd, 'q) env \<Rightarrow> ('r, 'd, 'q, unit) service" where
  "api_deleteStaleKeys E =
     bindE (raw_sMembers E api_index) (\<lambda>fingerprints.
       if fingerprints = [] then returnE ()
       else bindE (apiKeysRepository_findActiveFingerprintsIn E fingerprints) (\<lambda>activeFingerprints.
         let staleFingerprints = filter (\<lambda>fp. \<not> js_includes activeFingerprints fp) fingerprints in
         if length staleFingerprints = 0 then returnE ()
         else raw_exec E (concat (List.map (\<lambda>fp. [DEL (api_redisKey fp), SREM api_index fp])
                staleFingerprints))))"

definition api_handleCacheReconciliation :: "('r, 'd, 'q) env \<Rightarrow> ('r, 'd, 'q, unit) service" where
  "api_handleCacheReconciliation E = swallow (api_deleteStaleKeys E)"

section \<open>The keys stored and the keys cached\<close>

type_synonym ('r, 'd, 'q) api_env =
  "('r, 'd, 'q) env \<times> ('r \<Rightarrow> redis_view) \<times> ('r \<Rightarrow> bool) \<times> ('d, api_key) table"

definition api_table :: "('d, api_key) table \<Rightarrow> bool" where
  "api_table T \<longleftrightarrow> ident T = k_id \<and> assign T = (\<lambda>i e. e\<lparr>k_id := i\<rparr>) \<and>
     (\<forall>S. constraint T S \<longrightarrow> inj_on k_id S \<and> inj_on k_key_fingerprint S)"

definition api_ready :: "('r, 'd, 'q) api_env \<Rightarrow> ('r, 'd, 'q) world \<Rightarrow> bool" where
  "api_ready env w = (case env of (E, view, up, T) \<Rightarrow>
     redis_laws (redis_api E) view up \<and> orm_laws (api_keys_orm E) T \<and> api_table T \<and>
     up (w_redis w) \<and> answers T (w_db w) \<and> constraint T (rows T (w_db w)) \<and>
     (\<forall>k \<in> rows T (w_db w). k_id k \<noteq> ''''))"

definition api_cached :: "('r, 'd, 'q) api_env \<Rightarrow> ('r, 'd, 'q) world \<Rightarrow> string \<Rightarrow> string list option" where
  "api_cached env w fp = (case env of (E, view, up, T) \<Rightarrow>
     (case val (view (w_redis w)) (api_redisKey fp) of
        Some (ApiCacheDoc c) \<Rightarrow> Some (c_permissionCodes c) | _ \<Rightarrow> None))"

definition api_stored :: "('r, 'd, 'q) api_env \<Rightarrow> ('r, 'd, 'q) world \<Rightarrow> string \<Rightarrow> string list \<Rightarrow> bool" where
  "api_stored env w fp cs = (case env of (E, view, up, T) \<Rightarrow>
     (\<exists>k \<in> rows T (w_db w). k_key_fingerprint k = fp \<and> k_active k \<and> api_key_permissionCodes k = cs))"

lemma api_redisKey_eq [simp]: "api_redisKey a = api_redisKey b \<longleftrightarrow> a = b"
  by (simp add: api_redisKey_def)

lemma api_redisKey_index [simp]: "api_redisKey a \<noteq> api_index" "api_index \<noteq> api_redisKey a"
  by (simp_all add: api_redisKey_def api_index_def)

lemmas api_repo = apiKeysRepository_save_def apiKeysRepository_findOneById_def
  apiKeysRepository_findAll_def apiKeysRepository_findAllActive_def
  apiKeysRepository_findByFingerprint_def

lemma api_readyD:
  assumes "api_ready (E, view, up, T) w"
  shows "redis_laws (redis_api E) view up" "orm_laws (api_keys_orm E) T" "api_table T"
    "up (w_redis w)" "answers T (w_db w)" "constraint T (rows T (w_db w))"
    "inj_on k_id (rows T (w_db w))" "inj_on k_key_fingerprint (rows T (w_db w))" "ident T = k_id"
    "k \<in> rows T (w_db w) \<Longrightarrow> k_id k \<noteq> ''''"
  using assms by (auto simp: api_ready_def api_table_def)

lemma api_ready_redis:
  "api_ready (E, view, up, T) w \<Longrightarrow> up r' \<Longrightarrow> api_ready (E, view, up, T) (w\<lparr>w_redis := r'\<rparr>)"
  by (simp add: api_ready_def)

lemma api_stored_redis [simp]: "api_stored (E, view, up, T) (w\<lparr>w_redis := r\<rparr>) = api_stored (E, view, up, T) w"
  by (intro ext) (simp add: api_stored_def)

lemma api_cached_db [simp]: "api_cached (E, view, up, T) (w\<lparr>w_db := d\<rparr>) = api_cached (E, view, up, T) w"
  by (rule ext) (simp add: api_cached_def)

lemma api_cached_store:
  "view r' = exec_all (api_store_commands fp k) (view (w_redis w)) \<Longrightarrow>
   api_cached (E, view, up, T) (w\<lparr>w_redis := r'\<rparr>) =
     (api_cached (E, view, up, T) w)(fp \<mapsto> api_key_permissionCodes k)"
  by (rule ext) (simp add: api_cached_def api_store_commands_def api_cache_of_def)

lemma api_cached_drop:
  "view r' = exec_all [DEL (api_redisKey fp), SREM api_index fp] (view (w_redis w)) \<Longrightarrow>
   api_cached (E, view, up, T) (w\<lparr>w_redis := r'\<rparr>) = (api_cached (E, view, up, T) w)(fp := None)"
  by (rule ext) (simp add: api_cached_def)

section \<open>Lemmas on the steps\<close>

lemma api_from_redis_run:
  assumes "api_ready (E, view, up, T) w"
  shows "api_from_redis E fp w = (Inr (api_cached (E, view, up, T) w fp), w)"
proof -
  let ?x = "val (view (w_redis w)) (api_redisKey fp)"
  have "raw_get E (api_redisKey fp) w = (Inr ?x, w)"
    by (rule raw_get_run [OF api_readyD(1,4) [OF assms]])
  then show ?thesis
    by (cases ?x; cases "the ?x")
      (simp_all add: api_from_redis_def api_cached_def catchE_def bindE_def liftE_def returnE_def truthy_def)
qed

lemma wp_api_store:
  assumes ready: "api_ready (E, view, up, T) w"
    and Q: "\<And>r'. api_ready (E, view, up, T) (w\<lparr>w_redis := r'\<rparr>) \<Longrightarrow>
      api_cached (E, view, up, T) (w\<lparr>w_redis := r'\<rparr>) =
        (api_cached (E, view, up, T) w)(fp \<mapsto> api_key_permissionCodes k) \<Longrightarrow> Q () (w\<lparr>w_redis := r'\<rparr>)"
  shows "wp (raw_exec E (api_store_commands fp k)) Q F w"
proof (rule wp_raw_exec [OF api_readyD(1) [OF ready]])
  fix r' assume r': "view r' = exec_all (api_store_commands fp k) (view (w_redis w))" "up (w_redis w) \<Longrightarrow> up r'"
  show "Q () (w\<lparr>w_redis := r'\<rparr>)"
    by (rule Q [OF api_ready_redis [OF ready] api_cached_store [OF r'(1)]])
      (use r'(2) api_readyD(4) [OF ready] in simp)
qed (use api_readyD(4) [OF ready] in simp)

lemma wp_api_drop:
  assumes ready: "api_ready (E, view, up, T) w"
    and Q: "\<And>r'. api_ready (E, view, up, T) (w\<lparr>w_redis := r'\<rparr>) \<Longrightarrow>
      api_cached (E, view, up, T) (w\<lparr>w_redis := r'\<rparr>) =
        (api_cached (E, view, up, T) w)(k_key_fingerprint k := None) \<Longrightarrow> Q () (w\<lparr>w_redis := r'\<rparr>)"
  shows "wp (invalidateApiKeyCache E k) Q F w"
  unfolding invalidateApiKeyCache_def wp_rethrow_as
proof (rule wp_raw_exec [OF api_readyD(1) [OF ready]])
  fix r' assume r': "view r' = exec_all [DEL (api_redisKey (k_key_fingerprint k)), SREM api_index (k_key_fingerprint k)]
      (view (w_redis w))" "up (w_redis w) \<Longrightarrow> up r'"
  show "Q () (w\<lparr>w_redis := r'\<rparr>)"
    by (rule Q [OF api_ready_redis [OF ready] api_cached_drop [OF r'(1)]])
      (use r'(2) api_readyD(4) [OF ready] in simp)
qed (use api_readyD(4) [OF ready] in simp)

lemma wp_api_findOne:
  assumes ready: "api_ready (E, view, up, T) w"
    and Q: "\<And>k. k \<in> rows T (w_db w) \<Longrightarrow> k_id k = kid \<Longrightarrow> Q k w"
    and F: "\<And>e. (\<forall>k \<in> rows T (w_db w). k_id k \<noteq> kid) \<Longrightarrow> F e w"
  shows "wp (api_findOne E kid) Q F w"
  unfolding api_findOne_def api_repo wp_bind
  by (rule wp_db_find_one [OF api_readyD(2) [OF ready]])
    (use api_readyD(5) [OF ready] in \<open>auto simp: wp intro!: Q F\<close>)

text \<open>The rejection of an unknown or inactive key.\<close>

definition api_not_found :: exn where
  "api_not_found = wrap_error ApiKeyException ''Failed to find the active API key''
     (ApiKeyErrorCodes api_key_error.API_KEY_NOT_FOUND) INTERNAL_SERVER_ERROR
     (api_key_exception ''Invalid or inactive API key'' api_key_error.API_KEY_NOT_FOUND NOT_FOUND None)"

lemma wp_api_from_db:
  assumes ready: "api_ready (E, view, up, T) w"
    and hit: "\<And>cs r'. api_stored (E, view, up, T) w fp cs \<Longrightarrow> api_ready (E, view, up, T) (w\<lparr>w_redis := r'\<rparr>) \<Longrightarrow>
      api_cached (E, view, up, T) (w\<lparr>w_redis := r'\<rparr>) = (api_cached (E, view, up, T) w)(fp \<mapsto> cs) \<Longrightarrow>
      Q cs (w\<lparr>w_redis := r'\<rparr>)"
    and absent: "(\<And>cs. \<not> api_stored (E, view, up, T) w fp cs) \<Longrightarrow> F api_not_found w"
  shows "wp (api_from_db E fp) Q F w"
  unfolding api_from_db_def api_repo wp_rethrow_as wp_bind
proof (rule wp_db_find_one [OF api_readyD(2) [OF ready]])
  fix k assume k: "k \<in> rows T (w_db w)" "k_key_fingerprint k = fp \<and> k_active k"
  then have "api_stored (E, view, up, T) w fp (api_key_permissionCodes k)" by (auto simp: api_stored_def)
  then show "wp (case Some k of
      None \<Rightarrow> throwE (api_key_exception ''Invalid or inactive API key'' api_key_error.API_KEY_NOT_FOUND NOT_FOUND None)
    | Some key \<Rightarrow> thenE (api_backfill E fp key) (returnE (api_key_permissionCodes key))) Q
      (\<lambda>error. F (wrap_error ApiKeyException ''Failed to find the active API key''
        (ApiKeyErrorCodes api_key_error.API_KEY_NOT_FOUND) INTERNAL_SERVER_ERROR error)) w"
    by (auto simp: wp api_backfill_def intro!: wp_api_store [OF ready] hit)
next
  assume none: "\<And>k. k \<in> rows T (w_db w) \<Longrightarrow> \<not> (k_key_fingerprint k = fp \<and> k_active k)"
  then have "F api_not_found w" by (intro absent) (auto simp: api_stored_def)
  then show "wp (case None of
      None \<Rightarrow> throwE (api_key_exception ''Invalid or inactive API key'' api_key_error.API_KEY_NOT_FOUND NOT_FOUND None)
    | Some key \<Rightarrow> thenE (api_backfill E fp key) (returnE (api_key_permissionCodes key))) Q
      (\<lambda>error. F (wrap_error ApiKeyException ''Failed to find the active API key''
        (ApiKeyErrorCodes api_key_error.API_KEY_NOT_FOUND) INTERNAL_SERVER_ERROR error)) w"
    by (simp add: wp api_not_found_def)
qed (use api_readyD(5) [OF ready] in simp)

lemma api_stored_unique:
  assumes "api_ready (E, view, up, T) w" "api_stored (E, view, up, T) w k cs" "api_stored (E, view, up, T) w k cs'"
  shows "cs = cs'"
  using assms api_readyD(8) [OF assms(1)] by (auto simp: api_stored_def dest: inj_onD)

lemma findActiveByFingerprint_hit:
  assumes "api_ready (E, view, up, T) w" "api_cached (E, view, up, T) w fp = Some cs"
  shows "findActiveByFingerprint E fp w = (Inr cs, w)"
  using api_from_redis_run [OF assms(1), of fp] assms(2)
  by (simp add: findActiveByFingerprint_def bindE_def returnE_def)

lemma findActiveByFingerprint_miss:
  assumes "api_ready (E, view, up, T) w" "api_cached (E, view, up, T) w fp = None"
  shows "findActiveByFingerprint E fp w = api_from_db E fp w"
  using api_from_redis_run [OF assms(1), of fp] assms(2)
  by (simp add: findActiveByFingerprint_def bindE_def)

lemma api_lookup_found:
  assumes ready: "api_ready (E, view, up, T) w" and "api_cached (E, view, up, T) w k = None"
    and stored: "api_stored (E, view, up, T) w k cs"
  shows "\<exists>w'. findActiveByFingerprint E k w = (Inr cs, w') \<and> api_ready (E, view, up, T) w' \<and>
    api_cached (E, view, up, T) w' = (api_cached (E, view, up, T) w)(k \<mapsto> cs) \<and>
    api_stored (E, view, up, T) w' = api_stored (E, view, up, T) w"
proof -
  have "wp (api_from_db E k) (\<lambda>x w'. x = cs \<and> api_ready (E, view, up, T) w' \<and>
      api_cached (E, view, up, T) w' = (api_cached (E, view, up, T) w)(k \<mapsto> cs) \<and>
      api_stored (E, view, up, T) w' = api_stored (E, view, up, T) w) (\<lambda>_ _. False) w"
    by (rule wp_api_from_db [OF ready]) (use api_stored_unique [OF ready _ stored] stored in auto)
  from wp_returns [OF this] findActiveByFingerprint_miss [OF assms(1,2)] show ?thesis by auto
qed

lemma api_lookup_absent:
  assumes ready: "api_ready (E, view, up, T) w" and "api_cached (E, view, up, T) w k = None"
    and absent: "\<And>cs. \<not> api_stored (E, view, up, T) w k cs"
  shows "findActiveByFingerprint E k w = (Inl api_not_found, w)"
proof -
  have "wp (api_from_db E k) (\<lambda>_ _. False) (\<lambda>e w'. e = api_not_found \<and> w' = w) w"
    by (rule wp_api_from_db [OF ready]) (use absent in auto)
  from wp_fails [OF this] findActiveByFingerprint_miss [OF assms(1,2)] show ?thesis by auto
qed

interpretation api_cache: permission_cache
  "\<lambda>env fp w. findActiveByFingerprint (fst env) fp w" api_ready api_cached api_stored
proof
  fix env :: "('a, 'b, 'c) api_env" and w :: "('a, 'b, 'c) world" and k cs cs'
  obtain E view up T where env: "env = (E, view, up, T)" by (cases env)
  show "api_ready env w \<Longrightarrow> api_stored env w k cs \<Longrightarrow> api_stored env w k cs' \<Longrightarrow> cs = cs'"
    unfolding env by (rule api_stored_unique)
  show "api_ready env w \<Longrightarrow> api_cached env w k = Some cs \<Longrightarrow>
      findActiveByFingerprint (fst env) k w = (Inr cs, w)"
    unfolding env fst_conv by (rule findActiveByFingerprint_hit)
  show "api_ready env w \<Longrightarrow> api_cached env w k = None \<Longrightarrow> api_stored env w k cs \<Longrightarrow>
      \<exists>s'. findActiveByFingerprint (fst env) k w = (Inr cs, s') \<and> api_ready env s' \<and>
        api_cached env s' = (api_cached env w)(k \<mapsto> cs) \<and> api_stored env s' = api_stored env w"
    unfolding env fst_conv by (rule api_lookup_found)
  show "api_ready env w \<Longrightarrow> api_cached env w k = None \<Longrightarrow> (\<And>cs. \<not> api_stored env w k cs) \<Longrightarrow>
      \<exists>e. findActiveByFingerprint (fst env) k w = (Inl e, w)"
    unfolding env fst_conv using api_lookup_absent by blast
qed

definition api_listing :: "('r, 'd, 'q) env \<times> ('d, api_key) table \<Rightarrow> ('r, 'd, 'q) world \<Rightarrow> bool" where
  "api_listing ET w \<longleftrightarrow> listing_available (api_keys_orm (fst ET)) (snd ET) api_key_order (w_db w)"

interpretation api_pages: paged_listing
  "\<lambda>ET q w. api_findAll (fst ET) q w" api_listing
  "\<lambda>ET w. ordered_rows (snd ET) api_key_order (w_db w)" "\<lambda>ET w. rows (snd ET) (w_db w)"
  by unfold_locales
    (simp_all add: api_listing_def api_findAll_def api_repo rethrow_as_def
      catchE_def find_and_count_service ordered_rows_listing)

end
