(* ===== verification/ApiKeyCache.thy ===== *)
theory ApiKeyCache imports ApiKeys Container begin

text \<open>
  What the operations on API keys do to the cache: all but one keep it coherent with the
  database; \<open>changePermissions\<close> on an inactive key and a lookup that overlaps a deactivation
  do not, and the hourly reconciliation removes what they leave.
\<close>

section \<open>Writes to the table\<close>

lemma wp_api_save:
  assumes ready: "api_ready (E, view, up, T) w"
    and Q: "\<And>e' d'. api_ready (E, view, up, T) (w\<lparr>w_db := d'\<rparr>) \<Longrightarrow>
      rows T d' = saved_rows T e' (rows T (w_db w)) \<Longrightarrow>
      (k_id e \<noteq> '''' \<Longrightarrow> e' = e) \<Longrightarrow>
      (k_id e = '''' \<Longrightarrow> e' = e\<lparr>k_id := k_id e'\<rparr> \<and> k_id e' \<notin> k_id ` rows T (w_db w)) \<Longrightarrow> Q e' (w\<lparr>w_db := d'\<rparr>)"
    and F: "\<And>x d'. api_ready (E, view, up, T) (w\<lparr>w_db := d'\<rparr>) \<Longrightarrow> rows T d' = rows T (w_db w) \<Longrightarrow>
      F x (w\<lparr>w_db := d'\<rparr>)"
  shows "wp (on_db (orm_save (api_keys_orm E) e)) Q F w"
proof (rule wp_db_save [OF api_readyD(2) [OF ready]])
  fix e' d'
  assume rows: "rows T d' = saved_rows T e' (rows T (w_db w))" and new: "ident T e' \<noteq> ''''"
    and fresh: "ident T e = '''' \<Longrightarrow> e' = assign T (ident T e') e \<and> ident T e' \<notin> ident T ` rows T (w_db w)"
    and same: "ident T e \<noteq> '''' \<Longrightarrow> e' = e"
    and con: "constraint T (rows T (w_db w)) \<Longrightarrow> constraint T (saved_rows T e' (rows T (w_db w)))"
    and ans: "answers T (w_db w) \<Longrightarrow> answers T d'"
  have tab: "ident T = k_id" "assign T = (\<lambda>i e. e\<lparr>k_id := i\<rparr>)"
    using api_readyD(3) [OF ready] by (simp_all add: api_table_def)
  show "Q e' (w\<lparr>w_db := d'\<rparr>)"
  proof (rule Q)
    show "api_ready (E, view, up, T) (w\<lparr>w_db := d'\<rparr>)"
      using ready rows con ans tab new by (auto simp: api_ready_def saved_rows_def)
  qed (use rows fresh same tab in auto)
next
  fix x d' assume "rows T d' = rows T (w_db w)" "answers T (w_db w) \<Longrightarrow> answers T d'"
  then show "F x (w\<lparr>w_db := d'\<rparr>)" using F [of d' x] ready by (simp add: api_ready_def)
qed

text \<open>Saving a found key with other columns changed touches its fingerprint alone.\<close>

lemma stored_after_save:
  assumes ready: "api_ready (E, view, up, T) w" and "k \<in> rows T (w_db w)"
    and "k_id e = k_id k" "k_key_fingerprint e = k_key_fingerprint k"
    and rows: "rows T d' = saved_rows T e (rows T (w_db w))"
  shows "fp \<noteq> k_key_fingerprint k \<Longrightarrow>
      api_stored (E, view, up, T) (w\<lparr>w_db := d'\<rparr>) fp cs \<longleftrightarrow> api_stored (E, view, up, T) w fp cs"
    and "api_stored (E, view, up, T) (w\<lparr>w_db := d'\<rparr>) (k_key_fingerprint k) cs \<longleftrightarrow>
      k_active e \<and> api_key_permissionCodes e = cs"
proof -
  have one: "x \<in> rows T (w_db w) \<Longrightarrow> k_id x = k_id k \<longleftrightarrow> x = k"
    "x \<in> rows T (w_db w) \<Longrightarrow> k_key_fingerprint x = k_key_fingerprint k \<longleftrightarrow> x = k" for x
    using assms(2) api_readyD(7,8) [OF ready] by (auto dest: inj_onD)
  show "fp \<noteq> k_key_fingerprint k \<Longrightarrow>
      api_stored (E, view, up, T) (w\<lparr>w_db := d'\<rparr>) fp cs \<longleftrightarrow> api_stored (E, view, up, T) w fp cs"
    using rows assms(3,4) one api_readyD(9) [OF ready] by (auto simp: api_stored_def saved_rows_def)
  show "api_stored (E, view, up, T) (w\<lparr>w_db := d'\<rparr>) (k_key_fingerprint k) cs \<longleftrightarrow>
      k_active e \<and> api_key_permissionCodes e = cs"
    using rows assms(3,4) one api_readyD(9) [OF ready] by (auto simp: api_stored_def saved_rows_def)
qed

definition api_ok :: "('r, 'd, 'q) api_env \<Rightarrow> ('r, 'd, 'q) world \<Rightarrow> bool" where
  "api_ok env w \<longleftrightarrow> api_ready env w \<and> api_cache.coherent env w"

lemma api_ok_ready: "api_ok env w \<Longrightarrow> api_ready env w"
  by (simp add: api_ok_def)

lemma api_ok_same:
  "api_ok (E, view, up, T) w \<Longrightarrow> api_ready (E, view, up, T) (w\<lparr>w_db := d'\<rparr>) \<Longrightarrow>
   rows T d' = rows T (w_db w) \<Longrightarrow> api_ok (E, view, up, T) (w\<lparr>w_db := d'\<rparr>)"
  by (simp add: api_ok_def api_cache.coherent_def api_stored_def)

text \<open>The cache agrees with the database but for one fingerprint, whose entry is given.\<close>

lemma api_ok_settled:
  assumes "api_ready (E, view, up, T) w'" "api_cache.coherent (E, view, up, T) w"
    and "api_cached (E, view, up, T) w' = (api_cached (E, view, up, T) w)(fp := x)"
    and "\<And>g cs. g \<noteq> fp \<Longrightarrow> api_stored (E, view, up, T) w g cs \<Longrightarrow> api_stored (E, view, up, T) w' g cs"
    and "\<And>cs. x = Some cs \<Longrightarrow> api_stored (E, view, up, T) w' fp cs"
  shows "api_ok (E, view, up, T) w'"
  using assms unfolding api_ok_def api_cache.coherent_def by (metis fun_upd_apply)

section \<open>The operations\<close>

lemma wp_api_deactivate:
  assumes ok: "api_ok (E, view, up, T) w"
    and Q: "\<And>k m w'. k \<in> rows T (w_db w) \<Longrightarrow> k_id k = kid \<Longrightarrow> api_ok (E, view, up, T) w' \<Longrightarrow>
      (\<forall>cs. \<not> api_stored (E, view, up, T) w' (k_key_fingerprint k) cs) \<Longrightarrow> Q m w'"
    and F: "\<And>e w'. api_ok (E, view, up, T) w' \<Longrightarrow> F e w'"
  shows "wp (api_deactivate E kid) Q F w"
  unfolding api_deactivate_def wp_bind
proof (rule wp_api_findOne [OF api_ok_ready [OF ok]])
  fix k assume k: "k \<in> rows T (w_db w)" "k_id k = kid"
  let ?e = "k\<lparr>k_active := False\<rparr>"
  have "wp (invalidateApiKeyCache E ?e) (\<lambda>_. wp (apiKeysRepository_save E ?e) (\<lambda>_. Q m) F) F w" for m
  proof (rule wp_api_drop [OF api_ok_ready [OF ok]])
    fix r' assume ready1: "api_ready (E, view, up, T) (w\<lparr>w_redis := r'\<rparr>)"
      and cached1: "api_cached (E, view, up, T) (w\<lparr>w_redis := r'\<rparr>) =
        (api_cached (E, view, up, T) w)(k_key_fingerprint ?e := None)"
    have ok1: "api_ok (E, view, up, T) (w\<lparr>w_redis := r'\<rparr>)"
      by (rule api_ok_settled [OF ready1 _ cached1]) (use ok in \<open>simp_all add: api_ok_def\<close>)
    show "wp (apiKeysRepository_save E ?e) (\<lambda>_. Q m) F (w\<lparr>w_redis := r'\<rparr>)"
      unfolding apiKeysRepository_save_def
    proof (rule wp_api_save [OF ready1])
      fix e' d' assume ready2: "api_ready (E, view, up, T) (w\<lparr>w_redis := r'\<rparr>\<lparr>w_db := d'\<rparr>)"
        and rows: "rows T d' = saved_rows T e' (rows T (w_db (w\<lparr>w_redis := r'\<rparr>)))"
        and "k_id ?e \<noteq> '''' \<Longrightarrow> e' = ?e"
      then have "rows T d' = saved_rows T ?e (rows T (w_db (w\<lparr>w_redis := r'\<rparr>)))"
        using api_readyD(10) [OF api_ok_ready [OF ok] k(1)] by simp
      note st = stored_after_save [OF ready1 _ _ _ this, of k, simplified, OF k(1)]
      show "Q m (w\<lparr>w_redis := r'\<rparr>\<lparr>w_db := d'\<rparr>)"
      proof (rule Q [OF k])
        show "api_ok (E, view, up, T) (w\<lparr>w_redis := r'\<rparr>\<lparr>w_db := d'\<rparr>)"
          by (rule api_ok_settled [where fp = "k_key_fingerprint k" and x = None and w = "w\<lparr>w_redis := r'\<rparr>"])
            (use ready2 ok1 cached1 st in \<open>auto simp: api_ok_def\<close>)
      qed (use st in simp)
    qed (rule F, rule api_ok_same [OF ok1])
  qed
  then show "wp (if \<not> k_active k then throwE (api_key_exception ''Api Key already deactivated''
          api_key_error.API_KEY_ALREADY_DEACTIVATE BAD_REQUEST None)
        else thenE (invalidateApiKeyCache E ?e) (thenE (apiKeysRepository_save E ?e)
          (returnE (''API key '' @ kid @ '' '' @ k_client k @ '' deactivated'')))) Q F w"
    using F [OF ok] by (simp add: wp)
qed (use F ok in auto)

lemma wp_api_activate:
  assumes ok: "api_ok (E, view, up, T) w"
  shows "wp (api_activate E kid) (\<lambda>_. api_ok (E, view, up, T)) (\<lambda>_. api_ok (E, view, up, T)) w"
  unfolding api_activate_def wp_bind
proof (rule wp_api_findOne [OF api_ok_ready [OF ok]])
  let ?P = "api_ok (E, view, up, T)"
  fix k assume k: "k \<in> rows T (w_db w)"
  let ?e = "k\<lparr>k_active := True\<rparr>"
  have "wp (apiKeysRepository_save E ?e) (\<lambda>_. wp (loadApiKeyToRedis E ?e) (\<lambda>_. ?P) (\<lambda>_. ?P)) (\<lambda>_. ?P) w"
    unfolding apiKeysRepository_save_def loadApiKeyToRedis_def wp_swallow
  proof (rule wp_api_save [OF api_ok_ready [OF ok]])
    fix e' d' assume ready2: "api_ready (E, view, up, T) (w\<lparr>w_db := d'\<rparr>)"
      and rows: "rows T d' = saved_rows T e' (rows T (w_db w))" and "k_id ?e \<noteq> '''' \<Longrightarrow> e' = ?e"
    then have "rows T d' = saved_rows T ?e (rows T (w_db w))"
      using api_readyD(10) [OF api_ok_ready [OF ok] k] by simp
    note st = stored_after_save [OF api_ok_ready [OF ok] _ _ _ this, of k, simplified, OF k]
    show "wp (raw_exec E (api_store_commands (k_key_fingerprint ?e) ?e)) (\<lambda>_. ?P) (\<lambda>_. ?P) (w\<lparr>w_db := d'\<rparr>)"
      by (rule wp_api_store [OF ready2],
          rule api_ok_settled [where fp = "k_key_fingerprint k" and x = "Some (api_key_permissionCodes ?e)" and w = w])
        (use ok st in \<open>auto simp: api_ok_def\<close>)
  qed (rule api_ok_same [OF ok])
  then show "wp (if k_active k then throwE (api_key_exception ''Api Key already activated''
          api_key_error.API_KEY_ALREADY_ACTIVATE BAD_REQUEST None)
        else thenE (apiKeysRepository_save E ?e) (thenE (loadApiKeyToRedis E ?e)
          (returnE (''API key '' @ kid @ '' '' @ k_client k @ '' activated'')))) (\<lambda>_. ?P) (\<lambda>_. ?P) w"
    using ok by (simp add: wp)
qed (use ok in simp)

text \<open>What \<open>changePermissions\<close> leaves, active or not: the entry of the key holds the new codes.\<close>

lemma wp_api_changePermissions:
  assumes ready: "api_ready (E, view, up, T) w"
    and Q: "\<And>k e w'. k \<in> rows T (w_db w) \<Longrightarrow> k_id k = kid \<Longrightarrow> k_active e = k_active k \<Longrightarrow>
      k_key_fingerprint e = k_key_fingerprint k \<Longrightarrow> api_ready (E, view, up, T) w' \<Longrightarrow>
      api_cached (E, view, up, T) w' =
        (api_cached (E, view, up, T) w)(k_key_fingerprint k \<mapsto> api_key_permissionCodes e) \<Longrightarrow>
      (\<And>g cs. g \<noteq> k_key_fingerprint k \<Longrightarrow> api_stored (E, view, up, T) w' g cs \<longleftrightarrow> api_stored (E, view, up, T) w g cs) \<Longrightarrow>
      (\<And>cs. api_stored (E, view, up, T) w' (k_key_fingerprint k) cs \<longleftrightarrow>
        k_active k \<and> api_key_permissionCodes e = cs) \<Longrightarrow> Q e w'"
    and F: "\<And>e d'. api_ready (E, view, up, T) (w\<lparr>w_db := d'\<rparr>) \<Longrightarrow> rows T d' = rows T (w_db w) \<Longrightarrow>
      F e (w\<lparr>w_db := d'\<rparr>)"
  shows "wp (api_changePermissions E kid ids) Q F w"
  unfolding api_changePermissions_def wp_rethrow_as wp_bind
proof (rule wp_api_findOne [OF ready])
  have F0: "F e w" for e using F [of "w_db w"] ready by simp
  let ?F = "\<lambda>error. F (wrap_error ApiKeyException ''Failed to change API key permissions''
     (ApiKeyErrorCodes api_key_error.API_KEY_PERMISSIONS_ASSIGN_FAILED) INTERNAL_SERVER_ERROR error)"
  fix k assume k: "k \<in> rows T (w_db w)" "k_id k = kid"
  have save: "wp (apiKeysRepository_save E (k\<lparr>k_permissions := Some ps\<rparr>))
      (\<lambda>_. wp (invalidateApiKeyCache E (k\<lparr>k_permissions := Some ps\<rparr>))
        (\<lambda>_. wp (loadApiKeyToRedis E (k\<lparr>k_permissions := Some ps\<rparr>)) (\<lambda>_. Q (k\<lparr>k_permissions := Some ps\<rparr>)) ?F) ?F) ?F w"
    for ps
    unfolding apiKeysRepository_save_def loadApiKeyToRedis_def wp_swallow
  proof (rule wp_api_save [OF ready])
    let ?e = "k\<lparr>k_permissions := Some ps\<rparr>"
    fix e' d' assume ready2: "api_ready (E, view, up, T) (w\<lparr>w_db := d'\<rparr>)"
      and rows: "rows T d' = saved_rows T e' (rows T (w_db w))" and "k_id ?e \<noteq> '''' \<Longrightarrow> e' = ?e"
    then have "rows T d' = saved_rows T ?e (rows T (w_db w))" using api_readyD(10) [OF ready k(1)] by simp
    note st = stored_after_save [OF ready _ _ _ this, of k, simplified, OF k(1)]
    show "wp (invalidateApiKeyCache E ?e)
        (\<lambda>_. wp (raw_exec E (api_store_commands (k_key_fingerprint ?e) ?e)) (\<lambda>_. Q ?e) (\<lambda>_. Q ?e)) ?F (w\<lparr>w_db := d'\<rparr>)"
      by (rule wp_api_drop [OF ready2], rule wp_api_store, assumption, rule Q [OF k]) (use st in auto)
  qed (rule F)
  show "wp (mapE (permissions_findOne E) ids)
      (\<lambda>permissions. wp (let key = k\<lparr>k_permissions := Some permissions\<rparr> in
          thenE (apiKeysRepository_save E key) (thenE (invalidateApiKeyCache E key)
            (thenE (loadApiKeyToRedis E key) (returnE key)))) Q ?F) ?F w"
    by (rule wp_readonly [OF readonly_mapE]) (use save F0 in \<open>simp_all add: Let_def wp_then wp_return\<close>)
qed (use F [of "w_db w"] ready in simp)

end
