(* ===== verification/ApiKeyProperties.thy ===== *)
theory ApiKeyProperties imports ApiKeyCache begin

text \<open>
  The properties of the API keys: the step relation of the service with the coherence of its
  cache as an invariant, what a deactivation guarantees, and the two ways a deactivated key
  comes back, with the job that repairs them.
\<close>

section \<open>Creation, lookup and warm-up\<close>

lemma readonly_computeHmac: "readonly (computeHmac E k)"
  by (simp add: computeHmac_def split: option.splits)

lemma wp_api_create:
  assumes ready: "api_ready (E, view, up, T) w" and tx: "tx_laws E T"
    and Q: "\<And>ps secret e' d. config E ''HMAC_SECRET'' = Some secret \<Longrightarrow>
      mapE (permissions_findOne E) (dto_permissionIds dto) w = (Inr ps, w) \<Longrightarrow>
      k_key_fingerprint e' = hmac_sha256 E secret plain \<Longrightarrow> k_active e' \<Longrightarrow> k_permissions e' = Some ps \<Longrightarrow>
      k_id e' \<notin> k_id ` rows T (w_db w) \<Longrightarrow> api_ready (E, view, up, T) (w\<lparr>w_db := d\<rparr>) \<Longrightarrow>
      rows T d = insert e' (rows T (w_db w)) \<Longrightarrow> Q (plain, k_id e', k_client e') (w\<lparr>w_db := d\<rparr>)"
    and F: "\<And>e d. api_ready (E, view, up, T) (w\<lparr>w_db := d\<rparr>) \<Longrightarrow> rows T d = rows T (w_db w) \<Longrightarrow>
      F e (w\<lparr>w_db := d\<rparr>)"
  shows "wp (api_create E plain dto u) Q F w"
  unfolding api_create_def wp_rethrow_as wp_bind wp_return
proof (rule wp_readonly [OF readonly_mapE])
  let ?F = "\<lambda>error. F (wrap_error ApiKeyException ''Failed to create API key''
     (ApiKeyErrorCodes api_key_error.API_KEY_NOT_CREATED) INTERNAL_SERVER_ERROR error)"
  have F0: "F e w" for e using F [of "w_db w"] ready by simp
  fix ps assume ps: "mapE (permissions_findOne E) (dto_permissionIds dto) w = (Inr ps, w)"
  show "wp (computeHmac E plain) (\<lambda>fp. wp (transaction E (on_db (orm_save (api_keys_orm E)
        \<lparr>k_id = '''', k_key_fingerprint = fp, k_client = dto_client dto, k_active = True,
         k_created_by = u, k_permissions = Some ps\<rparr>)))
      (\<lambda>apiKey. Q (plain, k_id apiKey, k_client apiKey)) ?F) ?F w"
  proof (cases "config E ''HMAC_SECRET''")
    case None
    then show ?thesis using F0 by (simp add: computeHmac_def wp)
  next
    case (Some secret)
    let ?e = "\<lparr>k_id = '''', k_key_fingerprint = hmac_sha256 E secret plain, k_client = dto_client dto,
      k_active = True, k_created_by = u, k_permissions = Some ps\<rparr>"
    have "wp (transaction E (on_db (orm_save (api_keys_orm E) ?e)))
        (\<lambda>apiKey. Q (plain, k_id apiKey, k_client apiKey)) ?F w"
    proof (rule wp_transaction [OF tx], rule wp_api_save [OF ready])
      fix e' d'
      assume ready': "api_ready (E, view, up, T) (w\<lparr>w_db := d'\<rparr>)"
        and rows: "rows T d' = saved_rows T e' (rows T (w_db w))"
        and "k_id ?e = '''' \<Longrightarrow> e' = ?e\<lparr>k_id := k_id e'\<rparr> \<and> k_id e' \<notin> k_id ` rows T (w_db w)"
      then have new: "e' = ?e\<lparr>k_id := k_id e'\<rparr>" "k_id e' \<notin> k_id ` rows T (w_db w)" by simp_all
      have e': "k_key_fingerprint e' = hmac_sha256 E secret plain" "k_active e'" "k_permissions e' = Some ps"
        by (subst new(1), simp)+
      have rows': "rows T d' = insert e' (rows T (w_db w))"
        using rows new(2) api_readyD(9) [OF ready] by (auto simp: saved_rows_def image_iff)
      show "(\<forall>d. rows T d = rows T (w_db (w\<lparr>w_db := d'\<rparr>)) \<longrightarrow>
            (answers T (w_db (w\<lparr>w_db := d'\<rparr>)) \<longrightarrow> answers T d) \<longrightarrow>
            Q (plain, k_id e', k_client e') (w\<lparr>w_db := d'\<rparr>\<lparr>w_db := d\<rparr>)) \<and>
          (\<forall>d e. rows T d = rows T (w_db w) \<longrightarrow>
            (answers T (w_db w) \<longrightarrow> answers T (w_db (w\<lparr>w_db := d'\<rparr>)) \<longrightarrow> answers T d) \<longrightarrow>
            ?F e (w\<lparr>w_db := d'\<rparr>\<lparr>w_db := d\<rparr>))"
        using Q [OF Some ps e' new(2)] F ready ready' rows' by (simp add: api_ready_def)
    next
      fix x d' assume "api_ready (E, view, up, T) (w\<lparr>w_db := d'\<rparr>)" "rows T d' = rows T (w_db w)"
      then show "\<forall>d. rows T d = rows T (w_db w) \<longrightarrow>
          (answers T (w_db w) \<longrightarrow> answers T (w_db (w\<lparr>w_db := d'\<rparr>)) \<longrightarrow> answers T d) \<longrightarrow>
          ?F x (w\<lparr>w_db := d'\<rparr>\<lparr>w_db := d\<rparr>)"
        using F ready by (simp add: api_ready_def)
    qed
    with Some show ?thesis by (simp add: computeHmac_def wp)
  qed
qed (use F [of "w_db w"] ready in simp_all)

lemma stored_after_create:
  assumes "api_ready (E, view, up, T) (w\<lparr>w_db := d\<rparr>)" "rows T d = insert e' (rows T (w_db w))"
    and "k_id e' \<notin> k_id ` rows T (w_db w)" "api_stored (E, view, up, T) w fp cs"
  shows "api_stored (E, view, up, T) (w\<lparr>w_db := d\<rparr>) fp cs" "fp \<noteq> k_key_fingerprint e'"
proof -
  show "api_stored (E, view, up, T) (w\<lparr>w_db := d\<rparr>) fp cs" using assms(2,4) by (auto simp: api_stored_def)
  show "fp \<noteq> k_key_fingerprint e'"
    using assms api_readyD(8) [OF assms(1)] by (auto simp: api_stored_def inj_on_def)
qed

lemma api_warm_val:
  "val (exec_all (concat (List.map (\<lambda>key. api_store_commands (k_key_fingerprint key) key) ks)) v) (api_redisKey fp) =
   (case find (\<lambda>k. k_key_fingerprint k = fp) (rev ks) of
      Some k \<Rightarrow> Some (ApiCacheDoc (api_cache_of k)) | None \<Rightarrow> val v (api_redisKey fp))"
  by (induction ks rule: rev_induct) (simp_all add: api_store_commands_def)

lemma find_mem: "find P xs = Some x \<Longrightarrow> x \<in> set xs \<and> P x"
  by (induction xs) (auto split: if_splits)

lemma wp_api_warmUpCache:
  assumes ok: "api_ok (E, view, up, T) w"
  shows "wp (api_warmUpCache E) (\<lambda>_. api_ok (E, view, up, T)) (\<lambda>_. api_ok (E, view, up, T)) w"
  unfolding api_warmUpCache_def api_repo wp_swallow wp_bind
proof (rule wp_db_find [OF api_readyD(2) [OF api_ok_ready [OF ok]]])
  let ?P = "api_ok (E, view, up, T)"
  fix ks assume ks: "set ks = {k \<in> rows T (w_db w). k_active k}"
  have "wp (raw_exec E (concat (List.map (\<lambda>key. api_store_commands (k_key_fingerprint key) key) ks)))
      (\<lambda>_. ?P) (\<lambda>_. ?P) w"
  proof (rule wp_raw_exec [OF api_readyD(1) [OF api_ok_ready [OF ok]]])
    fix r' assume r': "view r' = exec_all (concat (List.map (\<lambda>key. api_store_commands (k_key_fingerprint key) key) ks))
        (view (w_redis w))" "up (w_redis w) \<Longrightarrow> up r'"
    have "api_stored (E, view, up, T) w fp cs"
      if "api_cached (E, view, up, T) (w\<lparr>w_redis := r'\<rparr>) fp = Some cs" for fp cs
    proof (cases "find (\<lambda>k. k_key_fingerprint k = fp) (rev ks)")
      case None
      then have "api_cached (E, view, up, T) w fp = Some cs"
        using that r'(1) by (simp add: api_cached_def api_warm_val)
      then show ?thesis using ok by (simp add: api_ok_def api_cache.coherent_def)
    next
      case (Some k)
      then have "api_key_permissionCodes k = cs"
        using that r'(1) by (simp add: api_cached_def api_warm_val api_cache_of_def)
      then show ?thesis using find_mem [OF Some] ks by (auto simp: api_stored_def)
    qed
    then show "?P (w\<lparr>w_redis := r'\<rparr>)"
      using api_ready_redis [OF api_ok_ready [OF ok]] r'(2) api_readyD(4) [OF api_ok_ready [OF ok]]
      by (simp add: api_ok_def api_cache.coherent_def)
  qed (use api_readyD(4) [OF api_ok_ready [OF ok]] in simp)
  then show "wp (if length ks = 0 then returnE ()
      else raw_exec E (concat (List.map (\<lambda>key. api_store_commands (k_key_fingerprint key) key) ks)))
      (\<lambda>_. ?P) (\<lambda>_. ?P) w" using ok by (simp add: wp)
qed (use api_readyD(5) [OF api_ok_ready [OF ok]] in simp)

section \<open>The reconciliation\<close>

lemma exec_drop_fps:
  "val (exec_all (concat (List.map (\<lambda>fp. [DEL (api_redisKey fp), SREM api_index fp]) fps)) v) (api_redisKey k) =
   (if k \<in> set fps then None else val v (api_redisKey k))"
  by (induction fps arbitrary: v) auto

text \<open>Exactly the indexed entries without an active key are gone afterwards.\<close>

lemma wp_api_reconcile:
  assumes ready: "api_ready (E, view, up, T) w"
    and Q: "\<And>r'. api_ready (E, view, up, T) (w\<lparr>w_redis := r'\<rparr>) \<Longrightarrow>
      (\<And>fp. api_cached (E, view, up, T) (w\<lparr>w_redis := r'\<rparr>) fp =
        (if fp \<in> sets (view (w_redis w)) api_index \<and> (\<forall>cs. \<not> api_stored (E, view, up, T) w fp cs) then None
         else api_cached (E, view, up, T) w fp)) \<Longrightarrow> Q () (w\<lparr>w_redis := r'\<rparr>)"
  shows "wp (api_handleCacheReconciliation E) Q F w"
  unfolding api_handleCacheReconciliation_def api_deleteStaleKeys_def wp_swallow wp_bind
proof (rule wp_raw_sMembers [OF api_readyD(1) [OF ready]])
  fix fps assume fps: "set fps = sets (view (w_redis w)) api_index" "distinct fps"
  let ?rest = "\<lambda>active. let stale = filter (\<lambda>fp. \<not> js_includes active fp) fps in
         if length stale = 0 then returnE ()
         else raw_exec E (concat (List.map (\<lambda>fp. [DEL (api_redisKey fp), SREM api_index fp]) stale))"
  have rest: "wp (?rest (List.map k_key_fingerprint found)) Q (\<lambda>_. Q ()) w"
    if found: "set found = {k \<in> rows T (w_db w). js_includes fps (k_key_fingerprint k) \<and> k_active k}" for found
  proof -
    define stale where "stale = filter (\<lambda>fp. \<not> js_includes (List.map k_key_fingerprint found) fp) fps"
    have stale: "fp \<in> set stale \<longleftrightarrow> fp \<in> sets (view (w_redis w)) api_index \<and> (\<forall>cs. \<not> api_stored (E, view, up, T) w fp cs)"
      for fp using found fps by (auto simp: stale_def api_stored_def)
    show ?thesis
    proof (cases "stale = []")
      case True
      have "Q () (w\<lparr>w_redis := w_redis w\<rparr>)"
      proof (rule Q)
        show "api_ready (E, view, up, T) (w\<lparr>w_redis := w_redis w\<rparr>)" using ready by simp
      qed (use stale True in auto)
      with True show ?thesis unfolding Let_def stale_def [symmetric] by (simp add: wp)
    next
      case False
      have "wp (raw_exec E (concat (List.map (\<lambda>fp. [DEL (api_redisKey fp), SREM api_index fp]) stale)))
          Q (\<lambda>_. Q ()) w"
      proof (rule wp_raw_exec [OF api_readyD(1) [OF ready]])
        fix r' assume r': "view r' = exec_all (concat (List.map (\<lambda>fp. [DEL (api_redisKey fp), SREM api_index fp]) stale))
            (view (w_redis w))" "up (w_redis w) \<Longrightarrow> up r'"
        show "Q () (w\<lparr>w_redis := r'\<rparr>)"
        proof (rule Q)
          show "api_ready (E, view, up, T) (w\<lparr>w_redis := r'\<rparr>)"
            by (rule api_ready_redis [OF ready r'(2) [OF api_readyD(4) [OF ready]]])
        qed (simp add: api_cached_def r'(1) exec_drop_fps flip: stale)
      qed (use api_readyD(4) [OF ready] in simp)
      with False show ?thesis unfolding Let_def stale_def [symmetric] by (simp add: wp)
    qed
  qed
  show "wp (if fps = [] then returnE ()
      else bindE (apiKeysRepository_findActiveFingerprintsIn E fps) ?rest) Q (\<lambda>_. Q ()) w"
  proof (cases "fps = []")
    case True
    then show ?thesis using rest [of "[]"] by (simp add: wp)
  next
    case False
    have "wp (on_db (readE (orm_find (api_keys_orm E) (\<lambda>k. js_includes fps (k_key_fingerprint k) \<and> k_active k))))
        (\<lambda>found. wp (?rest (List.map k_key_fingerprint found)) Q (\<lambda>_. Q ())) (\<lambda>_. Q ()) w"
      by (rule wp_db_find [OF api_readyD(2) [OF ready]]) (use rest api_readyD(5) [OF ready] in auto)
    with False show ?thesis
      by (simp add: apiKeysRepository_findActiveFingerprintsIn_def wp_bind wp_return)
  qed
qed (use api_readyD(4) [OF ready] in simp)

section \<open>The service as a step relation\<close>

text \<open>Every operation, with the random key of a creation. The permissions of an inactive key
  are not changed in these steps.\<close>

inductive api_step :: "('r, 'd, 'q) api_env \<Rightarrow> ('r, 'd, 'q) world \<Rightarrow> ('r, 'd, 'q) world \<Rightarrow> bool"
  for env :: "('r, 'd, 'q) api_env" where
  step_create: "api_step env w (snd (api_create (fst env) plain dto u w))"
| step_lookup: "api_step env w (snd (findActiveByPlainKey (fst env) plain w))"
| step_deactivate: "api_step env w (snd (api_deactivate (fst env) kid w))"
| step_activate: "api_step env w (snd (api_activate (fst env) kid w))"
| step_change: "(\<forall>k \<in> rows (snd (snd (snd env))) (w_db w). k_id k = kid \<longrightarrow> k_active k) \<Longrightarrow>
    api_step env w (snd (api_changePermissions (fst env) kid ids w))"
| step_warm: "api_step env w (snd (api_warmUpCache (fst env) w))"
| step_reconcile: "api_step env w (snd (api_handleCacheReconciliation (fst env) w))"

inductive_cases api_stepE: "api_step env w w'"

lemma wp_ok_api_create:
  assumes ok: "api_ok (E, view, up, T) w" and "tx_laws E T"
  shows "wp (api_create E plain dto u) (\<lambda>_. api_ok (E, view, up, T)) (\<lambda>_. api_ok (E, view, up, T)) w"
proof (rule wp_api_create [OF api_ok_ready [OF ok] assms(2)])
  fix e' :: api_key and d
  assume d: "api_ready (E, view, up, T) (w\<lparr>w_db := d\<rparr>)" "rows T d = insert e' (rows T (w_db w))"
    "k_id e' \<notin> k_id ` rows T (w_db w)"
  show "api_ok (E, view, up, T) (w\<lparr>w_db := d\<rparr>)"
    using d ok stored_after_create(1) [OF d(1) d(2) d(3)] by (simp add: api_ok_def api_cache.coherent_def)
qed (use ok in \<open>simp add: api_ok_same\<close>)

lemma api_step_ok:
  assumes "api_step (E, view, up, T) w w'" "api_ok (E, view, up, T) w" "tx_laws E T"
  shows "api_ok (E, view, up, T) w'"
  using assms(1)
proof (rule api_stepE)
  fix plain assume w': "w' = snd (findActiveByPlainKey (fst (E, view, up, T)) plain w)"
  have "wp (findActiveByPlainKey E plain) (\<lambda>_. api_ok (E, view, up, T)) (\<lambda>_. api_ok (E, view, up, T)) w"
    unfolding findActiveByPlainKey_def wp_bind
  proof (rule wp_readonly [OF readonly_computeHmac])
    fix fp
    have "api_ready (E, view, up, T) w" "api_cache.coherent (E, view, up, T) w"
      using assms(2) by (simp_all add: api_ok_def)
    from api_cache.lookup_keeps [OF this, of fp]
    show "wp (findActiveByFingerprint E fp) (\<lambda>_. api_ok (E, view, up, T)) (\<lambda>_. api_ok (E, view, up, T)) w"
      by (auto simp: wp_def api_ok_def split: prod.splits sum.splits)
  qed (rule assms(2))
  with w' show ?thesis by (simp add: wp_run)
next
  fix kid ids assume w': "w' = snd (api_changePermissions (fst (E, view, up, T)) kid ids w)"
    and active: "\<forall>k \<in> rows (snd (snd (snd (E, view, up, T)))) (w_db w). k_id k = kid \<longrightarrow> k_active k"
  have "wp (api_changePermissions E kid ids) (\<lambda>_. api_ok (E, view, up, T)) (\<lambda>_. api_ok (E, view, up, T)) w"
  proof (rule wp_api_changePermissions [OF api_ok_ready [OF assms(2)]])
    fix k e w'
    assume h: "k \<in> rows T (w_db w)" "k_id k = kid" "api_ready (E, view, up, T) w'"
      "api_cached (E, view, up, T) w' =
        (api_cached (E, view, up, T) w)(k_key_fingerprint k \<mapsto> api_key_permissionCodes e)"
      "\<And>g cs. g \<noteq> k_key_fingerprint k \<Longrightarrow> api_stored (E, view, up, T) w' g cs \<longleftrightarrow> api_stored (E, view, up, T) w g cs"
      "\<And>cs. api_stored (E, view, up, T) w' (k_key_fingerprint k) cs \<longleftrightarrow> k_active k \<and> api_key_permissionCodes e = cs"
    show "api_ok (E, view, up, T) w'"
      by (rule api_ok_settled [OF h(3) _ h(4)]) (use h active assms(2) in \<open>auto simp: api_ok_def\<close>)
  qed (rule api_ok_same [OF assms(2)])
  with w' show ?thesis by (simp add: wp_run)
next
  assume w': "w' = snd (api_handleCacheReconciliation (fst (E, view, up, T)) w)"
  have "wp (api_handleCacheReconciliation E) (\<lambda>_. api_ok (E, view, up, T)) (\<lambda>_. api_ok (E, view, up, T)) w"
    by (rule wp_api_reconcile [OF api_ok_ready [OF assms(2)]])
      (use assms(2) in \<open>auto simp: api_ok_def api_cache.coherent_def split: if_splits\<close>)
  with w' show ?thesis by (simp add: wp_run)
qed (use wp_run [OF wp_ok_api_create [OF assms(2,3)]] wp_run [OF wp_api_deactivate [OF assms(2)]]
    wp_run [OF wp_api_activate [OF assms(2)]] wp_run [OF wp_api_warmUpCache [OF assms(2)]] in simp_all)

section \<open>Concrete states\<close>

abbreviation mem_api :: "(mem_redis, mem_db, email_body list) api_env" where
  "mem_api \<equiv> (mem_env, mem_view, m_up, mem_api_keys)"

lemma world0_api_ready [simp]: "api_ready mem_api world0"
  by (simp add: api_ready_def api_table_def mem_redis_laws mem_env_laws)
    (simp add: mem_tables world0_defs)

lemma world0_api_cached: "api_cached mem_api world0 = (\<lambda>_. None)"
  by (rule ext) (simp add: api_cached_def val_mem_view world0_defs api_redisKey_def session_key_def)

lemma world0_api_coherent [simp]: "api_cache.coherent mem_api world0"
  by (simp add: api_cache.coherent_def world0_api_cached)

lemma mem_hmac: "config mem_env ''HMAC_SECRET'' = Some ''HMAC_SECRET?''" "hmac_sha256 mem_env s k = ''fp:'' @ k"
  by (simp_all add: mem_env_def)

lemma mem_fingerprint: "computeHmac mem_env k w = (Inr (''fp:'' @ k), w)"
  by (simp add: computeHmac_def mem_hmac returnE_def)

section \<open>Properties\<close>

text \<open>C7. Looking up a plain API key: while Redis and the database answer and the cache is
  coherent, \<open>findActiveByPlainKey\<close> succeeds exactly for the keys whose HMAC fingerprint the
  database keeps as active, and returns the permission codes of that key.\<close>

theorem api_key_lookup_is_database:
  assumes "api_ready (E, view, up, T) w" "api_cache.coherent (E, view, up, T) w"
  shows "fst (findActiveByPlainKey E plain w) = Inr codes \<longleftrightarrow>
    (\<exists>secret k. config E ''HMAC_SECRET'' = Some secret \<and> k \<in> rows T (w_db w) \<and>
       k_key_fingerprint k = hmac_sha256 E secret plain \<and> k_active k \<and> api_key_permissionCodes k = codes)"
proof (cases "config E ''HMAC_SECRET''")
  case None
  then show ?thesis by (simp add: findActiveByPlainKey_def computeHmac_def bindE_def throwE_def)
next
  case (Some secret)
  then have "findActiveByPlainKey E plain w = findActiveByFingerprint E (hmac_sha256 E secret plain) w"
    by (simp add: findActiveByPlainKey_def computeHmac_def bindE_def returnE_def)
  then show ?thesis
    using api_cache.lookup_refines [OF assms, of "hmac_sha256 E secret plain" codes] Some
    by (auto simp: api_stored_def)
qed

theorem api_key_lookup_is_database_witness:
  "fst (findActiveByPlainKey mem_env ''secret'' world0) = Inr [''USERS_READ'']"
  unfolding api_key_lookup_is_database [OF world0_api_ready world0_api_coherent]
  by (intro exI [where x = "''HMAC_SECRET?''"] exI [where x = key_active])
    (simp add: mem_hmac mem_tables world0_defs api_key_permissionCodes_def)

text \<open>C8. The API key cache stays coherent while Redis and the database answer: from a world where it
  is, after any sequence of whole operations (creations, lookups, deactivations, activations,
  permission changes of active keys, warm-ups and reconciliations, those that reject included) every
  cached entry is the permission list of an active key. Operations that overlap are not covered.\<close>

theorem api_key_cache_coherent:
  assumes "(api_step (E, view, up, T))\<^sup>*\<^sup>* w w'" "tx_laws E T"
    and "api_ready (E, view, up, T) w" "api_cache.coherent (E, view, up, T) w"
  shows "api_cached (E, view, up, T) w' fp = Some codes \<Longrightarrow>
    \<exists>k \<in> rows T (w_db w'). k_key_fingerprint k = fp \<and> k_active k \<and> api_key_permissionCodes k = codes"
proof -
  have "api_ok (E, view, up, T) w'"
    using assms(1)
  proof (induction rule: rtranclp_induct)
    case base
    then show ?case using assms(3,4) by (simp add: api_ok_def)
  next
    case (step y z)
    then show ?case using assms(2) api_step_ok by blast
  qed
  then show "api_cached (E, view, up, T) w' fp = Some codes \<Longrightarrow>
    \<exists>k \<in> rows T (w_db w'). k_key_fingerprint k = fp \<and> k_active k \<and> api_key_permissionCodes k = codes"
    by (simp add: api_ok_def api_cache.coherent_def api_stored_def)
qed

theorem api_key_cache_coherent_witness:
  "let w1 = snd (findActiveByPlainKey mem_env ''secret'' world0) in
   (\<exists>k \<in> rows mem_api_keys (w_db w1). k_key_fingerprint k = ''fp:secret'' \<and> k_active k \<and>
      api_key_permissionCodes k = [''USERS_READ''])"
proof -
  let ?w1 = "snd (findActiveByPlainKey mem_env ''secret'' world0)"
  have s: "api_step mem_api world0 (snd (findActiveByPlainKey (fst mem_api) ''secret'' world0))"
    by (rule api_step.step_lookup)
  have run: "findActiveByPlainKey mem_env ''secret'' world0 = findActiveByFingerprint mem_env ''fp:secret'' world0"
    by (simp add: findActiveByPlainKey_def bindE_def mem_fingerprint)
  have "api_stored mem_api world0 ''fp:secret'' [''USERS_READ'']"
    by (simp add: api_stored_def mem_tables world0_defs api_key_permissionCodes_def)
  from api_lookup_found [OF world0_api_ready _ this]
  have "api_cached mem_api ?w1 ''fp:secret'' = Some [''USERS_READ'']"
    by (auto simp: run world0_api_cached)
  moreover have "(api_step mem_api)\<^sup>*\<^sup>* world0 ?w1" using s by auto
  ultimately show ?thesis
    using api_key_cache_coherent [of mem_env mem_view m_up mem_api_keys world0 ?w1 "''fp:secret''" "[''USERS_READ'']"]
      mem_tx_laws [of mem_api_keys] world0_api_ready world0_api_coherent by (simp add: Let_def)
qed

text \<open>C9. A deactivated API key is dead at once: after a successful \<open>deactivate\<close> every lookup of
  a plain key with its fingerprint rejects with a 404.\<close>

theorem api_key_deactivated_is_rejected:
  assumes "api_ready (E, view, up, T) w" "api_cache.coherent (E, view, up, T) w"
    and "api_deactivate E kid w = (Inr message, w')" "k \<in> rows T (w_db w)" "k_id k = kid"
    and "config E ''HMAC_SECRET'' = Some secret" "hmac_sha256 E secret plain = k_key_fingerprint k"
  shows "findActiveByPlainKey E plain w' = (Inl api_not_found, w') \<and> status_of api_not_found = Some NOT_FOUND"
proof -
  have "wp (api_deactivate E kid) (\<lambda>_ w'. api_ok (E, view, up, T) w' \<and>
      (\<forall>cs. \<not> api_stored (E, view, up, T) w' (k_key_fingerprint k) cs)) (\<lambda>_ _. True) w"
    by (rule wp_api_deactivate [of E view up T])
      (use assms api_readyD(7) [OF assms(1)] in \<open>auto simp: api_ok_def dest: inj_onD\<close>)
  then have ok: "api_ok (E, view, up, T) w'" "\<And>cs. \<not> api_stored (E, view, up, T) w' (k_key_fingerprint k) cs"
    using assms(3) by (simp_all add: wp_def)
  then have "api_cached (E, view, up, T) w' (k_key_fingerprint k) = None"
    by (auto simp: api_ok_def api_cache.coherent_def) (metis not_None_eq)
  with ok have "findActiveByFingerprint E (k_key_fingerprint k) w' = (Inl api_not_found, w')"
    by (intro api_lookup_absent) (auto simp: api_ok_def)
  then show ?thesis using assms(6,7)
    by (simp add: findActiveByPlainKey_def computeHmac_def bindE_def returnE_def api_not_found_def wrap_error_def
        api_key_exception_def)
qed

theorem api_key_deactivated_is_rejected_witness:
  "\<exists>w'. findActiveByPlainKey mem_env ''secret'' w' = (Inl api_not_found, w')"
proof -
  have "is_ok (fst (api_deactivate mem_env ''k1'' world0))" by code_simp
  then obtain message w' where run: "api_deactivate mem_env ''k1'' world0 = (Inr message, w')"
    by (cases "api_deactivate mem_env ''k1'' world0") (auto simp: is_ok_iff)
  have "key_active \<in> rows mem_api_keys (w_db world0)" "k_id key_active = ''k1''"
    "hmac_sha256 mem_env ''HMAC_SECRET?'' ''secret'' = k_key_fingerprint key_active"
    by (simp_all add: mem_tables world0_defs mem_hmac)
  from api_key_deactivated_is_rejected [OF world0_api_ready world0_api_coherent run this(1,2) mem_hmac(1) this(3)]
  show ?thesis by blast
qed

text \<open>C10. Round trip of a new API key: while Redis and the database answer and the cache is coherent,
  the plain key that a successful \<open>create\<close> hands out is found at once, and the codes found are
  those of the permissions that the identifiers of the request name, no more and no fewer (in
  whatever order the relation lists them).\<close>

theorem api_key_create_lookup_roundtrip:
  assumes "api_ready (E, view, up, T) w" "api_cache.coherent (E, view, up, T) w" "tx_laws E T"
    and "orm_laws (permissions_orm E) P"
    and "api_create E plain dto u w = (Inr (handed, kid, client), w')"
  shows "handed = plain \<and>
    (\<exists>ps codes. list_all2 (\<lambda>pid p. p \<in> rows P (w_db w) \<and> p_id p = pid) (dto_permissionIds dto) ps \<and>
       fst (findActiveByPlainKey E handed w') = Inr codes \<and> set codes = p_code ` set ps)"
proof -
  let ?ok = "\<lambda>ps. list_all2 (\<lambda>pid p. p \<in> rows P (w_db w) \<and> p_id p = pid) (dto_permissionIds dto) ps"
  have perms: "?ok ps" if "mapE (permissions_findOne E) (dto_permissionIds dto) w = (Inr ps, w)" for ps
  proof -
    have "wp (mapE (permissions_findOne E) (dto_permissionIds dto)) (\<lambda>ps _. ?ok ps) (\<lambda>_ _. True) w"
      by (rule wp_permissions_findOnes [OF assms(4)]) simp_all
    with that show ?thesis by (simp add: wp_def)
  qed
  have "wp (api_create E plain dto u) (\<lambda>res w'. fst res = plain \<and> (\<exists>ps codes. ?ok ps \<and>
      fst (findActiveByPlainKey E plain w') = Inr codes \<and> set codes = p_code ` set ps)) (\<lambda>_ _. True) w"
  proof (rule wp_api_create [OF assms(1,3)])
    fix ps secret e' d
    assume h: "config E ''HMAC_SECRET'' = Some secret"
      "mapE (permissions_findOne E) (dto_permissionIds dto) w = (Inr ps, w)"
      "k_key_fingerprint e' = hmac_sha256 E secret plain" "k_active e'" "k_permissions e' = Some ps"
      "k_id e' \<notin> k_id ` rows T (w_db w)" "api_ready (E, view, up, T) (w\<lparr>w_db := d\<rparr>)"
      "rows T d = insert e' (rows T (w_db w))"
    have coh: "api_cache.coherent (E, view, up, T) (w\<lparr>w_db := d\<rparr>)"
      using assms(2) stored_after_create(1) [OF h(7,8,6)] by (simp add: api_cache.coherent_def)
    have stored: "api_stored (E, view, up, T) (w\<lparr>w_db := d\<rparr>) (hmac_sha256 E secret plain) (List.map p_code ps)"
      using h by (auto simp: api_stored_def api_key_permissionCodes_def)
    have "findActiveByPlainKey E plain (w\<lparr>w_db := d\<rparr>) =
        findActiveByFingerprint E (hmac_sha256 E secret plain) (w\<lparr>w_db := d\<rparr>)"
      using h(1) by (simp add: findActiveByPlainKey_def computeHmac_def bindE_def returnE_def)
    then have "fst (findActiveByPlainKey E plain (w\<lparr>w_db := d\<rparr>)) = Inr (List.map p_code ps)"
      using api_cache.lookup_refines [OF h(7) coh] stored by auto
    with perms [OF h(2)] show "fst (plain, k_id e', k_client e') = plain \<and> (\<exists>ps codes. ?ok ps \<and>
        fst (findActiveByPlainKey E plain (w\<lparr>w_db := d\<rparr>)) = Inr codes \<and> set codes = p_code ` set ps)"
      by (intro conjI exI [where x = ps] exI [where x = "List.map p_code ps"]) simp_all
  qed simp
  then show ?thesis using assms(5) by (simp add: wp_def)
qed

theorem api_key_create_lookup_roundtrip_witness:
  "\<exists>kid client codes w'. api_create mem_env ''fresh'' \<lparr>dto_client = ''web'', dto_permissionIds = [''p2'', ''p1'']\<rparr> None world0 =
       (Inr (''fresh'', kid, client), w') \<and>
     fst (findActiveByPlainKey mem_env ''fresh'' w') = Inr codes \<and> set codes = {''USERS_WRITE'', ''USERS_READ''}"
proof -
  let ?dto = "\<lparr>dto_client = ''web'', dto_permissionIds = [''p2'', ''p1'']\<rparr>"
  have "is_ok (fst (api_create mem_env ''fresh'' ?dto None world0))" by code_simp
  then obtain handed kid client w' where run: "api_create mem_env ''fresh'' ?dto None world0 = (Inr (handed, kid, client), w')"
    by (cases "api_create mem_env ''fresh'' ?dto None world0") (auto simp: is_ok_iff)
  from api_key_create_lookup_roundtrip [OF world0_api_ready world0_api_coherent mem_tx_laws mem_env_laws(3) run]
  obtain ps codes where "handed = ''fresh''"
    "list_all2 (\<lambda>pid p. p \<in> rows mem_permissions (w_db world0) \<and> p_id p = pid) [''p2'', ''p1''] ps"
    "fst (findActiveByPlainKey mem_env handed w') = Inr codes" "set codes = p_code ` set ps" by auto
  moreover from this(2) have "ps = [perm_write, perm_read]"
    by (auto simp: list_all2_Cons1 mem_tables world0_defs)
  ultimately show ?thesis using run by (auto simp: world0_defs)
qed

text \<open>C11. Changing the permissions of a deactivated API key brings it back: \<open>changePermissions\<close>
  writes the cache entry without looking at \<open>active\<close>, so afterwards the plain key is accepted
  with the new codes although the database has no active key of its fingerprint.\<close>

theorem changePermissions_revives_inactive_key:
  assumes "api_ready (E, view, up, T) w" "k \<in> rows T (w_db w)" "k_id k = kid" "\<not> k_active k"
    and "api_changePermissions E kid ids w = (Inr key, w')"
    and "config E ''HMAC_SECRET'' = Some secret" "hmac_sha256 E secret plain = k_key_fingerprint k"
  shows "findActiveByPlainKey E plain w' = (Inr (api_key_permissionCodes key), w') \<and>
    (\<forall>k' \<in> rows T (w_db w'). k_key_fingerprint k' = k_key_fingerprint k \<longrightarrow> \<not> k_active k')"
proof -
  have "wp (api_changePermissions E kid ids) (\<lambda>e w'. api_ready (E, view, up, T) w' \<and>
      api_cached (E, view, up, T) w' (k_key_fingerprint k) = Some (api_key_permissionCodes e) \<and>
      (\<forall>cs. \<not> api_stored (E, view, up, T) w' (k_key_fingerprint k) cs)) (\<lambda>_ _. True) w"
    by (rule wp_api_changePermissions [OF assms(1)])
      (use assms(2-4) api_readyD(7) [OF assms(1)] in \<open>auto dest: inj_onD\<close>)
  then have h: "api_ready (E, view, up, T) w'"
    "api_cached (E, view, up, T) w' (k_key_fingerprint k) = Some (api_key_permissionCodes key)"
    "\<And>cs. \<not> api_stored (E, view, up, T) w' (k_key_fingerprint k) cs"
    using assms(5) by (simp_all add: wp_def)
  have "findActiveByPlainKey E plain w' = findActiveByFingerprint E (k_key_fingerprint k) w'"
    using assms(6,7) by (simp add: findActiveByPlainKey_def computeHmac_def bindE_def returnE_def)
  then show ?thesis using findActiveByFingerprint_hit [OF h(1,2)] h(3) by (auto simp: api_stored_def)
qed

theorem changePermissions_revives_inactive_key_witness:
  "\<exists>key w'. api_changePermissions mem_env ''k2'' [''p2''] world0 = (Inr key, w') \<and>
     findActiveByPlainKey mem_env ''old'' world0 = (Inl api_not_found, world0) \<and>
     findActiveByPlainKey mem_env ''old'' w' = (Inr (api_key_permissionCodes key), w')"
proof -
  have "is_ok (fst (api_changePermissions mem_env ''k2'' [''p2''] world0))" by code_simp
  then obtain key w' where run: "api_changePermissions mem_env ''k2'' [''p2''] world0 = (Inr key, w')"
    by (cases "api_changePermissions mem_env ''k2'' [''p2''] world0") (auto simp: is_ok_iff)
  have k: "key_inactive \<in> rows mem_api_keys (w_db world0)" "k_id key_inactive = ''k2''" "\<not> k_active key_inactive"
    "hmac_sha256 mem_env ''HMAC_SECRET?'' ''old'' = k_key_fingerprint key_inactive"
    by (simp_all add: mem_tables world0_defs mem_hmac)
  have "findActiveByFingerprint mem_env ''fp:old'' world0 = (Inl api_not_found, world0)"
    by (rule api_lookup_absent [OF world0_api_ready])
      (simp_all add: world0_api_cached, simp add: api_stored_def mem_tables world0_defs)
  then have "findActiveByPlainKey mem_env ''old'' world0 = (Inl api_not_found, world0)"
    by (simp add: findActiveByPlainKey_def bindE_def mem_fingerprint)
  with changePermissions_revives_inactive_key [OF world0_api_ready k(1-3) run mem_hmac(1) k(4)] run
  show ?thesis by blast
qed

text \<open>C12. A lookup that overlaps a deactivation: the lookup misses the cache and reads the key
  from the database, then a whole \<open>deactivate\<close> runs, then the lookup writes its backfill. From
  then on the deactivated key is accepted from the cache.\<close>

theorem deactivation_race:
  assumes "api_ready (E, view, up, T) w"
    and "api_from_redis E (k_key_fingerprint k) w = (Inr None, w)"
    and "apiKeysRepository_findByFingerprint E (k_key_fingerprint k) w = (Inr (Some k), w)"
    and "api_deactivate E (k_id k) w = (Inr message, w1)"
    and "api_backfill E (k_key_fingerprint k) k w1 = (Inr (), w2)"
    and "api_cache.coherent (E, view, up, T) w"
  shows "findActiveByFingerprint E (k_key_fingerprint k) w2 = (Inr (api_key_permissionCodes k), w2) \<and>
    (\<forall>k' \<in> rows T (w_db w2). k_key_fingerprint k' = k_key_fingerprint k \<longrightarrow> \<not> k_active k')"
proof -
  have k: "k \<in> rows T (w_db w)"
    using find_one_law(1) [OF api_readyD(2) [OF assms(1)]] assms(3)
    by (auto simp: api_repo on_db_def zoomE_def readE_def)
  have "wp (api_deactivate E (k_id k)) (\<lambda>_ w'. api_ok (E, view, up, T) w' \<and>
      (\<forall>cs. \<not> api_stored (E, view, up, T) w' (k_key_fingerprint k) cs)) (\<lambda>_ _. True) w"
    by (rule wp_api_deactivate [of E view up T])
      (use assms(1,6) k api_readyD(7) [OF assms(1)] in \<open>auto simp: api_ok_def dest: inj_onD\<close>)
  then have w1: "api_ready (E, view, up, T) w1" "\<And>cs. \<not> api_stored (E, view, up, T) w1 (k_key_fingerprint k) cs"
    using assms(4) by (simp_all add: wp_def api_ok_def)
  have "wp (api_backfill E (k_key_fingerprint k) k) (\<lambda>_ w'. api_ready (E, view, up, T) w' \<and>
      api_cached (E, view, up, T) w' (k_key_fingerprint k) = Some (api_key_permissionCodes k) \<and>
      (\<forall>cs. \<not> api_stored (E, view, up, T) w' (k_key_fingerprint k) cs)) (\<lambda>_ _. True) w1"
    unfolding api_backfill_def wp_swallow by (rule wp_api_store [OF w1(1)]) (use w1(2) in auto)
  then have "api_ready (E, view, up, T) w2"
    "api_cached (E, view, up, T) w2 (k_key_fingerprint k) = Some (api_key_permissionCodes k)"
    "\<And>cs. \<not> api_stored (E, view, up, T) w2 (k_key_fingerprint k) cs"
    using assms(5) by (simp_all add: wp_def)
  then show ?thesis using findActiveByFingerprint_hit by (auto simp: api_stored_def)
qed

theorem deactivation_race_witness:
  "\<exists>w2. findActiveByFingerprint mem_env ''fp:secret'' w2 = (Inr [''USERS_READ''], w2) \<and>
     (\<forall>k' \<in> rows mem_api_keys (w_db w2). k_key_fingerprint k' = ''fp:secret'' \<longrightarrow> \<not> k_active k')"
proof -
  have "is_ok (fst (api_deactivate mem_env ''k1'' world0))" by code_simp
  then obtain message w1 where run: "api_deactivate mem_env ''k1'' world0 = (Inr message, w1)"
    by (cases "api_deactivate mem_env ''k1'' world0") (auto simp: is_ok_iff)
  have "wp (api_backfill mem_env ''fp:secret'' key_active) (\<lambda>_ _. True) (\<lambda>_ _. False) w1"
    by (simp add: api_backfill_def wp wp_ignore)
  from wp_returns [OF this] obtain w2 where fill: "api_backfill mem_env ''fp:secret'' key_active w1 = (Inr (), w2)"
    by auto
  have k: "k_key_fingerprint key_active = ''fp:secret''" "k_id key_active = ''k1''"
    "api_key_permissionCodes key_active = [''USERS_READ'']"
    by (simp_all add: world0_defs api_key_permissionCodes_def)
  have miss: "api_from_redis mem_env ''fp:secret'' world0 = (Inr None, world0)"
    using api_from_redis_run [OF world0_api_ready] by (simp add: world0_api_cached)
  have found: "apiKeysRepository_findByFingerprint mem_env ''fp:secret'' world0 = (Inr (Some key_active), world0)"
    by (simp add: api_repo on_db_def zoomE_def readE_def mem_env_def mem_orm_def world0_defs)
  show ?thesis
    using deactivation_race [OF world0_api_ready, of key_active message w1 w2] miss found run fill k by auto
qed

text \<open>The hourly reconciliation ends both: from any state, also an incoherent one, when the
  index names every cached fingerprint, afterwards a fingerprint without an active key in the
  database is rejected.\<close>

lemma api_key_reconciliation_rejects_inactive:
  assumes "api_ready (E, view, up, T) w"
    and "\<forall>fp. api_cached (E, view, up, T) w fp \<noteq> None \<longrightarrow> fp \<in> sets (view (w_redis w)) api_index"
    and "api_handleCacheReconciliation E w = (res, w')"
    and "\<forall>k \<in> rows T (w_db w). k_key_fingerprint k = fp \<longrightarrow> \<not> k_active k"
  shows "res = Inr () \<and> findActiveByFingerprint E fp w' = (Inl api_not_found, w')"
proof -
  have none: "\<not> api_stored (E, view, up, T) w fp cs" for cs using assms(4) by (auto simp: api_stored_def)
  have "wp (api_handleCacheReconciliation E) (\<lambda>_ w'. api_ready (E, view, up, T) w' \<and>
      api_cached (E, view, up, T) w' fp = None \<and> (\<forall>cs. \<not> api_stored (E, view, up, T) w' fp cs)) (\<lambda>_ _. False) w"
    by (rule wp_api_reconcile [OF assms(1)]) (use assms(2) none in auto)
  from wp_returns [OF this] assms(3) show ?thesis by (auto intro: api_lookup_absent)
qed

text \<open>The state that \<open>changePermissions\<close> on the inactive key leaves.\<close>

definition world_revived :: mem_world where
  "world_revived = snd (api_changePermissions mem_env ''k2'' [''p2''] world0)"

lemma api_key_reconciliation_rejects_inactive_example:
  "\<exists>w'. findActiveByFingerprint mem_env ''fp:old'' world_revived = (Inr [''USERS_WRITE''], world_revived) \<and>
     api_handleCacheReconciliation mem_env world_revived = (Inr (), w') \<and>
     findActiveByFingerprint mem_env ''fp:old'' w' = (Inl api_not_found, w')"
proof -
  have res: "map_option k_key_fingerprint (case fst (api_changePermissions mem_env ''k2'' [''p2''] world0) of
      Inr k \<Rightarrow> Some k | Inl _ \<Rightarrow> None) = Some ''fp:old''"
    "list_all (\<lambda>k. k_key_fingerprint k = ''fp:old'' \<longrightarrow> \<not> k_active k) (t_api_keys (w_db world_revived))"
    "m_sets (w_redis world_revived) api_index = [''fp:old'']" by code_simp+
  have "wp (api_changePermissions mem_env ''k2'' [''p2'']) (\<lambda>e w'. api_ready mem_api w' \<and>
      api_cached mem_api w' = [''fp:old'' \<mapsto> api_key_permissionCodes e]) (\<lambda>_ _. True) world0"
  proof (rule wp_api_changePermissions [OF world0_api_ready])
    fix k e w' assume k: "k \<in> rows mem_api_keys (w_db world0)" "k_id k = ''k2''" and
      w': "api_ready mem_api w'" "api_cached mem_api w' =
        (api_cached mem_api world0)(k_key_fingerprint k \<mapsto> api_key_permissionCodes e)"
    have "k_key_fingerprint k = ''fp:old''" using k by (auto simp: mem_tables world0_defs)
    with w' show "api_ready mem_api w' \<and> api_cached mem_api w' = [''fp:old'' \<mapsto> api_key_permissionCodes e]"
      by (simp add: world0_api_cached)
  qed simp
  then have h: "api_ready mem_api world_revived"
    "\<exists>cs. api_cached mem_api world_revived = [''fp:old'' \<mapsto> cs]"
    using res(1) by (auto simp: wp_def world_revived_def split: prod.splits sum.splits)
  have val: "map_option fst (m_strs (w_redis world_revived) (api_redisKey ''fp:old'')) =
      Some (ApiCacheDoc \<lparr>c_client = ''old'', c_permissionCodes = [''USERS_WRITE'']\<rparr>)" by code_simp
  then have c: "api_cached mem_api world_revived ''fp:old'' = Some [''USERS_WRITE'']"
    unfolding api_cached_def prod.case val_mem_view by (simp only: option.case doc.case) simp
  obtain res' w' where run: "api_handleCacheReconciliation mem_env world_revived = (res', w')"
    by (cases "api_handleCacheReconciliation mem_env world_revived")
  have idx: "\<forall>fp. api_cached mem_api world_revived fp \<noteq> None \<longrightarrow>
      fp \<in> sets (mem_view (w_redis world_revived)) api_index"
    using h(2) res(3) by (auto simp: mem_view_def split: if_splits)
  have none: "\<forall>k \<in> rows mem_api_keys (w_db world_revived). k_key_fingerprint k = ''fp:old'' \<longrightarrow> \<not> k_active k"
    using res(2) by (simp add: mem_tables list_all_iff)
  show ?thesis
    using api_key_reconciliation_rejects_inactive [OF h(1) idx run none] run
      findActiveByFingerprint_hit [OF h(1) c] by auto
qed

end
