(* ===== verification/Email.thy ===== *)
theory Email imports Jwt begin

text \<open>
  Mail: \<open>TemplateService\<close> and \<open>EmailService\<close> of \<open>src/src/clients/email\<close>. Templates are read from
  disk once and kept; a mail is a message on the queue \<open>email_queue\<close> of the broker.
\<close>

section \<open>replaceAll\<close>

text \<open>The replacement patterns of JavaScript: two dollars, the match, what precedes it and
  what follows it; without capture groups every other dollar stands for itself.\<close>

fun substitution :: "string \<Rightarrow> string \<Rightarrow> string \<Rightarrow> string \<Rightarrow> string" where
  "substitution matched before after (c # d # rest) =
     (if c = CHR ''$'' then
        (if d = CHR ''$'' then CHR ''$'' # substitution matched before after rest
         else if d = CHR ''&'' then matched @ substitution matched before after rest
         else if d = CHR 0x60 then before @ substitution matched before after rest
         else if d = CHR 0x27 then after @ substitution matched before after rest
         else c # substitution matched before after (d # rest))
      else c # substitution matched before after (d # rest))"
| "substitution matched before after [c] = [c]"
| "substitution matched before after [] = []"

text \<open>All occurrences from left to right; \<open>before\<close> is the part of the subject already passed.\<close>

function replace_from :: "string \<Rightarrow> string \<Rightarrow> string \<Rightarrow> string \<Rightarrow> string" where
  "replace_from pat rep before s =
     (case s of
        [] \<Rightarrow> []
      | c # cs \<Rightarrow>
          if pat \<noteq> [] \<and> starts_with s pat then
            substitution pat before (drop (length pat) s) rep @
            replace_from pat rep (before @ pat) (drop (length pat) s)
          else c # replace_from pat rep (before @ [c]) cs)"
  by pat_completeness auto
termination
  by (relation "measure (\<lambda>(pat, rep, before, s). length s)") auto

declare replace_from.simps [simp del]

definition replaceAll :: "string \<Rightarrow> string \<Rightarrow> string \<Rightarrow> string" where
  "replaceAll pat rep s = replace_from pat rep '''' s"

section \<open>TemplateService\<close>

definition loadTemplate :: "('r, 'd, 'q) env \<Rightarrow> string \<Rightarrow> ('r, 'd, 'q, string) service" where
  "loadTemplate E file = (\<lambda>w.
     case w_templates w file of
       Some content \<Rightarrow> (Inr content, w)
     | None \<Rightarrow>
         (case readFile E file of
            Inl e \<Rightarrow> (Inl e, w)
          | Inr content \<Rightarrow> (Inr content, w\<lparr>w_templates := (w_templates w)(file \<mapsto> content)\<rparr>)))"

definition placeholder :: "string \<Rightarrow> string" where
  "placeholder key = ''%%'' @ key @ ''%%''"

fun render :: "string \<Rightarrow> (string \<times> string option) list \<Rightarrow> string" where
  "render html [] = html"
| "render html ((key, value) # data) =
     render (replaceAll (placeholder key) (case value of Some v \<Rightarrow> v | None \<Rightarrow> '''') html) data"

section \<open>EmailService\<close>

text \<open>A value in a template literal: \<open>undefined\<close> when it is missing.\<close>

definition interpolated :: "string option \<Rightarrow> string" where
  "interpolated x = (case x of Some s \<Rightarrow> s | None \<Rightarrow> ''undefined'')"

definition user_name_prefix :: "string \<Rightarrow> string" where
  "user_name_prefix email = hd (split_on (CHR ''@'') email)"

definition sendMail :: "('r, 'd, 'q) env \<Rightarrow> email_body \<Rightarrow> ('r, 'd, 'q, unit) service" where
  "sendMail E body = on_mq (email_emit E ''email_queue'' body)"

definition send_template ::
  "('r, 'd, 'q) env \<Rightarrow> string \<Rightarrow> (string \<times> string option) list \<Rightarrow> string \<Rightarrow> string \<Rightarrow> string \<Rightarrow>
   ('r, 'd, 'q, unit) service" where
  "send_template E file data email subject text =
     bindE (loadTemplate E file) (\<lambda>template.
     sendMail E \<lparr>eb_recipient = [email], eb_subject = subject, eb_html = render template data,
                 eb_text = Some text\<rparr>)"

definition newline :: string where
  "newline = [CHR '' '', CHR 0x0A, CHR '' '']"

definition sendRegistrationMail ::
  "('r, 'd, 'q) env \<Rightarrow> string \<Rightarrow> string \<Rightarrow> ('r, 'd, 'q, unit) service" where
  "sendRegistrationMail E email password =
     bindE (getE w_now) (\<lambda>now.
       let app = config E ''APP_NAME'';
           data = [(''APP_NAME'', app), (''APP_URL'', config E ''FRONTEND_URL''),
                   (''YEAR'', Some (full_year E now)), (''USER_NAME_PREFIX'', Some (user_name_prefix email)),
                   (''EMAIL'', Some email), (''PASSWORD'', Some password)];
           subject = [CHR 0xA1] @ ''Welcome! Finish your registration on '' @ interpolated app;
           text = ''Welcome to '' @ interpolated app @
             ''! Your registration is complete. Please use the following credentials to log in:'' @ newline @
             ''Email: '' @ email @ newline @ ''Password: '' @ password @ newline @
             ''The first time you log in, you will be asked to change your password.'' @ newline @
             ''If you have any questions or need assistance, please contact our support team.''
       in send_template E ''send-registration.template.html'' data email subject text)"

definition reset_url :: "('r, 'd, 'q) env \<Rightarrow> string \<Rightarrow> string" where
  "reset_url E token = interpolated (config E ''FRONTEND_URL'') @ ''/reset-password?token='' @ token"

definition sendResetPasswordMail ::
  "('r, 'd, 'q) env \<Rightarrow> string \<Rightarrow> string \<Rightarrow> ('r, 'd, 'q, unit) service" where
  "sendResetPasswordMail E email token =
     bindE (getE w_now) (\<lambda>now.
       let app = config E ''APP_NAME'';
           data = [(''APP_NAME'', app), (''APP_URL'', config E ''FRONTEND_URL''),
                   (''RESET_URL'', Some (reset_url E token)),
                   (''EXPIRES_MINUTES'', Some (config_or E ''RESET_PASSWORD_EXPIRES_IN'' ''5'')),
                   (''YEAR'', Some (full_year E now)), (''USER_NAME_PREFIX'', Some (user_name_prefix email))];
           subject = ''Reset Password of your '' @ interpolated app @ '' Account'';
           text = ''Click the link below to reset your '' @ interpolated app @ '' password:'' @ newline @
             reset_url E token @ newline @ ''this link will expire in 5 minutes''
       in send_template E ''send-reset.template.html'' data email subject text)"

definition confirmPasswordChange :: "('r, 'd, 'q) env \<Rightarrow> string \<Rightarrow> ('r, 'd, 'q, unit) service" where
  "confirmPasswordChange E email =
     bindE (getE w_now) (\<lambda>now.
       let app = config E ''APP_NAME'';
           data = [(''APP_NAME'', app), (''YEAR'', Some (full_year E now)),
                   (''USER_NAME_PREFIX'', Some (user_name_prefix email))];
           subject = ''Your password of '' @ interpolated app @ '' has been changed'';
           text = ''Your account password has been changed. If this was you, you can ignore this message; otherwise, please contact us.''
       in send_template E ''confirm-reset.template.html'' data email subject text)"

section \<open>Lemmas\<close>

text \<open>Mail touches the broker and the kept templates only.\<close>

definition mailed :: "('r, 'd, 'q) world \<Rightarrow> ('r, 'd, 'q) world \<Rightarrow> bool" where
  "mailed w w' \<longleftrightarrow> w_redis w' = w_redis w \<and> w_db w' = w_db w \<and> w_now w' = w_now w"

lemma wp_send_template:
  assumes "\<And>w'. mailed w w' \<Longrightarrow> Q () w'" "\<And>e w'. mailed w w' \<Longrightarrow> F e w'"
  shows "wp (send_template E file data email subject text) Q F w"
  using assms
  by (auto simp: wp_def send_template_def sendMail_def bindE_def loadTemplate_def on_mq_def zoomE_def mailed_def
      split: option.splits sum.splits prod.splits)

lemma wp_sendRegistrationMail:
  assumes "\<And>w'. mailed w w' \<Longrightarrow> Q () w'" "\<And>e w'. mailed w w' \<Longrightarrow> F e w'"
  shows "wp (sendRegistrationMail E email password) Q F w"
  unfolding sendRegistrationMail_def Let_def wp_bind wp_get by (rule wp_send_template) (fact assms)+

lemma wp_sendResetPasswordMail:
  assumes "\<And>w'. mailed w w' \<Longrightarrow> Q () w'" "\<And>e w'. mailed w w' \<Longrightarrow> F e w'"
  shows "wp (sendResetPasswordMail E email token) Q F w"
  unfolding sendResetPasswordMail_def Let_def wp_bind wp_get by (rule wp_send_template) (fact assms)+

lemma wp_confirmPasswordChange:
  assumes "\<And>w'. mailed w w' \<Longrightarrow> Q () w'" "\<And>e w'. mailed w w' \<Longrightarrow> F e w'"
  shows "wp (confirmPasswordChange E email) Q F w"
  unfolding confirmPasswordChange_def Let_def wp_bind wp_get by (rule wp_send_template) (fact assms)+

text \<open>A value without a dollar is inserted as it is.\<close>

lemma substitution_plain: "CHR ''$'' \<notin> set rep \<Longrightarrow> substitution matched before after rep = rep"
  by (induction matched before after rep rule: substitution.induct) auto

end
