(* ===== verification/Users.thy ===== *)
theory Users imports Email begin

text \<open>
  The users component: \<open>UsersRepository\<close> and \<open>UsersService\<close> of \<open>src/src/services/users\<close>:
  registration, login and logout, token refresh, password reset, activation and roles.
  Random values (session identifiers, passwords, reset tokens) are arguments.
\<close>

section \<open>Repository\<close>

text \<open>A save runs the hook of the entity: on insertion or on update.\<close>

definition before_save :: "('r, 'd, 'q) env \<Rightarrow> user \<Rightarrow> user" where
  "before_save E user =
     (if u_id user = '''' then hasPasswordOnInsert (bcrypt_hashSync E) user
      else hashPasswordOnUpdate (bcrypt_hashSync E) user)"

definition usersRepository_save :: "('r, 'd, 'q) env \<Rightarrow> user \<Rightarrow> ('r, 'd, 'q, user) service" where
  "usersRepository_save E user = on_db (orm_save (users_orm E) (before_save E user))"

record register_dto =
  dto_email :: string
  dto_person_id :: string
  dto_rolesIds :: "string list"

definition usersRepository_create ::
  "register_dto \<Rightarrow> role list \<Rightarrow> string \<Rightarrow> auth_user option \<Rightarrow> user" where
  "usersRepository_create dto roles password created_by =
     \<lparr>u_id = '''', u_email = dto_email dto, u_password = password, u_status = PENDING,
      u_person_id = dto_person_id dto, u_created_by = created_by, u_roles = Some roles,
      u_originalPassword = None\<rparr>"

text \<open>A loaded entity has run its \<open>AfterLoad\<close> hook.\<close>

definition load_one ::
  "('r, 'd, 'q) env \<Rightarrow> (user \<Rightarrow> bool) \<Rightarrow> ('r, 'd, 'q, user option) service" where
  "load_one E p =
     bindE (on_db (readE (orm_find_one (users_orm E) p))) (\<lambda>found.
     returnE (map_option loadOriginalPassword found))"

definition usersRepository_findOneByEmail ::
  "('r, 'd, 'q) env \<Rightarrow> string \<Rightarrow> ('r, 'd, 'q, user option) service" where
  "usersRepository_findOneByEmail E email = load_one E (\<lambda>u. u_email u = email)"

definition usersRepository_findOneById ::
  "('r, 'd, 'q) env \<Rightarrow> string \<Rightarrow> ('r, 'd, 'q, user option) service" where
  "usersRepository_findOneById E uid = load_one E (\<lambda>u. u_id u = uid)"

definition user_order :: "user \<Rightarrow> string list" where
  "user_order u = [u_email u]"

definition usersRepository_findAll ::
  "('r, 'd, 'q) env \<Rightarrow> pagination_query \<Rightarrow> ('r, 'd, 'q, user list \<times> nat) service" where
  "usersRepository_findAll E q =
     bindE (on_db (readE (find_and_count (users_orm E) user_order q))) (\<lambda>(users, count).
     returnE (List.map loadOriginalPassword users, count))"

section \<open>Service: lookups\<close>

definition users_findOne :: "('r, 'd, 'q) env \<Rightarrow> string \<Rightarrow> ('r, 'd, 'q, user) service" where
  "users_findOne E uid =
     bindE (usersRepository_findOneById E uid) (\<lambda>found.
       case found of
         None \<Rightarrow> throwE (users_exception (''User with id '' @ uid @ '' not found'')
                          users_error.USER_NOT_FOUND NOT_FOUND None)
       | Some user \<Rightarrow> returnE user)"

definition findByEmail :: "('r, 'd, 'q) env \<Rightarrow> string \<Rightarrow> ('r, 'd, 'q, user option) service" where
  "findByEmail E email = usersRepository_findOneByEmail E email"

definition users_findAll :: "('r, 'd, 'q) env \<Rightarrow> pagination_query \<Rightarrow> ('r, 'd, 'q, user paginated) service" where
  "users_findAll E query =
     bindE (usersRepository_findAll E query) (\<lambda>(data, count).
       returnE (PaginatedResponseDto data count (q_page query) (q_limit query)))"

section \<open>Service: sessions\<close>

definition session_invalid :: exn where
  "session_invalid =
     users_exception ''Session expired or invalid'' users_error.SESSION_INVALID UNAUTHORIZED None"

text \<open>\<open>refreshToken\<close> up to the renewed session document, and from its write on.\<close>

definition refresh_check :: "('r, 'd, 'q) env \<Rightarrow> string \<Rightarrow> ('r, 'd, 'q, string \<times> session) service" where
  "refresh_check E refreshToken =
     bindE (getPayload E refreshToken RefreshToken) (\<lambda>payload.
     let sid = the (pl_sid payload) in
     bindE (read_session E sid) (\<lambda>session.
       case session of
         None \<Rightarrow> throwE session_invalid
       | Some s \<Rightarrow>
           if \<not> s_active s then throwE session_invalid
           else bindE (users_findOne E (s_user_id s)) (\<lambda>user.
                bindE (getE w_now) (\<lambda>now.
                returnE (sid, s\<lparr>s_permissions := user_permissionCodes user,
                                s_last_refresh_at := toISOString E now\<rparr>)))))"

definition refresh_store ::
  "('r, 'd, 'q) env \<Rightarrow> string \<Rightarrow> string \<times> session \<Rightarrow> ('r, 'd, 'q, auth_tokens) service" where
  "refresh_store E refreshToken renewed =
     thenE (raw_write E (SET (session_key (fst renewed)) (SessionDoc (snd renewed)) KEEPTTL))
           (jwt_refreshToken E refreshToken)"

definition users_refreshToken :: "('r, 'd, 'q) env \<Rightarrow> string \<Rightarrow> ('r, 'd, 'q, auth_tokens) service" where
  "users_refreshToken E refreshToken =
     bindE (refresh_check E refreshToken) (refresh_store E refreshToken)"

definition users_canDo :: "('r, 'd, 'q) env \<Rightarrow> auth_user \<Rightarrow> string \<Rightarrow> ('r, 'd, 'q, bool) service" where
  "users_canDo E user permissionCode =
     bindE (read_session E (au_session_id user)) (\<lambda>session.
       case session of
         None \<Rightarrow> throwE session_invalid
       | Some s \<Rightarrow>
           if \<not> s_active s then throwE session_invalid
           else returnE (js_includes (s_permissions s) permissionCode))"

definition getRequestData :: "request \<Rightarrow> string \<times> string" where
  "getRequestData req =
     (getClientIp req,
      case rq_headers req ''user-agent'' of Some (Single s) \<Rightarrow> or_else (Some s) ''unknown'' | _ \<Rightarrow> ''unknown'')"

definition getDevice :: "('r, 'd, 'q) env \<Rightarrow> string \<Rightarrow> string" where
  "getDevice E userAgent =
     (case ua_os E userAgent of Some os \<Rightarrow> os | None \<Rightarrow> ''Unknown OS'') @ '' - '' @
     (case ua_browser E userAgent of Some b \<Rightarrow> b | None \<Rightarrow> ''Unknown Browser'')"

definition wrong_credentials :: exn where
  "wrong_credentials =
     users_exception ''Wrong email or password'' users_error.WRONG_CREDENTIALS UNAUTHORIZED None"

definition new_session :: "('r, 'd, 'q) env \<Rightarrow> user \<Rightarrow> request \<Rightarrow> int \<Rightarrow> session" where
  "new_session E user req now =
     \<lparr>s_user_id = u_id user, s_person_id = u_person_id user, s_email = u_email user,
      s_permissions = user_permissionCodes user, s_active = True,
      s_ip = fst (getRequestData req), s_userAgent = snd (getRequestData req),
      s_device = getDevice E (snd (getRequestData req)),
      s_created_at = toISOString E now, s_last_refresh_at = toISOString E now\<rparr>"

text \<open>The \<open>try\<close> block of \<open>logIn\<close>: tokens, session document, index.\<close>

definition issue_session ::
  "('r, 'd, 'q) env \<Rightarrow> string \<Rightarrow> user \<Rightarrow> request \<Rightarrow> ('r, 'd, 'q, auth_tokens) service" where
  "issue_session E sessionId user req =
     rethrow_as UsersException ''Unable to issue authentication tokens''
       (UsersErrorCodes users_error.TOKENS_ISSUE_ERROR) INTERNAL_SERVER_ERROR
       (bindE (generateToken E (u_email user, sessionId) AuthToken) (\<lambda>accessToken.
        bindE (generateToken E (u_email user, sessionId) RefreshToken) (\<lambda>refreshToken.
        bindE (getE w_now) (\<lambda>now.
        bindE (liftE (getTtlFromEnv E ''JWT_REFRESH_EXPIRES_IN'')) (\<lambda>ttl1.
        thenE (raw_write E (SET (session_key sessionId) (SessionDoc (new_session E user req now)) (PX ttl1)))
        (thenE (raw_write E (SADD (user_index (u_id user)) sessionId))
        (bindE (liftE (getTtlFromEnv E ''JWT_REFRESH_EXPIRES_IN'')) (\<lambda>ttl2.
        thenE (raw_write E (PEXPIRE (user_index (u_id user)) ttl2))
        (returnE \<lparr>t_accessToken = accessToken, t_refreshToken = refreshToken\<rparr>)))))))))"

definition logIn ::
  "('r, 'd, 'q) env \<Rightarrow> string \<Rightarrow> string \<Rightarrow> string \<Rightarrow> request \<Rightarrow> ('r, 'd, 'q, auth_tokens) service" where
  "logIn E sessionId email password req =
     bindE (findByEmail E email) (\<lambda>found.
       case found of
         None \<Rightarrow> throwE wrong_credentials
       | Some user \<Rightarrow>
           if \<not> bcrypt_compare E password (u_password user) then throwE wrong_credentials
           else if u_status user = PENDING then
             throwE (users_exception ''This user has to finish their activation by changing the password''
                       users_error.USER_NOT_INITIALIZED UNAUTHORIZED None)
           else if u_status user = INACTIVE then
             throwE (users_exception ''This user is not active'' users_error.USER_INACTIVE UNAUTHORIZED None)
           else issue_session E sessionId user req)"

definition logOut :: "('r, 'd, 'q) env \<Rightarrow> auth_user \<Rightarrow> ('r, 'd, 'q, string) service" where
  "logOut E user =
     thenE (raw_write E (DEL (session_key (au_session_id user))))
     (thenE (raw_write E (SREM (user_index (au_id user)) (au_session_id user)))
     (returnE ''Logged out successfully''))"

section \<open>Service: accounts\<close>

definition register ::
  "('r, 'd, 'q) env \<Rightarrow> string \<Rightarrow> register_dto \<Rightarrow> auth_user option \<Rightarrow> ('r, 'd, 'q, string) service" where
  "register E password dto request_user =
     rethrow_as UsersException ''User registration failed''
       (UsersErrorCodes users_error.USER_NOT_REGISTERED) INTERNAL_SERVER_ERROR
       (transaction E
         (bindE (mapE (roles_findOne E) (dto_rolesIds dto)) (\<lambda>roles.
          bindE (usersRepository_save E (usersRepository_create dto roles password request_user)) (\<lambda>user.
          thenE (sendRegistrationMail E (u_email user) password)
          (returnE (''User '' @ u_email user @ '' created''))))))"

definition assignRole ::
  "('r, 'd, 'q) env \<Rightarrow> string \<Rightarrow> string list \<Rightarrow> ('r, 'd, 'q, user) service" where
  "assignRole E uid rolesIds =
     bindE (users_findOne E uid) (\<lambda>user.
     bindE (mapE (roles_findOne E) rolesIds) (\<lambda>roles.
     bindE (usersRepository_save E (user\<lparr>u_roles := Some roles\<rparr>)) (\<lambda>savedUser.
     thenE (swallow (refreshSessionPermissions E (u_id savedUser) (user_permissionCodes savedUser)))
     (returnE savedUser))))"

definition reset_key :: "string \<Rightarrow> string" where
  "reset_key token = ''reset_password:'' @ token"

definition forgotPassword ::
  "('r, 'd, 'q) env \<Rightarrow> string \<Rightarrow> string \<Rightarrow> ('r, 'd, 'q, string) service" where
  "forgotPassword E token email =
     bindE (findByEmail E email) (\<lambda>found.
     thenE
       (case found of
          None \<Rightarrow> returnE ()
        | Some user \<Rightarrow>
            bindE (liftE (getTtlFromEnv E ''RESET_PASSWORD_EXPIRES_IN'')) (\<lambda>ttl.
            thenE (raw_write E (SET (reset_key token) (ResetDoc \<lparr>rp_id = u_id user\<rparr>) (PX ttl)))
                  (sendResetPasswordMail E email token)))
       (returnE ''If the email exists, a reset password link will be sent to it.''))"

definition reset_invalid :: exn where
  "reset_invalid = users_exception ''Invalid or expired reset password token''
     users_error.RESET_PASSWORD_INVALID UNAUTHORIZED None"

text \<open>\<open>error instanceof NotFoundException\<close>: the class of the framework.\<close>

definition is_NotFoundException :: "exn \<Rightarrow> bool" where
  "is_NotFoundException error =
     (case error of HttpException name _ _ _ _ \<Rightarrow> name = ''NotFoundException'' | _ \<Rightarrow> False)"

definition resetPassword ::
  "('r, 'd, 'q) env \<Rightarrow> string \<Rightarrow> string \<Rightarrow> ('r, 'd, 'q, string) service" where
  "resetPassword E token new_password =
     bindE (raw_getDel E (reset_key token)) (\<lambda>raw.
     bindE (liftE (parse_or_null parse_reset raw)) (\<lambda>redisPayload.
       case redisPayload of
         None \<Rightarrow> throwE reset_invalid
       | Some p \<Rightarrow>
           bindE (catchE (users_findOne E (rp_id p)) (\<lambda>error.
                    if is_NotFoundException error then
                      throwE (users_exception ''Invalid or expired reset password token''
                                users_error.RESET_PASSWORD_USER_NOT_FOUND UNAUTHORIZED None)
                    else throwE error)) (\<lambda>user.
           thenE (usersRepository_save E (user\<lparr>u_password := new_password\<rparr>))
           (thenE (confirmPasswordChange E (u_email user))
           (returnE ''Password reset successfully'')))))"

definition firstActivation ::
  "('r, 'd, 'q) env \<Rightarrow> string \<Rightarrow> string \<Rightarrow> string \<Rightarrow> ('r, 'd, 'q, string) service" where
  "firstActivation E email password new_password =
     bindE (findByEmail E email) (\<lambda>found.
       case found of
         None \<Rightarrow> throwE (users_exception ''User not found'' users_error.USER_NOT_FOUND NOT_FOUND None)
       | Some user \<Rightarrow>
           if u_status user \<noteq> PENDING then
             throwE (users_exception ''User has already been activated'' users_error.USER_ALREADY_ACTIVE
                       BAD_REQUEST None)
           else if \<not> bcrypt_compare E password (u_password user) then throwE wrong_credentials
           else
             thenE (usersRepository_save E (user\<lparr>u_password := new_password, u_status := ACTIVE\<rparr>))
               (returnE ''User activated successfully''))"

definition users_activate :: "('r, 'd, 'q) env \<Rightarrow> string \<Rightarrow> ('r, 'd, 'q, string) service" where
  "users_activate E uid =
     bindE (users_findOne E uid) (\<lambda>user.
       if u_status user \<noteq> INACTIVE then
         throwE (users_exception
           (''User must be '' @ UserStatus INACTIVE @ '' to be activated, but current status is '' @
            UserStatus (u_status user)) users_error.USER_ALREADY_ACTIVE BAD_REQUEST None)
       else
         thenE (usersRepository_save E (user\<lparr>u_status := ACTIVE\<rparr>))
           (returnE ''User activated successfully''))"

definition users_deactivate :: "('r, 'd, 'q) env \<Rightarrow> string \<Rightarrow> ('r, 'd, 'q, string) service" where
  "users_deactivate E uid =
     bindE (users_findOne E uid) (\<lambda>user.
       if u_status user \<noteq> ACTIVE then
         throwE (users_exception
           (''User must be '' @ UserStatus ACTIVE @ '' to be deactivated, but current status is '' @
            UserStatus (u_status user)) users_error.USER_ALREADY_INACTIVE BAD_REQUEST None)
       else
         thenE (usersRepository_save E (user\<lparr>u_status := INACTIVE\<rparr>))
           (returnE ''User deactivated successfully''))"

section \<open>Lemmas on lookups\<close>

lemmas users_repo = usersRepository_save_def usersRepository_create_def usersRepository_findAll_def
  usersRepository_findOneByEmail_def usersRepository_findOneById_def load_one_def

text \<open>What the database keeps of the users: identifiers, addresses and persons are unique, and
  a row has an identifier.\<close>

definition users_table :: "('d, user) table \<Rightarrow> bool" where
  "users_table T \<longleftrightarrow> ident T = u_id \<and> assign T = (\<lambda>i e. e\<lparr>u_id := i\<rparr>) \<and>
     (\<forall>S. constraint T S \<longrightarrow> inj_on u_id S \<and> inj_on u_email S \<and> inj_on u_person_id S)"

definition users_ready :: "('r, 'd, 'q) env \<Rightarrow> ('d, user) table \<Rightarrow> ('r, 'd, 'q) world \<Rightarrow> bool" where
  "users_ready E T w \<longleftrightarrow> orm_laws (users_orm E) T \<and> users_table T \<and> answers T (w_db w) \<and>
     constraint T (rows T (w_db w)) \<and> (\<forall>u \<in> rows T (w_db w). u_id u \<noteq> '''')"

lemma users_readyD:
  assumes "users_ready E T w"
  shows "orm_laws (users_orm E) T" "users_table T" "answers T (w_db w)" "constraint T (rows T (w_db w))"
    "inj_on u_id (rows T (w_db w))" "inj_on u_email (rows T (w_db w))" "ident T = u_id"
    "u \<in> rows T (w_db w) \<Longrightarrow> u_id u \<noteq> ''''"
  using assms by (auto simp: users_ready_def users_table_def)

lemma users_ready_redis [simp]: "users_ready E T (w\<lparr>w_redis := r\<rparr>) = users_ready E T w"
  by (simp add: users_ready_def)

lemma users_ready_mailed: "mailed w w' \<Longrightarrow> users_ready E T w' = users_ready E T w"
  by (simp add: users_ready_def mailed_def)

lemma wp_load_one:
  assumes ready: "users_ready E T w"
    and "\<And>u. u \<in> rows T (w_db w) \<Longrightarrow> p u \<Longrightarrow> Q (Some (loadOriginalPassword u)) w"
    and "(\<And>u. u \<in> rows T (w_db w) \<Longrightarrow> \<not> p u) \<Longrightarrow> Q None w"
  shows "wp (load_one E p) Q F w"
  unfolding load_one_def wp_bind wp_return
  by (rule wp_db_find_one [OF users_readyD(1) [OF ready]])
    (use assms users_readyD(3) [OF ready] in auto)

text \<open>With a unique column a lookup has one answer.\<close>

lemma findByEmail_run:
  assumes ready: "users_ready E T w"
  shows "u \<in> rows T (w_db w) \<Longrightarrow> u_email u = email \<Longrightarrow>
      findByEmail E email w = (Inr (Some (loadOriginalPassword u)), w)"
    and "(\<And>u. u \<in> rows T (w_db w) \<Longrightarrow> u_email u \<noteq> email) \<Longrightarrow> findByEmail E email w = (Inr None, w)"
proof -
  assume u: "u \<in> rows T (w_db w)" "u_email u = email"
  have "wp (findByEmail E email) (\<lambda>x t. x = Some (loadOriginalPassword u) \<and> t = w) (\<lambda>_ _. False) w"
    unfolding findByEmail_def usersRepository_findOneByEmail_def
    by (rule wp_load_one [OF ready]) (use u users_readyD(6) [OF ready] in \<open>auto dest: inj_onD\<close>)
  from wp_returns [OF this] show "findByEmail E email w = (Inr (Some (loadOriginalPassword u)), w)" by auto
next
  assume none: "\<And>u. u \<in> rows T (w_db w) \<Longrightarrow> u_email u \<noteq> email"
  have "wp (findByEmail E email) (\<lambda>x t. x = None \<and> t = w) (\<lambda>_ _. False) w"
    unfolding findByEmail_def usersRepository_findOneByEmail_def
    by (rule wp_load_one [OF ready]) (use none in auto)
  from wp_returns [OF this] show "findByEmail E email w = (Inr None, w)" by auto
qed

lemma users_findOne_run:
  assumes ready: "users_ready E T w"
  shows "u \<in> rows T (w_db w) \<Longrightarrow> u_id u = uid \<Longrightarrow>
      users_findOne E uid w = (Inr (loadOriginalPassword u), w)"
    and "(\<And>u. u \<in> rows T (w_db w) \<Longrightarrow> u_id u \<noteq> uid) \<Longrightarrow> users_findOne E uid w =
      (Inl (users_exception (''User with id '' @ uid @ '' not found'') users_error.USER_NOT_FOUND NOT_FOUND None), w)"
proof -
  assume u: "u \<in> rows T (w_db w)" "u_id u = uid"
  have "wp (users_findOne E uid) (\<lambda>x t. x = loadOriginalPassword u \<and> t = w) (\<lambda>_ _. False) w"
    unfolding users_findOne_def usersRepository_findOneById_def wp_bind
    by (rule wp_load_one [OF ready]) (use u users_readyD(5) [OF ready] in \<open>auto simp: wp dest: inj_onD\<close>)
  from wp_returns [OF this] show "users_findOne E uid w = (Inr (loadOriginalPassword u), w)" by auto
next
  assume none: "\<And>u. u \<in> rows T (w_db w) \<Longrightarrow> u_id u \<noteq> uid"
  have "wp (users_findOne E uid) (\<lambda>_ _. False) (\<lambda>e t. e =
      users_exception (''User with id '' @ uid @ '' not found'') users_error.USER_NOT_FOUND NOT_FOUND None \<and> t = w) w"
    unfolding users_findOne_def usersRepository_findOneById_def wp_bind
    by (rule wp_load_one [OF ready]) (use none in \<open>auto simp: wp\<close>)
  from wp_fails [OF this] show "users_findOne E uid w =
      (Inl (users_exception (''User with id '' @ uid @ '' not found'') users_error.USER_NOT_FOUND NOT_FOUND None), w)"
    by auto
qed

text \<open>Saving a loaded user: the row of the user becomes the entity after its hook.\<close>

lemma wp_users_save:
  assumes ready: "users_ready E T w" and u: "u \<in> rows T (w_db w)" "u_id e = u_id u"
    and Q: "\<And>d'. users_ready E T (w\<lparr>w_db := d'\<rparr>) \<Longrightarrow>
      rows T d' = saved_rows T (hashPasswordOnUpdate (bcrypt_hashSync E) e) (rows T (w_db w)) \<Longrightarrow>
      Q (hashPasswordOnUpdate (bcrypt_hashSync E) e) (w\<lparr>w_db := d'\<rparr>)"
    and F: "\<And>x d'. users_ready E T (w\<lparr>w_db := d'\<rparr>) \<Longrightarrow> rows T d' = rows T (w_db w) \<Longrightarrow> F x (w\<lparr>w_db := d'\<rparr>)"
  shows "wp (usersRepository_save E e) Q F w"
  unfolding usersRepository_save_def
proof (rule wp_db_save [OF users_readyD(1) [OF ready]])
  let ?e = "hashPasswordOnUpdate (bcrypt_hashSync E) e"
  have b: "before_save E e = ?e" "u_id ?e \<noteq> ''''"
    using u users_readyD(8) [OF ready u(1)] by (simp_all add: before_save_def)
  fix e' d'
  assume "rows T d' = saved_rows T e' (rows T (w_db w))"
    and "ident T (before_save E e) \<noteq> '''' \<Longrightarrow> e' = before_save E e"
    and "constraint T (rows T (w_db w)) \<Longrightarrow> constraint T (saved_rows T e' (rows T (w_db w)))"
    and "answers T (w_db w) \<Longrightarrow> answers T d'"
  with b Q [of d'] ready users_readyD(7) [OF ready] show "Q e' (w\<lparr>w_db := d'\<rparr>)"
    by (auto simp: users_ready_def saved_rows_def)
next
  fix x d' assume "rows T d' = rows T (w_db w)" "answers T (w_db w) \<Longrightarrow> answers T d'"
  then show "F x (w\<lparr>w_db := d'\<rparr>)" using F [of d' x] ready by (simp add: users_ready_def)
qed

definition users_listing :: "('r, 'd, 'q) env \<times> ('d, user) table \<Rightarrow> ('r, 'd, 'q) world \<Rightarrow> bool" where
  "users_listing ET w \<longleftrightarrow> listing_available (users_orm (fst ET)) (snd ET) user_order (w_db w)"

lemma users_findAll_run:
  assumes "users_listing (E, T) w" "1 \<le> q_page q" "1 \<le> q_limit q"
  shows "users_findAll E q w =
    (Inr (PaginatedResponseDto
       (List.map loadOriginalPassword
         (take (nat (q_limit q)) (drop (nat ((q_page q - 1) * q_limit q)) (ordered_rows T user_order (w_db w)))))
       (length (ordered_rows T user_order (w_db w))) (q_page q) (q_limit q)), w)"
  using assms
  by (simp add: users_listing_def users_findAll_def usersRepository_findAll_def bindE_def returnE_def on_db_def
      zoomE_def readE_def find_and_count_run)

interpretation user_pages: paged_listing
  "\<lambda>ET q w. users_findAll (fst ET) q w" users_listing
  "\<lambda>ET w. List.map loadOriginalPassword (ordered_rows (snd ET) user_order (w_db w))"
  "\<lambda>ET w. loadOriginalPassword ` rows (snd ET) (w_db w)"
proof
  fix ET :: "('r, 'd, 'q) env \<times> ('d, user) table" and w :: "('r, 'd, 'q) world"
  assume ok: "users_listing ET w"
  then have av: "listing_available (users_orm (fst ET)) (snd ET) user_order (w_db w)"
    by (simp add: users_listing_def)
  show "set (List.map loadOriginalPassword (ordered_rows (snd ET) user_order (w_db w))) =
      loadOriginalPassword ` rows (snd ET) (w_db w)"
    by (simp add: ordered_rows_listing [OF av])
  have "user_order u = user_order u'" if "loadOriginalPassword u = loadOriginalPassword u'" for u u'
    using that by (metis hook_fields(11) user_order_def)
  then have "inj_on loadOriginalPassword (rows (snd ET) (w_db w))"
    using av unfolding listing_available_def inj_on_def by blast
  then show "distinct (List.map loadOriginalPassword (ordered_rows (snd ET) user_order (w_db w)))"
    by (simp add: distinct_map ordered_rows_listing [OF av])
  fix q :: pagination_query assume "1 \<le> q_page q" "1 \<le> q_limit q"
  then show "users_findAll (fst ET) q w =
    (Inr (PaginatedResponseDto
       (take (nat (q_limit q)) (drop (nat ((q_page q - 1) * q_limit q))
         (List.map loadOriginalPassword (ordered_rows (snd ET) user_order (w_db w)))))
       (length (List.map loadOriginalPassword (ordered_rows (snd ET) user_order (w_db w)))) (q_page q) (q_limit q)), w)"
    using users_findAll_run [of "fst ET" "snd ET" w q] ok by (simp add: take_map drop_map)
qed

end
