(* ===== verification/UserSessions.thy ===== *)
theory UserSessions imports Users Container begin

text \<open>
  The life of a session: what login creates, what refresh, logout and deactivation do to it,
  and the properties of these operations.
\<close>

section \<open>The environment of the session operations\<close>

text \<open>Redis answers and holds only sessions under the session keys; the library signs.\<close>

definition session_ready ::
  "('r, 'd, 'q) env \<Rightarrow> ('r \<Rightarrow> redis_view) \<Rightarrow> ('r \<Rightarrow> bool) \<Rightarrow> ('r, 'd, 'q) world \<Rightarrow> bool" where
  "session_ready E view up w \<longleftrightarrow> redis_laws (redis_api E) view up \<and> up (w_redis w) \<and>
     sessions_wf (view (w_redis w))"

lemma session_readyD:
  assumes "session_ready E view up w"
  shows "redis_laws (redis_api E) view up" "up (w_redis w)" "sessions_wf (view (w_redis w))"
  using assms by (simp_all add: session_ready_def)

abbreviation sess :: "('r \<Rightarrow> redis_view) \<Rightarrow> ('r, 'd, 'q) world \<Rightarrow> string \<Rightarrow> session option" where
  "sess view w sid \<equiv> session_at (view (w_redis w)) sid"

lemma sessions_wf_exec [simp]:
  "sessions_wf v \<Longrightarrow> sessions_wf (exec_cmd (SET (session_key sid) (SessionDoc s) opt) v)"
  "sessions_wf v \<Longrightarrow> sessions_wf (exec_cmd (DEL k) v)"
  "sessions_wf v \<Longrightarrow> sessions_wf (exec_cmd (SADD k x) v)"
  "sessions_wf v \<Longrightarrow> sessions_wf (exec_cmd (SREM k x) v)"
  "sessions_wf v \<Longrightarrow> sessions_wf (exec_cmd (PEXPIRE k n) v)"
  by (auto simp: sessions_wf_def)

lemma session_key_prefix [simp]: "session_key sid \<noteq> reset_key t" "reset_key t \<noteq> session_key sid"
  by (simp_all add: session_key_def reset_key_def)

lemma sessions_wf_reset [simp]:
  "sessions_wf v \<Longrightarrow> sessions_wf (exec_cmd (SET (reset_key t) d opt) v)"
  by (auto simp: sessions_wf_def)

lemma readS:
  assumes "session_ready E view up w"
  shows "read_session E sid w = (Inr (sess view w sid), w)"
  by (rule read_session_run [OF session_readyD [OF assms]])

text \<open>One write while the server answers.\<close>

lemma wp_write_up:
  assumes ready: "session_ready E view up w"
    and wf: "sessions_wf (exec_cmd c (view (w_redis w)))"
    and Q: "\<And>r'. view r' = exec_cmd c (view (w_redis w)) \<Longrightarrow>
      session_ready E view up (w\<lparr>w_redis := r'\<rparr>) \<Longrightarrow> Q () (w\<lparr>w_redis := r'\<rparr>)"
  shows "wp (raw_write E c) Q F w"
proof (rule wp_raw_write [OF session_readyD(1) [OF ready]])
  fix r' assume r': "view r' = exec_cmd c (view (w_redis w))" "up (w_redis w) \<Longrightarrow> up r'"
  show "Q () (w\<lparr>w_redis := r'\<rparr>)"
    by (rule Q [OF r'(1)]) (use r' ready wf in \<open>simp add: session_ready_def\<close>)
qed (use session_readyD(2) [OF ready] in simp)

lemma wp_write_two:
  assumes ready: "session_ready E view up w"
    and wf: "sessions_wf (exec_cmd c (view (w_redis w)))" "sessions_wf (exec_cmd d (exec_cmd c (view (w_redis w))))"
    and Q: "\<And>r'. view r' = exec_all [c, d] (view (w_redis w)) \<Longrightarrow>
      session_ready E view up (w\<lparr>w_redis := r'\<rparr>) \<Longrightarrow> Q () (w\<lparr>w_redis := r'\<rparr>)"
  shows "wp (raw_write E c) (\<lambda>_. wp (raw_write E d) Q F) F w"
proof (rule wp_write_up [OF ready wf(1)])
  fix r assume r: "view r = exec_cmd c (view (w_redis w))" "session_ready E view up (w\<lparr>w_redis := r\<rparr>)"
  show "wp (raw_write E d) Q F (w\<lparr>w_redis := r\<rparr>)"
  proof (rule wp_write_up [OF r(2)])
    fix r' assume "view r' = exec_cmd d (view (w_redis (w\<lparr>w_redis := r\<rparr>)))"
      "session_ready E view up (w\<lparr>w_redis := r\<rparr>\<lparr>w_redis := r'\<rparr>)"
    then show "Q () (w\<lparr>w_redis := r\<rparr>\<lparr>w_redis := r'\<rparr>)" using Q [of r'] r(1) by simp
  qed (use wf(2) r(1) in simp)
qed

lemma wp_write_three:
  assumes ready: "session_ready E view up w"
    and wf: "sessions_wf (exec_cmd c (view (w_redis w)))" "sessions_wf (exec_cmd d (exec_cmd c (view (w_redis w))))"
      "sessions_wf (exec_cmd e (exec_cmd d (exec_cmd c (view (w_redis w)))))"
    and Q: "\<And>r'. view r' = exec_all [c, d, e] (view (w_redis w)) \<Longrightarrow>
      session_ready E view up (w\<lparr>w_redis := r'\<rparr>) \<Longrightarrow> Q () (w\<lparr>w_redis := r'\<rparr>)"
  shows "wp (raw_write E c) (\<lambda>_. wp (raw_write E d) (\<lambda>_. wp (raw_write E e) Q F) F) F w"
proof (rule wp_write_up [OF ready wf(1)])
  fix r assume r: "view r = exec_cmd c (view (w_redis w))" "session_ready E view up (w\<lparr>w_redis := r\<rparr>)"
  show "wp (raw_write E d) (\<lambda>_. wp (raw_write E e) Q F) F (w\<lparr>w_redis := r\<rparr>)"
  proof (rule wp_write_two [OF r(2)])
    fix r' assume "view r' = exec_all [d, e] (view (w_redis (w\<lparr>w_redis := r\<rparr>)))"
      "session_ready E view up (w\<lparr>w_redis := r\<rparr>\<lparr>w_redis := r'\<rparr>)"
    then show "Q () (w\<lparr>w_redis := r\<rparr>\<lparr>w_redis := r'\<rparr>)" using Q [of r'] r(1) by simp
  qed (use wf r(1) in simp_all)
qed

section \<open>Login\<close>

definition login_commands :: "('r, 'd, 'q) env \<Rightarrow> string \<Rightarrow> user \<Rightarrow> request \<Rightarrow> int \<Rightarrow> int \<Rightarrow> command list" where
  "login_commands E sid user req now t =
     [SET (session_key sid) (SessionDoc (new_session E user req now)) (PX t),
      SADD (user_index (u_id user)) sid, PEXPIRE (user_index (u_id user)) t]"

lemma wp_issue_session:
  assumes ready: "session_ready E view up w" and jwt: "jwt_laws E"
    and ttl: "getTtlFromEnv E ''JWT_REFRESH_EXPIRES_IN'' = Inr t"
    and Q: "\<And>a r r'.
      token_ok E (u_email u, sid) (token_secret E AuthToken) (token_expiresIn E AuthToken) (w_now w) a \<Longrightarrow>
      token_ok E (u_email u, sid) (token_secret E RefreshToken) (token_expiresIn E RefreshToken) (w_now w) r \<Longrightarrow>
      view r' = exec_all (login_commands E sid u req (w_now w) t) (view (w_redis w)) \<Longrightarrow>
      session_ready E view up (w\<lparr>w_redis := r'\<rparr>) \<Longrightarrow>
      Q \<lparr>t_accessToken = a, t_refreshToken = r\<rparr> (w\<lparr>w_redis := r'\<rparr>)"
    and F: "\<And>e. \<not> signing E (w_now w) \<Longrightarrow> F e w"
  shows "wp (issue_session E sid u req) Q F w"
  unfolding issue_session_def wp_rethrow_as wp_bind wp_then wp_return
proof (rule wp_generateToken [OF jwt])
  fix a assume a: "token_ok E (u_email u, sid) (token_secret E AuthToken) (token_expiresIn E AuthToken) (w_now w) a"
  let ?F = "\<lambda>error. F (wrap_error UsersException ''Unable to issue authentication tokens''
     (UsersErrorCodes users_error.TOKENS_ISSUE_ERROR) INTERNAL_SERVER_ERROR error)"
  let ?I = "user_index (u_id u)"
  show "wp (generateToken E (u_email u, sid) RefreshToken) (\<lambda>r. wp (getE w_now) (\<lambda>now.
      wp (liftE (getTtlFromEnv E ''JWT_REFRESH_EXPIRES_IN'')) (\<lambda>ttl1.
      wp (raw_write E (SET (session_key sid) (SessionDoc (new_session E u req now)) (PX ttl1))) (\<lambda>_.
      wp (raw_write E (SADD ?I sid)) (\<lambda>_.
      wp (liftE (getTtlFromEnv E ''JWT_REFRESH_EXPIRES_IN'')) (\<lambda>ttl2.
      wp (raw_write E (PEXPIRE ?I ttl2)) (\<lambda>_. Q \<lparr>t_accessToken = a, t_refreshToken = r\<rparr>) ?F) ?F) ?F) ?F) ?F) ?F) ?F w"
  proof (rule wp_generateToken [OF jwt])
    fix r assume r: "token_ok E (u_email u, sid) (token_secret E RefreshToken) (token_expiresIn E RefreshToken) (w_now w) r"
    show "wp (getE w_now) (\<lambda>now.
      wp (liftE (getTtlFromEnv E ''JWT_REFRESH_EXPIRES_IN'')) (\<lambda>ttl1.
      wp (raw_write E (SET (session_key sid) (SessionDoc (new_session E u req now)) (PX ttl1))) (\<lambda>_.
      wp (raw_write E (SADD ?I sid)) (\<lambda>_.
      wp (liftE (getTtlFromEnv E ''JWT_REFRESH_EXPIRES_IN'')) (\<lambda>ttl2.
      wp (raw_write E (PEXPIRE ?I ttl2)) (\<lambda>_. Q \<lparr>t_accessToken = a, t_refreshToken = r\<rparr>) ?F) ?F) ?F) ?F) ?F) ?F w"
      unfolding wp_get wp_lift ttl sum.case
      by (rule wp_write_three [OF ready])
        (simp_all add: session_readyD(3) [OF ready] Q [OF a r] login_commands_def)
  qed (rule F)
qed (rule F)

lemma login_view:
  assumes "view r' = exec_all (login_commands E sid u req now t) v"
  shows "session_at (view r') sid = Some (new_session E u req now)"
    and "ttl (view r') (session_key sid) = Some t"
    and "sets (view r') (user_index (u_id u)) = insert sid (sets v (user_index (u_id u)))"
    and "sid' \<noteq> sid \<Longrightarrow> session_at (view r') sid' = session_at v sid'"
  using assms by (simp_all add: login_commands_def)

text \<open>Login decides on the row of the address alone, before it issues anything.\<close>

lemma logIn_run:
  assumes "users_ready E T w"
  shows "u \<in> rows T (w_db w) \<Longrightarrow> u_email u = email \<Longrightarrow> logIn E sid email password req w =
      (if \<not> bcrypt_compare E password (u_password u) then (Inl wrong_credentials, w)
       else if u_status u = PENDING then
         (Inl (users_exception ''This user has to finish their activation by changing the password''
            users_error.USER_NOT_INITIALIZED UNAUTHORIZED None), w)
       else if u_status u = INACTIVE then
         (Inl (users_exception ''This user is not active'' users_error.USER_INACTIVE UNAUTHORIZED None), w)
       else issue_session E sid (loadOriginalPassword u) req w)"
    and "(\<And>u. u \<in> rows T (w_db w) \<Longrightarrow> u_email u \<noteq> email) \<Longrightarrow>
      logIn E sid email password req w = (Inl wrong_credentials, w)"
  using findByEmail_run [OF assms] by (simp_all add: logIn_def bindE_def throwE_def)

section \<open>Refresh\<close>

lemma refresh_check_run:
  assumes ready: "session_ready E view up w" and users: "users_ready E T w"
  shows "payload_of E rt RefreshToken (w_now w) = Inl e \<Longrightarrow> refresh_check E rt w = (Inl e, w)"
    and "payload_of E rt RefreshToken (w_now w) = Inr p \<Longrightarrow> sid = the (pl_sid p) \<Longrightarrow>
      sess view w sid = None \<or> (\<exists>s. sess view w sid = Some s \<and> \<not> s_active s) \<Longrightarrow>
      refresh_check E rt w = (Inl session_invalid, w)"
    and "payload_of E rt RefreshToken (w_now w) = Inr p \<Longrightarrow> sid = the (pl_sid p) \<Longrightarrow>
      sess view w sid = Some s \<Longrightarrow> s_active s \<Longrightarrow> u \<in> rows T (w_db w) \<Longrightarrow> u_id u = s_user_id s \<Longrightarrow>
      refresh_check E rt w = (Inr (sid, s\<lparr>s_permissions := user_permissionCodes u,
        s_last_refresh_at := toISOString E (w_now w)\<rparr>), w)"
proof -
  show "payload_of E rt RefreshToken (w_now w) = Inl e \<Longrightarrow> refresh_check E rt w = (Inl e, w)"
    by (simp add: refresh_check_def bindE_def getPayload_run)
  assume p: "payload_of E rt RefreshToken (w_now w) = Inr p" "sid = the (pl_sid p)"
  show "sess view w sid = None \<or> (\<exists>s. sess view w sid = Some s \<and> \<not> s_active s) \<Longrightarrow>
      refresh_check E rt w = (Inl session_invalid, w)"
    using p by (auto simp: refresh_check_def bindE_def getPayload_run Let_def readS [OF ready] throwE_def)
  assume "sess view w sid = Some s" "s_active s" "u \<in> rows T (w_db w)" "u_id u = s_user_id s"
  then show "refresh_check E rt w = (Inr (sid, s\<lparr>s_permissions := user_permissionCodes u,
        s_last_refresh_at := toISOString E (w_now w)\<rparr>), w)"
    using p users_findOne_run(1) [OF users]
    by (simp add: refresh_check_def bindE_def getPayload_run Let_def readS [OF ready] getE_def returnE_def)
qed

text \<open>A success means a live session of a stored user.\<close>

lemma refresh_check_Inr:
  assumes ready: "session_ready E view up w" and users: "users_ready E T w"
    and run: "refresh_check E rt w = (Inr renewed, w')"
  obtains p s u where "payload_of E rt RefreshToken (w_now w) = Inr p" "sess view w (the (pl_sid p)) = Some s"
    "s_active s" "u \<in> rows T (w_db w)" "u_id u = s_user_id s" "w' = w"
    "renewed = (the (pl_sid p), s\<lparr>s_permissions := user_permissionCodes u,
        s_last_refresh_at := toISOString E (w_now w)\<rparr>)"
proof (cases "payload_of E rt RefreshToken (w_now w)")
  case (Inl e)
  then show ?thesis using refresh_check_run(1) [OF ready users] run by simp
next
  case (Inr p)
  show ?thesis
  proof (cases "\<exists>s. sess view w (the (pl_sid p)) = Some s \<and> s_active s")
    case False
    then have "refresh_check E rt w = (Inl session_invalid, w)"
      by (intro refresh_check_run(2) [OF ready users Inr refl]) (auto simp: not_None_eq [symmetric])
    then show ?thesis using run by simp
  next
    case True
    then obtain s where s: "sess view w (the (pl_sid p)) = Some s" "s_active s" by blast
    show ?thesis
    proof (cases "\<exists>u \<in> rows T (w_db w). u_id u = s_user_id s")
      case True
      then obtain u where u: "u \<in> rows T (w_db w)" "u_id u = s_user_id s" by blast
      show ?thesis using refresh_check_run(3) [OF ready users Inr refl s u] run that [OF Inr s u] by simp
    next
      case False
      then have "users_findOne E (s_user_id s) w = (Inl (users_exception (''User with id '' @ s_user_id s @
          '' not found'') users_error.USER_NOT_FOUND NOT_FOUND None), w)"
        by (intro users_findOne_run(2) [OF users]) auto
      then have "\<exists>e. refresh_check E rt w = (Inl e, w)"
        using Inr s by (simp add: refresh_check_def bindE_def getPayload_run Let_def readS [OF ready])
      then show ?thesis using run by auto
    qed
  qed
qed

lemma wp_refresh_store:
  assumes ready: "session_ready E view up w" and jwt: "jwt_laws E"
    and Q: "\<And>tk r'. view r' = exec_cmd (SET (session_key sid) (SessionDoc s) KEEPTTL) (view (w_redis w)) \<Longrightarrow>
      session_ready E view up (w\<lparr>w_redis := r'\<rparr>) \<Longrightarrow> Q tk (w\<lparr>w_redis := r'\<rparr>)"
    and F: "\<And>e r'. \<not> signing E (w_now w) \<or> (\<exists>e'. payload_of E rt RefreshToken (w_now w) = Inl e') \<Longrightarrow>
      view r' = exec_cmd (SET (session_key sid) (SessionDoc s) KEEPTTL) (view (w_redis w)) \<Longrightarrow>
      session_ready E view up (w\<lparr>w_redis := r'\<rparr>) \<Longrightarrow> F e (w\<lparr>w_redis := r'\<rparr>)"
  shows "wp (refresh_store E rt (sid, s)) Q F w"
  unfolding refresh_store_def wp_then fst_conv snd_conv
  by (rule wp_write_up [OF ready], (simp add: session_readyD(3) [OF ready]), rule wp_jwt_refreshToken [OF jwt])
    (use Q F in auto)

section \<open>Logout and deactivation\<close>

lemma logOut_run:
  assumes ready: "session_ready E view up w"
  shows "\<exists>r'. logOut E user w = (Inr ''Logged out successfully'', w\<lparr>w_redis := r'\<rparr>) \<and>
    session_ready E view up (w\<lparr>w_redis := r'\<rparr>) \<and>
    view r' = exec_all [DEL (session_key (au_session_id user)),
      SREM (user_index (au_id user)) (au_session_id user)] (view (w_redis w))"
proof -
  have "wp (logOut E user) (\<lambda>m w'. m = ''Logged out successfully'' \<and> (\<exists>r'. w' = w\<lparr>w_redis := r'\<rparr> \<and>
      session_ready E view up (w\<lparr>w_redis := r'\<rparr>) \<and>
      view r' = exec_all [DEL (session_key (au_session_id user)),
        SREM (user_index (au_id user)) (au_session_id user)] (view (w_redis w)))) (\<lambda>_ _. False) w"
    unfolding logOut_def wp_then wp_return
    by (rule wp_write_two [OF ready]) (auto simp: session_readyD(3) [OF ready])
  from wp_returns [OF this] show ?thesis by auto
qed

lemma deactivateSession_run:
  assumes ready: "session_ready E view up w"
  shows "sess view w sid = None \<Longrightarrow> deactivateSession E sid w = (Inr ''Session not found'', w)"
    and "sess view w sid = Some s \<Longrightarrow>
      \<exists>r'. deactivateSession E sid w = (Inr ''Session deactivated'', w\<lparr>w_redis := r'\<rparr>) \<and>
        session_ready E view up (w\<lparr>w_redis := r'\<rparr>) \<and>
        view r' = exec_cmd (SET (session_key sid) (SessionDoc (s\<lparr>s_active := False\<rparr>)) KEEPTTL) (view (w_redis w))"
proof -
  show "sess view w sid = None \<Longrightarrow> deactivateSession E sid w = (Inr ''Session not found'', w)"
    by (simp add: deactivateSession_def bindE_def readS [OF ready] returnE_def)
  assume s: "sess view w sid = Some s"
  let ?c = "SET (session_key sid) (SessionDoc (s\<lparr>s_active := False\<rparr>)) KEEPTTL"
  have "wp (raw_write E ?c) (\<lambda>_ w'. \<exists>r'. w' = w\<lparr>w_redis := r'\<rparr> \<and> session_ready E view up (w\<lparr>w_redis := r'\<rparr>) \<and>
      view r' = exec_cmd ?c (view (w_redis w))) (\<lambda>_ _. False) w"
    by (rule wp_write_up [OF ready]) (auto simp: session_readyD(3) [OF ready])
  from wp_returns [OF this] s
  show "\<exists>r'. deactivateSession E sid w = (Inr ''Session deactivated'', w\<lparr>w_redis := r'\<rparr>) \<and>
        session_ready E view up (w\<lparr>w_redis := r'\<rparr>) \<and> view r' = exec_cmd ?c (view (w_redis w))"
    by (auto simp: deactivateSession_def bindE_def readS [OF ready] returnE_def thenE_def)
qed

text \<open>A session that is gone or inactive authorises nothing.\<close>

lemma users_canDo_run:
  assumes ready: "session_ready E view up w"
  shows "users_canDo E user code w =
    (case sess view w (au_session_id user) of
       Some s \<Rightarrow> if s_active s then (Inr (js_includes (s_permissions s) code), w) else (Inl session_invalid, w)
     | None \<Rightarrow> (Inl session_invalid, w))"
  by (simp add: users_canDo_def bindE_def readS [OF ready] throwE_def returnE_def split: option.splits)

lemma users_refreshToken_dead:
  assumes "session_ready E view up w" "users_ready E T w" "payload_of E rt RefreshToken (w_now w) = Inr p"
    and "\<And>s. sess view w (the (pl_sid p)) = Some s \<Longrightarrow> \<not> s_active s"
  shows "users_refreshToken E rt w = (Inl session_invalid, w)"
proof -
  have "sess view w (the (pl_sid p)) = None \<or> (\<exists>s. sess view w (the (pl_sid p)) = Some s \<and> \<not> s_active s)"
    using assms(4) by (cases "sess view w (the (pl_sid p))") auto
  from refresh_check_run(2) [OF assms(1,2,3) refl this] show ?thesis
    by (simp add: users_refreshToken_def bindE_def)
qed

text \<open>What a successful login has done, with the user it was for.\<close>

lemma logIn_Inr:
  assumes "session_ready E view up w" "users_ready E T w" "jwt_laws E"
    and "getTtlFromEnv E ''JWT_REFRESH_EXPIRES_IN'' = Inr t"
    and "logIn E sid email password req w = (Inr tk, w')"
  obtains u r' where "u \<in> rows T (w_db w)" "u_email u = email" "bcrypt_compare E password (u_password u)"
    "u_status u = ACTIVE" "w' = w\<lparr>w_redis := r'\<rparr>" "session_ready E view up w'"
    "view r' = exec_all (login_commands E sid (loadOriginalPassword u) req (w_now w) t) (view (w_redis w))"
    "token_ok E (email, sid) (token_secret E AuthToken) (token_expiresIn E AuthToken) (w_now w) (t_accessToken tk)"
    "token_ok E (email, sid) (token_secret E RefreshToken) (token_expiresIn E RefreshToken) (w_now w) (t_refreshToken tk)"
proof -
  obtain u where u: "u \<in> rows T (w_db w)" "u_email u = email"
    using logIn_run(2) [OF assms(2), of email sid password req] assms(5)
    by (cases "\<exists>u \<in> rows T (w_db w). u_email u = email") auto
  have run: "bcrypt_compare E password (u_password u)" "u_status u = ACTIVE"
    "issue_session E sid (loadOriginalPassword u) req w = (Inr tk, w')"
    using logIn_run(1) [OF assms(2) u, of sid password req] assms(5)
    by (cases "u_status u"; auto split: if_splits)+
  let ?u = "loadOriginalPassword u"
  have "wp (issue_session E sid ?u req) (\<lambda>tk w'. \<exists>r'. w' = w\<lparr>w_redis := r'\<rparr> \<and> session_ready E view up w' \<and>
      view r' = exec_all (login_commands E sid ?u req (w_now w) t) (view (w_redis w)) \<and>
      token_ok E (email, sid) (token_secret E AuthToken) (token_expiresIn E AuthToken) (w_now w) (t_accessToken tk) \<and>
      token_ok E (email, sid) (token_secret E RefreshToken) (token_expiresIn E RefreshToken) (w_now w) (t_refreshToken tk))
      (\<lambda>_ _. True) w"
    by (rule wp_issue_session [OF assms(1,3,4)]) (use u(2) in auto)
  then obtain r' where "w' = w\<lparr>w_redis := r'\<rparr>" "session_ready E view up w'"
      "view r' = exec_all (login_commands E sid ?u req (w_now w) t) (view (w_redis w))"
      "token_ok E (email, sid) (token_secret E AuthToken) (token_expiresIn E AuthToken) (w_now w) (t_accessToken tk)"
      "token_ok E (email, sid) (token_secret E RefreshToken) (token_expiresIn E RefreshToken) (w_now w) (t_refreshToken tk)"
    using run(3) by (auto simp: wp_def)
  with u run(1,2) show ?thesis by (rule that)
qed

end
