(* ===== verification/SessionProperties.thy ===== *)
theory SessionProperties imports UserSessions begin

text \<open>
  The properties of sessions and tokens, each with the in-memory container as its concrete
  instance.
\<close>

section \<open>Concrete states\<close>

lemma world0_sessions_wf: "sessions_wf (mem_view redis0)"
  by (auto simp: sessions_wf_def val_mem_view redis0_def split: if_splits)

lemma world0_session_ready [simp]: "session_ready mem_env mem_view m_up world0"
  using world0_sessions_wf by (simp add: session_ready_def mem_redis_laws) (simp add: world0_def redis0_def)

lemma world0_users_ready [simp]: "users_ready mem_env mem_users world0"
  by (simp add: users_ready_def users_table_def mem_env_laws) (simp add: mem_tables world0_defs)

lemma world0_session: "sess mem_view world0 ''s1'' = Some session_ana"
  by (simp add: session_at_def val_mem_view world0_def redis0_def)

lemma world0_index: "sets (mem_view (w_redis world0)) (user_index ''u1'') = {''s1'', ''gone''}"
  by (auto simp: mem_view_def world0_def redis0_def)

lemma world0_gone: "sess mem_view world0 ''gone'' = None"
  by (simp add: session_at_def val_mem_view world0_def redis0_def)

lemma world0_ana: "user_ana \<in> rows mem_users (w_db world0)" "u_email user_ana = ''ana''" "u_id user_ana = ''u1''"
  "u_status user_ana = ACTIVE" "user_permissionCodes user_ana = [''USERS_READ'']"
  by (simp_all add: mem_tables world0_defs user_permissionCodes_def)

lemma mem_ttl: "getTtlFromEnv mem_env k = Inr 3600000"
  by (simp add: getTtlFromEnv_def mem_env_def mem_ms_def)

lemma mem_secrets: "config_or mem_env ''JWT_AUTH_SECRET'' d = ''JWT_AUTH_SECRET?''"
  "config_or mem_env ''JWT_REFRESH_SECRET'' d = ''JWT_REFRESH_SECRET?''"
  by (simp_all add: config_or_def mem_env_def)

lemma mem_exp: "token_exp mem_env ex 0 = 3600"
  by (simp add: token_exp_def mem_ms_def)

text \<open>A refresh token of session \<open>s1\<close>, and its payload at the start.\<close>

definition refresh_ana :: string where
  "refresh_ana = mem_token (''ana'', ''s1'') ''JWT_REFRESH_SECRET?'' 3600"

definition access_ana :: string where
  "access_ana = mem_token (''ana'', ''s1'') ''JWT_AUTH_SECRET?'' 3600"

lemma refresh_ana_payload:
  "payload_of mem_env refresh_ana RefreshToken 0 = Inr (signed_claims (''ana'', ''s1'') 3600)"
  unfolding payload_of_Inr
  by (simp add: mem_verify_def refresh_ana_def mem_secrets signed_claims_def missing_def)

lemma access_ana_payload:
  "payload_of mem_env access_ana AuthToken 0 = Inr (signed_claims (''ana'', ''s1'') 3600)"
  unfolding payload_of_Inr
  by (simp add: mem_verify_def access_ana_def mem_secrets signed_claims_def missing_def)

lemma world0_now: "w_now world0 = 0"
  by (simp add: world0_def)

definition auth_ana :: auth_user where
  "auth_ana = \<lparr>au_id = ''u1'', au_person_id = ''x1'', au_email = ''ana'', au_session_id = ''s1''\<rparr>"

section \<open>Session store\<close>

text \<open>Refreshing the permissions of a user: one transaction rewrites the permissions of every
  live session the user's index names, keeping the rest of each session and its time to live,
  leaves every other key and every other user's index as it was, and drops from the index the
  sessions that no longer exist.\<close>

lemma refreshSessionPermissions_effect:
  assumes "redis_laws (redis_api E) view up" "up (w_redis w)"
  shows "\<exists>r'. refreshSessionPermissions E userId perms w = (Inr (), w\<lparr>w_redis := r'\<rparr>) \<and>
    (\<forall>sid. sess view (w\<lparr>w_redis := r'\<rparr>) sid =
       (if sid \<in> sets (view (w_redis w)) (user_index userId)
        then map_option (\<lambda>s. s\<lparr>s_permissions := perms\<rparr>) (sess view w sid) else sess view w sid)) \<and>
    (\<forall>k. ttl (view r') k = ttl (view (w_redis w)) k) \<and>
    (\<forall>k. k \<notin> session_key ` sets (view (w_redis w)) (user_index userId) \<longrightarrow>
       val (view r') k = val (view (w_redis w)) k) \<and>
    sets (view r') (user_index userId) =
      {sid \<in> sets (view (w_redis w)) (user_index userId). sess view w sid \<noteq> None} \<and>
    (\<forall>u. u \<noteq> userId \<longrightarrow> sets (view r') (user_index u) = sets (view (w_redis w)) (user_index u))"
proof -
  have "wp (refreshSessionPermissions E userId perms) (\<lambda>_ w'. \<exists>r'. w' = w\<lparr>w_redis := r'\<rparr> \<and>
      permissions_refreshed userId perms (view (w_redis w)) (view r')) (\<lambda>_ _. False) w"
    by (rule wp_refreshSessionPermissions [OF assms(1)]) (use assms(2) in auto)
  from wp_returns [OF this] show ?thesis by (auto simp: permissions_refreshed_def)
qed

lemma refreshSessionPermissions_effect_example:
  "\<exists>r'. refreshSessionPermissions mem_env ''u1'' [''NEW''] world0 = (Inr (), world0\<lparr>w_redis := r'\<rparr>) \<and>
     sess mem_view (world0\<lparr>w_redis := r'\<rparr>) ''s1'' = Some (session_ana\<lparr>s_permissions := [''NEW'']\<rparr>) \<and>
     sets (mem_view r') (user_index ''u1'') = {''s1''}"
proof -
  have up: "m_up (w_redis world0)" by (simp add: world0_def redis0_def)
  have laws: "redis_laws (redis_api mem_env) mem_view m_up" by (simp add: mem_redis_laws)
  obtain r' where r': "refreshSessionPermissions mem_env ''u1'' [''NEW''] world0 = (Inr (), world0\<lparr>w_redis := r'\<rparr>)"
    "\<forall>sid. sess mem_view (world0\<lparr>w_redis := r'\<rparr>) sid =
       (if sid \<in> sets (mem_view (w_redis world0)) (user_index ''u1'')
        then map_option (\<lambda>s. s\<lparr>s_permissions := [''NEW'']\<rparr>) (sess mem_view world0 sid) else sess mem_view world0 sid)"
    "sets (mem_view r') (user_index ''u1'') =
      {sid \<in> sets (mem_view (w_redis world0)) (user_index ''u1''). sess mem_view world0 sid \<noteq> None}"
    using refreshSessionPermissions_effect [OF laws up, of "''u1''" "[''NEW'']"]
    by (elim exE conjE) (rule that)
  have "sess mem_view (world0\<lparr>w_redis := r'\<rparr>) ''s1'' = Some (session_ana\<lparr>s_permissions := [''NEW'']\<rparr>)"
    using r'(2) [rule_format, of "''s1''"] unfolding world0_index world0_session by simp
  moreover have "sets (mem_view r') (user_index ''u1'') = {''s1''}"
    unfolding r'(3) world0_index using world0_session world0_gone by auto
  ultimately show ?thesis using r'(1) by blast
qed

text \<open>Listing the sessions of a user returns exactly the live sessions the index names, each
  once, with their number, and removes the entries of expired sessions from the index.\<close>

lemma findUserSessions_live:
  assumes "redis_laws (redis_api E) view up" "up (w_redis w)"
  shows "\<exists>sessions r'. findUserSessions E userId w = (Inr (sessions, length sessions), w\<lparr>w_redis := r'\<rparr>) \<and>
    set sessions = {(sid, s). sid \<in> sets (view (w_redis w)) (user_index userId) \<and> sess view w sid = Some s} \<and>
    distinct (List.map fst sessions) \<and>
    sets (view r') (user_index userId) =
      {sid \<in> sets (view (w_redis w)) (user_index userId). sess view w sid \<noteq> None} \<and>
    (\<forall>k. val (view r') k = val (view (w_redis w)) k)"
proof -
  let ?v = "view (w_redis w)"
  have "wp (findUserSessions E userId) (\<lambda>res w'. \<exists>sids r'. set sids = sets ?v (user_index userId) \<and> distinct sids \<and>
      res = (live_entries ?v sids, length (live_entries ?v sids)) \<and> w' = w\<lparr>w_redis := r'\<rparr> \<and>
      view r' = pruned userId sids ?v ?v) (\<lambda>_ _. False) w"
    by (rule wp_findUserSessions [OF assms]) blast
  from wp_returns [OF this] obtain sids r' where h: "set sids = sets ?v (user_index userId)" "distinct sids"
    "findUserSessions E userId w = (Inr (live_entries ?v sids, length (live_entries ?v sids)), w\<lparr>w_redis := r'\<rparr>)"
    "view r' = pruned userId sids ?v ?v" by auto
  have "List.map fst (live_entries ?v sids) = filter (\<lambda>sid. session_at ?v sid \<noteq> None) sids"
    by (simp add: live_entries_def comp_def)
  moreover have "set (live_entries ?v sids) =
      {(sid, s). sid \<in> sets ?v (user_index userId) \<and> session_at ?v sid = Some s}"
    using h(1) by (auto simp: live_entries_def image_iff)
  ultimately show ?thesis using h by (auto simp: pruned_facts)
qed

lemma findUserSessions_live_example:
  "\<exists>r'. findUserSessions mem_env ''u1'' world0 = (Inr ([(''s1'', session_ana)], 1), world0\<lparr>w_redis := r'\<rparr>)"
proof -
  have up: "m_up (w_redis world0)" by (simp add: world0_def redis0_def)
  from findUserSessions_live [of mem_env mem_view m_up world0 "''u1''"] mem_redis_laws up
  obtain ss r' where ss: "findUserSessions mem_env ''u1'' world0 = (Inr (ss, length ss), world0\<lparr>w_redis := r'\<rparr>)"
    "set ss = {(sid, s). sid \<in> {''s1'', ''gone''} \<and> sess mem_view world0 sid = Some s}" "distinct (List.map fst ss)"
    using world0_index by auto
  have "set ss = {(''s1'', session_ana)}" using ss(2) world0_session world0_gone by auto
  moreover have "distinct ss" using ss(3) distinct_map by blast
  ultimately have "ss = [(''s1'', session_ana)]"
    by (cases ss; cases "tl ss") auto
  with ss(1) show ?thesis by auto
qed

text \<open>Deactivating a live session: the session stays, inactive, with its remaining time to
  live, and from then on it authorises nothing: permission checks and token refreshes with it
  are rejected with 401.\<close>

lemma deactivateSession_blocks:
  assumes "session_ready E view up w" "users_ready E T w" "sess view w sid = Some s"
    and "deactivateSession E sid w = (Inr message, w')"
  shows "sess view w' sid = Some (s\<lparr>s_active := False\<rparr>) \<and>
    ttl (view (w_redis w')) (session_key sid) = ttl (view (w_redis w)) (session_key sid) \<and>
    (\<forall>user code. au_session_id user = sid \<longrightarrow> users_canDo E user code w' = (Inl session_invalid, w')) \<and>
    (\<forall>rt p. payload_of E rt RefreshToken (w_now w') = Inr p \<longrightarrow> the (pl_sid p) = sid \<longrightarrow>
       users_refreshToken E rt w' = (Inl session_invalid, w')) \<and>
    status_of session_invalid = Some UNAUTHORIZED"
proof -
  from deactivateSession_run(2) [OF assms(1,3)] assms(4) obtain r' where
    w': "w' = w\<lparr>w_redis := r'\<rparr>" "session_ready E view up w'"
    "view r' = exec_cmd (SET (session_key sid) (SessionDoc (s\<lparr>s_active := False\<rparr>)) KEEPTTL) (view (w_redis w))"
    by auto
  then have dead: "sess view w' sid = Some (s\<lparr>s_active := False\<rparr>)"
    "ttl (view (w_redis w')) (session_key sid) = ttl (view (w_redis w)) (session_key sid)" by simp_all
  moreover have "users_ready E T w'" using assms(2) w'(1) by simp
  moreover have "users_refreshToken E rt w' = (Inl session_invalid, w')"
    if "payload_of E rt RefreshToken (w_now w') = Inr p" "the (pl_sid p) = sid" for rt p
    by (rule users_refreshToken_dead [OF w'(2) calculation(3) that(1)]) (use dead(1) that(2) in simp)
  ultimately show ?thesis
    using users_canDo_run [OF w'(2)] by (simp add: session_invalid_def users_exception_def)
qed

lemma deactivateSession_blocks_example:
  "\<exists>w'. deactivateSession mem_env ''s1'' world0 = (Inr ''Session deactivated'', w') \<and>
     users_canDo mem_env auth_ana ''USERS_READ'' world0 = (Inr True, world0) \<and>
     users_canDo mem_env auth_ana ''USERS_READ'' w' = (Inl session_invalid, w')"
proof -
  obtain w' where run: "deactivateSession mem_env ''s1'' world0 = (Inr ''Session deactivated'', w')"
    using deactivateSession_run(2) [OF world0_session_ready world0_session] by auto
  have "users_canDo mem_env auth_ana ''USERS_READ'' world0 = (Inr True, world0)"
    using users_canDo_run [OF world0_session_ready] world0_session by (simp add: auth_ana_def session_ana_def)
  with deactivateSession_blocks [OF world0_session_ready world0_users_ready world0_session run] run
  show ?thesis by (auto simp: auth_ana_def)
qed

section \<open>Login and logout\<close>

definition request0 :: request where
  "request0 = \<lparr>rq_headers = (\<lambda>_. None), rq_cookies = (\<lambda>_. None), rq_ip = Some ''10.0.0.9'', rq_remoteAddress = None\<rparr>"

lemma logIn_decision_parts:
  assumes "users_ready E T w"
  shows "(\<forall>u \<in> rows T (w_db w). u_email u = email \<longrightarrow> \<not> bcrypt_compare E password (u_password u)) \<Longrightarrow>
      logIn E sid email password req w = (Inl wrong_credentials, w)"
    and "u \<in> rows T (w_db w) \<Longrightarrow> u_email u = email \<Longrightarrow> bcrypt_compare E password (u_password u) \<Longrightarrow>
      logIn E sid email password req w =
        (case u_status u of
           PENDING \<Rightarrow> (Inl (users_exception ''This user has to finish their activation by changing the password''
              users_error.USER_NOT_INITIALIZED UNAUTHORIZED None), w)
         | INACTIVE \<Rightarrow> (Inl (users_exception ''This user is not active'' users_error.USER_INACTIVE UNAUTHORIZED None), w)
         | ACTIVE \<Rightarrow> issue_session E sid (loadOriginalPassword u) req w)"
proof -
  assume wrong: "\<forall>u \<in> rows T (w_db w). u_email u = email \<longrightarrow> \<not> bcrypt_compare E password (u_password u)"
  show "logIn E sid email password req w = (Inl wrong_credentials, w)"
  proof (cases "\<exists>u \<in> rows T (w_db w). u_email u = email")
    case True
    then show ?thesis using wrong logIn_run(1) [OF assms] by auto
  qed (use logIn_run(2) [OF assms] in blast)
next
  assume "u \<in> rows T (w_db w)" "u_email u = email" "bcrypt_compare E password (u_password u)"
  then show "logIn E sid email password req w =
        (case u_status u of
           PENDING \<Rightarrow> (Inl (users_exception ''This user has to finish their activation by changing the password''
              users_error.USER_NOT_INITIALIZED UNAUTHORIZED None), w)
         | INACTIVE \<Rightarrow> (Inl (users_exception ''This user is not active'' users_error.USER_INACTIVE UNAUTHORIZED None), w)
         | ACTIVE \<Rightarrow> issue_session E sid (loadOriginalPassword u) req w)"
    using logIn_run(1) [OF assms] by (simp split: user_status.splits)
qed

text \<open>C13. Login decides by the credentials alone and tells an unknown address from a wrong
  password in no way: both give the same 401 and change nothing. With the right password a
  pending or inactive account is refused, unchanged, and only an active one is issued a
  session.\<close>

theorem logIn_decision:
  assumes "users_ready E T w"
  shows "((\<forall>u \<in> rows T (w_db w). u_email u = email \<longrightarrow> \<not> bcrypt_compare E password (u_password u)) \<longrightarrow>
      logIn E sid email password req w = (Inl wrong_credentials, w)) \<and>
    (\<forall>u \<in> rows T (w_db w). u_email u = email \<longrightarrow> bcrypt_compare E password (u_password u) \<longrightarrow>
      logIn E sid email password req w =
        (case u_status u of
           PENDING \<Rightarrow> (Inl (users_exception ''This user has to finish their activation by changing the password''
              users_error.USER_NOT_INITIALIZED UNAUTHORIZED None), w)
         | INACTIVE \<Rightarrow> (Inl (users_exception ''This user is not active'' users_error.USER_INACTIVE UNAUTHORIZED None), w)
         | ACTIVE \<Rightarrow> issue_session E sid (loadOriginalPassword u) req w))"
  using logIn_decision_parts [OF assms] by blast

theorem logIn_decision_witness:
  "logIn mem_env ''s9'' ''nobody'' ''pw'' request0 world0 = (Inl wrong_credentials, world0) \<and>
   logIn mem_env ''s9'' ''ana'' ''bad'' request0 world0 = (Inl wrong_credentials, world0) \<and>
   logIn mem_env ''s9'' ''bob'' ''tmp'' request0 world0 =
     (Inl (users_exception ''This user has to finish their activation by changing the password''
        users_error.USER_NOT_INITIALIZED UNAUTHORIZED None), world0)"
proof (intro conjI)
  note no = logIn_decision [OF world0_users_ready, THEN conjunct1, THEN mp]
  show "logIn mem_env ''s9'' ''nobody'' ''pw'' request0 world0 = (Inl wrong_credentials, world0)"
    by (rule no) (simp add: mem_tables world0_defs)
  show "logIn mem_env ''s9'' ''ana'' ''bad'' request0 world0 = (Inl wrong_credentials, world0)"
    by (rule no) (simp add: mem_tables world0_defs mem_env_def)
  show "logIn mem_env ''s9'' ''bob'' ''tmp'' request0 world0 =
     (Inl (users_exception ''This user has to finish their activation by changing the password''
        users_error.USER_NOT_INITIALIZED UNAUTHORIZED None), world0)"
    using logIn_decision [OF world0_users_ready, THEN conjunct2, THEN bspec, of user_new "''bob''" "''tmp''" "''s9''" request0]
    by (simp add: mem_tables world0_defs mem_env_def)
qed

text \<open>C14. A login with the right password of an active account succeeds while Redis answers and
  signing works, and creates the session its tokens name: an active session with the user's
  data and current permission codes, that lives for the configured time, indexed for the user;
  other sessions stay as they were, and both tokens carry the address and the session for as
  long as they last.\<close>

theorem logIn_creates_session:
  assumes "session_ready E view up w" "users_ready E T w" "jwt_laws E" "signing E (w_now w)"
    and "getTtlFromEnv E ''JWT_REFRESH_EXPIRES_IN'' = Inr t"
    and "u \<in> rows T (w_db w)" "u_email u = email" "bcrypt_compare E password (u_password u)" "u_status u = ACTIVE"
  shows "\<exists>tk r'. logIn E sid email password req w = (Inr tk, w\<lparr>w_redis := r'\<rparr>) \<and>
    session_at (view r') sid = Some \<lparr>s_user_id = u_id u, s_person_id = u_person_id u, s_email = email,
      s_permissions = user_permissionCodes u, s_active = True, s_ip = getClientIp req,
      s_userAgent = snd (getRequestData req), s_device = getDevice E (snd (getRequestData req)),
      s_created_at = toISOString E (w_now w), s_last_refresh_at = toISOString E (w_now w)\<rparr> \<and>
    ttl (view r') (session_key sid) = Some t \<and>
    sets (view r') (user_index (u_id u)) = insert sid (sets (view (w_redis w)) (user_index (u_id u))) \<and>
    (\<forall>other. other \<noteq> sid \<longrightarrow> session_at (view r') other = sess view w other) \<and>
    token_ok E (email, sid) (token_secret E AuthToken) (token_expiresIn E AuthToken) (w_now w) (t_accessToken tk) \<and>
    token_ok E (email, sid) (token_secret E RefreshToken) (token_expiresIn E RefreshToken) (w_now w) (t_refreshToken tk)"
proof -
  let ?u = "loadOriginalPassword u"
  have run: "logIn E sid email password req w = issue_session E sid ?u req w"
    using logIn_run(1) [OF assms(2,6,7), of sid password req] assms(8,9) by simp
  have "wp (issue_session E sid ?u req) (\<lambda>tk w'. \<exists>r'. w' = w\<lparr>w_redis := r'\<rparr> \<and>
      view r' = exec_all (login_commands E sid ?u req (w_now w) t) (view (w_redis w)) \<and>
      token_ok E (email, sid) (token_secret E AuthToken) (token_expiresIn E AuthToken) (w_now w) (t_accessToken tk) \<and>
      token_ok E (email, sid) (token_secret E RefreshToken) (token_expiresIn E RefreshToken) (w_now w) (t_refreshToken tk))
      (\<lambda>_ _. False) w"
    by (rule wp_issue_session [OF assms(1,3,5)]) (use assms(4,7) in auto)
  from wp_returns [OF this] obtain tk r' where
    r': "issue_session E sid ?u req w = (Inr tk, w\<lparr>w_redis := r'\<rparr>)"
      "view r' = exec_all (login_commands E sid ?u req (w_now w) t) (view (w_redis w))"
    and tok: "token_ok E (email, sid) (token_secret E AuthToken) (token_expiresIn E AuthToken) (w_now w) (t_accessToken tk)"
      "token_ok E (email, sid) (token_secret E RefreshToken) (token_expiresIn E RefreshToken) (w_now w) (t_refreshToken tk)"
    by blast
  have person: "u_person_id ?u = u_person_id u" by (simp add: loadOriginalPassword_def)
  show ?thesis
    by (intro exI [where x = tk] exI [where x = r'])
      (use run r'(1) tok person assms(7) login_view [of view r' E sid ?u req "w_now w" t "view (w_redis w)", OF r'(2)]
        in \<open>simp add: new_session_def getRequestData_def\<close>)
qed

theorem logIn_creates_session_witness:
  "\<exists>tk r'. logIn mem_env ''s9'' ''ana'' ''pw'' request0 world0 = (Inr tk, world0\<lparr>w_redis := r'\<rparr>) \<and>
     ttl (mem_view r') (session_key ''s9'') = Some 3600000 \<and>
     session_at (mem_view r') ''s1'' = Some session_ana"
proof -
  have "bcrypt_compare mem_env ''pw'' (u_password user_ana)" by (simp add: mem_env_def user_ana_def)
  from logIn_creates_session [OF world0_session_ready world0_users_ready mem_jwt_laws _ mem_ttl
      world0_ana(1,2) this world0_ana(4), of "''s9''" request0] mem_signing
  obtain tk r' where "logIn mem_env ''s9'' ''ana'' ''pw'' request0 world0 = (Inr tk, world0\<lparr>w_redis := r'\<rparr>)"
    "ttl (mem_view r') (session_key ''s9'') = Some 3600000"
    "\<forall>other. other \<noteq> ''s9'' \<longrightarrow> session_at (mem_view r') other = sess mem_view world0 other"
    unfolding world0_now by blast
  moreover from this(3) have "session_at (mem_view r') ''s1'' = Some session_ana"
    using world0_session by simp
  ultimately show ?thesis by blast
qed

text \<open>Logging out ends the session: the document and the index entry are gone, other sessions
  stay, and the session's refresh tokens and permission checks are rejected from then on.\<close>

lemma logOut_ends_session:
  assumes "session_ready E view up w" "users_ready E T w"
  shows "\<exists>w'. logOut E user w = (Inr ''Logged out successfully'', w') \<and>
    sess view w' (au_session_id user) = None \<and>
    au_session_id user \<notin> sets (view (w_redis w')) (user_index (au_id user)) \<and>
    (\<forall>other. other \<noteq> au_session_id user \<longrightarrow> sess view w' other = sess view w other) \<and>
    (\<forall>code. users_canDo E user code w' = (Inl session_invalid, w')) \<and>
    (\<forall>rt p. payload_of E rt RefreshToken (w_now w') = Inr p \<longrightarrow> the (pl_sid p) = au_session_id user \<longrightarrow>
       users_refreshToken E rt w' = (Inl session_invalid, w'))"
proof -
  from logOut_run [OF assms(1), of user] obtain r' where
    run: "logOut E user w = (Inr ''Logged out successfully'', w\<lparr>w_redis := r'\<rparr>)"
    and ready: "session_ready E view up (w\<lparr>w_redis := r'\<rparr>)"
    and v: "view r' = exec_all [DEL (session_key (au_session_id user)),
      SREM (user_index (au_id user)) (au_session_id user)] (view (w_redis w))" by auto
  let ?w = "w\<lparr>w_redis := r'\<rparr>"
  have dead: "sess view ?w (au_session_id user) = None" using v by simp
  have users: "users_ready E T ?w" using assms(2) by simp
  have "\<And>rt p. payload_of E rt RefreshToken (w_now ?w) = Inr p \<Longrightarrow> the (pl_sid p) = au_session_id user \<Longrightarrow>
      users_refreshToken E rt ?w = (Inl session_invalid, ?w)"
    by (rule users_refreshToken_dead [OF ready users]) (use dead in auto)
  then show ?thesis using run v dead users_canDo_run [OF ready] by (intro exI [where x = ?w]) auto
qed

lemma logOut_ends_session_example:
  "\<exists>w'. logOut mem_env auth_ana world0 = (Inr ''Logged out successfully'', w') \<and> sess mem_view w' ''s1'' = None"
  using logOut_ends_session [OF world0_session_ready world0_users_ready, of auth_ana]
  by (auto simp: auth_ana_def)

section \<open>Refreshing tokens\<close>

lemma refreshToken_renews_session_parts:
  assumes "session_ready E view up w" "users_ready E T w" "jwt_laws E" "signing E (w_now w)"
  shows "(\<exists>tk w'. users_refreshToken E rt w = (Inr tk, w')) \<longleftrightarrow>
      (\<exists>p s u. payload_of E rt RefreshToken (w_now w) = Inr p \<and> sess view w (the (pl_sid p)) = Some s \<and> s_active s \<and>
        u \<in> rows T (w_db w) \<and> u_id u = s_user_id s)"
    and "users_refreshToken E rt w = (Inr tk, w') \<Longrightarrow> payload_of E rt RefreshToken (w_now w) = Inr p \<Longrightarrow>
      sess view w (the (pl_sid p)) = Some s \<Longrightarrow> u \<in> rows T (w_db w) \<Longrightarrow> u_id u = s_user_id s \<Longrightarrow>
      sess view w' (the (pl_sid p)) = Some (s\<lparr>s_permissions := user_permissionCodes u,
        s_last_refresh_at := toISOString E (w_now w)\<rparr>) \<and>
      (\<forall>k. ttl (view (w_redis w')) k = ttl (view (w_redis w)) k) \<and>
      (\<forall>k. k \<noteq> session_key (the (pl_sid p)) \<longrightarrow> val (view (w_redis w')) k = val (view (w_redis w)) k \<and>
        sets (view (w_redis w')) k = sets (view (w_redis w)) k) \<and> w_db w' = w_db w"
proof -
  let ?ok = "\<lambda>p s u. payload_of E rt RefreshToken (w_now w) = Inr p \<and> sess view w (the (pl_sid p)) = Some s \<and>
    s_active s \<and> u \<in> rows T (w_db w) \<and> u_id u = s_user_id s"
  let ?new = "\<lambda>s u. s\<lparr>s_permissions := user_permissionCodes u, s_last_refresh_at := toISOString E (w_now w)\<rparr>"
  have good: "\<exists>tk r'. users_refreshToken E rt w = (Inr tk, w\<lparr>w_redis := r'\<rparr>) \<and>
      view r' = exec_cmd (SET (session_key (the (pl_sid p))) (SessionDoc (?new s u)) KEEPTTL) (view (w_redis w))"
    if ok: "?ok p s u" for p s u
  proof -
    have "wp (refresh_store E rt (the (pl_sid p), ?new s u)) (\<lambda>_ w'. \<exists>r'. w' = w\<lparr>w_redis := r'\<rparr> \<and> view r' =
        exec_cmd (SET (session_key (the (pl_sid p))) (SessionDoc (?new s u)) KEEPTTL) (view (w_redis w))) (\<lambda>_ _. False) w"
      by (rule wp_refresh_store [OF assms(1,3)]) (use assms(4) ok in auto)
    from wp_returns [OF this] refresh_check_run(3) [OF assms(1,2) _ refl] ok
    show ?thesis by (auto simp: users_refreshToken_def bindE_def)
  qed
  have only: "\<exists>p s u. ?ok p s u" if "users_refreshToken E rt w = (Inr tk, w')" for tk w'
  proof -
    from that obtain renewed w1 where "refresh_check E rt w = (Inr renewed, w1)"
      by (auto simp: users_refreshToken_def bindE_def split: prod.splits sum.splits)
    from refresh_check_Inr [OF assms(1,2) this] show ?thesis by metis
  qed
  show "(\<exists>tk w'. users_refreshToken E rt w = (Inr tk, w')) \<longleftrightarrow> (\<exists>p s u. ?ok p s u)"
    using good only by blast
  assume run: "users_refreshToken E rt w = (Inr tk, w')" and p: "payload_of E rt RefreshToken (w_now w) = Inr p"
    "sess view w (the (pl_sid p)) = Some s" "u \<in> rows T (w_db w)" "u_id u = s_user_id s"
  have "s_active s" using only [OF run] p by auto
  with good [of p s u] run p obtain r' where "w' = w\<lparr>w_redis := r'\<rparr>"
      "view r' = exec_cmd (SET (session_key (the (pl_sid p))) (SessionDoc (?new s u)) KEEPTTL) (view (w_redis w))"
    by auto
  then show "sess view w' (the (pl_sid p)) = Some (?new s u) \<and>
      (\<forall>k. ttl (view (w_redis w')) k = ttl (view (w_redis w)) k) \<and>
      (\<forall>k. k \<noteq> session_key (the (pl_sid p)) \<longrightarrow> val (view (w_redis w')) k = val (view (w_redis w)) k \<and>
        sets (view (w_redis w')) k = sets (view (w_redis w)) k) \<and> w_db w' = w_db w" by simp
qed

text \<open>C15. Refreshing a token renews exactly its session. While Redis and the database answer and
  signing works, a refresh succeeds if and only if the token verifies as a refresh token of a live,
  active session of a stored user. The session then carries the user's current permission codes and
  the time of the refresh and keeps its owner, address and every other field; no key changes its
  time to live, no other key its value or its members (so the index of the user's sessions stays),
  and the database stays as it was.\<close>

theorem refreshToken_renews_session:
  assumes "session_ready E view up w" "users_ready E T w" "jwt_laws E" "signing E (w_now w)"
  shows "((\<exists>tk w'. users_refreshToken E rt w = (Inr tk, w')) \<longleftrightarrow>
      (\<exists>p s u. payload_of E rt RefreshToken (w_now w) = Inr p \<and> sess view w (the (pl_sid p)) = Some s \<and> s_active s \<and>
        u \<in> rows T (w_db w) \<and> u_id u = s_user_id s)) \<and>
    (\<forall>tk w' p s. \<forall>u \<in> rows T (w_db w). users_refreshToken E rt w = (Inr tk, w') \<longrightarrow>
      payload_of E rt RefreshToken (w_now w) = Inr p \<longrightarrow>
      sess view w (the (pl_sid p)) = Some s \<longrightarrow> u_id u = s_user_id s \<longrightarrow>
      sess view w' (the (pl_sid p)) = Some (s\<lparr>s_permissions := user_permissionCodes u,
        s_last_refresh_at := toISOString E (w_now w)\<rparr>) \<and>
      (\<forall>k. ttl (view (w_redis w')) k = ttl (view (w_redis w)) k) \<and>
      (\<forall>k. k \<noteq> session_key (the (pl_sid p)) \<longrightarrow> val (view (w_redis w')) k = val (view (w_redis w)) k \<and>
        sets (view (w_redis w')) k = sets (view (w_redis w)) k) \<and> w_db w' = w_db w)"
proof (rule conjI)
  show "(\<exists>tk w'. users_refreshToken E rt w = (Inr tk, w')) \<longleftrightarrow>
      (\<exists>p s u. payload_of E rt RefreshToken (w_now w) = Inr p \<and> sess view w (the (pl_sid p)) = Some s \<and> s_active s \<and>
        u \<in> rows T (w_db w) \<and> u_id u = s_user_id s)"
    by (rule refreshToken_renews_session_parts(1) [OF assms])
qed (intro allI ballI impI, rule refreshToken_renews_session_parts(2) [OF assms])

theorem refreshToken_renews_session_witness:
  "\<exists>tk w'. users_refreshToken mem_env refresh_ana world0 = (Inr tk, w') \<and>
     ttl (mem_view (w_redis w')) (session_key ''s1'') = Some 5000 \<and>
     sets (mem_view (w_redis w')) (user_index ''u1'') = {''s1'', ''gone''}"
proof -
  have sign: "signing mem_env (w_now world0)" by (simp add: world0_now mem_signing)
  note renews = refreshToken_renews_session [OF world0_session_ready world0_users_ready mem_jwt_laws sign]
  have p: "payload_of mem_env refresh_ana RefreshToken (w_now world0) = Inr (signed_claims (''ana'', ''s1'') 3600)"
    by (simp add: world0_now refresh_ana_payload)
  have s: "sess mem_view world0 (the (pl_sid (signed_claims (''ana'', ''s1'') 3600))) = Some session_ana"
    by (simp add: signed_claims_def world0_session)
  have u: "u_id user_ana = s_user_id session_ana" by (simp add: user_ana_def session_ana_def)
  have "s_active session_ana" by (simp add: session_ana_def)
  with renews [THEN conjunct1, of refresh_ana] p s u world0_ana(1) obtain tk w' where
    run: "users_refreshToken mem_env refresh_ana world0 = (Inr tk, w')" by blast
  have "ttl (mem_view (w_redis world0)) (session_key ''s1'') = Some 5000"
    by (simp add: ttl_def mem_view_def world0_def redis0_def)
  with renews [THEN conjunct2, rule_format, OF world0_ana(1) run p s u] run world0_index show ?thesis by auto
qed

text \<open>Which tokens a refresh hands out: always a new access token for the same address and
  session, and the refresh token itself unless less than the configured number of minutes is
  left of it, in which case a new refresh token for the same session replaces it.\<close>

lemma refreshToken_rotation:
  assumes "jwt_laws E" "jwt_refreshToken E rt w = (Inr tk, w')"
  shows "w' = w \<and> (\<exists>p. payload_of E rt RefreshToken (w_now w) = Inr p \<and>
    token_ok E (the (pl_email p), the (pl_sid p)) (token_secret E AuthToken) (token_expiresIn E AuthToken)
      (w_now w) (t_accessToken tk) \<and>
    (if refreshRenewThresholdMinutes E \<le> of_int (minutes_left (the (pl_exp p)) (w_now w))
     then t_refreshToken tk = rt
     else token_ok E (the (pl_email p), the (pl_sid p)) (token_secret E RefreshToken)
       (token_expiresIn E RefreshToken) (w_now w) (t_refreshToken tk)))"
proof -
  have "wp (jwt_refreshToken E rt) (\<lambda>tk w'. w' = w \<and> (\<exists>p. payload_of E rt RefreshToken (w_now w) = Inr p \<and>
    token_ok E (the (pl_email p), the (pl_sid p)) (token_secret E AuthToken) (token_expiresIn E AuthToken)
      (w_now w) (t_accessToken tk) \<and>
    (if refreshRenewThresholdMinutes E \<le> of_int (minutes_left (the (pl_exp p)) (w_now w))
     then t_refreshToken tk = rt
     else token_ok E (the (pl_email p), the (pl_sid p)) (token_secret E RefreshToken)
       (token_expiresIn E RefreshToken) (w_now w) (t_refreshToken tk)))) (\<lambda>_ _. True) w"
    by (rule wp_jwt_refreshToken [OF assms(1)]) (auto split: if_splits)
  with assms(2) show ?thesis by (simp add: wp_def)
qed

lemma refreshToken_rotation_example:
  "\<exists>tk. jwt_refreshToken mem_env refresh_ana world0 = (Inr tk, world0) \<and> t_refreshToken tk = refresh_ana"
proof -
  have "wp (jwt_refreshToken mem_env refresh_ana) (\<lambda>_ _. True) (\<lambda>_ _. False) world0"
    by (rule wp_jwt_refreshToken [OF mem_jwt_laws]) (auto simp: world0_now mem_signing refresh_ana_payload)
  from wp_returns [OF this] obtain tk w' where run: "jwt_refreshToken mem_env refresh_ana world0 = (Inr tk, w')"
    by blast
  have "refreshRenewThresholdMinutes mem_env = 20" by code_simp
  moreover have "minutes_left 3600 0 = 60" by (simp add: minutes_left_def)
  ultimately show ?thesis
    using refreshToken_rotation [OF mem_jwt_laws run] run
    by (auto simp: world0_now refresh_ana_payload signed_claims_def)
qed

lemma token_roundtrip_parts:
  assumes "jwt_laws E" "generateToken E (email, sid) type w = (Inr token, w')" "email \<noteq> ''''" "sid \<noteq> ''''"
    and "0 < token_exp E (token_expiresIn E type) (w_now w)" "token_secret E other \<noteq> token_secret E type"
  shows "getPayload E token type v =
    (if w_now v div 1000 < token_exp E (token_expiresIn E type) (w_now w)
     then (Inr (signed_claims (email, sid) (nat (token_exp E (token_expiresIn E type) (w_now w)))), v)
     else (Inl (jwt_exception ''Token has expired'' jwt_error.TOKEN_EXPIRED UNAUTHORIZED None), v))"
    and "getPayload E token other v =
      (Inl (jwt_exception ''Token verification failed'' jwt_error.TOKEN_VERIFICATION_FAILED UNAUTHORIZED None), v)"
proof -
  have tok: "token_ok E (email, sid) (token_secret E type) (token_expiresIn E type) (w_now w) token"
    using generateToken_cases [OF assms(1), of "(email, sid)" type w] assms(2) by auto
  show "getPayload E token type v =
    (if w_now v div 1000 < token_exp E (token_expiresIn E type) (w_now w)
     then (Inr (signed_claims (email, sid) (nat (token_exp E (token_expiresIn E type) (w_now w)))), v)
     else (Inl (jwt_exception ''Token has expired'' jwt_error.TOKEN_EXPIRED UNAUTHORIZED None), v))"
    using token_payload [OF tok assms(3,4) _ assms(5)] token_expired [OF tok] by (simp add: getPayload_run)
  show "getPayload E token other v =
      (Inl (jwt_exception ''Token verification failed'' jwt_error.TOKEN_VERIFICATION_FAILED UNAUTHORIZED None), v)"
    using token_other_secret [OF tok assms(6)] by (simp add: getPayload_run)
qed

text \<open>Signed tokens come back: the payload of a token signed for a non-empty address and
  session is read back from it until it expires, is rejected as expired from then on, and is
  rejected when the token is presented as one of the other kind, while the secrets differ.\<close>

lemma token_roundtrip:
  assumes "jwt_laws E" "generateToken E (email, sid) type w = (Inr token, w')" "email \<noteq> ''''" "sid \<noteq> ''''"
    and "0 < token_exp E (token_expiresIn E type) (w_now w)" "token_secret E other \<noteq> token_secret E type"
  shows "getPayload E token type v =
      (if w_now v div 1000 < token_exp E (token_expiresIn E type) (w_now w)
       then (Inr (signed_claims (email, sid) (nat (token_exp E (token_expiresIn E type) (w_now w)))), v)
       else (Inl (jwt_exception ''Token has expired'' jwt_error.TOKEN_EXPIRED UNAUTHORIZED None), v)) \<and>
    getPayload E token other v =
      (Inl (jwt_exception ''Token verification failed'' jwt_error.TOKEN_VERIFICATION_FAILED UNAUTHORIZED None), v)"
  by (rule conjI [OF token_roundtrip_parts [OF assms]])

lemma token_roundtrip_example:
  "\<exists>token. generateToken mem_env (''ana'', ''s1'') AuthToken world0 = (Inr token, world0) \<and>
     getPayload mem_env token AuthToken world0 = (Inr (signed_claims (''ana'', ''s1'') 3600), world0) \<and>
     getPayload mem_env token RefreshToken world0 =
       (Inl (jwt_exception ''Token verification failed'' jwt_error.TOKEN_VERIFICATION_FAILED UNAUTHORIZED None), world0)"
proof -
  obtain token where run: "generateToken mem_env (''ana'', ''s1'') AuthToken world0 = (Inr token, world0)"
    using generateToken_cases [OF mem_jwt_laws, of "(''ana'', ''s1'')" AuthToken world0]
    by (auto simp: world0_now mem_signing)
  have "token_secret mem_env RefreshToken \<noteq> token_secret mem_env AuthToken" by (simp add: mem_secrets)
  from token_roundtrip [OF mem_jwt_laws run _ _ _ this] run show ?thesis
    by (simp add: world0_now mem_exp)
qed

section \<open>Two weaknesses of the refresh\<close>

text \<open>C16. A logout that falls between the read and the write of a token refresh is undone: the
  refresh writes the session back, active, and without any time to live.\<close>

theorem refresh_logout_race:
  assumes "session_ready E view up w" "users_ready E T w" "jwt_laws E"
    and "refresh_check E rt w = (Inr renewed, w)"
    and "logOut E user w = (Inr message, w1)" "au_session_id user = fst renewed"
    and "refresh_store E rt renewed w1 = (res, w2)"
  shows "sess view w1 (fst renewed) = None \<and>
    (\<exists>s. sess view w2 (fst renewed) = Some s \<and> s_active s) \<and>
    ttl (view (w_redis w2)) (session_key (fst renewed)) = None"
proof -
  from refresh_check_Inr [OF assms(1,2,4)] obtain p s u where
    "payload_of E rt RefreshToken (w_now w) = Inr p" "sess view w (the (pl_sid p)) = Some s" and s: "s_active s"
    and "u \<in> rows T (w_db w)" "u_id u = s_user_id s" "w = w" and
    renewed: "renewed = (the (pl_sid p), s\<lparr>s_permissions := user_permissionCodes u,
        s_last_refresh_at := toISOString E (w_now w)\<rparr>)" .
  obtain r' where w1: "w1 = w\<lparr>w_redis := r'\<rparr>" "session_ready E view up w1"
    "view r' = exec_all [DEL (session_key (au_session_id user)),
      SREM (user_index (au_id user)) (au_session_id user)] (view (w_redis w))"
    using logOut_run [OF assms(1), of user] assms(5) by auto
  have "wp (refresh_store E rt (fst renewed, snd renewed)) (\<lambda>_ w'. view (w_redis w') =
      exec_cmd (SET (session_key (fst renewed)) (SessionDoc (snd renewed)) KEEPTTL) (view (w_redis w1)))
      (\<lambda>_ w'. view (w_redis w') =
      exec_cmd (SET (session_key (fst renewed)) (SessionDoc (snd renewed)) KEEPTTL) (view (w_redis w1))) w1"
    by (rule wp_refresh_store [OF w1(2) assms(3)]) simp_all
  then have "view (w_redis w2) =
      exec_cmd (SET (session_key (fst renewed)) (SessionDoc (snd renewed)) KEEPTTL) (view (w_redis w1))"
    using assms(7) by (simp add: wp_def split: sum.splits)
  then show ?thesis using w1(1,3) assms(6) s renewed by simp
qed

theorem refresh_logout_race_witness:
  "\<exists>w1 (w2 :: mem_world). logOut mem_env auth_ana world0 = (Inr ''Logged out successfully'', w1) \<and>
     sess mem_view w1 ''s1'' = None \<and> (\<exists>s. sess mem_view w2 ''s1'' = Some s \<and> s_active s) \<and>
     ttl (mem_view (w_redis w2)) (session_key ''s1'') = None"
proof -
  let ?renewed = "(''s1'', session_ana\<lparr>s_permissions := user_permissionCodes user_ana,
      s_last_refresh_at := toISOString mem_env 0\<rparr>)"
  have check: "refresh_check mem_env refresh_ana world0 = (Inr ?renewed, world0)"
    using refresh_check_run(3) [OF world0_session_ready world0_users_ready, of refresh_ana
        "signed_claims (''ana'', ''s1'') 3600" "''s1''" session_ana user_ana]
      refresh_ana_payload world0_session world0_ana
    by (simp add: world0_now signed_claims_def session_ana_def)
  obtain w1 where out: "logOut mem_env auth_ana world0 = (Inr ''Logged out successfully'', w1)"
    using logOut_run [OF world0_session_ready, of auth_ana] by auto
  obtain res w2 where store: "refresh_store mem_env refresh_ana ?renewed w1 = (res, w2)"
    by (cases "refresh_store mem_env refresh_ana ?renewed w1")
  have "au_session_id auth_ana = fst ?renewed" by (simp add: auth_ana_def)
  from refresh_logout_race [OF world0_session_ready world0_users_ready mem_jwt_laws check out this store] out
  show ?thesis unfolding fst_conv by blast
qed

end
