(* ===== verification/UserAccounts.thy ===== *)
theory UserAccounts imports UserSessions begin

text \<open>
  What the account operations of \<open>UsersService\<close> do to the table of users: one rule per
  operation, the statuses an account goes through, and the steps of a run.
\<close>

section \<open>Changes of the table\<close>

text \<open>How the status of an account may move in one operation.\<close>

inductive status_move :: "user_status \<Rightarrow> user_status \<Rightarrow> bool" where
  status_same: "status_move s s"
| status_first: "status_move PENDING ACTIVE"
| status_off: "status_move ACTIVE INACTIVE"
| status_on: "status_move INACTIVE ACTIVE"

inductive_simps status_move_simps: "status_move PENDING s" "status_move ACTIVE s" "status_move INACTIVE s"

text \<open>The rows before and after an operation: nothing, one row rewritten, or one row added.\<close>

inductive account_change :: "user set \<Rightarrow> user set \<Rightarrow> bool" where
  change_none: "account_change S S"
| change_row: "u \<in> S \<Longrightarrow> u_id u' = u_id u \<Longrightarrow> u_email u' = u_email u \<Longrightarrow> u_person_id u' = u_person_id u \<Longrightarrow>
    status_move (u_status u) (u_status u') \<Longrightarrow> account_change S (insert u' {x \<in> S. u_id x \<noteq> u_id u})"
| change_new: "u_id u' \<notin> u_id ` S \<Longrightarrow> u_status u' = PENDING \<Longrightarrow> account_change S (insert u' S)"

definition account_ok :: "('r, 'd, 'q) env \<Rightarrow> ('d, user) table \<Rightarrow> ('r, 'd, 'q) world \<Rightarrow> ('r, 'd, 'q) world \<Rightarrow> bool" where
  "account_ok E T w w' \<longleftrightarrow> users_ready E T w' \<and> account_change (rows T (w_db w)) (rows T (w_db w'))"

lemma account_ok_same: "users_ready E T w \<Longrightarrow> w_db w' = w_db w \<Longrightarrow> account_ok E T w w'"
  by (simp add: account_ok_def users_ready_def change_none)

lemma account_ok_db: "account_ok E T w w' \<Longrightarrow> w_db w'' = w_db w' \<Longrightarrow> account_ok E T w w''"
  by (simp add: account_ok_def users_ready_def)

lemma account_ok_mailed: "account_ok E T w w' \<Longrightarrow> mailed w' w'' \<Longrightarrow> account_ok E T w w''"
  by (rule account_ok_db) (simp_all add: mailed_def)

text \<open>An operation that finds a user and saves it changed.\<close>

lemma wp_save_loaded:
  assumes ready: "users_ready E T w" and u: "u \<in> rows T (w_db w)" "u_id e = u_id u" "u_email e = u_email u"
      "u_person_id e = u_person_id u" "status_move (u_status u) (u_status e)"
    and Q: "\<And>d'. account_ok E T w (w\<lparr>w_db := d'\<rparr>) \<Longrightarrow>
      rows T d' = saved_rows T (hashPasswordOnUpdate (bcrypt_hashSync E) e) (rows T (w_db w)) \<Longrightarrow>
      Q (hashPasswordOnUpdate (bcrypt_hashSync E) e) (w\<lparr>w_db := d'\<rparr>)"
    and F: "\<And>x d'. account_ok E T w (w\<lparr>w_db := d'\<rparr>) \<Longrightarrow> rows T d' = rows T (w_db w) \<Longrightarrow> F x (w\<lparr>w_db := d'\<rparr>)"
  shows "wp (usersRepository_save E e) Q F w"
proof (rule wp_users_save [OF ready u(1,2)])
  let ?e = "hashPasswordOnUpdate (bcrypt_hashSync E) e"
  fix d' assume d': "users_ready E T (w\<lparr>w_db := d'\<rparr>)" "rows T d' = saved_rows T ?e (rows T (w_db w))"
  have "account_change (rows T (w_db w)) (rows T d')"
    unfolding d'(2) saved_rows_def users_readyD(7) [OF ready] hook_fields u(2)
    by (rule change_row [OF u(1)]) (simp_all add: u)
  then show "Q ?e (w\<lparr>w_db := d'\<rparr>)" by (intro Q) (simp_all add: account_ok_def d')
next
  fix x d' assume "users_ready E T (w\<lparr>w_db := d'\<rparr>)" "rows T d' = rows T (w_db w)"
  then show "F x (w\<lparr>w_db := d'\<rparr>)" by (intro F) (simp_all add: account_ok_def change_none)
qed

text \<open>The users found by the service, as rules.\<close>

lemma wp_users_findOne:
  assumes "users_ready E T w"
    and "\<And>u. u \<in> rows T (w_db w) \<Longrightarrow> u_id u = uid \<Longrightarrow> Q (loadOriginalPassword u) w"
    and "(\<And>u. u \<in> rows T (w_db w) \<Longrightarrow> u_id u \<noteq> uid) \<Longrightarrow>
      F (users_exception (''User with id '' @ uid @ '' not found'') users_error.USER_NOT_FOUND NOT_FOUND None) w"
  shows "wp (users_findOne E uid) Q F w"
proof (cases "\<exists>u \<in> rows T (w_db w). u_id u = uid")
  case True
  then obtain u where "u \<in> rows T (w_db w)" "u_id u = uid" by blast
  with assms(2) users_findOne_run(1) [OF assms(1), of u uid] show ?thesis by (simp add: wp_def)
next
  case False
  with assms(3) users_findOne_run(2) [OF assms(1), of uid] show ?thesis by (auto simp: wp_def)
qed

lemma wp_findByEmail:
  assumes "users_ready E T w"
    and "\<And>u. u \<in> rows T (w_db w) \<Longrightarrow> u_email u = email \<Longrightarrow> Q (Some (loadOriginalPassword u)) w"
    and "(\<And>u. u \<in> rows T (w_db w) \<Longrightarrow> u_email u \<noteq> email) \<Longrightarrow> Q None w"
  shows "wp (findByEmail E email) Q F w"
  unfolding findByEmail_def usersRepository_findOneByEmail_def
  by (rule wp_load_one [OF assms(1)]) (use assms(2,3) in auto)

section \<open>The operations\<close>

lemma wp_users_activate:
  assumes ready: "users_ready E T w"
    and Q: "\<And>u d'. u \<in> rows T (w_db w) \<Longrightarrow> u_id u = uid \<Longrightarrow> u_status u = INACTIVE \<Longrightarrow>
      account_ok E T w (w\<lparr>w_db := d'\<rparr>) \<Longrightarrow>
      rows T d' = saved_rows T ((loadOriginalPassword u)\<lparr>u_status := ACTIVE\<rparr>) (rows T (w_db w)) \<Longrightarrow>
      Q ''User activated successfully'' (w\<lparr>w_db := d'\<rparr>)"
    and F: "\<And>x d'. account_ok E T w (w\<lparr>w_db := d'\<rparr>) \<Longrightarrow> rows T d' = rows T (w_db w) \<Longrightarrow> F x (w\<lparr>w_db := d'\<rparr>)"
  shows "wp (users_activate E uid) Q F w"
proof -
  have same: "F x w" for x using F [of "w_db w" x] account_ok_same [OF ready, of w] by simp
  show ?thesis unfolding users_activate_def wp_bind
  proof (rule wp_users_findOne [OF ready], goal_cases)
    case (1 u)
    let ?e = "(loadOriginalPassword u)\<lparr>u_status := ACTIVE\<rparr>"
    show ?case
    proof (cases "u_status u = INACTIVE")
      case True
      have "wp (usersRepository_save E ?e) (\<lambda>_. Q ''User activated successfully'') F w"
        by (rule wp_save_loaded [OF ready 1(1)])
          (use True Q [OF 1] F in \<open>auto simp: status_on\<close>)
      with True show ?thesis by (simp add: wp)
    qed (simp add: wp same)
  qed (rule same)
qed

lemma wp_users_deactivate:
  assumes ready: "users_ready E T w"
    and Q: "\<And>u d'. u \<in> rows T (w_db w) \<Longrightarrow> u_id u = uid \<Longrightarrow> u_status u = ACTIVE \<Longrightarrow>
      account_ok E T w (w\<lparr>w_db := d'\<rparr>) \<Longrightarrow>
      rows T d' = saved_rows T ((loadOriginalPassword u)\<lparr>u_status := INACTIVE\<rparr>) (rows T (w_db w)) \<Longrightarrow>
      Q ''User deactivated successfully'' (w\<lparr>w_db := d'\<rparr>)"
    and F: "\<And>x d'. account_ok E T w (w\<lparr>w_db := d'\<rparr>) \<Longrightarrow> rows T d' = rows T (w_db w) \<Longrightarrow> F x (w\<lparr>w_db := d'\<rparr>)"
  shows "wp (users_deactivate E uid) Q F w"
proof -
  have same: "F x w" for x using F [of "w_db w" x] account_ok_same [OF ready, of w] by simp
  show ?thesis unfolding users_deactivate_def wp_bind
  proof (rule wp_users_findOne [OF ready], goal_cases)
    case (1 u)
    let ?e = "(loadOriginalPassword u)\<lparr>u_status := INACTIVE\<rparr>"
    show ?case
    proof (cases "u_status u = ACTIVE")
      case True
      have "wp (usersRepository_save E ?e) (\<lambda>_. Q ''User deactivated successfully'') F w"
        by (rule wp_save_loaded [OF ready 1(1)])
          (use True Q [OF 1] F in \<open>auto simp: status_off\<close>)
      with True show ?thesis by (simp add: wp)
    qed (simp add: wp same)
  qed (rule same)
qed


lemma wp_users_insert:
  assumes ready: "users_ready E T w" and new: "u_id e = ''''" "u_status e = PENDING"
    and Q: "\<And>u' d'. u_id u' \<notin> u_id ` rows T (w_db w) \<Longrightarrow> u_id u' \<noteq> '''' \<Longrightarrow>
      u' = (hasPasswordOnInsert (bcrypt_hashSync E) e)\<lparr>u_id := u_id u'\<rparr> \<Longrightarrow>
      rows T d' = insert u' (rows T (w_db w)) \<Longrightarrow> account_ok E T w (w\<lparr>w_db := d'\<rparr>) \<Longrightarrow> Q u' (w\<lparr>w_db := d'\<rparr>)"
    and F: "\<And>x d'. account_ok E T w (w\<lparr>w_db := d'\<rparr>) \<Longrightarrow> rows T d' = rows T (w_db w) \<Longrightarrow> F x (w\<lparr>w_db := d'\<rparr>)"
  shows "wp (usersRepository_save E e) Q F w"
  unfolding usersRepository_save_def
proof (rule wp_db_save [OF users_readyD(1) [OF ready]])
  have T: "ident T = u_id" "assign T = (\<lambda>i e. e\<lparr>u_id := i\<rparr>)"
    using ready by (simp_all add: users_ready_def users_table_def)
  have b: "before_save E e = hasPasswordOnInsert (bcrypt_hashSync E) e" "ident T (before_save E e) = ''''"
    by (simp_all add: before_save_def new T)
  {
    fix e' d'
    assume h: "rows T d' = saved_rows T e' (rows T (w_db w))" "ident T e' \<noteq> ''''"
      "ident T (before_save E e) = '''' \<Longrightarrow>
         e' = assign T (ident T e') (before_save E e) \<and> ident T e' \<notin> ident T ` rows T (w_db w)"
      "constraint T (rows T (w_db w)) \<Longrightarrow> constraint T (saved_rows T e' (rows T (w_db w)))"
      "answers T (w_db w) \<Longrightarrow> answers T d'"
    have e': "e' = (hasPasswordOnInsert (bcrypt_hashSync E) e)\<lparr>u_id := u_id e'\<rparr>"
      "u_id e' \<notin> u_id ` rows T (w_db w)" "u_id e' \<noteq> ''''"
      using h(3) [OF b(2)] h(2) by (simp_all add: b T)
    have rows: "rows T d' = insert e' (rows T (w_db w))"
    proof -
      have "{x \<in> rows T (w_db w). u_id x \<noteq> u_id e'} = rows T (w_db w)"
        using e'(2) by (auto simp: image_iff)
      then show ?thesis by (simp add: h(1) saved_rows_def T)
    qed
    have "u_status e' = PENDING" by (subst e'(1)) (simp add: new)
    then have "account_change (rows T (w_db w)) (rows T d')"
      unfolding rows by (rule change_new [OF e'(2)])
    moreover have "users_ready E T (w\<lparr>w_db := d'\<rparr>)"
      using ready h(4,5) e'(3) by (auto simp: users_ready_def rows h(1) [symmetric])
    ultimately show "Q e' (w\<lparr>w_db := d'\<rparr>)" by (intro Q e' rows) (simp add: account_ok_def)
  }
  fix x d' assume "rows T d' = rows T (w_db w)" "answers T (w_db w) \<Longrightarrow> answers T d'"
  then show "F x (w\<lparr>w_db := d'\<rparr>)" using ready by (intro F) (simp_all add: account_ok_def users_ready_def change_none)
qed

lemma account_ok_rows:
  assumes "account_ok E T w w'" "rows T d = rows T (w_db w')" "answers T (w_db w') \<Longrightarrow> answers T d"
  shows "account_ok E T w (w'\<lparr>w_db := d\<rparr>)"
  using assms by (simp add: account_ok_def users_ready_def)

text \<open>A registration: one new row with the roles asked for, or none; Redis is not touched.\<close>

definition registered ::
  "('r, 'd, 'q) env \<Rightarrow> ('d, user) table \<Rightarrow> ('d, role) table \<Rightarrow> string \<Rightarrow> register_dto \<Rightarrow> auth_user option \<Rightarrow>
   ('r, 'd, 'q) world \<Rightarrow> ('r, 'd, 'q) world \<Rightarrow> bool" where
  "registered E T TR password dto by w w' \<longleftrightarrow>
     (\<exists>u roles. rows T (w_db w') = insert u (rows T (w_db w)) \<and> u_id u \<notin> u_id ` rows T (w_db w) \<and>
        list_all2 (\<lambda>rid r. r \<in> rows TR (w_db w) \<and> r_id r = rid) (dto_rolesIds dto) roles \<and>
        u = (hasPasswordOnInsert (bcrypt_hashSync E) (usersRepository_create dto roles password by))\<lparr>u_id := u_id u\<rparr>)"

lemma wp_register:
  assumes ready: "users_ready E T w" and laws: "tx_laws E T" "orm_laws (roles_orm E) TR"
    and Q: "\<And>w'. account_ok E T w w' \<Longrightarrow> w_redis w' = w_redis w \<Longrightarrow> registered E T TR password dto by w w' \<Longrightarrow>
      Q (''User '' @ dto_email dto @ '' created'') w'"
    and F: "\<And>x w'. account_ok E T w w' \<Longrightarrow> w_redis w' = w_redis w \<Longrightarrow> rows T (w_db w') = rows T (w_db w) \<Longrightarrow>
      F (wrap_error UsersException ''User registration failed'' (UsersErrorCodes users_error.USER_NOT_REGISTERED)
          INTERNAL_SERVER_ERROR x) w'"
  shows "wp (register E password dto by) Q F w"
proof -
  let ?F = "\<lambda>e w'. \<forall>d. rows T d = rows T (w_db w) \<longrightarrow>
      (answers T (w_db w) \<longrightarrow> answers T (w_db w') \<longrightarrow> answers T d) \<longrightarrow>
      F (wrap_error UsersException ''User registration failed'' (UsersErrorCodes users_error.USER_NOT_REGISTERED)
          INTERNAL_SERVER_ERROR e) (w'\<lparr>w_db := d\<rparr>)"
  let ?Q = "\<lambda>msg w'. \<forall>d. rows T d = rows T (w_db w') \<longrightarrow> (answers T (w_db w') \<longrightarrow> answers T d) \<longrightarrow>
      Q msg (w'\<lparr>w_db := d\<rparr>)"
  have F': "?F e w'" if "account_ok E T w w'" "w_redis w' = w_redis w" for e w'
    using that ready
    by (intro allI impI F) (auto simp: account_ok_def users_ready_def change_none)
  have Q': "?Q (''User '' @ dto_email dto @ '' created'') w'"
    if w': "account_ok E T w w'" "w_redis w' = w_redis w" "registered E T TR password dto by w w'" for w'
    using w' by (intro allI impI Q account_ok_rows) (auto simp: registered_def)
  show ?thesis unfolding register_def wp_rethrow_as
  proof (rule wp_transaction [OF laws(1)], unfold wp_bind wp_then wp_return all_simps all_conj_distrib,
      rule wp_roles_findOnes [OF laws(2)], goal_cases)
    case (1 roles)
    show ?case
    proof (rule wp_users_insert [OF ready], goal_cases)
      case u': (3 u' d')
      have em: "u_email u' = dto_email dto" by (subst u'(3)) (simp add: usersRepository_create_def)
      have ok: "account_ok E T w w'" "w_redis w' = w_redis w" "w_db w' = d'" if "mailed (w\<lparr>w_db := d'\<rparr>) w'" for w'
        using account_ok_mailed [OF u'(5) that] that by (simp_all add: mailed_def)
      have reg: "registered E T TR password dto by w w'" if "w_db w' = d'" for w'
        unfolding registered_def that
        by (rule exI [of _ u'], rule exI [of _ roles]) (intro conjI u' 1)
      show ?case unfolding em
      proof (rule wp_sendRegistrationMail, goal_cases)
        case (1 w')
        from Q' [OF ok(1,2) [OF 1] reg [OF ok(3) [OF 1]]] F' [OF ok(1,2) [OF 1]] show ?case by blast
      next
        case (2 e w')
        from F' [OF ok(1,2) [OF 2]] show ?case by blast
      qed
    next
      case (4 x d')
      show ?case by (rule F') (simp_all add: 4)
    qed (simp_all add: usersRepository_create_def)
  next
    case (2 e)
    show ?case by (rule F') (simp_all add: account_ok_same [OF ready])
  qed
qed


text \<open>The role of a user changes: the row holds the roles found; the sessions are refreshed when
  Redis answers, and the operation succeeds either way.\<close>

lemma wp_assignRole:
  assumes ready: "users_ready E T w" and laws: "orm_laws (roles_orm E) TR" "redis_laws (redis_api E) view up"
    and Q: "\<And>u roles w'. u \<in> rows T (w_db w) \<Longrightarrow> u_id u = uid \<Longrightarrow>
      list_all2 (\<lambda>rid r. r \<in> rows TR (w_db w) \<and> r_id r = rid) rolesIds roles \<Longrightarrow>
      account_ok E T w w' \<Longrightarrow>
      rows T (w_db w') = saved_rows T ((loadOriginalPassword u)\<lparr>u_roles := Some roles\<rparr>) (rows T (w_db w)) \<Longrightarrow>
      (up (w_redis w) \<Longrightarrow> up (w_redis w') \<and> permissions_refreshed uid
         (user_permissionCodes (u\<lparr>u_roles := Some roles\<rparr>)) (view (w_redis w)) (view (w_redis w'))) \<Longrightarrow>
      Q ((loadOriginalPassword u)\<lparr>u_roles := Some roles\<rparr>) w'"
    and F: "\<And>x w'. account_ok E T w w' \<Longrightarrow> rows T (w_db w') = rows T (w_db w) \<Longrightarrow> w_redis w' = w_redis w \<Longrightarrow> F x w'"
  shows "wp (assignRole E uid rolesIds) Q F w"
proof -
  have same: "F x w" for x by (rule F) (simp_all add: account_ok_same [OF ready])
  show ?thesis unfolding assignRole_def wp_bind wp_then wp_swallow wp_return
  proof (rule wp_users_findOne [OF ready], goal_cases)
    case (1 u)
    show ?case
    proof (rule wp_roles_findOnes [OF laws(1)], goal_cases)
      case roles: (1 roles)
      let ?e = "(loadOriginalPassword u)\<lparr>u_roles := Some roles\<rparr>"
      have e: "hashPasswordOnUpdate (bcrypt_hashSync E) ?e = ?e"
        by (rule hashPasswordOnUpdate_unchanged) (simp add: loadOriginalPassword_def)
      have codes: "user_permissionCodes ?e = user_permissionCodes (u\<lparr>u_roles := Some roles\<rparr>)"
        by (simp add: user_permissionCodes_def)
      show ?case
      proof (rule wp_save_loaded [OF ready 1(1)], goal_cases)
        case saved: (5 d')
        let ?w = "w\<lparr>w_db := d'\<rparr>"
        have q: "Q ?e (?w\<lparr>w_redis := r'\<rparr>)"
          if "up (w_redis w) \<Longrightarrow> up r' \<and> permissions_refreshed uid
            (user_permissionCodes (u\<lparr>u_roles := Some roles\<rparr>)) (view (w_redis w)) (view r')" for r'
          by (rule Q [OF 1 roles account_ok_db [OF saved(1)]]) (use saved(2) that in \<open>simp_all add: e\<close>)
        show ?case unfolding e codes [symmetric] hook_fields
          by (rule wp_refreshSessionPermissions [OF laws(2)]) (auto intro!: q simp: 1 codes)
      next
        case (6 x d') then show ?case by (intro F) simp_all
      qed (simp_all add: status_same)
    qed (rule same)
  qed (rule same)
qed


section \<open>Passwords\<close>

lemma wp_forgotPassword:
  assumes ready: "users_ready E T w" and laws: "redis_laws (redis_api E) view up" "up (w_redis w)"
    and u: "u \<in> rows T (w_db w)" "u_email u = email"
    and Q: "\<And>ttl w'. getTtlFromEnv E ''RESET_PASSWORD_EXPIRES_IN'' = Inr ttl \<Longrightarrow> w_db w' = w_db w \<Longrightarrow>
      up (w_redis w') \<Longrightarrow> view (w_redis w') =
        exec_cmd (SET (reset_key token) (ResetDoc \<lparr>rp_id = u_id u\<rparr>) (PX ttl)) (view (w_redis w)) \<Longrightarrow>
      Q ''If the email exists, a reset password link will be sent to it.'' w'"
    and F: "\<And>x w'. w_db w' = w_db w \<Longrightarrow> F x w'"
  shows "wp (forgotPassword E token email) Q F w"
  unfolding forgotPassword_def wp_bind
proof (rule wp_findByEmail [OF ready], goal_cases)
  case (1 u')
  then have u': "u' = u" using users_readyD(6) [OF ready] u by (auto dest: inj_onD)
  show ?case unfolding option.case u'
  proof (cases "getTtlFromEnv E ''RESET_PASSWORD_EXPIRES_IN''")
    case (Inr ttl)
    show "wp (thenE (bindE (liftE (getTtlFromEnv E ''RESET_PASSWORD_EXPIRES_IN'')) (\<lambda>ttl.
          thenE (raw_write E (SET (reset_key token) (ResetDoc \<lparr>rp_id = u_id (loadOriginalPassword u)\<rparr>) (PX ttl)))
            (sendResetPasswordMail E email token)))
        (returnE ''If the email exists, a reset password link will be sent to it.'')) Q F w"
      unfolding Inr wp sum.case hook_fields
    proof (rule wp_raw_write [OF laws(1)], goal_cases)
      case (1 r')
      show ?case
        by (rule wp_sendResetPasswordMail; intro Q [OF Inr] F) (use 1 laws(2) in \<open>auto simp: mailed_def\<close>)
    qed (simp add: laws(2))
  qed (simp add: wp F)
qed (use u in blast)

text \<open>No exception of a service is one of the framework's \<open>NotFoundException\<close>s.\<close>

lemma service_not_NotFound: "\<not> is_NotFoundException (users_exception m c s x)"
  by (simp add: is_NotFoundException_def users_exception_def)

lemma wp_resetPassword:
  assumes ready: "users_ready E T w" and laws: "redis_laws (redis_api E) view up"
    and Q: "\<And>p u w'. val (view (w_redis w)) (reset_key token) = Some (ResetDoc p) \<Longrightarrow>
      u \<in> rows T (w_db w) \<Longrightarrow> u_id u = rp_id p \<Longrightarrow> account_ok E T w w' \<Longrightarrow>
      rows T (w_db w') = saved_rows T (hashPasswordOnUpdate (bcrypt_hashSync E)
        ((loadOriginalPassword u)\<lparr>u_password := new_password\<rparr>)) (rows T (w_db w)) \<Longrightarrow>
      (up (w_redis w) \<Longrightarrow> up (w_redis w')) \<Longrightarrow>
      view (w_redis w') = exec_cmd (DEL (reset_key token)) (view (w_redis w)) \<Longrightarrow>
      Q ''Password reset successfully'' w'"
    and F: "\<And>x w'. account_ok E T w w' \<Longrightarrow>
      (up (w_redis w) \<Longrightarrow> up (w_redis w') \<and> view (w_redis w') = exec_cmd (DEL (reset_key token)) (view (w_redis w))) \<Longrightarrow>
      (up (w_redis w) \<Longrightarrow> val (view (w_redis w)) (reset_key token) = None \<Longrightarrow> x = reset_invalid \<and> w_db w' = w_db w) \<Longrightarrow>
      (\<And>p. up (w_redis w) \<Longrightarrow> val (view (w_redis w)) (reset_key token) = Some (ResetDoc p) \<Longrightarrow>
        (\<And>u. u \<in> rows T (w_db w) \<Longrightarrow> u_id u \<noteq> rp_id p) \<Longrightarrow>
        x = users_exception (''User with id '' @ rp_id p @ '' not found'') users_error.USER_NOT_FOUND NOT_FOUND None \<and>
        w_db w' = w_db w) \<Longrightarrow> F x w'"
  shows "wp (resetPassword E token new_password) Q F w"
  unfolding resetPassword_def wp_bind
proof (rule wp_raw_getDel [OF laws], goal_cases)
  case (1 r')
  let ?w = "w\<lparr>w_redis := r'\<rparr>" and ?raw = "val (view (w_redis w)) (reset_key token)"
  have up: "up (w_redis w) \<Longrightarrow> up r'" by (rule 1(2))
  have ready': "users_ready E T ?w" using ready by simp
  have same: "account_ok E T w ?w" by (rule account_ok_same [OF ready]) simp
  show ?case
  proof (cases "parse_or_null parse_reset ?raw")
    case (Inl e)
    then show ?thesis
      by (simp add: wp) (rule F [OF same]; use Inl 1 up in \<open>auto\<close>)
  next
    case (Inr x)
    show ?thesis
    proof (cases x)
      case None
      with Inr show ?thesis
        by (simp add: wp) (rule F [OF same]; use Inr 1 up in \<open>auto\<close>)
    next
      case (Some p)
      have raw: "?raw = Some (ResetDoc p)"
        using Inr Some
        by (cases "?raw"; simp add: parse_or_null_def split: if_splits; cases "the ?raw"; simp)
      show ?thesis unfolding Inr Some wp sum.case option.case
      proof (rule wp_users_findOne [OF ready'], goal_cases)
        case u: (1 u)
        then have u': "u \<in> rows T (w_db w)" by simp
        let ?e = "hashPasswordOnUpdate (bcrypt_hashSync E) ((loadOriginalPassword u)\<lparr>u_password := new_password\<rparr>)"
        show ?case
        proof (rule wp_save_loaded [OF ready' u(1)], goal_cases)
          case saved: (5 d')
          have ok: "account_ok E T w (?w\<lparr>w_db := d'\<rparr>)" using saved(1) by (simp add: account_ok_def)
          have m: "account_ok E T w w'" "up (w_redis w) \<Longrightarrow> up (w_redis w')" "view (w_redis w') = view r'" "w_db w' = d'"
            if "mailed (?w\<lparr>w_db := d'\<rparr>) w'" for w'
            using account_ok_mailed [OF ok that] that up by (simp_all add: mailed_def)
          show ?case
          proof (rule wp_confirmPasswordChange, goal_cases)
            case (1 w')
            then show ?case using m [OF 1] saved(2) \<open>view r' = _\<close> by (intro Q [OF raw u' u(2)]) simp_all
          next
            case (2 e w')
            then show ?case using m [OF 2] \<open>view r' = _\<close> by (rule_tac F) (use raw u in auto)
          qed
        next
          case (6 x d')
          then have "account_ok E T w (?w\<lparr>w_db := d'\<rparr>)" by (simp add: account_ok_def)
          then show ?case by (rule F) (use 1 up raw u in auto)
        qed (simp_all add: status_same)
      next
        case 2
        show ?case
          by (simp add: service_not_NotFound wp) (rule F [OF same]; use 2 1 up raw in auto)
      qed
    qed
  qed
next
  case (2 e r')
  show ?case by (rule F) (use 2 account_ok_same [OF ready] in auto)
qed

text \<open>The first activation: the temporary password is replaced and the account opens.\<close>

lemma wp_firstActivation:
  assumes ready: "users_ready E T w"
    and Q: "\<And>u d'. u \<in> rows T (w_db w) \<Longrightarrow> u_email u = email \<Longrightarrow> u_status u = PENDING \<Longrightarrow>
      bcrypt_compare E password (u_password u) \<Longrightarrow> account_ok E T w (w\<lparr>w_db := d'\<rparr>) \<Longrightarrow>
      rows T d' = saved_rows T (hashPasswordOnUpdate (bcrypt_hashSync E)
        ((loadOriginalPassword u)\<lparr>u_password := new_password, u_status := ACTIVE\<rparr>)) (rows T (w_db w)) \<Longrightarrow>
      Q ''User activated successfully'' (w\<lparr>w_db := d'\<rparr>)"
    and F: "\<And>x w'. account_ok E T w w' \<Longrightarrow> rows T (w_db w') = rows T (w_db w) \<Longrightarrow> F x w'"
  shows "wp (firstActivation E email password new_password) Q F w"
proof -
  have same: "F x w" for x by (rule F) (simp_all add: account_ok_same [OF ready])
  show ?thesis unfolding firstActivation_def wp_bind
  proof (rule wp_findByEmail [OF ready], goal_cases)
    case (1 u)
    let ?e = "(loadOriginalPassword u)\<lparr>u_password := new_password, u_status := ACTIVE\<rparr>"
    have "wp (usersRepository_save E ?e) (\<lambda>_. Q ''User activated successfully'') F w"
      if "u_status u = PENDING" "bcrypt_compare E password (u_password u)"
    proof (rule wp_save_loaded [OF ready 1(1)], goal_cases)
      case (5 d')
      show ?case by (rule Q [OF 1 that 5(1)]) (simp_all add: 5(2))
    next
      case (6 x d')
      show ?case by (rule F) (simp_all add: 6)
    qed (simp_all add: that status_first)
    then show ?case by (simp add: wp same)
  qed (simp add: wp same)
qed


section \<open>Computations that always reject\<close>

definition rejects :: "('s, 'e, 'a) io \<Rightarrow> bool" where
  "rejects m \<longleftrightarrow> (\<forall>s. \<exists>e t. m s = (Inl e, t))"

lemma rejectsE: "rejects m \<Longrightarrow> (\<And>e t. m s = (Inl e, t) \<Longrightarrow> P) \<Longrightarrow> P"
  by (auto simp: rejects_def)

lemma rejects_bind: "rejects m \<Longrightarrow> rejects (bindE m f)"
  unfolding rejects_def [of "bindE m f"]
proof
  fix s assume "rejects m"
  then show "\<exists>e t. bindE m f s = (Inl e, t)" by (rule rejectsE [of _ s]) (simp add: bindE_def)
qed

lemma rejects_bind_then: "(\<And>a. rejects (f a)) \<Longrightarrow> rejects (bindE m f)"
  unfolding rejects_def [of "bindE m f"]
  by (auto simp: bindE_def rejects_def split: prod.splits sum.splits)

lemma rejects_then: "rejects m \<Longrightarrow> rejects (thenE m n)"
  by (simp add: thenE_def rejects_bind)

lemma rejects_rethrow_as: "rejects m \<Longrightarrow> rejects (rethrow_as cls msg code d m)"
  unfolding rejects_def [of "rethrow_as cls msg code d m"]
proof
  fix s assume "rejects m"
  then show "\<exists>e t. rethrow_as cls msg code d m s = (Inl e, t)"
    by (rule rejectsE [of _ s]) (simp add: rethrow_as_def catchE_def throwE_def)
qed

lemma rejects_transaction: "rejects m \<Longrightarrow> rejects (transaction E m)"
  unfolding rejects_def [of "transaction E m"]
proof
  fix s assume "rejects m"
  then show "\<exists>e t. transaction E m s = (Inl e, t)" by (rule rejectsE [of _ s]) (simp add: transaction_def)
qed

text \<open>A broker that takes no mail.\<close>

definition no_mail :: "('r, 'd, 'q) env \<Rightarrow> bool" where
  "no_mail E \<longleftrightarrow> (\<forall>queue body. rejects (email_emit E queue body))"

lemma rejects_send_template:
  fixes E :: "('r, 'd, 'q) env"
  shows "no_mail E \<Longrightarrow> rejects (send_template E file data email subject text)"
  unfolding send_template_def
proof (rule rejects_bind_then, unfold rejects_def, rule)
  fix template and s :: "('r, 'd, 'q) world"
  let ?body = "\<lparr>eb_recipient = [email], eb_subject = subject, eb_html = render template data, eb_text = Some text\<rparr>"
  assume "no_mail E"
  then have "rejects (email_emit E ''email_queue'' ?body)" by (simp add: no_mail_def)
  then obtain e q where "email_emit E ''email_queue'' ?body (w_mq s) = (Inl e, q)"
    by (rule rejectsE [of _ "w_mq s"])
  then show "\<exists>e t. sendMail E ?body s = (Inl e, t)" by (simp add: sendMail_def on_mq_def zoomE_def)
qed

lemma rejects_register: "no_mail E \<Longrightarrow> rejects (register E password dto creator)"
  unfolding register_def sendRegistrationMail_def Let_def
  by (intro rejects_rethrow_as rejects_transaction rejects_bind_then rejects_then rejects_send_template)

end
