(* ===== verification/Frames.thy ===== *)
theory Frames imports Env begin

text \<open>
  What a computation leaves alone. \<open>keeps f m\<close> says that \<open>m\<close> does not change the observation
  \<open>f\<close> of the state, whether it resolves or rejects; the observations used are the database,
  and the part of Redis outside a set of keys.
\<close>

definition keeps :: "('s \<Rightarrow> 'o) \<Rightarrow> ('s, 'e, 'a) io \<Rightarrow> bool" where
  "keeps f m \<longleftrightarrow> (\<forall>s. f (snd (m s)) = f s)"

named_theorems keeps_rules \<open>introduction rules for keeps\<close>

lemma keepsI: "(\<And>s. wp m (\<lambda>_ t. f t = f s) (\<lambda>_ t. f t = f s) s) \<Longrightarrow> keeps f m"
  unfolding keeps_def by (intro allI) (rule wp_run [where Q = "\<lambda>t. f t = f s" for s])

lemma keepsD: "keeps f m \<Longrightarrow> m s = (x, t) \<Longrightarrow> f t = f s"
  unfolding keeps_def by (metis snd_conv)

lemma wp_keeps: "keeps f m \<Longrightarrow> wp m (\<lambda>_ t. f t = f s) (\<lambda>_ t. f t = f s) s"
  by (rule run_wp) (auto dest: keepsD)

text \<open>A weakest precondition may use what is kept.\<close>

lemma wp_with_keeps:
  assumes "keeps f m" "wp m (\<lambda>a t. f t = f s \<longrightarrow> Q a t) (\<lambda>e t. f t = f s \<longrightarrow> F e t) s"
  shows "wp m Q F s"
  using assms by (auto simp: wp_def keeps_def dest: spec [where x = s] split: prod.splits sum.splits)

lemma keeps_readonly: "readonly m \<Longrightarrow> keeps f m"
  by (simp add: readonly_def keeps_def)

lemma keeps_basic [keeps_rules]:
  "keeps f (returnE a)" "keeps f (throwE e)" "keeps f (readE g)" "keeps f (getE g')" "keeps f (liftE x)"
  by (simp_all add: keeps_readonly)

lemma keeps_bind [keeps_rules]: "keeps f m \<Longrightarrow> (\<And>a. keeps f (g a)) \<Longrightarrow> keeps f (bindE m g)"
  by (auto simp: keeps_def bindE_def split: prod.splits sum.splits) (metis snd_conv)+

lemma keeps_then [keeps_rules]: "keeps f m \<Longrightarrow> keeps f n \<Longrightarrow> keeps f (thenE m n)"
  by (simp add: thenE_def keeps_bind)

lemma keeps_catch [keeps_rules]: "keeps f m \<Longrightarrow> (\<And>e. keeps f (h e)) \<Longrightarrow> keeps f (catchE m h)"
  by (auto simp: keeps_def catchE_def split: prod.splits sum.splits) (metis snd_conv)+

lemma keeps_rethrow_as [keeps_rules]: "keeps f m \<Longrightarrow> keeps f (rethrow_as cls msg c d m)"
  by (simp add: rethrow_as_def keeps_catch keeps_basic)

lemma keeps_swallow [keeps_rules]: "keeps f m \<Longrightarrow> keeps f (swallow m)"
  by (simp add: swallow_def keeps_catch keeps_basic)

lemma keeps_if [keeps_rules]: "keeps f m \<Longrightarrow> keeps f n \<Longrightarrow> keeps f (if b then m else n)"
  by simp

lemma keeps_option [keeps_rules]:
  "keeps f m \<Longrightarrow> (\<And>x. keeps f (n x)) \<Longrightarrow> keeps f (case v of None \<Rightarrow> m | Some x \<Rightarrow> n x)"
  by (cases v) simp_all

lemma keeps_sum [keeps_rules]:
  "(\<And>x. keeps f (m x)) \<Longrightarrow> (\<And>x. keeps f (n x)) \<Longrightarrow> keeps f (case v of Inl x \<Rightarrow> m x | Inr x \<Rightarrow> n x)"
  by (cases v) simp_all

lemma keeps_let [keeps_rules]: "(\<And>x. keeps f (m x)) \<Longrightarrow> keeps f (Let v m)"
  by (simp add: Let_def)

lemma keeps_mapE: "(\<And>x. keeps f (m x)) \<Longrightarrow> keeps f (mapE m xs)"
  by (induction xs) (auto intro!: keeps_rules)

lemma keeps_forE: "(\<And>x. keeps f (m x)) \<Longrightarrow> keeps f (forE xs m)"
  by (induction xs) (auto intro!: keeps_rules)

section \<open>The database\<close>

lemma keeps_db_redis [keeps_rules]: "keeps w_db (on_redis m)"
  by (simp add: keeps_def on_redis_def zoomE_def split: prod.splits)

lemma keeps_db_mq [keeps_rules]: "keeps w_db (on_mq m)"
  by (simp add: keeps_def on_mq_def zoomE_def split: prod.splits)

lemma keeps_db_raw [keeps_rules]:
  "keeps w_db (raw_get E k)" "keeps w_db (raw_mGet E ks)" "keeps w_db (raw_sMembers E k)"
  "keeps w_db (raw_getDel E k)" "keeps w_db (raw_write E c)" "keeps w_db (raw_exec E cs)"
  by (simp_all add: raw_get_def raw_mGet_def raw_sMembers_def raw_getDel_def raw_write_def raw_exec_def keeps_db_redis)

section \<open>The rest of Redis\<close>

fun command_key :: "command \<Rightarrow> string" where
  "command_key (SET k d opt) = k"
| "command_key (DEL k) = k"
| "command_key (SADD k x) = k"
| "command_key (SREM k x) = k"
| "command_key (PEXPIRE k n) = k"

text \<open>The world outside the Redis keys of \<open>P\<close>.\<close>

definition outside ::
  "('r \<Rightarrow> redis_view) \<Rightarrow> (string \<Rightarrow> bool) \<Rightarrow> ('r, 'd, 'q) world \<Rightarrow>
   (string \<Rightarrow> (doc \<times> int option) option) \<times> (string \<Rightarrow> string set) \<times> 'd \<times> 'q \<times> int \<times> (string \<Rightarrow> string option)" where
  "outside view P w =
     ((\<lambda>k. if P k then None else strs (view (w_redis w)) k),
      (\<lambda>k. if P k then {} else sets (view (w_redis w)) k),
      w_db w, w_mq w, w_now w, w_templates w)"

lemma outside_eqD:
  assumes "outside view P w' = outside view P w"
  shows "\<not> P k \<Longrightarrow> strs (view (w_redis w')) k = strs (view (w_redis w)) k"
    and "\<not> P k \<Longrightarrow> sets (view (w_redis w')) k = sets (view (w_redis w)) k"
    and "w_db w' = w_db w" "w_mq w' = w_mq w" "w_now w' = w_now w" "w_templates w' = w_templates w"
  using assms by (auto simp: outside_def fun_eq_iff split: if_splits)

lemma outside_val:
  "outside view P w' = outside view P w \<Longrightarrow> \<not> P k \<Longrightarrow> val (view (w_redis w')) k = val (view (w_redis w)) k"
  unfolding val_def by (drule (1) outside_eqD(1)) simp

lemma exec_cmd_other:
  "k \<noteq> command_key c \<Longrightarrow> strs (exec_cmd c v) k = strs v k \<and> sets (exec_cmd c v) k = sets v k"
  by (cases c) (auto simp: exec_cmd.simps)

lemma exec_all_other:
  "k \<notin> command_key ` set cs \<Longrightarrow> strs (exec_all cs v) k = strs v k \<and> sets (exec_all cs v) k = sets v k"
  by (induction cs arbitrary: v) (simp_all add: exec_all_def exec_cmd_other)

lemma exec_all_outside:
  assumes "\<And>c. c \<in> set cs \<Longrightarrow> P (command_key c)" "\<not> P k"
  shows "strs (exec_all cs v) k = strs v k \<and> sets (exec_all cs v) k = sets v k"
  by (rule exec_all_other) (use assms in auto)

lemma exec_cmd_outside:
  assumes "P (command_key c)" "\<not> P k"
  shows "strs (exec_cmd c v) k = strs v k \<and> sets (exec_cmd c v) k = sets v k"
  by (rule exec_cmd_other) (use assms in auto)

lemma outside_redis:
  assumes "\<And>k. \<not> P k \<Longrightarrow> strs (view r) k = strs (view (w_redis w)) k \<and> sets (view r) k = sets (view (w_redis w)) k"
  shows "outside view P (w\<lparr>w_redis := r\<rparr>) = outside view P w"
  using assms by (simp add: outside_def fun_eq_iff)

lemma keeps_outside_exec [keeps_rules]:
  fixes E :: "('r, 'd, 'q) env"
  assumes "redis_laws (redis_api E) view up" "\<And>c. c \<in> set cs \<Longrightarrow> P (command_key c)"
  shows "keeps (outside view P) (raw_exec E cs)"
proof (rule keepsI, rule wp_raw_exec [OF assms(1)])
  fix w :: "('r, 'd, 'q) world" and r' assume "view r' = exec_all cs (view (w_redis w))"
  then show "outside view P (w\<lparr>w_redis := r'\<rparr>) = outside view P w"
    using exec_all_outside [of cs P, OF assms(2)] by (intro outside_redis) auto
next
  fix w :: "('r, 'd, 'q) world" and r' assume "view r' = view (w_redis w) \<or> view r' = exec_all cs (view (w_redis w))"
  then show "outside view P (w\<lparr>w_redis := r'\<rparr>) = outside view P w"
    using exec_all_outside [of cs P, OF assms(2)] by (intro outside_redis) auto
qed

lemma keeps_outside_write [keeps_rules]:
  fixes E :: "('r, 'd, 'q) env"
  assumes "redis_laws (redis_api E) view up" "P (command_key c)"
  shows "keeps (outside view P) (raw_write E c)"
proof (rule keepsI, rule wp_raw_write [OF assms(1)])
  fix w :: "('r, 'd, 'q) world" and r' assume "view r' = exec_cmd c (view (w_redis w))"
  then show "outside view P (w\<lparr>w_redis := r'\<rparr>) = outside view P w"
    using exec_cmd_outside [of P c, OF assms(2)] by (intro outside_redis) auto
next
  fix w :: "('r, 'd, 'q) world" and r' assume "view r' = view (w_redis w) \<or> view r' = exec_cmd c (view (w_redis w))"
  then show "outside view P (w\<lparr>w_redis := r'\<rparr>) = outside view P w"
    using exec_cmd_outside [of P c, OF assms(2)] by (intro outside_redis) auto
qed

lemma readonly_raw [simp]: "readonly (raw_get E k)" "readonly (raw_mGet E ks)" "readonly (raw_sMembers E k)"
  by (simp_all add: readonly_def raw_get_def raw_mGet_def raw_sMembers_def on_redis_def zoomE_def readE_def)

section \<open>Answers that do not depend on Redis\<close>

text \<open>The rest of the world, beside Redis; and a computation whose answer, and what it does to that
  rest, are the same whatever Redis holds and whether it answers.\<close>

definition beside_redis :: "('r, 'd, 'q) world \<Rightarrow> 'd \<times> 'q \<times> int \<times> (string \<Rightarrow> string option)" where
  "beside_redis w = (w_db w, w_mq w, w_now w, w_templates w)"

definition redis_blind :: "('r, 'd, 'q, 'a) service \<Rightarrow> bool" where
  "redis_blind m \<longleftrightarrow> (\<forall>w r. \<exists>r'. m (w\<lparr>w_redis := r\<rparr>) = (fst (m w), (snd (m w))\<lparr>w_redis := r'\<rparr>))"

lemma redis_blindD:
  assumes "redis_blind m"
  shows "fst (m (w\<lparr>w_redis := r\<rparr>)) = fst (m w)" "beside_redis (snd (m (w\<lparr>w_redis := r\<rparr>))) = beside_redis (snd (m w))"
proof -
  obtain r' where "m (w\<lparr>w_redis := r\<rparr>) = (fst (m w), (snd (m w))\<lparr>w_redis := r'\<rparr>)"
    using assms unfolding redis_blind_def by blast
  then show "fst (m (w\<lparr>w_redis := r\<rparr>)) = fst (m w)" "beside_redis (snd (m (w\<lparr>w_redis := r\<rparr>))) = beside_redis (snd (m w))"
    by (simp_all add: beside_redis_def)
qed

lemma redis_blind_basic: "redis_blind (returnE a)" "redis_blind (throwE e)"
  by (auto simp: redis_blind_def returnE_def throwE_def)

lemma redis_blind_bind: "redis_blind m \<Longrightarrow> (\<And>a. redis_blind (f a)) \<Longrightarrow> redis_blind (bindE m f)"
  unfolding redis_blind_def bindE_def
proof (intro allI)
  fix w r
  assume m: "\<forall>w r. \<exists>r'. m (w\<lparr>w_redis := r\<rparr>) = (fst (m w), (snd (m w))\<lparr>w_redis := r'\<rparr>)"
    and f: "\<And>a. \<forall>w r. \<exists>r'. f a (w\<lparr>w_redis := r\<rparr>) = (fst (f a w), (snd (f a w))\<lparr>w_redis := r'\<rparr>)"
  obtain x t where t: "m w = (x, t)" by fastforce
  have "\<exists>r'. m (w\<lparr>w_redis := r\<rparr>) = (fst (m w), (snd (m w))\<lparr>w_redis := r'\<rparr>)" using m by blast
  then obtain r1 where r1: "m (w\<lparr>w_redis := r\<rparr>) = (x, t\<lparr>w_redis := r1\<rparr>)" by (auto simp: t)
  show "\<exists>r'. (case m (w\<lparr>w_redis := r\<rparr>) of (Inl e, t) \<Rightarrow> (Inl e, t) | (Inr a, t) \<Rightarrow> f a t) =
      (fst (case m w of (Inl e, t) \<Rightarrow> (Inl e, t) | (Inr a, t) \<Rightarrow> f a t),
       (snd (case m w of (Inl e, t) \<Rightarrow> (Inl e, t) | (Inr a, t) \<Rightarrow> f a t))\<lparr>w_redis := r'\<rparr>)"
    using t r1 f by (cases x) auto
qed

lemma redis_blind_then: "redis_blind m \<Longrightarrow> redis_blind n \<Longrightarrow> redis_blind (thenE m n)"
  by (simp add: thenE_def redis_blind_bind)

lemma redis_blind_rethrow: "redis_blind m \<Longrightarrow> redis_blind (rethrow_as cls msg c d m)"
  unfolding redis_blind_def rethrow_as_def catchE_def
proof (intro allI)
  fix w r
  assume m: "\<forall>w r. \<exists>r'. m (w\<lparr>w_redis := r\<rparr>) = (fst (m w), (snd (m w))\<lparr>w_redis := r'\<rparr>)"
  obtain x t where t: "m w = (x, t)" by fastforce
  have "\<exists>r'. m (w\<lparr>w_redis := r\<rparr>) = (fst (m w), (snd (m w))\<lparr>w_redis := r'\<rparr>)" using m by blast
  then obtain r1 where r1: "m (w\<lparr>w_redis := r\<rparr>) = (x, t\<lparr>w_redis := r1\<rparr>)" by (auto simp: t)
  let ?h = "\<lambda>error. throwE (wrap_error cls msg c d error)"
  show "\<exists>r'. (case m (w\<lparr>w_redis := r\<rparr>) of (Inl e, t) \<Rightarrow> ?h e t | (Inr a, t) \<Rightarrow> (Inr a, t)) =
      (fst (case m w of (Inl e, t) \<Rightarrow> ?h e t | (Inr a, t) \<Rightarrow> (Inr a, t)),
       (snd (case m w of (Inl e, t) \<Rightarrow> ?h e t | (Inr a, t) \<Rightarrow> (Inr a, t)))\<lparr>w_redis := r'\<rparr>)"
    using t r1 by (cases x) (auto simp: throwE_def)
qed

lemma redis_blind_option:
  "redis_blind m \<Longrightarrow> (\<And>x. redis_blind (n x)) \<Longrightarrow> redis_blind (case v of None \<Rightarrow> m | Some x \<Rightarrow> n x)"
  by (cases v) simp_all

lemma redis_blind_mapE: "(\<And>x. redis_blind (m x)) \<Longrightarrow> redis_blind (mapE m xs)"
  by (induction xs) (simp_all add: redis_blind_basic redis_blind_bind)

lemma redis_blind_db:
  fixes m :: "('d, exn, 'a) io"
  shows "redis_blind (on_db m :: ('r, 'd, 'q, 'a) service)"
  unfolding redis_blind_def on_db_def zoomE_def
proof (intro allI)
  fix w :: "('r, 'd, 'q) world" and r :: 'r
  show "\<exists>r'. (case m (w_db (w\<lparr>w_redis := r\<rparr>)) of (x, s) \<Rightarrow> (x, w\<lparr>w_redis := r, w_db := s\<rparr>)) =
      (fst (case m (w_db w) of (x, s) \<Rightarrow> (x, w\<lparr>w_db := s\<rparr>)),
       (snd (case m (w_db w) of (x, s) \<Rightarrow> (x, w\<lparr>w_db := s\<rparr>)))\<lparr>w_redis := r'\<rparr>)"
    by (rule exI [where x = r]) (simp split: prod.split)
qed

text \<open>A failure that is swallowed does not show: what only touches Redis may fail.\<close>

lemma redis_blind_swallow:
  assumes "keeps beside_redis m"
  shows "redis_blind (swallow m)"
  unfolding redis_blind_def
proof (intro allI)
  fix w r
  have s: "\<exists>r'. swallow m v = (Inr (), v\<lparr>w_redis := r'\<rparr>)" for v
  proof -
    obtain x t where t: "m v = (x, t)" by fastforce
    have "beside_redis t = beside_redis v" using keepsD [OF assms t] .
    then have "t = v\<lparr>w_redis := w_redis t\<rparr>" by (simp add: beside_redis_def)
    then show ?thesis using t by (cases x) (auto simp: swallow_def catchE_def returnE_def intro!: exI [of _ "w_redis t"])
  qed
  obtain a b where "swallow m w = (Inr (), w\<lparr>w_redis := a\<rparr>)"
    "swallow m (w\<lparr>w_redis := r\<rparr>) = (Inr (), w\<lparr>w_redis := r\<rparr>\<lparr>w_redis := b\<rparr>)" using s by metis
  then show "\<exists>r'. swallow m (w\<lparr>w_redis := r\<rparr>) = (fst (swallow m w), (snd (swallow m w))\<lparr>w_redis := r'\<rparr>)" by auto
qed

lemmas redis_blind_rules = redis_blind_basic redis_blind_bind redis_blind_then redis_blind_rethrow redis_blind_option
  redis_blind_mapE redis_blind_db redis_blind_swallow

lemma keeps_beside_raw:
  "keeps beside_redis (raw_get E k)" "keeps beside_redis (raw_mGet E ks)" "keeps beside_redis (raw_sMembers E k)"
  "keeps beside_redis (raw_write E c)" "keeps beside_redis (raw_exec E cs)"
  by (auto simp: keeps_def beside_redis_def raw_get_def raw_mGet_def raw_sMembers_def raw_write_def raw_exec_def
      on_redis_def zoomE_def split: prod.splits)

end
