(* ===== verification/UserProperties.thy ===== *)
theory UserProperties imports UserAccounts SessionProperties Frames begin

text \<open>
  The properties of user accounts: the life of an account, registration, activation, password
  reset, and what changes of an account or a role mean for open sessions.
\<close>

section \<open>The life of an account\<close>

text \<open>One step of the service on its users. \<open>step_elsewhere\<close> is any step that leaves the database
  alone: a login, a refresh, a mail, the passing of time.\<close>

inductive account_step :: "('r, 'd, 'q) env \<Rightarrow> ('r, 'd, 'q) world \<Rightarrow> ('r, 'd, 'q) world \<Rightarrow> bool"
  for E :: "('r, 'd, 'q) env" where
  step_register: "account_step E w (snd (register E password dto creator w))"
| step_assignRole: "account_step E w (snd (assignRole E uid rolesIds w))"
| step_firstActivation: "account_step E w (snd (firstActivation E email password new_password w))"
| step_activate: "account_step E w (snd (users_activate E uid w))"
| step_deactivate: "account_step E w (snd (users_deactivate E uid w))"
| step_resetPassword: "account_step E w (snd (resetPassword E token new_password w))"
| step_elsewhere: "w_db w' = w_db w \<Longrightarrow> account_step E w w'"

lemma account_step_ok:
  assumes "account_step E w w'" and ready: "users_ready E T w"
    and laws: "tx_laws E T" "orm_laws (roles_orm E) TR" "redis_laws (redis_api E) view up"
  shows "account_ok E T w w'"
  using assms(1)
proof cases
  case (step_register password dto creator)
  show ?thesis unfolding step_register
    by (rule wp_run [where Q = "account_ok E T w"], (rule wp_register [OF ready laws(1,2)]; assumption))
next
  case (step_assignRole uid rolesIds)
  show ?thesis unfolding step_assignRole
    by (rule wp_run [where Q = "account_ok E T w"], (rule wp_assignRole [OF ready laws(2,3)]; assumption))
next
  case (step_firstActivation email password new_password)
  show ?thesis unfolding step_firstActivation
    by (rule wp_run [where Q = "account_ok E T w"], (rule wp_firstActivation [OF ready]; assumption))
next
  case (step_activate uid)
  show ?thesis unfolding step_activate
    by (rule wp_run [where Q = "account_ok E T w"], (rule wp_users_activate [OF ready]; assumption))
next
  case (step_deactivate uid)
  show ?thesis unfolding step_deactivate
    by (rule wp_run [where Q = "account_ok E T w"], (rule wp_users_deactivate [OF ready]; assumption))
next
  case (step_resetPassword token new_password)
  show ?thesis unfolding step_resetPassword
    by (rule wp_run [where Q = "account_ok E T w"], (rule wp_resetPassword [OF ready laws(3)]; assumption))
next
  case step_elsewhere
  then show ?thesis by (rule account_ok_same [OF ready])
qed

text \<open>What a change of the table keeps of each account.\<close>

definition accounts_kept :: "user set \<Rightarrow> user set \<Rightarrow> bool" where
  "accounts_kept S S' \<longleftrightarrow> (\<forall>u \<in> S. \<exists>u' \<in> S'. u_id u' = u_id u \<and> u_email u' = u_email u \<and>
     u_person_id u' = u_person_id u \<and> (u_status u \<noteq> PENDING \<longrightarrow> u_status u' \<noteq> PENDING))"

lemma account_change_kept:
  assumes "account_change S S'" "inj_on u_id S"
  shows "accounts_kept S S'"
  using assms
proof (induction rule: account_change.induct)
  case (change_row u S u')
  let ?S' = "insert u' {x \<in> S. u_id x \<noteq> u_id u}"
  have st: "u_status u \<noteq> PENDING \<Longrightarrow> u_status u' \<noteq> PENDING"
    using change_row.hyps(5) by (auto elim: status_move.cases)
  show ?case unfolding accounts_kept_def
  proof
    fix v assume v: "v \<in> S"
    show "\<exists>v' \<in> ?S'. u_id v' = u_id v \<and> u_email v' = u_email v \<and> u_person_id v' = u_person_id v \<and>
        (u_status v \<noteq> PENDING \<longrightarrow> u_status v' \<noteq> PENDING)"
    proof (cases "u_id v = u_id u")
      case True
      then have "v = u" using change_row v by (auto dest: inj_onD)
      then show ?thesis using change_row st by auto
    qed (use v in auto)
  qed
qed (auto simp: accounts_kept_def)

lemma accounts_kept_trans: "accounts_kept S S' \<Longrightarrow> accounts_kept S' S'' \<Longrightarrow> accounts_kept S S''"
  unfolding accounts_kept_def by (metis (no_types, lifting))

text \<open>The life of an account, over any sequence of operations of the service in any order and
  with any outcome: no account disappears, none changes its identifier, address or person, and
  an account that has been activated never becomes pending again; the identifiers, addresses
  and persons of the table stay unique.\<close>

lemma account_history:
  assumes "(account_step E)\<^sup>*\<^sup>* w w'" "users_ready E T w"
    and "tx_laws E T" "orm_laws (roles_orm E) TR" "redis_laws (redis_api E) view up"
  shows "users_ready E T w' \<and> accounts_kept (rows T (w_db w)) (rows T (w_db w'))"
  using assms(1)
proof (induction rule: rtranclp_induct)
  case base
  with assms(2) show ?case by (auto simp: accounts_kept_def)
next
  case (step w1 w2)
  then have ok: "account_ok E T w1 w2"
    using account_step_ok assms(3,4,5) by blast
  then have "accounts_kept (rows T (w_db w1)) (rows T (w_db w2))"
    using step.IH by (intro account_change_kept users_readyD(5) [where w = w1]) (auto simp: account_ok_def)
  with step.IH ok show ?case by (auto simp: account_ok_def intro: accounts_kept_trans)
qed

text \<open>The pending account \<open>bob\<close> is activated and then deactivated; it is in the table ever after.\<close>

definition world_bob :: mem_world where
  "world_bob = snd (users_deactivate mem_env ''u2'' (snd (firstActivation mem_env ''bob'' ''tmp'' ''new'' world0)))"

lemma account_history_example:
  "u_status user_new = PENDING \<and> (\<exists>u \<in> rows mem_users (w_db world_bob). u_id u = ''u2'' \<and> u_email u = ''bob'') \<and>
   (\<exists>u \<in> rows mem_users (w_db world_bob). u_id u = ''u1'' \<and> u_status u \<noteq> PENDING)"
proof -
  let ?w1 = "snd (firstActivation mem_env ''bob'' ''tmp'' ''new'' world0)"
  have run: "(account_step mem_env)\<^sup>*\<^sup>* world0 world_bob"
    using account_step.step_firstActivation [of mem_env world0 "''bob''" "''tmp''" "''new''"]
      account_step.step_deactivate [of mem_env ?w1 "''u2''"]
    by (simp add: world_bob_def)
  have redis: "redis_laws (redis_api mem_env) mem_view m_up" by (simp add: mem_redis_laws)
  have kept: "accounts_kept (rows mem_users (w_db world0)) (rows mem_users (w_db world_bob))"
    using account_history [OF run world0_users_ready mem_tx_laws mem_env_laws(2) redis] by blast
  have "user_new \<in> rows mem_users (w_db world0)" "u_id user_new = ''u2''" "u_email user_new = ''bob''"
    "u_status user_new = PENDING"
    by (simp_all add: mem_tables world0_defs)
  with kept world0_ana show ?thesis by (fastforce simp: accounts_kept_def)
qed


section \<open>Registration\<close>

text \<open>C19. A registration is all or nothing: it either answers that the user was created and the
  table has exactly one more row, pending, with a fresh identifier, the address, person and roles
  asked for and the hash of the password; or it answers \<open>User registration failed\<close> and the table
  is as it was. It never touches Redis, and while the broker takes no mail it always fails, so no
  account exists whose password was not sent.\<close>

theorem register_atomic:
  assumes "users_ready E T w" "tx_laws E T" "orm_laws (roles_orm E) TR"
    and "register E password dto creator w = (res, w')"
  shows "users_ready E T w' \<and> w_redis w' = w_redis w \<and>
    (case res of
       Inr msg \<Rightarrow> msg = ''User '' @ dto_email dto @ '' created'' \<and> registered E T TR password dto creator w w' \<and> \<not> no_mail E
     | Inl e \<Rightarrow> rows T (w_db w') = rows T (w_db w) \<and>
         (\<exists>x. e = wrap_error UsersException ''User registration failed'' (UsersErrorCodes users_error.USER_NOT_REGISTERED)
                    INTERNAL_SERVER_ERROR x))"
proof -
  have "wp (register E password dto creator)
      (\<lambda>msg w'. users_ready E T w' \<and> w_redis w' = w_redis w \<and> msg = ''User '' @ dto_email dto @ '' created'' \<and>
        registered E T TR password dto creator w w')
      (\<lambda>e w'. users_ready E T w' \<and> w_redis w' = w_redis w \<and> rows T (w_db w') = rows T (w_db w) \<and>
        (\<exists>x. e = wrap_error UsersException ''User registration failed'' (UsersErrorCodes users_error.USER_NOT_REGISTERED)
                   INTERNAL_SERVER_ERROR x)) w"
    by (rule wp_register [OF assms(1-3)]) (auto simp: account_ok_def)
  moreover have "res \<noteq> Inr msg" if "no_mail E" for msg
    using rejects_register [OF that, of password dto creator] assms(4) by (auto elim: rejectsE [of _ w])
  ultimately show ?thesis
    using assms(4) by (auto simp: wp_def split: sum.splits)
qed

text \<open>A registration of \<open>eve\<close> with the role \<open>reader\<close>, and the same while the broker is down.\<close>

definition dto_eve :: register_dto where
  "dto_eve = \<lparr>dto_email = ''eve'', dto_person_id = ''x3'', dto_rolesIds = [''r1'']\<rparr>"

definition mem_env_no_mail :: mem_env where
  "mem_env_no_mail = mem_env\<lparr>email_emit := \<lambda>queue body q. (Inl db_down, q)\<rparr>"

lemma mem_mail: "\<exists>w'. send_template mem_env file data email subject text w = (Inr (), w')"
  by (simp add: send_template_def sendMail_def bindE_def loadTemplate_def on_mq_def zoomE_def mem_env_def
      split: option.splits)

lemma mem_commit: "tx_commit mem_env before now = (Inr (), now)"
  by (simp add: mem_env_def)

lemma eve_registers: "\<exists>w'. register mem_env ''pw'' dto_eve None world0 = (Inr ''User eve created'', w')"
proof -
  have role: "roles_findOne mem_env ''r1'' world0 = (Inr role_reader, world0)"
    by (simp add: roles_findOne_def rolesRepository_findOneById_def mem_env_def mem_orm_def on_db_def zoomE_def
        bindE_def readE_def returnE_def world0_defs)
  have saved: "\<exists>u w1. usersRepository_save mem_env (usersRepository_create dto_eve [role_reader] ''pw'' None) world0
      = (Inr u, w1) \<and> u_email u = ''eve''"
    by (simp add: usersRepository_save_def usersRepository_create_def before_save_def hasPasswordOnInsert_def mem_env_def
        mem_orm_def on_db_def zoomE_def dto_eve_def world0_defs columns_unique_def fresh_id_def Let_def)
  then obtain u w1 where s: "usersRepository_save mem_env (usersRepository_create dto_eve [role_reader] ''pw'' None) world0
      = (Inr u, w1)" "u_email u = ''eve''" by blast
  have mail: "\<exists>w2. sendRegistrationMail mem_env (u_email u) ''pw'' w1 = (Inr (), w2)"
    using mem_mail by (simp add: sendRegistrationMail_def bindE_def getE_def Let_def)
  then obtain w2 where m: "sendRegistrationMail mem_env (u_email u) ''pw'' w1 = (Inr (), w2)" by blast
  have ids: "mapE (roles_findOne mem_env) (dto_rolesIds dto_eve) world0 = (Inr [role_reader], world0)"
    by (simp add: dto_eve_def bindE_def role returnE_def)
  show ?thesis
    by (simp add: register_def rethrow_as_def catchE_def transaction_def bindE_def ids s thenE_def m [unfolded s(2)]
        returnE_def mem_commit)
qed

theorem register_atomic_witness:
  "(\<exists>u w'. register mem_env ''pw'' dto_eve None world0 = (Inr ''User eve created'', w') \<and>
      rows mem_users (w_db w') = {u, user_ana, user_new} \<and> u_email u = ''eve'' \<and> u_status u = PENDING \<and>
      u_password u = ''hash:pw'' \<and> u_roles u = Some [role_reader]) \<and>
   (\<exists>e w'. register mem_env_no_mail ''pw'' dto_eve None world0 = (Inl e, w') \<and>
      rows mem_users (w_db w') = {user_ana, user_new})"
proof
  have users: "rows mem_users (w_db world0) = {user_ana, user_new}"
    by (simp add: mem_tables) (simp add: world0_def db0_def)
  obtain w' where w': "register mem_env ''pw'' dto_eve None world0 = (Inr ''User eve created'', w')"
    using eve_registers by blast
  have "registered mem_env mem_users mem_roles ''pw'' dto_eve None world0 w'"
    using register_atomic [OF world0_users_ready mem_tx_laws mem_env_laws(2) w'] by simp
  then obtain u roles where u: "rows mem_users (w_db w') = insert u {user_ana, user_new}"
    "list_all2 (\<lambda>rid r. r \<in> rows mem_roles (w_db world0) \<and> r_id r = rid) (dto_rolesIds dto_eve) roles"
    "u = (hasPasswordOnInsert (bcrypt_hashSync mem_env) (usersRepository_create dto_eve roles ''pw'' None))\<lparr>u_id := u_id u\<rparr>"
    unfolding registered_def users by blast
  have "roles = [role_reader]"
    using u(2) by (auto simp: dto_eve_def list_all2_Cons1 mem_tables world0_def db0_def)
  then have "u_email u = ''eve'' \<and> u_status u = PENDING \<and> u_password u = ''hash:pw'' \<and> u_roles u = Some [role_reader]"
    by (subst (1 2 3 4) u(3)) (simp add: usersRepository_create_def hasPasswordOnInsert_def dto_eve_def mem_env_def)
  with u(1) w' show "\<exists>u w'. register mem_env ''pw'' dto_eve None world0 = (Inr ''User eve created'', w') \<and>
      rows mem_users (w_db w') = {u, user_ana, user_new} \<and> u_email u = ''eve'' \<and> u_status u = PENDING \<and>
      u_password u = ''hash:pw'' \<and> u_roles u = Some [role_reader]" by blast
  have down: "no_mail mem_env_no_mail" by (simp add: no_mail_def rejects_def mem_env_no_mail_def)
  have ready: "users_ready mem_env_no_mail mem_users world0" and tx: "tx_laws mem_env_no_mail mem_users"
    and roles: "orm_laws (roles_orm mem_env_no_mail) mem_roles"
    using world0_users_ready mem_tx_laws [of mem_users] mem_env_laws(2)
    by (simp_all add: mem_env_no_mail_def users_ready_def tx_laws_def)
  obtain e w2 where w2: "register mem_env_no_mail ''pw'' dto_eve None world0 = (Inl e, w2)"
    using rejects_register [OF down] by (rule rejectsE)
  then show "\<exists>e w'. register mem_env_no_mail ''pw'' dto_eve None world0 = (Inl e, w') \<and>
      rows mem_users (w_db w') = {user_ana, user_new}"
    using register_atomic [OF ready tx roles w2] users by auto
qed


section \<open>First activation\<close>

text \<open>What the documentation of bcrypt promises: a password matches its own hash.\<close>

definition bcrypt_law :: "('r, 'd, 'q) env \<Rightarrow> bool" where
  "bcrypt_law E \<longleftrightarrow> (\<forall>p n. bcrypt_compare E p (bcrypt_hashSync E p n))"

lemma hashed_password:
  "new \<noteq> '''' \<Longrightarrow> new \<noteq> u_password u \<Longrightarrow>
   u_password (hashPasswordOnUpdate h ((loadOriginalPassword u)\<lparr>u_password := new, u_status := s\<rparr>)) = h new 10"
  "new \<noteq> '''' \<Longrightarrow> new \<noteq> u_password u \<Longrightarrow>
   u_password (hashPasswordOnUpdate h ((loadOriginalPassword u)\<lparr>u_password := new\<rparr>)) = h new 10"
  by (simp_all add: hashPasswordOnUpdate_def loadOriginalPassword_def)

definition already_activated :: exn where
  "already_activated = users_exception ''User has already been activated'' users_error.USER_ALREADY_ACTIVE BAD_REQUEST None"

text \<open>C20. The first activation opens the account: while Redis and the database answer, tokens can be
  signed and \<open>JWT_REFRESH_EXPIRES_IN\<close> is set, after a first activation with a new password that is
  not empty and not itself the text of a stored hash, the new password, and not before, logs in, and
  the account cannot be activated a second time, with whatever passwords.\<close>

theorem first_activation_opens_login:
  assumes "session_ready E view up w" "users_ready E T w" "jwt_laws E" "signing E (w_now w)" "bcrypt_law E"
    and "getTtlFromEnv E ''JWT_REFRESH_EXPIRES_IN'' = Inr t"
    and "new \<noteq> ''''" "\<forall>u \<in> rows T (w_db w). new \<noteq> u_password u"
    and "firstActivation E email password new w = (Inr m, w')"
  shows "(\<forall>pw sid req. \<exists>e. logIn E sid email pw req w = (Inl e, w)) \<and>
    (\<forall>sid req. \<exists>tk w''. logIn E sid email new req w' = (Inr tk, w'')) \<and>
    (\<forall>pw new2. firstActivation E email pw new2 w' = (Inl already_activated, w'))"
proof -
  have step: "wp (firstActivation E email password new) (\<lambda>m w'. \<exists>u. u \<in> rows T (w_db w) \<and> u_email u = email \<and>
      u_status u = PENDING \<and> users_ready E T w' \<and> w_redis w' = w_redis w \<and> w_now w' = w_now w \<and>
      hashPasswordOnUpdate (bcrypt_hashSync E) ((loadOriginalPassword u)\<lparr>u_password := new, u_status := ACTIVE\<rparr>)
        \<in> rows T (w_db w')) (\<lambda>_ _. True) w"
    by (rule wp_firstActivation [OF assms(2)]) (auto simp: account_ok_def saved_rows_def)
  then obtain u where u: "u \<in> rows T (w_db w)" "u_email u = email" "u_status u = PENDING"
    and w': "users_ready E T w'" "w_redis w' = w_redis w" "w_now w' = w_now w"
    and row: "hashPasswordOnUpdate (bcrypt_hashSync E) ((loadOriginalPassword u)\<lparr>u_password := new, u_status := ACTIVE\<rparr>)
        \<in> rows T (w_db w')" (is "?u \<in> _")
    using wp_runR [OF step assms(9)] by blast
  have hash: "u_email ?u = email" "u_status ?u = ACTIVE" "bcrypt_compare E new (u_password ?u)"
    using u assms(5,7,8) by (simp_all add: hashed_password bcrypt_law_def)
  have ready': "session_ready E view up w'" using assms(1) w'(2) by (simp add: session_ready_def)
  have "\<exists>e. logIn E sid email pw req w = (Inl e, w)" for pw sid req
    using logIn_run(1) [OF assms(2) u(1,2)] u(3) by simp
  moreover have "\<exists>tk w''. logIn E sid email new req w' = (Inr tk, w'')" for sid req
  proof -
    have "wp (issue_session E sid (loadOriginalPassword ?u) req) (\<lambda>_ _. True) (\<lambda>_ _. False) w'"
      by (rule wp_issue_session [OF ready' assms(3,6)]) (simp_all add: w'(3) assms(4))
    from wp_returns [OF this] show ?thesis
      using logIn_run(1) [OF w'(1) row hash(1)] hash by auto
  qed
  moreover have "firstActivation E email pw new2 w' = (Inl already_activated, w')" for pw new2
    using findByEmail_run(1) [OF w'(1) row hash(1)] hash(2)
    by (simp add: firstActivation_def bindE_def throwE_def already_activated_def)
  ultimately show ?thesis by blast
qed

theorem first_activation_opens_login_witness:
  "\<exists>w'. firstActivation mem_env ''bob'' ''tmp'' ''new'' world0 = (Inr ''User activated successfully'', w') \<and>
     (\<exists>tk w''. logIn mem_env ''s9'' ''bob'' ''new'' request0 w' = (Inr tk, w'')) \<and>
     firstActivation mem_env ''bob'' ''new'' ''newer'' w' = (Inl already_activated, w')"
proof -
  have sign: "signing mem_env (w_now world0)" by (simp add: world0_now mem_signing)
  have law: "bcrypt_law mem_env" by (simp add: bcrypt_law_def mem_env_def)
  have fresh: "\<forall>u \<in> rows mem_users (w_db world0). ''new'' \<noteq> u_password u"
    by (simp add: mem_tables world0_defs)
  have "\<exists>w'. firstActivation mem_env ''bob'' ''tmp'' ''new'' world0 = (Inr ''User activated successfully'', w')"
    by (simp add: firstActivation_def findByEmail_def usersRepository_findOneByEmail_def load_one_def
        usersRepository_save_def before_save_def hashPasswordOnUpdate_def loadOriginalPassword_def
        mem_env_def mem_orm_def on_db_def zoomE_def bindE_def thenE_def readE_def returnE_def world0_defs
        columns_unique_def Let_def)
  then obtain w' where w': "firstActivation mem_env ''bob'' ''tmp'' ''new'' world0 = (Inr ''User activated successfully'', w')"
    by blast
  from first_activation_opens_login [OF world0_session_ready world0_users_ready mem_jwt_laws sign law mem_ttl _ fresh w']
  show ?thesis using w' by simp
qed


section \<open>Password reset\<close>

text \<open>C21. A password reset: the token that \<open>forgotPassword\<close> stored and mailed for an address
  resets the password of that account and of no other, the new password then matches, status and
  roles stay, and the token works once: whatever the first attempt answered, a second is refused
  and leaves the database as it is.\<close>

theorem password_reset_once:
  assumes "users_ready E T w" "redis_laws (redis_api E) view up" "up (w_redis w)" "bcrypt_law E"
    and "u \<in> rows T (w_db w)" "forgotPassword E token (u_email u) w = (Inr m, w1)"
    and "resetPassword E token new w1 = (res, w2)"
  shows "(is_ok res \<longrightarrow> (\<exists>u'. rows T (w_db w2) = insert u' {x \<in> rows T (w_db w). u_id x \<noteq> u_id u} \<and>
        u_id u' = u_id u \<and> u_email u' = u_email u \<and> u_status u' = u_status u \<and> u_roles u' = u_roles u \<and>
        (new \<noteq> '''' \<longrightarrow> new \<noteq> u_password u \<longrightarrow> bcrypt_compare E new (u_password u')))) \<and>
    (\<forall>new2. \<exists>w3. resetPassword E token new2 w2 = (Inl reset_invalid, w3) \<and> w_db w3 = w_db w2)"
proof -
  have forgot: "wp (forgotPassword E token (u_email u)) (\<lambda>_ w1. w_db w1 = w_db w \<and> up (w_redis w1) \<and>
      val (view (w_redis w1)) (reset_key token) = Some (ResetDoc \<lparr>rp_id = u_id u\<rparr>)) (\<lambda>_ _. True) w"
    by (rule wp_forgotPassword [OF assms(1,2,3,5) refl]) auto
  have w1: "w_db w1 = w_db w" "up (w_redis w1)"
    "val (view (w_redis w1)) (reset_key token) = Some (ResetDoc \<lparr>rp_id = u_id u\<rparr>)"
    using wp_runR [OF forgot assms(6)] by simp_all
  have ready1: "users_ready E T w1" using assms(1) w1(1) by (simp add: users_ready_def)
  let ?u = "hashPasswordOnUpdate (bcrypt_hashSync E) ((loadOriginalPassword u)\<lparr>u_password := new\<rparr>)"
  let ?after = "\<lambda>w2. users_ready E T w2 \<and> up (w_redis w2) \<and> val (view (w_redis w2)) (reset_key token) = None"
  have unique: "v = u" if "v \<in> rows T (w_db w1)" "u_id v = u_id u" for v
    using that users_readyD(5) [OF assms(1)] assms(5) w1(1) by (auto dest: inj_onD)
  have reset: "wp (resetPassword E token new) (\<lambda>_ w2. ?after w2 \<and> rows T (w_db w2) = saved_rows T ?u (rows T (w_db w)))
      (\<lambda>_ w2. ?after w2) w1"
  proof (rule wp_resetPassword [OF ready1 assms(2)], goal_cases)
    case (1 p v w')
    have "p = \<lparr>rp_id = u_id u\<rparr>" using 1(1) w1(3) by simp
    then have "v = u" using 1(2,3) by (intro unique) simp_all
    with 1 w1 show ?case by (simp add: account_ok_def)
  next
    case (2 x w')
    with w1 show ?case by (simp add: account_ok_def)
  qed
  have after: "?after w2" and rows: "is_ok res \<longrightarrow> rows T (w_db w2) = saved_rows T ?u (rows T (w_db w))"
    using reset assms(7) by (auto simp: wp_def split: sum.splits)
  have "\<exists>w3. resetPassword E token new2 w2 = (Inl reset_invalid, w3) \<and> w_db w3 = w_db w2" for new2
  proof -
    have "wp (resetPassword E token new2) (\<lambda>_ _. False) (\<lambda>x w3. x = reset_invalid \<and> w_db w3 = w_db w2) w2"
      by (rule wp_resetPassword [of E T _ view up]) (use after assms(2) in auto)
    from wp_fails [OF this] show ?thesis by blast
  qed
  moreover have "new \<noteq> '''' \<longrightarrow> new \<noteq> u_password u \<longrightarrow> bcrypt_compare E new (u_password ?u)"
    using assms(4) by (simp add: hashed_password bcrypt_law_def)
  ultimately show ?thesis
    using rows by (auto simp: saved_rows_def users_readyD(7) [OF assms(1)])
qed

text \<open>\<open>ana\<close> asks for a reset and uses the token \<open>t1\<close>.\<close>

lemma wp_mem_mail:
  assumes "\<And>w'. mailed w w' \<Longrightarrow> Q () w'"
  shows "wp (send_template mem_env file data email subject text) Q F w"
proof -
  have "wp (send_template mem_env file data email subject text) (\<lambda>_. mailed w) (\<lambda>_. mailed w) w"
    by (rule wp_send_template)
  with mem_mail [of "file" "data" "email" "subject" "text" "w"] assms show ?thesis by (auto simp: wp_def)
qed

lemma mem_forgot: "\<exists>w1. forgotPassword mem_env ''t1'' ''ana'' world0 =
    (Inr ''If the email exists, a reset password link will be sent to it.'', w1) \<and>
    w_db w1 = db0 \<and> m_up (w_redis w1) \<and>
    val (mem_view (w_redis w1)) (reset_key ''t1'') = Some (ResetDoc \<lparr>rp_id = ''u1''\<rparr>)"
proof -
  have redis: "redis_laws (redis_api mem_env) mem_view m_up" by (simp add: mem_redis_laws)
  have "wp (forgotPassword mem_env ''t1'' ''ana'') (\<lambda>m w1. m = ''If the email exists, a reset password link will be sent to it.'' \<and>
      w_db w1 = db0 \<and> m_up (w_redis w1) \<and>
      val (mem_view (w_redis w1)) (reset_key ''t1'') = Some (ResetDoc \<lparr>rp_id = ''u1''\<rparr>)) (\<lambda>_ _. False) world0"
    unfolding forgotPassword_def wp_bind
  proof (rule wp_findByEmail [OF world0_users_ready], goal_cases)
    case (1 u)
    then have u: "u = user_ana" by (auto simp: mem_tables world0_defs)
    show ?case unfolding option.case wp mem_ttl sum.case sendResetPasswordMail_def Let_def
      by (rule wp_raw_write [OF redis], rule wp_mem_mail)
        (use u in \<open>auto simp: mailed_def world0_def redis0_def user_ana_def\<close>)
  qed (use world0_ana in blast)
  from wp_returns [OF this] show ?thesis by auto
qed


lemma mem_save_ana: "w_db w = db0 \<Longrightarrow>
    \<exists>u w'. usersRepository_save mem_env ((loadOriginalPassword user_ana)\<lparr>u_password := pw\<rparr>) w = (Inr u, w')"
  by (simp add: usersRepository_save_def before_save_def hashPasswordOnUpdate_def loadOriginalPassword_def
      mem_env_def mem_orm_def on_db_def zoomE_def db0_def user_ana_def user_new_def columns_unique_def Let_def)

lemma mem_reset:
  assumes w1: "w_db w1 = db0" "m_up (w_redis w1)"
    "val (mem_view (w_redis w1)) (reset_key token) = Some (ResetDoc \<lparr>rp_id = ''u1''\<rparr>)"
  shows "\<exists>w2. resetPassword mem_env token pw w1 = (Inr ''Password reset successfully'', w2)"
proof -
  have redis: "redis_laws (redis_api mem_env) mem_view m_up" by (simp add: mem_redis_laws)
  have "wp (resetPassword mem_env token pw) (\<lambda>m _. m = ''Password reset successfully'') (\<lambda>_ _. False) w1"
    unfolding resetPassword_def wp_bind
  proof (rule wp_raw_getDel [OF redis], goal_cases)
    case (1 r')
    let ?w = "w1\<lparr>w_redis := r'\<rparr>"
    have ready: "users_ready mem_env mem_users ?w"
      using world0_users_ready w1(1) by (simp add: users_ready_def) (simp add: world0_def)
    obtain u w' where save: "usersRepository_save mem_env ((loadOriginalPassword user_ana)\<lparr>u_password := pw\<rparr>) ?w = (Inr u, w')"
      using mem_save_ana [of ?w pw] w1(1) by auto
    have find: "users_findOne mem_env ''u1'' ?w = (Inr (loadOriginalPassword user_ana), ?w)"
      by (rule users_findOne_run(1) [OF ready]) (use world0_ana w1(1) in \<open>simp_all add: world0_def\<close>)
    have mail: "wp (confirmPasswordChange mem_env (u_email (loadOriginalPassword user_ana)))
        (\<lambda>_ _. ''Password reset successfully'' = ''Password reset successfully'') (\<lambda>_ _. False) w'"
      unfolding confirmPasswordChange_def Let_def wp_bind wp_get by (rule wp_mem_mail) simp
    show ?case
      unfolding w1(3) parse_or_null_simps wp sum.case option.case
      using find save mail by (simp add: wp_def)
  qed (use w1(2) in simp)
  from wp_returns [OF this] show ?thesis by auto
qed

theorem password_reset_once_witness:
  "\<exists>m w1 m2 w2 w3. forgotPassword mem_env ''t1'' ''ana'' world0 = (Inr m, w1) \<and>
     resetPassword mem_env ''t1'' ''fresh'' w1 = (Inr m2, w2) \<and>
     (\<exists>u \<in> rows mem_users (w_db w2). u_id u = ''u1'' \<and> u_password u = ''hash:fresh'') \<and>
     resetPassword mem_env ''t1'' ''again'' w2 = (Inl reset_invalid, w3)"
proof -
  have redis: "redis_laws (redis_api mem_env) mem_view m_up" by (simp add: mem_redis_laws)
  have up: "m_up (w_redis world0)" by (simp add: world0_def redis0_def)
  have law: "bcrypt_law mem_env" by (simp add: bcrypt_law_def mem_env_def)
  obtain m w1 where w1: "forgotPassword mem_env ''t1'' (u_email user_ana) world0 = (Inr m, w1)" "w_db w1 = db0"
    "m_up (w_redis w1)" "val (mem_view (w_redis w1)) (reset_key ''t1'') = Some (ResetDoc \<lparr>rp_id = ''u1''\<rparr>)"
    using mem_forgot world0_ana(2) by auto
  obtain m2 w2 where w2: "resetPassword mem_env ''t1'' ''fresh'' w1 = (Inr m2, w2)"
    using mem_reset [OF w1(2,3,4)] by blast
  note once = password_reset_once [OF world0_users_ready redis up law world0_ana(1) w1(1) w2]
  obtain w3 where w3: "resetPassword mem_env ''t1'' ''again'' w2 = (Inl reset_invalid, w3)"
    using once by blast
  have "\<exists>u'. rows mem_users (w_db w2) = insert u' {x \<in> rows mem_users (w_db world0). u_id x \<noteq> u_id user_ana} \<and>
      u_id u' = u_id user_ana \<and> bcrypt_compare mem_env ''fresh'' (u_password u')"
    using once by (auto simp: world0_defs)
  then have "\<exists>u \<in> rows mem_users (w_db w2). u_id u = ''u1'' \<and> u_password u = ''hash:fresh''"
    using world0_ana(3) by (auto simp: mem_env_def)
  with w1(1) w2 w3 world0_ana(2) show ?thesis by auto
qed

text \<open>A reset token whose account has been removed: the service means to answer it like an invalid
  token (401, \<open>RESET_PASSWORD_USER_NOT_FOUND\<close>), but tests for the framework's
  \<open>NotFoundException\<close>, which \<open>findOne\<close> never throws, so the 404 with the identifier of the
  account leaks to the caller.\<close>

lemma reset_of_removed_user_leaks_404:
  assumes "users_ready E T w" "redis_laws (redis_api E) view up" "up (w_redis w)"
    and "val (view (w_redis w)) (reset_key token) = Some (ResetDoc p)" "\<forall>u \<in> rows T (w_db w). u_id u \<noteq> rp_id p"
  shows "\<exists>w'. resetPassword E token new w = (Inl (users_exception (''User with id '' @ rp_id p @ '' not found'')
      users_error.USER_NOT_FOUND NOT_FOUND None), w') \<and> w_db w' = w_db w \<and>
      val (view (w_redis w')) (reset_key token) = None"
proof -
  have "wp (resetPassword E token new) (\<lambda>_ _. False) (\<lambda>e w'. e = users_exception (''User with id '' @ rp_id p @ '' not found'')
      users_error.USER_NOT_FOUND NOT_FOUND None \<and> w_db w' = w_db w \<and> val (view (w_redis w')) (reset_key token) = None) w"
    by (rule wp_resetPassword [OF assms(1,2)]) (use assms(3-5) in auto)
  from wp_fails [OF this] show ?thesis by auto
qed

definition world_removed :: mem_world where
  "world_removed = world0\<lparr>w_redis := redis0\<lparr>m_strs := [reset_key ''t1'' \<mapsto> (ResetDoc \<lparr>rp_id = ''u7''\<rparr>, Some 9)]\<rparr>\<rparr>"

lemma reset_of_removed_user_leaks_404_example:
  "\<exists>w'. resetPassword mem_env ''t1'' ''fresh'' world_removed =
     (Inl (users_exception ''User with id u7 not found'' users_error.USER_NOT_FOUND NOT_FOUND None), w')"
proof -
  have redis: "redis_laws (redis_api mem_env) mem_view m_up" by (simp add: mem_redis_laws)
  have ready: "users_ready mem_env mem_users world_removed"
    using world0_users_ready by (simp add: world_removed_def)
  have up: "m_up (w_redis world_removed)" by (simp add: world_removed_def redis0_def)
  have doc: "val (mem_view (w_redis world_removed)) (reset_key ''t1'') = Some (ResetDoc \<lparr>rp_id = ''u7''\<rparr>)"
    by (simp add: world_removed_def val_mem_view)
  have none: "\<forall>u \<in> rows mem_users (w_db world_removed). u_id u \<noteq> rp_id \<lparr>rp_id = ''u7''\<rparr>"
    by (simp add: world_removed_def mem_tables world0_defs)
  from reset_of_removed_user_leaks_404 [OF ready redis up doc none, of "''fresh''"] show ?thesis by auto
qed


section \<open>Accounts and open sessions\<close>

text \<open>C22. Deactivating an account closes the login and nothing else: from then on a login with the
  right password is refused, but a refresh token of a live session of the account is still
  exchanged for new tokens, because \<open>refreshToken\<close> does not look at the status.\<close>

theorem deactivated_account_refreshes:
  assumes "session_ready E view up w" "users_ready E T w" "jwt_laws E" "signing E (w_now w)"
    and "payload_of E rt RefreshToken (w_now w) = Inr p" "sess view w (the (pl_sid p)) = Some s" "s_active s"
    and "users_deactivate E (s_user_id s) w = (Inr m, w')"
  shows "(\<exists>u \<in> rows T (w_db w'). u_id u = s_user_id s \<and> (\<forall>sid pw req. bcrypt_compare E pw (u_password u) \<longrightarrow>
      logIn E sid (u_email u) pw req w' =
        (Inl (users_exception ''This user is not active'' users_error.USER_INACTIVE UNAUTHORIZED None), w'))) \<and>
    (\<exists>tk w''. users_refreshToken E rt w' = (Inr tk, w''))"
proof -
  have step: "wp (users_deactivate E (s_user_id s)) (\<lambda>_ w'. \<exists>u d'. w' = w\<lparr>w_db := d'\<rparr> \<and> users_ready E T w' \<and>
      u \<in> rows T d' \<and> u_id u = s_user_id s \<and> u_status u = INACTIVE) (\<lambda>_ _. True) w"
  proof (rule wp_users_deactivate [OF assms(2)], goal_cases)
    case (1 u d')
    then show ?case
      by (intro exI [of _ "(loadOriginalPassword u)\<lparr>u_status := INACTIVE\<rparr>"] exI [of _ d'])
        (simp add: account_ok_def saved_rows_def)
  qed simp
  obtain u d' where w': "w' = w\<lparr>w_db := d'\<rparr>" "users_ready E T w'" and u: "u \<in> rows T (w_db w')"
    "u_id u = s_user_id s" "u_status u = INACTIVE"
    using wp_runR [OF step assms(8)] by auto
  have ready': "session_ready E view up w'" using assms(1) w'(1) by (simp add: session_ready_def)
  have sign: "signing E (w_now w')" and p: "payload_of E rt RefreshToken (w_now w') = Inr p"
    and s: "sess view w' (the (pl_sid p)) = Some s"
    using assms(4-6) w'(1) by simp_all
  have "\<exists>tk w''. users_refreshToken E rt w' = (Inr tk, w'')"
    using refreshToken_renews_session_parts(1) [OF ready' w'(2) assms(3) sign, of rt] p s assms(7) u(1,2) by blast
  moreover have "logIn E sid (u_email u) pw req w' =
      (Inl (users_exception ''This user is not active'' users_error.USER_INACTIVE UNAUTHORIZED None), w')"
    if "bcrypt_compare E pw (u_password u)" for sid pw req
    using logIn_run(1) [OF w'(2) u(1) refl] that u(3) by simp
  ultimately show ?thesis using u(1,2) by blast
qed

theorem deactivated_account_refreshes_witness:
  "\<exists>m w' tk w''. users_deactivate mem_env ''u1'' world0 = (Inr m, w') \<and>
     users_refreshToken mem_env refresh_ana w' = (Inr tk, w'')"
proof -
  have sign: "signing mem_env (w_now world0)" by (simp add: world0_now mem_signing)
  have p: "payload_of mem_env refresh_ana RefreshToken (w_now world0) = Inr (signed_claims (''ana'', ''s1'') 3600)"
    by (simp add: world0_now refresh_ana_payload)
  have s: "sess mem_view world0 (the (pl_sid (signed_claims (''ana'', ''s1'') 3600))) = Some session_ana"
    by (simp add: signed_claims_def world0_session)
  have "\<exists>w'. users_deactivate mem_env ''u1'' world0 = (Inr ''User deactivated successfully'', w')"
    by (simp add: users_deactivate_def users_findOne_def usersRepository_findOneById_def load_one_def
        usersRepository_save_def before_save_def hashPasswordOnUpdate_def loadOriginalPassword_def
        mem_env_def mem_orm_def on_db_def zoomE_def bindE_def thenE_def readE_def returnE_def world0_defs
        columns_unique_def Let_def)
  then obtain w' where w': "users_deactivate mem_env (s_user_id session_ana) world0 =
      (Inr ''User deactivated successfully'', w')" by (auto simp: session_ana_def)
  have "s_active session_ana" by (simp add: session_ana_def)
  from deactivated_account_refreshes [OF world0_session_ready world0_users_ready mem_jwt_laws sign p s this w'] w'
  show ?thesis by (auto simp: session_ana_def)
qed

lemma users_canDo_live:
  assumes "redis_laws (redis_api E) view up" "up (w_redis w)" "sess view w (au_session_id user) = Some s" "s_active s"
  shows "users_canDo E user code w = (Inr (js_includes (s_permissions s) code), w)"
proof -
  have v: "val (view (w_redis w)) (session_key (au_session_id user)) = Some (SessionDoc s)"
    using assms(3) by (simp add: session_at_Some)
  show ?thesis
    by (simp add: users_canDo_def read_session_def bindE_def raw_get_run [OF assms(1,2)] v liftE_def returnE_def assms(4))
qed

text \<open>Whether roles are assigned does not depend on Redis.\<close>

lemma keeps_beside_refresh: "keeps beside_redis (refreshSessionPermissions E i perms)"
  unfolding refreshSessionPermissions_def by (intro keeps_rules keeps_beside_raw)

lemma assignRole_blind: "redis_blind (assignRole E uid rolesIds)"
  unfolding assignRole_def users_findOne_def usersRepository_findOneById_def load_one_def usersRepository_save_def
    roles_findOne_def rolesRepository_findOneById_def
  by (intro redis_blind_rules keeps_beside_refresh)

text \<open>C23. New roles reach the open sessions. If \<open>assignRole\<close> answers, the row has exactly the roles
  asked for, and while Redis answers every session in the index of the user holds the permission
  codes of these roles, so \<open>canDo\<close> answers with the new permissions, and no session of another user
  changes. If it rejects, the accounts and Redis are as they were. Its answer and what it does to the
  database do not depend on Redis at all: with Redis down the roles are saved all the same.\<close>

theorem assignRole_reaches_sessions:
  assumes "users_ready E T w" "orm_laws (roles_orm E) TR" "redis_laws (redis_api E) view up"
    and "assignRole E uid rolesIds w = (res, w')"
  shows "(\<forall>saved. res = Inr saved \<longrightarrow>
      (\<exists>roles asked. u_roles saved = Some roles \<and> saved \<in> rows T (w_db w') \<and> u_id saved = uid \<and>
        list_all2 (\<lambda>rid r. r \<in> rows TR (w_db w) \<and> r_id r = rid) rolesIds asked \<and> set roles = set asked) \<and>
      (up (w_redis w) \<longrightarrow>
        (\<forall>sid. sess view w' sid =
           (if sid \<in> sets (view (w_redis w)) (user_index uid)
            then map_option (\<lambda>s. s\<lparr>s_permissions := user_permissionCodes saved\<rparr>) (sess view w sid)
            else sess view w sid)) \<and>
        (\<forall>user s code. au_session_id user \<in> sets (view (w_redis w)) (user_index uid) \<longrightarrow>
           sess view w (au_session_id user) = Some s \<longrightarrow> s_active s \<longrightarrow>
           users_canDo E user code w' = (Inr (code \<in> set (user_permissionCodes saved)), w')))) \<and>
    (\<forall>error. res = Inl error \<longrightarrow> rows T (w_db w') = rows T (w_db w) \<and> w_redis w' = w_redis w) \<and>
    (\<forall>r. \<exists>w2. assignRole E uid rolesIds (w\<lparr>w_redis := r\<rparr>) = (res, w2) \<and> w_db w2 = w_db w')"
proof -
  have step: "wp (assignRole E uid rolesIds) (\<lambda>saved w'.
      (\<exists>roles asked. u_roles saved = Some roles \<and> saved \<in> rows T (w_db w') \<and> u_id saved = uid \<and>
        list_all2 (\<lambda>rid r. r \<in> rows TR (w_db w) \<and> r_id r = rid) rolesIds asked \<and> set roles = set asked) \<and>
      (up (w_redis w) \<longrightarrow> up (w_redis w') \<and>
        permissions_refreshed uid (user_permissionCodes saved) (view (w_redis w)) (view (w_redis w'))))
      (\<lambda>_ w'. rows T (w_db w') = rows T (w_db w) \<and> w_redis w' = w_redis w) w"
  proof (rule wp_assignRole [OF assms(1-3)], goal_cases)
    case (1 u roles w')
    have "user_permissionCodes ((loadOriginalPassword u)\<lparr>u_roles := Some roles\<rparr>) = user_permissionCodes (u\<lparr>u_roles := Some roles\<rparr>)"
      by (simp add: user_permissionCodes_def)
    with 1 show ?case by (auto simp: saved_rows_def intro!: exI [where x = roles])
  qed simp
  have eff: "assignRole E uid rolesIds w = (Inr saved, w')" if "res = Inr saved" for saved using assms(4) that by simp
  note eff = eff [THEN wp_runR [OF step]]
  have kept: "rows T (w_db w') = rows T (w_db w) \<and> w_redis w' = w_redis w" if "res = Inl error" for error
    using wp_runL [OF step] assms(4) that by blast
  have blind: "\<exists>w2. assignRole E uid rolesIds (w\<lparr>w_redis := r\<rparr>) = (res, w2) \<and> w_db w2 = w_db w'" for r
    using redis_blindD [OF assignRole_blind [of E uid rolesIds], where w = w and r = r] assms(4)
    by (cases "assignRole E uid rolesIds (w\<lparr>w_redis := r\<rparr>)") (auto simp: beside_redis_def)
  have can: "users_canDo E user code w' = (Inr (code \<in> set (user_permissionCodes saved)), w')"
    if "res = Inr saved" "up (w_redis w)" "au_session_id user \<in> sets (view (w_redis w)) (user_index uid)"
      "sess view w (au_session_id user) = Some s" "s_active s" for saved user s code
  proof -
    have r: "permissions_refreshed uid (user_permissionCodes saved) (view (w_redis w)) (view (w_redis w'))" "up (w_redis w')"
      using eff [OF that(1)] that(2) by auto
    have "sess view w' (au_session_id user) = Some (s\<lparr>s_permissions := user_permissionCodes saved\<rparr>)"
      using r(1) that by (simp add: permissions_refreshed_def)
    then show ?thesis using that(5)
      by (simp add: users_canDo_live [OF assms(3) r(2)] js_includes_iff)
  qed
  show ?thesis
  proof (intro conjI allI impI, goal_cases)
    case (2 saved sid)
    then show ?case using eff by (simp add: permissions_refreshed_def)
  qed (use eff can kept blind in blast)+
qed

text \<open>\<open>ana\<close> loses every role while her session \<open>s1\<close> is open; and so she does while Redis is down.\<close>

theorem assignRole_reaches_sessions_witness:
  "\<exists>saved w'. assignRole mem_env ''u1'' [] world0 = (Inr saved, w') \<and>
     sess mem_view w' ''s1'' = Some (session_ana\<lparr>s_permissions := []\<rparr>) \<and>
     users_canDo mem_env auth_ana ''USERS_READ'' w' = (Inr False, w') \<and>
     (\<exists>w2. assignRole mem_env ''u1'' [] (world0\<lparr>w_redis := redis0\<lparr>m_up := False\<rparr>\<rparr>) = (Inr saved, w2) \<and> w_db w2 = w_db w')"
proof -
  have redis: "redis_laws (redis_api mem_env) mem_view m_up" by (simp add: mem_redis_laws)
  have up: "m_up (w_redis world0)" by (simp add: world0_def redis0_def)
  have find: "users_findOne mem_env ''u1'' world0 = (Inr (loadOriginalPassword user_ana), world0)"
    by (rule users_findOne_run(1) [OF world0_users_ready]) (simp_all add: world0_ana)
  have "\<exists>u w1. usersRepository_save mem_env ((loadOriginalPassword user_ana)\<lparr>u_roles := Some []\<rparr>) world0 = (Inr u, w1)"
    by (simp add: usersRepository_save_def before_save_def hashPasswordOnUpdate_def loadOriginalPassword_def
        mem_env_def mem_orm_def on_db_def zoomE_def world0_defs columns_unique_def Let_def)
  then have "\<exists>saved w'. assignRole mem_env ''u1'' [] world0 = (Inr saved, w')"
    by (auto simp: assignRole_def bindE_def find returnE_def thenE_def swallow_def catchE_def
        split: sum.splits prod.splits)
  then obtain saved w' where run: "assignRole mem_env ''u1'' [] world0 = (Inr saved, w')" by blast
  note reaches = assignRole_reaches_sessions [OF world0_users_ready mem_env_laws(2) redis run]
  note reach = reaches [THEN conjunct1, THEN spec, THEN mp, OF refl]
  from reach have "u_roles saved = Some []" by auto
  then have codes: "user_permissionCodes saved = []" by (simp add: user_permissionCodes_def)
  have "sess mem_view w' ''s1'' = Some (session_ana\<lparr>s_permissions := []\<rparr>)"
    using reach up by (simp add: world0_index world0_session codes)
  moreover have "users_canDo mem_env auth_ana ''USERS_READ'' w' = (Inr False, w')"
    using reach up by (simp add: world0_index auth_ana_def world0_session codes session_ana_def)
  ultimately show ?thesis using run reaches by blast
qed

end
