(* ===== verification/RoleProperties.thy ===== *)
theory RoleProperties imports SessionProperties Frames begin

text \<open>
  What a change of a role's permissions means for the sessions that are open: the propagation
  from the table of roles through the users of the role to their session documents.
\<close>

lemma keeps_db_refresh_by_role: "keeps w_db (refreshSessionPermissionsByRole E rid)"
  unfolding refreshSessionPermissionsByRole_def refreshSessionPermissions_def
  by (intro keeps_rules keeps_forE keeps_readonly [OF readonly_on_db]) simp

lemma wp_refreshSessionPermissionsByRole:
  assumes laws: "redis_laws (redis_api E) view up" "up (w_redis w)"
    and Q: "\<And>us r'. users_by_role E (\<lambda>role. r_id role = rid) (w_db w) = Inr us \<Longrightarrow>
      refreshes us (view (w_redis w)) (view r') \<Longrightarrow> Q () (w\<lparr>w_redis := r'\<rparr>)"
    and F: "\<And>e. users_by_role E (\<lambda>role. r_id role = rid) (w_db w) = Inl e \<Longrightarrow> F e w"
  shows "wp (refreshSessionPermissionsByRole E rid) Q F w"
proof (cases "users_by_role E (\<lambda>role. r_id role = rid) (w_db w)")
  case (Inr us)
  have "wp (forE us (\<lambda>user. refreshSessionPermissions E (u_id user) (user_permissionCodes user))) Q F w"
    by (rule wp_forE_refresh [OF laws]) (rule Q [OF Inr])
  moreover have "Q () w" if "us = []"
    using Q [of us "w_redis w"] Inr that by (simp add: refreshes_Nil)
  ultimately show ?thesis using Inr by (simp add: refreshSessionPermissionsByRole_def wp wp_on_db)
qed (simp add: refreshSessionPermissionsByRole_def wp wp_on_db F)

text \<open>The refresh with its errors swallowed: the database stays, and while Redis answers the users
  the query answers are refreshed.\<close>

lemma wp_swallowed_refresh:
  assumes laws: "redis_laws (redis_api E) view up"
    and Q: "\<And>w'. w_db w' = w_db w \<Longrightarrow> (\<And>us. up (w_redis w) \<Longrightarrow>
        users_by_role E (\<lambda>role. r_id role = rid) (w_db w) = Inr us \<Longrightarrow>
        refreshes us (view (w_redis w)) (view (w_redis w'))) \<Longrightarrow> Q () w'"
  shows "wp (swallow (refreshSessionPermissionsByRole E rid)) Q F w"
proof (rule wp_with_keeps [OF keeps_swallow [OF keeps_db_refresh_by_role]], unfold wp_swallow, cases "up (w_redis w)")
  case True
  show "wp (refreshSessionPermissionsByRole E rid) (\<lambda>a t. w_db t = w_db w \<longrightarrow> Q a t)
      (\<lambda>e t. w_db t = w_db w \<longrightarrow> Q () t) w"
    by (rule wp_refreshSessionPermissionsByRole [OF laws True]) (auto intro!: Q)
next
  case False
  show "wp (refreshSessionPermissionsByRole E rid) (\<lambda>a t. w_db t = w_db w \<longrightarrow> Q a t)
      (\<lambda>e t. w_db t = w_db w \<longrightarrow> Q () t) w"
    by (rule run_wp) (use False Q in auto)
qed

lemma wp_roles_assignPermissions:
  assumes laws: "orm_laws (roles_orm E) TR" "orm_laws (permissions_orm E) TP" "redis_laws (redis_api E) view up"
    and T: "ident TR = r_id" "rid \<noteq> ''''"
    and Q: "\<And>r perms w'. r \<in> rows TR (w_db w) \<Longrightarrow> r_id r = rid \<Longrightarrow>
      list_all2 (\<lambda>pid p. p \<in> rows TP (w_db w) \<and> p_id p = pid) permissionsIds perms \<Longrightarrow>
      rows TR (w_db w') = saved_rows TR (r\<lparr>r_permissions := perms\<rparr>) (rows TR (w_db w)) \<Longrightarrow>
      (\<And>us. up (w_redis w) \<Longrightarrow> users_by_role E (\<lambda>role. r_id role = rid) (w_db w') = Inr us \<Longrightarrow>
        refreshes us (view (w_redis w)) (view (w_redis w'))) \<Longrightarrow>
      Q (r\<lparr>r_permissions := perms\<rparr>) w'"
    and F: "\<And>x w'. rows TR (w_db w') = rows TR (w_db w) \<Longrightarrow> w_redis w' = w_redis w \<Longrightarrow> F x w'"
  shows "wp (roles_assignPermissions E rid permissionsIds) Q F w"
  unfolding roles_assignPermissions_def wp_rethrow_as wp_bind wp_then wp_return
proof (rule wp_roles_findOne [OF laws(1)], goal_cases)
  case (1 r)
  show ?case
  proof (rule wp_permissions_findOnes [OF laws(2)], goal_cases)
    case perms: (1 perms)
    let ?r = "r\<lparr>r_permissions := perms\<rparr>"
    show ?case unfolding rolesRepository_save_def
    proof (rule wp_db_save [OF laws(1)], goal_cases)
      case saved: (1 e' d')
      have e': "e' = ?r" using saved(3) 1(2) T by simp
      show ?case unfolding e'
        by (rule wp_swallowed_refresh [OF laws(3)], rule Q [OF 1 perms]) (use saved(1) e' in simp_all)
    next
      case (2 x d')
      then show ?case by (intro F) simp_all
    qed
  qed (intro F; simp)
qed (intro F; simp)

text \<open>Whether a role is given permissions does not depend on Redis.\<close>

lemma roles_assignPermissions_blind: "redis_blind (roles_assignPermissions E rid permissionsIds)"
proof -
  have "keeps beside_redis (refreshSessionPermissionsByRole E rid)"
    unfolding refreshSessionPermissionsByRole_def refreshSessionPermissions_def
    by (intro keeps_rules keeps_beside_raw keeps_forE keeps_readonly [OF readonly_on_db]) simp
  then show ?thesis
    unfolding roles_assignPermissions_def roles_findOne_def rolesRepository_findOneById_def rolesRepository_save_def
      permissions_findOne_def permissionsRepository_findOneById_def
    by (intro redis_blind_rules)
qed

text \<open>The codes of a user whom the query by role has loaded.\<close>

lemma loaded_codes:
  assumes "loads_roles TR p d u v" "r \<in> roles_of_user TR d u" "p r"
  shows "u_id v = u_id u" "set (List.map p_code (r_permissions r)) \<subseteq> set (user_permissionCodes v)"
    and "set (user_permissionCodes v) \<subseteq> (\<Union>x \<in> roles_of_user TR d u. set (List.map p_code (r_permissions x)))"
proof -
  from assms(1) obtain rs where v: "v = u\<lparr>u_roles := Some rs\<rparr>" "set rs \<subseteq> roles_of_user TR d u"
    "{r \<in> roles_of_user TR d u. p r} \<subseteq> set rs" by (auto simp: loads_roles_def)
  have codes: "set (user_permissionCodes v) = (\<Union>x \<in> set rs. set (List.map p_code (r_permissions x)))"
    by (simp add: v(1) user_permissionCodes_def)
  show "u_id v = u_id u" by (simp add: v(1))
  have "r \<in> set rs" using v(3) assms(2,3) by blast
  then show "set (List.map p_code (r_permissions r)) \<subseteq> set (user_permissionCodes v)" unfolding codes by blast
  show "set (user_permissionCodes v) \<subseteq> (\<Union>x \<in> roles_of_user TR d u. set (List.map p_code (r_permissions x)))"
    unfolding codes using v(2) by blast
qed

lemma by_role_refreshes:
  assumes query: "by_role_ok TU TR p d (Inr us)" and v: "refreshes us v v'"
  shows "u \<in> rows TU d \<Longrightarrow> r \<in> roles_of_user TR d u \<Longrightarrow> p r \<Longrightarrow> sid \<in> sets v (user_index (u_id u)) \<Longrightarrow>
      \<forall>x \<in> rows TU d. sid \<in> sets v (user_index (u_id x)) \<longrightarrow> x = u \<Longrightarrow> session_at v sid = Some s \<Longrightarrow>
      \<exists>codes. session_at v' sid = Some (s\<lparr>s_permissions := codes\<rparr>) \<and>
        set (List.map p_code (r_permissions r)) \<subseteq> set codes \<and>
        set codes \<subseteq> (\<Union>x \<in> roles_of_user TR d u. set (List.map p_code (r_permissions x)))"
    and "\<forall>u \<in> rows TU d. (\<exists>r \<in> roles_of_user TR d u. p r) \<longrightarrow> sid \<notin> sets v (user_index (u_id u)) \<Longrightarrow>
      session_at v' sid = session_at v sid"
proof -
  have loaded: "\<exists>u \<in> rows TU d. (\<exists>r \<in> roles_of_user TR d u. p r) \<and> loads_roles TR p d u x" if "x \<in> set us" for x
    using query that by (simp add: by_role_ok_def)
  have ids: "loads_roles TR p d u x \<Longrightarrow> u_id x = u_id u" for u x by (auto simp: loads_roles_def)
  {
    assume u: "u \<in> rows TU d" "r \<in> roles_of_user TR d u" "p r" "sid \<in> sets v (user_index (u_id u))"
      and only: "\<forall>x \<in> rows TU d. sid \<in> sets v (user_index (u_id x)) \<longrightarrow> x = u" and s: "session_at v sid = Some s"
    have "\<exists>x \<in> set us. loads_roles TR p d u x" using query u(1-3) by (auto simp: by_role_ok_def)
    then have "\<exists>x \<in> set us. sid \<in> sets v (user_index (u_id x))" using ids u(4) by metis
    from refreshes_sets_codes [OF v s this] obtain x where x: "x \<in> set us" "sid \<in> sets v (user_index (u_id x))"
      "session_at v' sid = Some (s\<lparr>s_permissions := user_permissionCodes x\<rparr>)" by blast
    from loaded [OF x(1)] obtain y where y: "y \<in> rows TU d" "loads_roles TR p d y x" by blast
    with x(2) only ids have "y = u" by metis
    with y(2) have "loads_roles TR p d u x" by simp
    from loaded_codes(2,3) [where p = p, OF this u(2,3)] x(3)
    show "\<exists>codes. session_at v' sid = Some (s\<lparr>s_permissions := codes\<rparr>) \<and>
        set (List.map p_code (r_permissions r)) \<subseteq> set codes \<and>
        set codes \<subseteq> (\<Union>x \<in> roles_of_user TR d u. set (List.map p_code (r_permissions x)))" by blast
  next
    assume none: "\<forall>u \<in> rows TU d. (\<exists>r \<in> roles_of_user TR d u. p r) \<longrightarrow> sid \<notin> sets v (user_index (u_id u))"
    have "sid \<notin> sets v (user_index (u_id x))" if "x \<in> set us" for x
      using loaded [OF that] none ids by metis
    then show "session_at v' sid = session_at v sid" by (rule refreshes_keeps(4) [OF v])
  }
qed

text \<open>C28. New permissions of a role reach the open sessions of its users. If \<open>assignPermissions\<close>
  answers, the row of the role has exactly the permissions asked for; and while Redis and the
  database answer, every live session that the index of a user with this role names (and that of no
  other user) has then at least the codes of the role and at most those of all roles the user has,
  with nothing else of the session changed, and the sessions of users without the role stay as they
  are. If it rejects, the roles and Redis are as they were. The answer and what becomes of the
  database do not depend on Redis: while it is down the role is saved and the call answers, and
  nothing is promised of the sessions.\<close>

theorem role_permissions_reach_sessions:
  assumes "orm_laws (roles_orm E) TR" "orm_laws (permissions_orm E) TP" "redis_laws (redis_api E) view up"
    and "role_query_laws E TU TR" "ident TR = r_id" "rid \<noteq> ''''"
    and "roles_assignPermissions E rid permissionsIds w = (res, w')"
  shows "(case res of
      Inl _ \<Rightarrow> rows TR (w_db w') = rows TR (w_db w) \<and> w_redis w' = w_redis w
    | Inr role \<Rightarrow>
        (role \<in> rows TR (w_db w') \<and> r_id role = rid \<and>
          (\<exists>perms. list_all2 (\<lambda>pid p. p \<in> rows TP (w_db w) \<and> p_id p = pid) permissionsIds perms \<and>
            set (r_permissions role) = set perms)) \<and>
        (up (w_redis w) \<and> answers TU (w_db w') \<and> answers TR (w_db w') \<longrightarrow>
          (\<forall>u \<in> rows TU (w_db w'). rid \<in> set (role_ids u) \<longrightarrow>
            (\<forall>sid \<in> sets (view (w_redis w)) (user_index (u_id u)). \<forall>s.
              (\<forall>x \<in> rows TU (w_db w'). sid \<in> sets (view (w_redis w)) (user_index (u_id x)) \<longrightarrow> x = u) \<longrightarrow>
              sess view w sid = Some s \<longrightarrow>
              (\<exists>codes. sess view w' sid = Some (s\<lparr>s_permissions := codes\<rparr>) \<and>
                 set (List.map p_code (r_permissions role)) \<subseteq> set codes \<and>
                 set codes \<subseteq> (\<Union>x \<in> roles_of_user TR (w_db w') u. set (List.map p_code (r_permissions x)))))) \<and>
          (\<forall>sid. (\<forall>u \<in> rows TU (w_db w'). rid \<in> set (role_ids u) \<longrightarrow> sid \<notin> sets (view (w_redis w)) (user_index (u_id u))) \<longrightarrow>
             sess view w' sid = sess view w sid))) \<and>
    (\<forall>r. \<exists>w2. roles_assignPermissions E rid permissionsIds (w\<lparr>w_redis := r\<rparr>) = (res, w2) \<and> w_db w2 = w_db w')"
proof (rule conjI, goal_cases)
  case 2
  show ?case
  proof
    fix r
    show "\<exists>w2. roles_assignPermissions E rid permissionsIds (w\<lparr>w_redis := r\<rparr>) = (res, w2) \<and> w_db w2 = w_db w'"
      using redis_blindD [OF roles_assignPermissions_blind [of E rid permissionsIds], where w = w and r = r] assms(7)
      by (cases "roles_assignPermissions E rid permissionsIds (w\<lparr>w_redis := r\<rparr>)") (auto simp: beside_redis_def)
  qed
next
  case 1
  let ?p = "\<lambda>role. r_id role = rid"
  have step: "wp (roles_assignPermissions E rid permissionsIds) (\<lambda>role w'. role \<in> rows TR (w_db w') \<and> r_id role = rid \<and>
      list_all2 (\<lambda>pid p. p \<in> rows TP (w_db w) \<and> p_id p = pid) permissionsIds (r_permissions role) \<and>
      (\<forall>us. up (w_redis w) \<longrightarrow> users_by_role E ?p (w_db w') = Inr us \<longrightarrow>
         refreshes us (view (w_redis w)) (view (w_redis w'))))
      (\<lambda>_ w'. rows TR (w_db w') = rows TR (w_db w) \<and> w_redis w' = w_redis w) w"
    by (rule wp_roles_assignPermissions [OF assms(1-3,5,6)]) (simp_all add: saved_rows_def)
  show ?case
  proof (cases res)
    case (Inl e)
    then show ?thesis using wp_runL [OF step] assms(7) by auto
  next
    case (Inr role)
    have eff: "role \<in> rows TR (w_db w')" "r_id role = rid"
      "list_all2 (\<lambda>pid p. p \<in> rows TP (w_db w) \<and> p_id p = pid) permissionsIds (r_permissions role)"
      "\<And>us. up (w_redis w) \<Longrightarrow> users_by_role E ?p (w_db w') = Inr us \<Longrightarrow>
        refreshes us (view (w_redis w)) (view (w_redis w'))"
      using wp_runR [OF step] assms(7) Inr by blast+
    have query: "by_role_ok TU TR ?p (w_db w') (users_by_role E ?p (w_db w'))"
      using assms(4) by (simp add: role_query_laws_def)
    have has: "role \<in> roles_of_user TR (w_db w') u" if "rid \<in> set (role_ids u)" for u
      using that eff(1,2) by (simp add: roles_of_user_def)
    have hasnt: "rid \<in> set (role_ids u)" if "r \<in> roles_of_user TR (w_db w') u" "r_id r = rid" for u r
      using that by (simp add: roles_of_user_def)
    show ?thesis unfolding Inr sum.case
    proof (intro conjI impI, goal_cases)
      case 4
      then obtain us where us: "users_by_role E ?p (w_db w') = Inr us"
        using query by (auto simp: by_role_ok_def split: sum.splits)
      note q = by_role_refreshes [OF query [unfolded us] eff(4) [OF _ us]]
      show ?case using q(1) [OF _ _ has eff(2)] 4 by blast
    next
      case 5
      then obtain us where us: "users_by_role E ?p (w_db w') = Inr us"
        using query by (auto simp: by_role_ok_def split: sum.splits)
      note q = by_role_refreshes [OF query [unfolded us] eff(4) [OF _ us]]
      show ?case using q(2) 5 hasnt by blast
    qed (use eff(1-3) in auto)
  qed
qed

lemma mem_role_assigned:
  assumes "w_db w = db0"
  shows "\<exists>role w'. roles_assignPermissions mem_env ''r1'' [''p2''] w = (Inr role, w') \<and>
    w_db w' = db0\<lparr>t_roles := [role_reader\<lparr>r_permissions := [perm_write]\<rparr>]\<rparr>"
proof -
  have role: "roles_findOne mem_env ''r1'' w = (Inr role_reader, w)"
    using assms by (simp add: roles_findOne_def rolesRepository_findOneById_def mem_env_def mem_orm_def on_db_def zoomE_def
        bindE_def readE_def returnE_def world0_defs)
  have perms: "mapE (permissions_findOne mem_env) [''p2''] w = (Inr [perm_write], w)"
    using assms by (simp add: permissions_findOne_def permissionsRepository_findOneById_def mem_env_def mem_orm_def on_db_def
        zoomE_def bindE_def readE_def returnE_def world0_defs)
  let ?r = "role_reader\<lparr>r_permissions := [perm_write]\<rparr>"
  let ?d = "db0\<lparr>t_roles := [?r]\<rparr>"
  have save: "rolesRepository_save mem_env ?r w = (Inr ?r, w\<lparr>w_db := ?d\<rparr>)"
    using assms by (simp add: rolesRepository_save_def mem_env_def mem_orm_def on_db_def zoomE_def world0_defs columns_unique_def
        Let_def)
  have "wp (swallow (refreshSessionPermissionsByRole mem_env ''r1'')) (\<lambda>_ w'. w_db w' = ?d) (\<lambda>_ _. False) (w\<lparr>w_db := ?d\<rparr>)"
    by (rule wp_swallowed_refresh [OF mem_redis_laws [folded mem_env_simps(1)]]) simp
  from wp_returns [OF this] obtain w' where
    sw: "swallow (refreshSessionPermissionsByRole mem_env ''r1'') (w\<lparr>w_db := ?d\<rparr>) = (Inr (), w')" "w_db w' = ?d" by auto
  have "roles_assignPermissions mem_env ''r1'' [''p2''] w = (Inr ?r, w')"
    by (simp add: roles_assignPermissions_def rethrow_as_def catchE_def bindE_def role perms save thenE_def sw(1) returnE_def
        del: mapE.simps)
  with sw(2) show ?thesis by blast
qed

text \<open>The role \<open>reader\<close> is given the permission to write as its only one: the open session of \<open>ana\<close>,
  whose only role it is, has the new code and no other.\<close>

theorem role_permissions_reach_sessions_witness:
  "\<exists>role w' codes. roles_assignPermissions mem_env ''r1'' [''p2''] world0 = (Inr role, w') \<and>
     set (r_permissions role) = {perm_write} \<and>
     sess mem_view w' ''s1'' = Some (session_ana\<lparr>s_permissions := codes\<rparr>) \<and> set codes = {''USERS_WRITE''}"
proof -
  have redis: "redis_laws (redis_api mem_env) mem_view m_up" by (simp add: mem_redis_laws)
  have up: "m_up (w_redis world0)" by (simp add: world0_def redis0_def)
  have ident: "ident mem_roles = r_id" by (simp add: mem_tables)
  have "w_db world0 = db0" by (simp add: world0_def)
  from mem_role_assigned [OF this] obtain role w' where
    run: "roles_assignPermissions mem_env ''r1'' [''p2''] world0 = (Inr role, w')"
    and db: "w_db w' = db0\<lparr>t_roles := [role_reader\<lparr>r_permissions := [perm_write]\<rparr>]\<rparr>" by blast
  have "''r1'' \<noteq> ''''" by simp
  note reach = role_permissions_reach_sessions [OF mem_env_laws(2,3) redis mem_role_query_laws ident this run,
      THEN conjunct1, unfolded sum.case]
  obtain ps where ps: "list_all2 (\<lambda>pid p. p \<in> rows mem_permissions (w_db world0) \<and> p_id p = pid) [''p2''] ps"
    "set (r_permissions role) = set ps"
    using reach by blast
  have "ps = [perm_write]" using ps(1) by (auto simp: list_all2_Cons1 mem_tables world0_defs)
  then have perms: "set (r_permissions role) = {perm_write}" using ps(2) by simp
  have ready: "m_up (w_redis world0)" "answers mem_users (w_db w')" "answers mem_roles (w_db w')"
    using up db by (simp_all add: mem_tables db0_def)
  have u: "user_ana \<in> rows mem_users (w_db w')" "''r1'' \<in> set (role_ids user_ana)"
    using db by (simp_all add: mem_tables db0_def role_ids_def user_ana_def role_reader_def)
  have i: "''s1'' \<in> sets (mem_view (w_redis world0)) (user_index (u_id user_ana))"
    by (simp add: world0_ana(3) world0_index)
  have only: "\<forall>x \<in> rows mem_users (w_db w'). ''s1'' \<in> sets (mem_view (w_redis world0)) (user_index (u_id x)) \<longrightarrow> x = user_ana"
    using db by (auto simp: mem_tables world0_defs mem_view_def)
  from reach ready u i only world0_session obtain codes where
    c: "sess mem_view w' ''s1'' = Some (session_ana\<lparr>s_permissions := codes\<rparr>)"
      "set (List.map p_code (r_permissions role)) \<subseteq> set codes"
      "set codes \<subseteq> (\<Union>x \<in> roles_of_user mem_roles (w_db w') user_ana. set (List.map p_code (r_permissions x)))" by blast
  have "roles_of_user mem_roles (w_db w') user_ana \<subseteq> {role_reader\<lparr>r_permissions := [perm_write]\<rparr>}"
    by (auto simp: roles_of_user_def mem_tables db)
  then have "(\<Union>x \<in> roles_of_user mem_roles (w_db w') user_ana. set (List.map p_code (r_permissions x))) \<subseteq>
      (\<Union>x \<in> {role_reader\<lparr>r_permissions := [perm_write]\<rparr>}. set (List.map p_code (r_permissions x)))" by (rule UN_mono) simp
  also have "\<dots> = {p_code perm_write}" by simp
  finally have "set codes \<subseteq> {p_code perm_write}" using c(3) by (rule subset_trans [rotated])
  moreover have "p_code perm_write \<in> set codes" using c(2) by (simp add: perms)
  ultimately have "set codes = {''USERS_WRITE''}" by (auto simp: perm_write_def)
  with run perms c(1) show ?thesis by blast
qed

text \<open>While Redis is down the same call answers, the role is saved, and the session keeps its codes.\<close>

lemma role_saved_without_redis:
  "let (res, w') = roles_assignPermissions mem_env ''r1'' [''p2''] (world0\<lparr>w_redis := redis0\<lparr>m_up := False\<rparr>\<rparr>) in
     is_ok res \<and> List.map r_permissions (t_roles (w_db w')) = [[perm_write]] \<and> sess mem_view w' ''s1'' = Some session_ana"
  by code_simp


text \<open>Deleting a role, and editing or deleting a permission, does not reach Redis: the open sessions and
  the cached permissions stay as they were, until a refresh or the hourly reconciliation.\<close>

lemma keeps_redis_on_db: "keeps w_redis (on_db m)"
  by (auto simp: keeps_def on_db_def zoomE_def split: prod.splits)

lemma redis_kept_by_deletions:
  "keeps w_redis (roles_delete E rid)" "keeps w_redis (permissions_update E pid dto)" "keeps w_redis (permissions_delete E pid)"
  unfolding roles_delete_def permissions_update_def permissions_delete_def roles_findOne_def roles_repo
    permissions_findOne_def permissions_repo rolesRepository_remove_def
  by (intro keeps_rules keeps_redis_on_db)+

lemma deleted_role_stays_in_sessions:
  assumes "redis_laws (redis_api E) view up" "up (w_redis w)" "sessions_wf (view (w_redis w))"
    and "sess view w (au_session_id a) = Some s" "s_active s" "roles_delete E rid w = (res, w')"
  shows "users_canDo E a code w' = (Inr (js_includes (s_permissions s) code), w')"
proof -
  have r: "w_redis w' = w_redis w" using redis_kept_by_deletions(1) assms(6) by (rule keepsD)
  have "wp (users_canDo E a code) (\<lambda>b w2. b = js_includes (s_permissions s) code \<and> w2 = w') (\<lambda>_ _. False) w'"
    unfolding users_canDo_def wp_bind
    by (rule wp_read_session [OF assms(1)]) (use assms(2-5) in \<open>auto simp: r wp\<close>)
  from wp_returns [OF this] show ?thesis by auto
qed

end
