(* ===== verification/Metrics.thy ===== *)
theory Metrics imports JsString Exceptions begin

text \<open>
  The metrics of \<open>src/src/observability\<close>: \<open>MetricsService\<close> with its counters, gauge and
  histograms, and the interceptor that counts HTTP requests. Of a histogram the model keeps
  how often each label set was observed; the observed durations are times and are left out.
\<close>

section \<open>MetricsService\<close>

record metrics =
  httpRequestsTotal :: "string \<times> string \<times> string \<Rightarrow> nat"
  httpRequestDuration :: "string \<times> string \<times> string \<Rightarrow> nat"
  dependencyDuration :: "string \<times> string \<times> string \<Rightarrow> nat"
  dependencyErrorsTotal :: "string \<times> string \<times> string \<Rightarrow> nat"
  outboxBatchSize :: nat

definition metrics0 :: metrics where
  "metrics0 = \<lparr>httpRequestsTotal = (\<lambda>_. 0), httpRequestDuration = (\<lambda>_. 0), dependencyDuration = (\<lambda>_. 0),
     dependencyErrorsTotal = (\<lambda>_. 0), outboxBatchSize = 0\<rparr>"

definition count_up :: "'k \<Rightarrow> ('k \<Rightarrow> nat) \<Rightarrow> 'k \<Rightarrow> nat" where
  "count_up labels f = f(labels := Suc (f labels))"

text \<open>\<open>error instanceof Error ? error.constructor.name : 'Unknown'\<close>.\<close>

definition error_type :: "exn \<Rightarrow> string" where
  "error_type error = (if is_error error then constructor_name error else ''Unknown'')"

text \<open>The measured call runs on the metrics and the rest of the state; whatever it does, its
  result is passed on.\<close>

definition recordDependencyCall ::
  "string \<Rightarrow> string \<Rightarrow> (metrics \<times> 's, exn, 'a) io \<Rightarrow> (metrics \<times> 's, exn, 'a) io" where
  "recordDependencyCall dependency operation fn = (\<lambda>s.
     case fn s of
       (Inr result, m, t) \<Rightarrow>
         (Inr result, m\<lparr>dependencyDuration := count_up (dependency, operation, ''success'') (dependencyDuration m)\<rparr>, t)
     | (Inl error, m, t) \<Rightarrow>
         (Inl error,
          m\<lparr>dependencyDuration := count_up (dependency, operation, ''error'') (dependencyDuration m),
            dependencyErrorsTotal := count_up (dependency, operation, error_type error) (dependencyErrorsTotal m)\<rparr>, t))"

section \<open>HttpMetricsInterceptor\<close>

text \<open>The parts of an Express request the interceptor reads; \<open>None\<close> is \<open>undefined\<close>.\<close>

record http_request =
  hr_method :: string
  hr_route_path :: "string option"
  hr_baseUrl :: "string option"
  hr_path :: "string option"
  hr_url :: "string option"

definition EXCLUDED_PREFIXES :: "string list" where
  "EXCLUDED_PREFIXES = [''/metrics'', ''/docs'']"

text \<open>\<open>x || d\<close> for a text that may be missing.\<close>

definition text_or :: "string option \<Rightarrow> string \<Rightarrow> string" where
  "text_or x d = (case x of None \<Rightarrow> d | Some s \<Rightarrow> if s = '''' then d else s)"

definition resolveRoute :: "http_request \<Rightarrow> string" where
  "resolveRoute req =
     (if text_or (hr_route_path req) '''' \<noteq> '''' then text_or (hr_baseUrl req) '''' @ text_or (hr_route_path req) ''''
      else text_or (hr_path req)
             (text_or (map_option (\<lambda>url. hd (split_on (CHR ''?'') url)) (hr_url req)) ''unknown''))"

text \<open>\<open>String(statusCode)\<close>.\<close>

fun decimal :: "nat \<Rightarrow> string" where
  "decimal n = (if n < 10 then [char_of (48 + n)] else decimal (n div 10) @ [char_of (48 + n mod 10)])"

declare decimal.simps [simp del]

definition record_request :: "string \<Rightarrow> string \<Rightarrow> nat \<Rightarrow> metrics \<Rightarrow> metrics" where
  "record_request method route statusCode m =
     (let labels = (method, route, decimal statusCode) in
      m\<lparr>httpRequestsTotal := count_up labels (httpRequestsTotal m),
        httpRequestDuration := count_up labels (httpRequestDuration m)\<rparr>)"

text \<open>\<open>next.handle()\<close> is the rest of the request and \<open>statusCode\<close> the status of the response when it
  answers; an error is recorded under its own status, or 500, and thrown on.\<close>

definition intercept ::
  "http_request \<Rightarrow> nat \<Rightarrow> (metrics \<times> 's, exn, 'a) io \<Rightarrow> (metrics \<times> 's, exn, 'a) io" where
  "intercept req statusCode handle =
     (let route = resolveRoute req in
      if list_ex (starts_with route) EXCLUDED_PREFIXES then handle
      else (\<lambda>s. case handle s of
          (Inr a, m, t) \<Rightarrow> (Inr a, record_request (hr_method req) route statusCode m, t)
        | (Inl err, m, t) \<Rightarrow> (Inl err, record_request (hr_method req) route (status_or err 500) m, t)))"

section \<open>Lemmas\<close>

text \<open>Measuring is transparent: the result and the rest of the state are those of the call.\<close>

lemma recordDependencyCall_transparent:
  "fst (recordDependencyCall dep op fn s) = fst (fn s)"
  "snd (snd (recordDependencyCall dep op fn s)) = snd (snd (fn s))"
  by (simp_all add: recordDependencyCall_def split: prod.splits sum.splits)

lemma wp_recordDependencyCall:
  assumes "wp fn (\<lambda>a (m, t). \<forall>m'. outboxBatchSize m' = outboxBatchSize m \<longrightarrow> Q a (m', t))
      (\<lambda>e (m, t). \<forall>m'. outboxBatchSize m' = outboxBatchSize m \<longrightarrow> F e (m', t)) s"
  shows "wp (recordDependencyCall dep op fn) Q F s"
  using assms by (auto simp: wp_def recordDependencyCall_def split: prod.splits sum.splits)

lemma intercept_transparent:
  "fst (intercept req st handle s) = fst (handle s)" "snd (snd (intercept req st handle s)) = snd (snd (handle s))"
  by (auto simp: intercept_def Let_def split: prod.splits sum.splits)

end
