(* ===== verification/Guards.thy ===== *)
theory Guards imports Users ApiKeys EprCache Frames begin

text \<open>
  The guards of \<open>src/src/common/guards\<close> and the request context they write
  (\<open>src/src/common/context\<close>). A guard runs on the world and on the state of one request: the
  property \<open>request.user\<close> and the store of the asynchronous context.
\<close>

section \<open>The request context\<close>

text \<open>\<open>rs_store\<close> is the store of \<open>AsyncLocalStorage\<close>: \<open>None\<close> outside \<open>run\<close>, otherwise the
  \<open>user\<close> it holds.\<close>

record request_state =
  rs_user :: "auth_user option"
  rs_store :: "auth_user option option"

type_synonym ('r, 'd, 'q, 'a) handler = "(('r, 'd, 'q) world \<times> request_state, exn, 'a) io"

definition on_world :: "('r, 'd, 'q, 'a) service \<Rightarrow> ('r, 'd, 'q, 'a) handler" where
  "on_world = zoomE fst (\<lambda>w s. (w, snd s))"

definition on_request :: "(request_state, exn, 'a) io \<Rightarrow> ('r, 'd, 'q, 'a) handler" where
  "on_request = zoomE snd (\<lambda>r s. (fst s, r))"

definition getContext :: "(request_state, exn, auth_user option) io" where
  "getContext = bindE (getE rs_store) (\<lambda>store.
     case store of
       None \<Rightarrow> throwE (JsError ''Error'' ''RequestContext not initialized'' None None)
     | Some context \<Rightarrow> returnE context)"

definition setUser :: "auth_user \<Rightarrow> (request_state, exn, unit) io" where
  "setUser user = thenE getContext (\<lambda>r. (Inr (), r\<lparr>rs_store := Some (Some user)\<rparr>))"

definition getCurrentUser :: "(request_state, exn, auth_user option) io" where
  "getCurrentUser = getContext"

text \<open>\<open>asyncLocalStorage.run({ user: null }, callback)\<close>: a store of its own for the callback, the
  previous one again after it.\<close>

definition context_start ::
  "('w \<times> request_state, exn, 'a) io \<Rightarrow> ('w \<times> request_state, exn, 'a) io" where
  "context_start callback = (\<lambda>(w, r).
     case callback (w, r\<lparr>rs_store := Some None\<rparr>) of
       (res, w', r') \<Rightarrow> (res, w', r'\<lparr>rs_store := rs_store r\<rparr>))"

text \<open>The middleware runs the rest of the request in a context of its own.\<close>

definition middleware_use ::
  "('w \<times> request_state, exn, 'a) io \<Rightarrow> ('w \<times> request_state, exn, 'a) io" where
  "middleware_use next = context_start next"

text \<open>\<open>request.user = authUser; this.requestContextService.setUser(authUser)\<close>.\<close>

definition set_request_user :: "auth_user \<Rightarrow> ('r, 'd, 'q, unit) handler" where
  "set_request_user authUser =
     thenE (on_request (\<lambda>r. (Inr (), r\<lparr>rs_user := Some authUser\<rparr>))) (on_request (setUser authUser))"

section \<open>Permissions of the endpoint\<close>

text \<open>
  The check of the dynamic permissions, the same in all three guards: \<open>endpointKey\<close> is the
  metadata of the \<open>EndpointKey\<close> decorator, missing or empty on a route without one.
\<close>

definition insufficient :: "string \<Rightarrow> exn" where
  "insufficient message = auth_exception message auth_error.INSUFFICIENT_PERMISSIONS FORBIDDEN None"

definition check_dynamic_permissions ::
  "('r, 'd, 'q) env \<Rightarrow> string option \<Rightarrow> string list \<Rightarrow> string \<Rightarrow> ('r, 'd, 'q, unit) service" where
  "check_dynamic_permissions E endpointKey permissions message =
     (case endpointKey of
        None \<Rightarrow> returnE ()
      | Some key \<Rightarrow>
          if key = '''' then returnE ()
          else gate (getPermissionsForEndpoint E) key permissions (insufficient message))"

section \<open>AuthGuard\<close>

definition extractToken :: "request \<Rightarrow> string option" where
  "extractToken req = rq_cookies req ''auth_token''"

text \<open>The session a verified token names: \<open>sid ?? token\<close>.\<close>

definition session_id_of :: "payload \<Rightarrow> string \<Rightarrow> string" where
  "session_id_of payload token = (case pl_sid payload of Some sid \<Rightarrow> sid | None \<Rightarrow> token)"

definition auth_user_of :: "session \<Rightarrow> string \<Rightarrow> auth_user" where
  "auth_user_of session sid =
     \<lparr>au_id = s_user_id session, au_person_id = s_person_id session, au_email = s_email session, au_session_id = sid\<rparr>"

text \<open>The session checks that \<open>AuthGuard\<close> and \<open>MicroserviceGuard\<close> share: it exists, is active and
  belongs to the address of the token.\<close>

definition check_session ::
  "('r, 'd, 'q) env \<Rightarrow> payload \<Rightarrow> string \<Rightarrow> ('r, 'd, 'q, session) service" where
  "check_session E payload token =
     bindE (read_session E (session_id_of payload token)) (\<lambda>session.
       case session of
         None \<Rightarrow> throwE (auth_exception ''Session expired or invalid'' auth_error.SESSION_INVALID UNAUTHORIZED None)
       | Some s \<Rightarrow>
           if \<not> s_active s then
             throwE (auth_exception ''This session is no longer active'' auth_error.SESSION_EXPIRED UNAUTHORIZED None)
           else if Some (s_email s) \<noteq> pl_email payload then
             throwE (auth_exception ''Token/Session mismatch'' auth_error.SESSION_TOKEN_MISMATCH UNAUTHORIZED None)
           else returnE s)"

definition authGuard ::
  "('r, 'd, 'q) env \<Rightarrow> string option \<Rightarrow> request \<Rightarrow> ('r, 'd, 'q, bool) handler" where
  "authGuard E endpointKey req =
     (case extractToken req of
        None \<Rightarrow> throwE (auth_exception ''Authentication cookie is missing, expired, or invalid''
                 auth_error.AUTH_COOKIE_EXPIRED_INVALID UNAUTHORIZED None)
      | Some token \<Rightarrow>
          if token = '''' then
            throwE (auth_exception ''Authentication cookie is missing, expired, or invalid''
              auth_error.AUTH_COOKIE_EXPIRED_INVALID UNAUTHORIZED None)
          else
            bindE (on_world (getPayload E token AuthToken)) (\<lambda>payload.
            bindE (on_world (check_session E payload token)) (\<lambda>session.
            if \<not> sameSubnetCheck (s_ip session) (getClientIp req) then
              throwE (auth_exception ''Session IP mismatch'' auth_error.SESSION_IP_MISMATCH UNAUTHORIZED None)
            else
              thenE (set_request_user (auth_user_of session (session_id_of payload token)))
              (thenE (on_world (check_dynamic_permissions E endpointKey (s_permissions session)
                        ''Insufficient permissions''))
              (returnE True)))))"

section \<open>ApiKeyGuard\<close>

text \<open>\<open>findActiveByPlainKey\<close> answers an array, so the test \<open>!apiKeyPermissions\<close> that follows it
  in the source never holds.\<close>

definition validateApiKey ::
  "('r, 'd, 'q) env \<Rightarrow> string option \<Rightarrow> request \<Rightarrow> ('r, 'd, 'q, unit) service" where
  "validateApiKey E endpointKey req =
     bindE (liftE (extractApiKey req)) (\<lambda>rawApiKey.
     bindE (findActiveByPlainKey E rawApiKey) (\<lambda>apiKeyPermissions.
     check_dynamic_permissions E endpointKey apiKeyPermissions ''Insufficient API Key permissions''))"

definition apiKeyGuard ::
  "('r, 'd, 'q) env \<Rightarrow> string option \<Rightarrow> request \<Rightarrow> ('r, 'd, 'q, bool) handler" where
  "apiKeyGuard E endpointKey req =
     bindE (on_world (liftE (extractApiKey req))) (\<lambda>rawApiKey.
     bindE (on_world (findActiveByPlainKey E rawApiKey)) (\<lambda>apiKeyPermissions.
     thenE (on_world (check_dynamic_permissions E endpointKey apiKeyPermissions ''Insufficient API Key permissions''))
     (returnE True)))"

section \<open>MicroserviceGuard\<close>

text \<open>The token of an \<open>Authorization\<close> header: \<open>authorization.trim().split(/\s+/)\<close>, a scheme that
  matches \<open>/^Bearer$/i\<close> and a second part.\<close>

definition extractBearer :: "request \<Rightarrow> exn + string" where
  "extractBearer req =
     (case rq_headers req ''authorization'' of
        Some (Single header) \<Rightarrow>
          if length (trim header) = 0 then
            Inl (auth_exception ''Authorization header missing'' auth_error.AUTH_HEADER_MISSING UNAUTHORIZED None)
          else (case split_spaces (trim header) of
              scheme # token # _ \<Rightarrow>
                if toLowerCase scheme \<noteq> ''bearer'' \<or> token = '''' then
                  Inl (auth_exception ''Invalid authorization header format'' auth_error.AUTH_HEADER_INVALID
                         UNAUTHORIZED None)
                else Inr (trim token)
            | _ \<Rightarrow> Inl (auth_exception ''Invalid authorization header format'' auth_error.AUTH_HEADER_INVALID
                         UNAUTHORIZED None))
      | _ \<Rightarrow> Inl (auth_exception ''Authorization header missing'' auth_error.AUTH_HEADER_MISSING UNAUTHORIZED None))"

definition validateUserToken :: "('r, 'd, 'q) env \<Rightarrow> request \<Rightarrow> ('r, 'd, 'q, unit) handler" where
  "validateUserToken E req =
     bindE (liftE (extractBearer req)) (\<lambda>token.
     bindE (on_world (getPayload E token AuthToken)) (\<lambda>payload.
     bindE (on_world (check_session E payload token)) (\<lambda>session.
     set_request_user (auth_user_of session (session_id_of payload token)))))"

definition microserviceGuard ::
  "('r, 'd, 'q) env \<Rightarrow> string option \<Rightarrow> request \<Rightarrow> ('r, 'd, 'q, bool) handler" where
  "microserviceGuard E endpointKey req =
     thenE (on_world (validateApiKey E endpointKey req))
     (thenE (validateUserToken E req) (returnE True))"

end
