(* ===== verification/Outbox.thy ===== *)
theory Outbox imports Metrics Guards "HOL-Library.AList" begin

text \<open>
  The outbox of audit events (\<open>src/src/cron/outbox-*.service.ts\<close>, \<open>outbox.entity.ts\<close>): the
  subscriber that writes an event beside every change of an entity, the publisher that claims
  pending events and hands them to the broker, and the cleanup of the events sent.
\<close>

section \<open>The table\<close>

datatype outbox_status = OutboxPENDING | OutboxPROCESSING | OutboxSENT | OutboxFAILED

record audit_payload =
  ap_action :: string
  ap_entity :: string
  ap_primary_key :: "(string \<times> string option) list"
  ap_done_by_id :: "string option"
  ap_done_by_email :: "string option"
  ap_timestamp :: string

record outbox =
  o_id :: string
  o_destination :: string
  o_pattern :: string
  o_payload :: audit_payload
  o_status :: outbox_status
  o_claimed_at :: "int option"
  o_created_at :: int

text \<open>
  What the query builder builds: the lock the rows are taken with and what to do with rows that
  another transaction holds locked, the condition, the columns to order by and the limit.
\<close>

datatype lock_mode = PessimisticRead | PessimisticWrite

datatype on_locked = NoWait | SkipLocked

datatype outbox_column = CreatedAt | Id

datatype direction = ASC | DESC

record outbox_query =
  oq_setLock :: "lock_mode option"
  oq_setOnLocked :: "on_locked option"
  oq_where :: "outbox \<Rightarrow> bool"
  oq_orderBy :: "(outbox_column \<times> direction) list"
  oq_limit :: nat

text \<open>
  The calls on the table and on the broker, which are not code of the repository.
  \<open>ob_getMany\<close> runs a query, \<open>ob_update\<close> sets the status and the claim
  time of the rows with the given identifiers, \<open>ob_delete p n\<close> deletes up to \<open>n\<close> rows of \<open>p\<close> and
  answers \<open>affected\<close>, \<open>ob_save\<close> inserts a row, \<open>audit_emit\<close> hands a message to the broker.
\<close>

record ('d, 'q) outbox_env =
  ob_getMany :: "outbox_query \<Rightarrow> 'd \<Rightarrow> exn + outbox list"
  ob_update :: "string list \<Rightarrow> outbox_status \<Rightarrow> int option \<Rightarrow> ('d, exn, unit) io"
  ob_delete :: "(outbox \<Rightarrow> bool) \<Rightarrow> nat \<Rightarrow> ('d, exn, nat option) io"
  ob_save :: "outbox \<Rightarrow> ('d, exn, outbox) io"
  ob_commit :: "'d \<Rightarrow> 'd \<Rightarrow> (exn + unit) \<times> 'd"
  ob_rollback :: "'d \<Rightarrow> 'd \<Rightarrow> 'd"
  audit_emit :: "string \<Rightarrow> audit_payload \<Rightarrow> ('q, exn, unit) io"
  ob_toISOString :: "int \<Rightarrow> string"

record ('d, 'q) outbox_world =
  ow_db :: 'd
  ow_mq :: 'q
  ow_now :: int

type_synonym ('d, 'q, 'a) outbox_service = "(metrics \<times> ('d, 'q) outbox_world, exn, 'a) io"

definition on_outbox :: "('d, exn, 'a) io \<Rightarrow> (('d, 'q) outbox_world, exn, 'a) io" where
  "on_outbox = zoomE ow_db (\<lambda>d w. w\<lparr>ow_db := d\<rparr>)"

definition on_broker :: "('q, exn, 'a) io \<Rightarrow> (('d, 'q) outbox_world, exn, 'a) io" where
  "on_broker = zoomE ow_mq (\<lambda>q w. w\<lparr>ow_mq := q\<rparr>)"

text \<open>A computation that does not look at the metrics, on the state that holds them.\<close>

definition unmeasured :: "('s, exn, 'a) io \<Rightarrow> (metrics \<times> 's, exn, 'a) io" where
  "unmeasured = zoomE snd (\<lambda>t s. (fst s, t))"

section \<open>OutboxSubscriberService\<close>

text \<open>What the library tells of the entity class, and the entity: the name of its constructor and
  its properties as texts (\<open>None\<close> is \<open>undefined\<close>). A class is named by its name.\<close>

record entity_metadata =
  md_target :: string
  md_targetName :: "string option"
  md_name :: "string option"
  md_tableName :: "string option"
  md_primaryColumns :: "string list"

record entity =
  en_constructor :: "string option"
  en_property :: "string \<Rightarrow> string option"

text \<open>\<open>value.replaceAll(/([a-z0-9])([A-Z])/g, '$1_$2')\<close>.\<close>

definition lower_or_digit :: "char \<Rightarrow> bool" where
  "lower_or_digit c = (let n = of_char c :: nat in (97 \<le> n \<and> n \<le> 122) \<or> (48 \<le> n \<and> n \<le> 57))"

definition upper :: "char \<Rightarrow> bool" where
  "upper c = (let n = of_char c :: nat in 65 \<le> n \<and> n \<le> 90)"

fun split_camel :: "string \<Rightarrow> string" where
  "split_camel (x # y # zs) =
     (if lower_or_digit x \<and> upper y then x # CHR ''_'' # y # split_camel zs else x # split_camel (y # zs))"
| "split_camel xs = xs"

text \<open>\<open>value.replaceAll(/[\s-]+/g, '_')\<close>.\<close>

definition blank_or_dash :: "char \<Rightarrow> bool" where
  "blank_or_dash c \<longleftrightarrow> js_space c \<or> c = CHR ''-''"

fun underscore_runs :: "string \<Rightarrow> string" where
  "underscore_runs [] = []"
| "underscore_runs (x # xs) =
     (if blank_or_dash x then
        (case xs of y # _ \<Rightarrow> if blank_or_dash y then underscore_runs xs else CHR ''_'' # underscore_runs xs
                  | [] \<Rightarrow> [CHR ''_''])
      else x # underscore_runs xs)"

definition toSnakeCase :: "string \<Rightarrow> string" where
  "toSnakeCase s = toLowerCase (underscore_runs (split_camel s))"

definition shouldSkip :: "entity_metadata option \<Rightarrow> bool" where
  "shouldSkip metadata =
     (case metadata of
        None \<Rightarrow> True
      | Some md \<Rightarrow> md_target md = ''OutboxEntity'' \<or> md_targetName md = Some ''OutboxEntity'' \<or>
          map_option toLowerCase (md_tableName md) = Some ''outbox'')"

definition resolveEntityName :: "entity_metadata option \<Rightarrow> entity \<Rightarrow> string" where
  "resolveEntityName metadata entity =
     (case Option.bind metadata md_targetName of Some n \<Rightarrow> n
      | None \<Rightarrow> (case Option.bind metadata md_name of Some n \<Rightarrow> n
      | None \<Rightarrow> (case en_constructor entity of Some n \<Rightarrow> n | None \<Rightarrow> ''UnknownEntity'')))"

text \<open>The object the reduction builds, as its list of properties; a column named twice is written
  twice to one property.\<close>

definition extractPrimaryKeys :: "entity_metadata option \<Rightarrow> entity \<Rightarrow> (string \<times> string option) list" where
  "extractPrimaryKeys metadata entity =
     (case metadata of
        None \<Rightarrow> []
      | Some md \<Rightarrow> fold (\<lambda>key acc. AList.update key (en_property entity key) acc) (md_primaryColumns md) [])"

text \<open>The entity \<open>manager.create\<close> makes; the database assigns the identifier and the creation time.\<close>

definition new_outbox :: "string \<Rightarrow> audit_payload \<Rightarrow> outbox" where
  "new_outbox pattern payload =
     \<lparr>o_id = '''', o_destination = ''audit_queue'', o_pattern = pattern, o_payload = payload,
      o_status = OutboxPENDING, o_claimed_at = None, o_created_at = 0\<rparr>"

definition createOutboxRecord ::
  "('d, 'q) outbox_env \<Rightarrow> string \<Rightarrow> audit_payload \<Rightarrow> (('d, 'q) outbox_world, exn, unit) io" where
  "createOutboxRecord E pattern payload = thenE (on_outbox (ob_save E (new_outbox pattern payload))) (returnE ())"

text \<open>The three listeners differ in a word; \<open>suffix\<close> is the one of the pattern. They run in the
  request that changed the entity, whose context names the user.\<close>

definition audit_event ::
  "('d, 'q) outbox_env \<Rightarrow> string \<Rightarrow> entity_metadata option \<Rightarrow> entity option \<Rightarrow>
   (('d, 'q) outbox_world \<times> request_state, exn, unit) io" where
  "audit_event E suffix metadata entity =
     (case entity of
        None \<Rightarrow> returnE ()
      | Some en \<Rightarrow>
          if shouldSkip metadata then returnE ()
          else bindE (zoomE snd (\<lambda>r s. (fst s, r)) getCurrentUser) (\<lambda>user.
               bindE (getE (\<lambda>s. ow_now (fst s))) (\<lambda>now.
               let entityName = resolveEntityName metadata en;
                   payload = \<lparr>ap_action = toUpperCase entityName @ ''_'' @ toUpperCase suffix,
                     ap_entity = entityName, ap_primary_key = extractPrimaryKeys metadata en,
                     ap_done_by_id = map_option au_id user, ap_done_by_email = map_option au_email user,
                     ap_timestamp = ob_toISOString E now\<rparr>
               in zoomE fst (\<lambda>w s. (w, snd s))
                    (createOutboxRecord E (toSnakeCase entityName @ ''_'' @ suffix) payload))))"

definition afterInsert ::
  "('d, 'q) outbox_env \<Rightarrow> entity_metadata option \<Rightarrow> entity option \<Rightarrow>
   (('d, 'q) outbox_world \<times> request_state, exn, unit) io" where
  "afterInsert E = audit_event E ''created''"

definition afterUpdate ::
  "('d, 'q) outbox_env \<Rightarrow> entity_metadata option \<Rightarrow> entity option \<Rightarrow>
   (('d, 'q) outbox_world \<times> request_state, exn, unit) io" where
  "afterUpdate E = audit_event E ''updated''"

definition afterRemove ::
  "('d, 'q) outbox_env \<Rightarrow> entity_metadata option \<Rightarrow> entity option \<Rightarrow>
   (('d, 'q) outbox_world \<times> request_state, exn, unit) io" where
  "afterRemove E = audit_event E ''deleted''"

section \<open>OutboxPublisherService\<close>

definition BATCH_SIZE :: nat where
  "BATCH_SIZE = 100"

definition PROCESSING_TIMEOUT_MS :: int where
  "PROCESSING_TIMEOUT_MS = 60000"

definition claimable :: "int \<Rightarrow> outbox \<Rightarrow> bool" where
  "claimable now e \<longleftrightarrow> o_destination e = ''audit_queue'' \<and>
     (o_status e = OutboxPENDING \<or>
      o_status e = OutboxPROCESSING \<and> (\<exists>t \<in> set_option (o_claimed_at e). t < now - PROCESSING_TIMEOUT_MS))"

definition claim_query :: "int \<Rightarrow> outbox_query" where
  "claim_query now =
     \<lparr>oq_setLock = Some PessimisticWrite, oq_setOnLocked = Some SkipLocked, oq_where = claimable now,
      oq_orderBy = [(CreatedAt, ASC), (Id, ASC)], oq_limit = BATCH_SIZE\<rparr>"

definition claimed :: "int \<Rightarrow> outbox \<Rightarrow> outbox" where
  "claimed now e = e\<lparr>o_status := OutboxPROCESSING, o_claimed_at := Some now\<rparr>"

definition ob_transaction :: "('d, 'q) outbox_env \<Rightarrow> (('d, 'q) outbox_world, exn, 'a) io \<Rightarrow>
   (('d, 'q) outbox_world, exn, 'a) io" where
  "ob_transaction E m = (\<lambda>w.
     case m w of
       (Inl e, w') \<Rightarrow> (Inl e, w'\<lparr>ow_db := ob_rollback E (ow_db w) (ow_db w')\<rparr>)
     | (Inr a, w') \<Rightarrow>
         (case ob_commit E (ow_db w) (ow_db w') of
            (Inl e, d) \<Rightarrow> (Inl e, w'\<lparr>ow_db := d\<rparr>)
          | (Inr _, d) \<Rightarrow> (Inr a, w'\<lparr>ow_db := d\<rparr>)))"

definition claimAvailableEvents :: "('d, 'q) outbox_env \<Rightarrow> (('d, 'q) outbox_world, exn, outbox list) io" where
  "claimAvailableEvents E =
     ob_transaction E
       (bindE (getE ow_now) (\<lambda>now.
        bindE (on_outbox (readE (ob_getMany E (claim_query now)))) (\<lambda>events.
          if events = [] then returnE []
          else thenE (on_outbox (ob_update E (List.map o_id events) OutboxPROCESSING (Some now)))
                 (returnE (List.map (claimed now) events)))))"

text \<open>The parts of one turn of the loop: the hand-over to the broker, and the two updates.\<close>

definition emit_event :: "('d, 'q) outbox_env \<Rightarrow> outbox \<Rightarrow> (('d, 'q) outbox_world, exn, unit) io" where
  "emit_event E event = on_broker (audit_emit E (o_pattern event) (o_payload event))"

definition mark_sent :: "('d, 'q) outbox_env \<Rightarrow> outbox \<Rightarrow> (('d, 'q) outbox_world, exn, unit) io" where
  "mark_sent E event = on_outbox (ob_update E [o_id event] OutboxSENT None)"

definition mark_pending :: "('d, 'q) outbox_env \<Rightarrow> outbox \<Rightarrow> (('d, 'q) outbox_world, exn, unit) io" where
  "mark_pending E event = on_outbox (ob_update E [o_id event] OutboxPENDING None)"

definition publish_event :: "('d, 'q) outbox_env \<Rightarrow> outbox \<Rightarrow> ('d, 'q, unit) outbox_service" where
  "publish_event E event =
     catchE (recordDependencyCall ''rabbitmq'' ''publish''
               (thenE (unmeasured (emit_event E event)) (unmeasured (mark_sent E event))))
       (\<lambda>error. unmeasured (mark_pending E event))"

definition set_outboxBatchSize :: "nat \<Rightarrow> ('d, 'q, unit) outbox_service" where
  "set_outboxBatchSize n = (\<lambda>(m, w). (Inr (), m\<lparr>outboxBatchSize := n\<rparr>, w))"

definition handleAuditEvents :: "('d, 'q) outbox_env \<Rightarrow> ('d, 'q, unit) outbox_service" where
  "handleAuditEvents E =
     bindE (unmeasured (claimAvailableEvents E)) (\<lambda>claimedEvents.
     thenE (set_outboxBatchSize (length claimedEvents))
           (forE claimedEvents (publish_event E)))"

section \<open>OutboxCleanupService\<close>

definition is_sent :: "outbox \<Rightarrow> bool" where
  "is_sent e \<longleftrightarrow> o_status e = OutboxSENT"

definition CLEANUP_BATCH_SIZE :: nat where
  "CLEANUP_BATCH_SIZE = 1000"

text \<open>The \<open>do ... while\<close> loop: it may run for ever, so it is partial; \<open>None\<close> is not returning.\<close>

partial_function (option) cleanup_loop ::
  "('d, 'q) outbox_env \<Rightarrow> nat \<Rightarrow> 'd \<Rightarrow> ((exn + nat) \<times> 'd) option" where
  "cleanup_loop E totalDeleted d =
     (case ob_delete E is_sent CLEANUP_BATCH_SIZE d of
        (Inl error, d') \<Rightarrow> Some (Inl error, d')
      | (Inr result, d') \<Rightarrow>
          (let affected = (case result of None \<Rightarrow> 0 | Some n \<Rightarrow> n) in
           if affected = CLEANUP_BATCH_SIZE then cleanup_loop E (totalDeleted + affected) d'
           else Some (Inr (totalDeleted + affected), d')))"

text \<open>The handler logs an error of the loop and resolves; the number is the one it logs.\<close>

definition handleOutboxCleanup :: "('d, 'q) outbox_env \<Rightarrow> 'd \<Rightarrow> (nat option \<times> 'd) option" where
  "handleOutboxCleanup E d =
     map_option (\<lambda>(res, d'). (case res of Inl _ \<Rightarrow> None | Inr n \<Rightarrow> Some n, d')) (cleanup_loop E 0 d)"

end
