(* ===== verification/OutboxSteps.thy ===== *)
theory OutboxSteps imports Outbox begin

text \<open>
  What the outbox needs of the database and the broker, and the runs of its parts: any number
  of publishers, each at its own place in the loop of \<open>handleAuditEvents\<close>, beside requests that
  write events, the cleanup, crashes and the passing of time, in any order.
\<close>

section \<open>Laws\<close>

text \<open>The rows, the identifiers that other transactions hold locked, whether the database answers,
  and the order of the database on identifiers.\<close>

record 'd outbox_table =
  ob_rows :: "'d \<Rightarrow> outbox set"
  ob_locked :: "'d \<Rightarrow> string set"
  ob_answers :: "'d \<Rightarrow> bool"
  ob_id_le :: "string \<Rightarrow> string \<Rightarrow> bool"

definition message_of :: "outbox \<Rightarrow> string \<times> audit_payload" where
  "message_of e = (o_pattern e, o_payload e)"

text \<open>\<open>ORDER BY\<close>: rows are compared by the first column, those that agree on it by the next one.\<close>

fun column_le :: "'d outbox_table \<Rightarrow> outbox_column \<Rightarrow> outbox \<Rightarrow> outbox \<Rightarrow> bool" where
  "column_le T CreatedAt a b = (o_created_at a \<le> o_created_at b)"
| "column_le T Id a b = ob_id_le T (o_id a) (o_id b)"

fun in_order :: "'d outbox_table \<Rightarrow> (outbox_column \<times> direction) list \<Rightarrow> outbox \<Rightarrow> outbox \<Rightarrow> bool" where
  "in_order T [] a b = True"
| "in_order T ((c, ASC) # cs) a b = (column_le T c a b \<and> (column_le T c b a \<longrightarrow> in_order T cs a b))"
| "in_order T ((c, DESC) # cs) a b = (column_le T c b a \<and> (column_le T c a b \<longrightarrow> in_order T cs a b))"

text \<open>\<open>L\<close> lists the rows \<open>S\<close> once each, the oldest first and those of one moment by identifier.\<close>

definition claim_order :: "'d outbox_table \<Rightarrow> outbox set \<Rightarrow> outbox list \<Rightarrow> bool" where
  "claim_order T S L \<longleftrightarrow> set L = S \<and> distinct L \<and>
     sorted_wrt (\<lambda>a b. o_created_at a < o_created_at b \<or>
       o_created_at a = o_created_at b \<and> ob_id_le T (o_id a) (o_id b)) L"

definition updated :: "string list \<Rightarrow> outbox_status \<Rightarrow> int option \<Rightarrow> outbox \<Rightarrow> outbox" where
  "updated ids st t e = (if o_id e \<in> set ids then e\<lparr>o_status := st, o_claimed_at := t\<rparr> else e)"

text \<open>A query lists the rows that meet its condition, in its order, and answers the first ones up to
  its limit. One that locks the rows it reads and skips those that are locked leaves these out; of any
  other query nothing is said when a row it selects is locked (it waits, or fails).\<close>

definition getMany_ok :: "'d outbox_table \<Rightarrow> outbox_query \<Rightarrow> 'd \<Rightarrow> exn + outbox list \<Rightarrow> bool" where
  "getMany_ok T q d res =
     (let skips = oq_setLock q \<noteq> None \<and> oq_setOnLocked q = Some SkipLocked;
          S = {e \<in> ob_rows T d. oq_where q e \<and> (skips \<longrightarrow> o_id e \<notin> ob_locked T d)} in
      skips \<or> (\<forall>e \<in> S. o_id e \<notin> ob_locked T d) \<longrightarrow>
      (case res of
         Inr es \<Rightarrow> (\<exists>L. set L = S \<and> distinct L \<and> sorted_wrt (in_order T (oq_orderBy q)) L \<and> es = take (oq_limit q) L)
       | Inl _ \<Rightarrow> \<not> ob_answers T d))"

text \<open>So the query of the publisher answers the oldest claimable rows that are not locked.\<close>

lemma claim_query_answer:
  assumes "getMany_ok T (claim_query now) d res"
  shows "case res of
      Inr es \<Rightarrow> (\<exists>L. claim_order T {e \<in> ob_rows T d. claimable now e \<and> o_id e \<notin> ob_locked T d} L \<and> es = take BATCH_SIZE L)
    | Inl _ \<Rightarrow> \<not> ob_answers T d"
proof (cases res)
  case (Inl x)
  then show ?thesis using assms by (simp add: getMany_ok_def claim_query_def Let_def)
next
  case (Inr es)
  then obtain L where L: "set L = {e \<in> ob_rows T d. claimable now e \<and> o_id e \<notin> ob_locked T d}" "distinct L"
    "sorted_wrt (in_order T [(CreatedAt, ASC), (Id, ASC)]) L" "es = take BATCH_SIZE L"
    using assms by (auto simp: getMany_ok_def claim_query_def Let_def)
  have "sorted_wrt (\<lambda>a b. o_created_at a < o_created_at b \<or>
      o_created_at a = o_created_at b \<and> ob_id_le T (o_id a) (o_id b)) L"
    by (rule sorted_wrt_mono_rel [OF _ L(3)]) auto
  with L Inr show ?thesis by (auto simp: claim_order_def)
qed

text \<open>A write that fails may have been carried out, its answer lost.\<close>

definition update_ok :: "'d outbox_table \<Rightarrow> string list \<Rightarrow> outbox_status \<Rightarrow> int option \<Rightarrow> 'd \<Rightarrow> (exn + unit) \<times> 'd \<Rightarrow> bool" where
  "update_ok T ids st t d res = (case res of
       (Inr _, d') \<Rightarrow> ob_rows T d' = updated ids st t ` ob_rows T d \<and> (ob_answers T d \<longrightarrow> ob_answers T d')
     | (Inl _, d') \<Rightarrow> \<not> ob_answers T d \<and> (ob_rows T d' = ob_rows T d \<or> ob_rows T d' = updated ids st t ` ob_rows T d))"

definition delete_ok :: "'d outbox_table \<Rightarrow> (outbox \<Rightarrow> bool) \<Rightarrow> nat \<Rightarrow> 'd \<Rightarrow> (exn + nat option) \<times> 'd \<Rightarrow> bool" where
  "delete_ok T p n d res = (\<exists>D \<subseteq> {e \<in> ob_rows T d. p e}. ob_rows T (snd res) = ob_rows T d - D \<and>
     (case fst res of
        Inr affected \<Rightarrow> card D = min n (card {e \<in> ob_rows T d. p e}) \<and> affected = Some (card D) \<and>
          (ob_answers T d \<longrightarrow> ob_answers T (snd res))
      | Inl _ \<Rightarrow> \<not> ob_answers T d))"

definition insert_ok :: "'d outbox_table \<Rightarrow> outbox \<Rightarrow> 'd \<Rightarrow> (exn + outbox) \<times> 'd \<Rightarrow> bool" where
  "insert_ok T e d res = (case res of
       (Inr e', d') \<Rightarrow> ob_rows T d' = insert e' (ob_rows T d) \<and> o_id e' \<notin> o_id ` ob_rows T d \<and>
          (\<exists>i c. e' = e\<lparr>o_id := i, o_created_at := c\<rparr>) \<and> (ob_answers T d \<longrightarrow> ob_answers T d')
     | (Inl _, d') \<Rightarrow> ob_rows T d' = ob_rows T d)"

definition end_ok :: "'d outbox_table \<Rightarrow> 'd \<Rightarrow> 'd \<Rightarrow> (exn + unit) \<times> 'd \<Rightarrow> bool" where
  "end_ok T d d' res = (case res of
       (Inr _, d'') \<Rightarrow> ob_rows T d'' = ob_rows T d' \<and> (ob_answers T d' \<longrightarrow> ob_answers T d'')
     | (Inl _, d'') \<Rightarrow> \<not> ob_answers T d' \<and> (ob_rows T d'' = ob_rows T d \<or> ob_rows T d'' = ob_rows T d'))"

definition outbox_laws :: "('d, 'q) outbox_env \<Rightarrow> 'd outbox_table \<Rightarrow> bool" where
  "outbox_laws E T \<longleftrightarrow>
     (\<forall>d. finite (ob_rows T d)) \<and>
     (\<forall>q d. getMany_ok T q d (ob_getMany E q d)) \<and>
     (\<forall>ids st t d. update_ok T ids st t d (ob_update E ids st t d)) \<and>
     (\<forall>p n d. delete_ok T p n d (ob_delete E p n d)) \<and>
     (\<forall>e d. insert_ok T e d (ob_save E e d)) \<and>
     (\<forall>d d'. end_ok T d d' (ob_commit E d d')) \<and>
     (\<forall>d d'. ob_rows T (ob_rollback E d d') = ob_rows T d)"

text \<open>The messages the broker has taken, in order; a hand-over that fails may have been taken.\<close>

definition emit_ok :: "('q \<Rightarrow> (string \<times> audit_payload) list) \<Rightarrow> ('q \<Rightarrow> bool) \<Rightarrow> string \<times> audit_payload \<Rightarrow> 'q \<Rightarrow>
    (exn + unit) \<times> 'q \<Rightarrow> bool" where
  "emit_ok taken up message q res = (case res of
       (Inr _, q') \<Rightarrow> taken q' = taken q @ [message] \<and> (up q \<longrightarrow> up q')
     | (Inl _, q') \<Rightarrow> \<not> up q \<and> (taken q' = taken q \<or> taken q' = taken q @ [message]))"

definition emit_laws :: "('d, 'q) outbox_env \<Rightarrow> ('q \<Rightarrow> (string \<times> audit_payload) list) \<Rightarrow> ('q \<Rightarrow> bool) \<Rightarrow> bool" where
  "emit_laws E taken up \<longleftrightarrow>
     (\<forall>pattern payload q. emit_ok taken up (pattern, payload) q (audit_emit E pattern payload q))"

lemma outbox_lawsD:
  assumes "outbox_laws E T"
  shows "finite (ob_rows T d)" "getMany_ok T q d (ob_getMany E q d)" "update_ok T ids st t d (ob_update E ids st t d)"
    "delete_ok T p n d (ob_delete E p n d)" "insert_ok T e d (ob_save E e d)" "end_ok T d d' (ob_commit E d d')"
    "ob_rows T (ob_rollback E d d') = ob_rows T d"
  using assms unfolding outbox_laws_def by blast+

section \<open>Runs\<close>

text \<open>Where a publisher is: not running; before the turn of the first event of a list; between the
  hand-over of an event and its update; about to undo the claim of an event.\<close>

datatype place = Idle | Todo "outbox list" | Emitted outbox "outbox list" | Failed outbox "outbox list"

text \<open>\<open>sy_written\<close> remembers every event ever written, with its identifier.\<close>

record ('d, 'q) audit_system =
  sy_world :: "('d, 'q) outbox_world"
  sy_place :: "nat \<Rightarrow> place"
  sy_written :: "(string \<times> string \<times> audit_payload) set"

definition entry :: "outbox \<Rightarrow> string \<times> string \<times> audit_payload" where
  "entry e = (o_id e, message_of e)"

definition moved :: "nat \<Rightarrow> place \<Rightarrow> ('d, 'q) outbox_world \<Rightarrow> ('d, 'q) audit_system \<Rightarrow> ('d, 'q) audit_system" where
  "moved i p w S = S\<lparr>sy_world := w, sy_place := (sy_place S)(i := p)\<rparr>"

inductive audit_step :: "('d, 'q) outbox_env \<Rightarrow> 'd outbox_table \<Rightarrow> ('d, 'q) audit_system \<Rightarrow> ('d, 'q) audit_system \<Rightarrow> bool"
  for E :: "('d, 'q) outbox_env" and T :: "'d outbox_table" where
  step_write: "createOutboxRecord E pattern payload (sy_world S) = (res, w) \<Longrightarrow>
    new = ob_rows T (ow_db w) - ob_rows T (ow_db (sy_world S)) \<Longrightarrow> o_id ` new \<inter> fst ` sy_written S = {} \<Longrightarrow>
    audit_step E T S (S\<lparr>sy_world := w, sy_written := sy_written S \<union> entry ` new\<rparr>)"
| step_claim: "sy_place S i = Idle \<Longrightarrow> claimAvailableEvents E (sy_world S) = (res, w) \<Longrightarrow>
    audit_step E T S (moved i (case res of Inr es \<Rightarrow> Todo es | Inl _ \<Rightarrow> Idle) w S)"
| step_emit: "sy_place S i = Todo (e # es) \<Longrightarrow> emit_event E e (sy_world S) = (res, w) \<Longrightarrow>
    audit_step E T S (moved i (if is_ok res then Emitted e es else Failed e es) w S)"
| step_sent: "sy_place S i = Emitted e es \<Longrightarrow> mark_sent E e (sy_world S) = (res, w) \<Longrightarrow>
    audit_step E T S (moved i (if is_ok res then Todo es else Failed e es) w S)"
| step_pending: "sy_place S i = Failed e es \<Longrightarrow> mark_pending E e (sy_world S) = (res, w) \<Longrightarrow>
    audit_step E T S (moved i (if is_ok res then Todo es else Idle) w S)"
| step_stop: "audit_step E T S (moved i Idle (sy_world S) S)"
| step_clean: "ob_delete E is_sent CLEANUP_BATCH_SIZE (ow_db (sy_world S)) = (res, d) \<Longrightarrow>
    audit_step E T S (S\<lparr>sy_world := (sy_world S)\<lparr>ow_db := d\<rparr>\<rparr>)"
| step_time: "ow_now (sy_world S) \<le> now \<Longrightarrow> audit_step E T S (S\<lparr>sy_world := (sy_world S)\<lparr>ow_now := now\<rparr>\<rparr>)"

section \<open>The invariant\<close>

fun events_at :: "place \<Rightarrow> outbox set" where
  "events_at Idle = {}"
| "events_at (Todo es) = set es"
| "events_at (Emitted e es) = insert e (set es)"
| "events_at (Failed e es) = insert e (set es)"

fun emitted_at :: "place \<Rightarrow> outbox set" where
  "emitted_at (Emitted e es) = {e}"
| "emitted_at _ = {}"

text \<open>The part about the table: \<open>M\<close> are the messages taken and \<open>H\<close> the events written.\<close>

definition table_inv :: "(string \<times> string \<times> audit_payload) set \<Rightarrow> (string \<times> audit_payload) set \<Rightarrow> outbox set \<Rightarrow> bool" where
  "table_inv H M R \<longleftrightarrow> inj_on fst H \<and> entry ` R \<subseteq> H \<and>
     (\<forall>e \<in> R. is_sent e \<longrightarrow> message_of e \<in> M) \<and>
     (\<forall>(i, m) \<in> H. m \<in> M \<or> (\<exists>e \<in> R. entry e = (i, m) \<and> \<not> is_sent e))"

text \<open>The part about a publisher.\<close>

definition place_inv :: "(string \<times> string \<times> audit_payload) set \<Rightarrow> (string \<times> audit_payload) set \<Rightarrow> place \<Rightarrow> bool" where
  "place_inv H M p \<longleftrightarrow> entry ` events_at p \<subseteq> H \<and> message_of ` emitted_at p \<subseteq> M"

lemma place_inv_mono: "place_inv H M p \<Longrightarrow> H \<subseteq> H' \<Longrightarrow> M \<subseteq> M' \<Longrightarrow> place_inv H' M' p"
  unfolding place_inv_def by (meson subset_trans)

definition system_inv :: "'d outbox_table \<Rightarrow> ('q \<Rightarrow> (string \<times> audit_payload) list) \<Rightarrow> ('d, 'q) audit_system \<Rightarrow> bool" where
  "system_inv T taken S \<longleftrightarrow>
     table_inv (sy_written S) (set (taken (ow_mq (sy_world S)))) (ob_rows T (ow_db (sy_world S))) \<and>
     (\<forall>i. place_inv (sy_written S) (set (taken (ow_mq (sy_world S)))) (sy_place S i))"

lemma entry_updated [simp]: "entry (updated ids st t e) = entry e" "message_of (updated ids st t e) = message_of e"
  by (simp_all add: entry_def updated_def message_of_def)

lemma updated_sent: "is_sent (updated ids st t e) \<longleftrightarrow> (if o_id e \<in> set ids then st = OutboxSENT else is_sent e)"
  by (simp add: is_sent_def updated_def)

text \<open>An update keeps the invariant when it does not mark as sent an event not taken.\<close>

lemma table_inv_update:
  assumes "table_inv H M R" "\<And>e. e \<in> R \<Longrightarrow> st = OutboxSENT \<Longrightarrow> o_id e \<in> set ids \<Longrightarrow> message_of e \<in> M"
  shows "table_inv H M (updated ids st t ` R)"
proof -
  have inv: "inj_on fst H" "entry ` R \<subseteq> H" "\<And>e. e \<in> R \<Longrightarrow> is_sent e \<Longrightarrow> message_of e \<in> M"
    "\<And>i m. (i, m) \<in> H \<Longrightarrow> m \<in> M \<or> (\<exists>e \<in> R. entry e = (i, m) \<and> \<not> is_sent e)"
    using assms(1) by (auto simp: table_inv_def)
  have "message_of e \<in> M" if "e \<in> R" "is_sent (updated ids st t e)" for e
    using that inv(3) assms(2) by (auto simp: updated_sent split: if_splits)
  moreover have "m \<in> M \<or> (\<exists>e \<in> R. entry e = (i, m) \<and> \<not> is_sent (updated ids st t e))" if "(i, m) \<in> H" for i m
  proof -
    from inv(4) [OF that] consider "m \<in> M" | e where "e \<in> R" "entry e = (i, m)" "\<not> is_sent e" by blast
    then show ?thesis
    proof cases
      case 2
      then have "is_sent (updated ids st t e) \<Longrightarrow> message_of e \<in> M"
        using assms(2) by (auto simp: updated_sent split: if_splits)
      with 2 show ?thesis by (auto simp: entry_def)
    qed simp
  qed
  ultimately show ?thesis
    using inv(1,2) by (auto simp: table_inv_def image_image)
qed

lemma table_inv_taken: "table_inv H M R \<Longrightarrow> M \<subseteq> M' \<Longrightarrow> table_inv H M' R"
  by (fastforce simp: table_inv_def)

lemma table_inv_delete: "table_inv H M R \<Longrightarrow> D \<subseteq> {e \<in> R. is_sent e} \<Longrightarrow> table_inv H M (R - D)"
  by (fastforce simp: table_inv_def)

lemma table_inv_insert:
  assumes "table_inv H M R" "\<not> is_sent e" "o_id e \<notin> fst ` H"
  shows "table_inv (insert (entry e) H) M (insert e R)"
  using assms by (auto simp: table_inv_def entry_def inj_on_insert)


section \<open>Every step keeps it\<close>

lemma wp_ob_transaction:
  assumes laws: "outbox_laws E T"
    and m: "wp m (\<lambda>a w'. (\<forall>d. ob_rows T d = ob_rows T (ow_db w') \<longrightarrow>
          (ob_answers T (ow_db w') \<longrightarrow> ob_answers T d) \<longrightarrow> Q a (w'\<lparr>ow_db := d\<rparr>)) \<and>
        (\<forall>d e. \<not> ob_answers T (ow_db w') \<longrightarrow> ob_rows T d = ob_rows T (ow_db w) \<or> ob_rows T d = ob_rows T (ow_db w') \<longrightarrow>
          F e (w'\<lparr>ow_db := d\<rparr>)))
      (\<lambda>e w'. \<forall>d. ob_rows T d = ob_rows T (ow_db w) \<longrightarrow> F e (w'\<lparr>ow_db := d\<rparr>)) w"
  shows "wp (ob_transaction E m) Q F w"
proof (cases "m w")
  case (Pair res w')
  show ?thesis
  proof (cases res)
    case (Inl e)
    then show ?thesis
      using wp_runL [OF m, of e w'] Pair outbox_lawsD(7) [OF laws, of "ow_db w" "ow_db w'"]
      by (auto simp: wp_def ob_transaction_def)
  next
    case (Inr a)
    have q: "end_ok T (ow_db w) (ow_db w') (ob_commit E (ow_db w) (ow_db w'))"
      by (rule outbox_lawsD(6) [OF laws])
    show ?thesis
      using wp_runR [OF m, of a w'] Pair Inr q
      by (cases "ob_commit E (ow_db w) (ow_db w')") (auto simp: wp_def ob_transaction_def end_ok_def split: sum.splits)
  qed
qed

lemma outbox_world_same [simp]: "w\<lparr>ow_db := ow_db w\<rparr> = w" "w\<lparr>ow_mq := ow_mq w\<rparr> = w"
  by simp_all

lemma wp_outbox_read:
  "wp (on_outbox (readE f)) Q F w = (case f (ow_db w) of Inl e \<Rightarrow> F e w | Inr a \<Rightarrow> Q a w)"
  by (cases "f (ow_db w)") (simp_all add: on_outbox_def wp_zoom wp)

lemma wp_ob_update:
  assumes laws: "outbox_laws E T"
    and "\<And>d'. ob_rows T d' = updated ids st t ` ob_rows T (ow_db w) \<Longrightarrow> (ob_answers T (ow_db w) \<Longrightarrow> ob_answers T d') \<Longrightarrow>
      Q () (w\<lparr>ow_db := d'\<rparr>)"
    and "\<And>e d'. \<not> ob_answers T (ow_db w) \<Longrightarrow>
      ob_rows T d' = ob_rows T (ow_db w) \<or> ob_rows T d' = updated ids st t ` ob_rows T (ow_db w) \<Longrightarrow> F e (w\<lparr>ow_db := d'\<rparr>)"
  shows "wp (on_outbox (ob_update E ids st t)) Q F w"
proof -
  have u: "update_ok T ids st t (ow_db w) (ob_update E ids st t (ow_db w))" by (rule outbox_lawsD(3) [OF laws])
  show ?thesis
    unfolding on_outbox_def wp_zoom
    using u assms(2,3) by (auto simp: wp_def update_ok_def split: prod.splits sum.splits)
qed

text \<open>What a claim does: the first rows that are claimable, in the order of the query, become the
  publisher's; on an error it may have claimed them without an answer.\<close>

lemma wp_claimAvailableEvents:
  assumes laws: "outbox_laws E T"
    and Q: "\<And>L d'. claim_order T {e \<in> ob_rows T (ow_db w). claimable (ow_now w) e \<and> o_id e \<notin> ob_locked T (ow_db w)} L \<Longrightarrow>
      ob_rows T d' = updated (List.map o_id (take BATCH_SIZE L)) OutboxPROCESSING (Some (ow_now w)) ` ob_rows T (ow_db w) \<Longrightarrow>
      (ob_answers T (ow_db w) \<Longrightarrow> ob_answers T d') \<Longrightarrow>
      Q (List.map (claimed (ow_now w)) (take BATCH_SIZE L)) (w\<lparr>ow_db := d'\<rparr>)"
    and F: "\<And>x ids d'. \<not> ob_answers T (ow_db w) \<Longrightarrow>
      ob_rows T d' = updated ids OutboxPROCESSING (Some (ow_now w)) ` ob_rows T (ow_db w) \<Longrightarrow> F x (w\<lparr>ow_db := d'\<rparr>)"
  shows "wp (claimAvailableEvents E) Q F w"
proof -
  let ?now = "ow_now w" and ?R = "ob_rows T (ow_db w)"
  have none: "updated [] st t ` R = R" for st t R by (simp add: updated_def)
  have F0: "F x (w\<lparr>ow_db := d\<rparr>)" if "\<not> ob_answers T (ow_db w)" "ob_rows T d = ?R" for x d
    using F [where ids = "[]" and d' = d] that none by auto
  note sel = claim_query_answer [OF outbox_lawsD(2) [OF laws, of "claim_query ?now" "ow_db w"]]
  show ?thesis unfolding claimAvailableEvents_def
  proof (rule wp_ob_transaction [OF laws], unfold wp_bind wp_get wp_outbox_read,
      cases "ob_getMany E (claim_query ?now) (ow_db w)", goal_cases)
    case (1 x)
    then show ?case using sel F0 by simp
  next
    case (2 es)
    with sel obtain L where L: "claim_order T {e \<in> ?R. claimable ?now e \<and> o_id e \<notin> ob_locked T (ow_db w)} L"
      "es = take BATCH_SIZE L" by auto
    have q: "Q (List.map (claimed ?now) es) (w\<lparr>ow_db := d\<rparr>)"
      if "ob_rows T d = updated (List.map o_id es) OutboxPROCESSING (Some ?now) ` ?R"
        "ob_answers T (ow_db w) \<Longrightarrow> ob_answers T d" for d
      using Q [OF L(1)] that L(2) by simp
    show ?case
    proof (cases "es = []")
      case True
      then show ?thesis using 2 q F0 none by (simp add: wp)
    next
      case False
      have upd: "wp (on_outbox (ob_update E (List.map o_id es) OutboxPROCESSING (Some ?now)))
        (\<lambda>_ w'. (\<forall>d. ob_rows T d = ob_rows T (ow_db w') \<longrightarrow> (ob_answers T (ow_db w') \<longrightarrow> ob_answers T d) \<longrightarrow>
             Q (List.map (claimed ?now) es) (w'\<lparr>ow_db := d\<rparr>)) \<and>
          (\<forall>d e. \<not> ob_answers T (ow_db w') \<longrightarrow> ob_rows T d = ?R \<or> ob_rows T d = ob_rows T (ow_db w') \<longrightarrow>
             F e (w'\<lparr>ow_db := d\<rparr>)))
        (\<lambda>e w'. \<forall>d. ob_rows T d = ?R \<longrightarrow> F e (w'\<lparr>ow_db := d\<rparr>)) w"
      proof (rule wp_ob_update [OF laws], goal_cases)
        case (1 d')
        then have "F e (w\<lparr>ow_db := d\<rparr>)" if "\<not> ob_answers T d'" "ob_rows T d = ?R \<or> ob_rows T d = ob_rows T d'" for e d
          using that F0 F by (metis (no_types, lifting))
        with 1 q show ?case by simp
      qed (use F0 in simp)
      then show ?thesis using 2 False by (simp add: wp)
    qed
  qed
qed

lemma wp_emit_event:
  assumes "emit_laws E taken up"
    and "\<And>q'. taken q' = taken (ow_mq w) @ [message_of e] \<Longrightarrow> (up (ow_mq w) \<Longrightarrow> up q') \<Longrightarrow> Q () (w\<lparr>ow_mq := q'\<rparr>)"
    and "\<And>x q'. \<not> up (ow_mq w) \<Longrightarrow> taken q' = taken (ow_mq w) \<or> taken q' = taken (ow_mq w) @ [message_of e] \<Longrightarrow>
      F x (w\<lparr>ow_mq := q'\<rparr>)"
  shows "wp (emit_event E e) Q F w"
proof -
  have "emit_ok taken up (message_of e) (ow_mq w) (audit_emit E (o_pattern e) (o_payload e) (ow_mq w))"
    using assms(1) by (simp add: emit_laws_def message_of_def)
  then show ?thesis
    unfolding emit_event_def on_broker_def wp_zoom
    using assms(2,3) by (auto simp: wp_def emit_ok_def split: prod.splits sum.splits)
qed


section \<open>Reachable states\<close>

abbreviation rows_of :: "'d outbox_table \<Rightarrow> ('d, 'q) audit_system \<Rightarrow> outbox set" where
  "rows_of T S \<equiv> ob_rows T (ow_db (sy_world S))"

abbreviation taken_of :: "('q \<Rightarrow> (string \<times> audit_payload) list) \<Rightarrow> ('d, 'q) audit_system \<Rightarrow> (string \<times> audit_payload) list" where
  "taken_of taken S \<equiv> taken (ow_mq (sy_world S))"

text \<open>A publisher moves: what has to be shown of its new place.\<close>

lemma system_inv_moved:
  assumes "system_inv T taken S" "table_inv (sy_written S) (set (taken (ow_mq w))) (ob_rows T (ow_db w))"
    and "set (taken_of taken S) \<subseteq> set (taken (ow_mq w))"
    and "entry ` events_at p \<subseteq> sy_written S" "message_of ` emitted_at p \<subseteq> set (taken (ow_mq w))"
  shows "system_inv T taken (moved i p w S)"
  using assms place_inv_mono [OF _ order_refl assms(3)]
  by (simp add: system_inv_def moved_def) (simp add: place_inv_def)

lemma written_message:
  assumes "table_inv H M R" "entry e \<in> H" "x \<in> R" "o_id x = o_id e"
  shows "message_of x = message_of e"
  using assms inj_onD [of fst H "entry x" "entry e"] by (auto simp: table_inv_def entry_def)

lemma claim_keeps:
  assumes laws: "outbox_laws E T" and inv: "system_inv T taken S" and run: "claimAvailableEvents E (sy_world S) = (res, w)"
  shows "system_inv T taken (moved i (case res of Inr es \<Rightarrow> Todo es | Inl _ \<Rightarrow> Idle) w S)"
proof -
  let ?w = "sy_world S"
  let ?ok = "\<lambda>w. ow_mq w = ow_mq ?w \<and> table_inv (sy_written S) (set (taken_of taken S)) (ob_rows T (ow_db w))"
  have t: "table_inv (sy_written S) (set (taken_of taken S)) (rows_of T S)"
    using inv by (simp add: system_inv_def)
  have u: "?ok (?w\<lparr>ow_db := d'\<rparr>)" if "ob_rows T d' = updated ids OutboxPROCESSING t ` rows_of T S" for d' ids t
    using table_inv_update [OF t, of OutboxPROCESSING ids t] that by simp
  have "wp (claimAvailableEvents E) (\<lambda>es w. ?ok w \<and> entry ` set es \<subseteq> sy_written S) (\<lambda>_ w. ?ok w) ?w"
  proof (rule wp_claimAvailableEvents [OF laws], goal_cases)
    case (1 L d')
    have "set (take BATCH_SIZE L) \<subseteq> rows_of T S"
      using 1(1) by (auto simp: claim_order_def dest: in_set_takeD)
    moreover have "entry (claimed now e) = entry e" for now e
      by (simp add: entry_def claimed_def message_of_def)
    ultimately show ?case using u [OF 1(2)] t by (force simp: table_inv_def)
  next
    case (2 x ids d')
    show ?case by (rule u [OF 2(2)])
  qed
  with run have "?ok w" "\<And>es. res = Inr es \<Longrightarrow> entry ` set es \<subseteq> sy_written S"
    by (auto simp: wp_def split: sum.splits)
  then show ?thesis
    by (intro system_inv_moved [OF inv]) (auto split: sum.splits)
qed

lemma emit_keeps:
  assumes laws: "emit_laws E taken up" and inv: "system_inv T taken S" and at: "sy_place S i = Todo (e # es)"
    and run: "emit_event E e (sy_world S) = (res, w)"
  shows "system_inv T taken (moved i (if is_ok res then Emitted e es else Failed e es) w S)"
proof -
  let ?w = "sy_world S"
  have "wp (emit_event E e) (\<lambda>_ w. ow_db w = ow_db ?w \<and> set (taken_of taken S) \<subseteq> set (taken (ow_mq w)) \<and>
      message_of e \<in> set (taken (ow_mq w)))
      (\<lambda>_ w. ow_db w = ow_db ?w \<and> set (taken_of taken S) \<subseteq> set (taken (ow_mq w))) ?w"
    by (rule wp_emit_event [OF laws]) auto
  with run have w: "ow_db w = ow_db ?w" "set (taken_of taken S) \<subseteq> set (taken (ow_mq w))"
    "is_ok res \<Longrightarrow> message_of e \<in> set (taken (ow_mq w))"
    by (auto simp: wp_def split: sum.splits)
  have "entry ` set (e # es) \<subseteq> sy_written S"
    using inv at unfolding system_inv_def place_inv_def by (metis events_at.simps(2))
  moreover have "table_inv (sy_written S) (set (taken (ow_mq w))) (ob_rows T (ow_db w))"
    using inv w(1,2) by (auto simp: system_inv_def intro: table_inv_taken)
  ultimately show ?thesis
    using w by (intro system_inv_moved [OF inv]) auto
qed

lemma mark_keeps:
  assumes laws: "outbox_laws E T" and inv: "system_inv T taken S"
    and at: "entry e \<in> sy_written S" "entry ` set es \<subseteq> sy_written S"
    and run: "on_outbox (ob_update E [o_id e] st t) (sy_world S) = (res, w)"
    and sent: "st = OutboxSENT \<Longrightarrow> message_of e \<in> set (taken_of taken S)"
    and p: "events_at p \<subseteq> insert e (set es)" "emitted_at p = {}"
  shows "system_inv T taken (moved i p w S)"
proof -
  let ?w = "sy_world S"
  let ?ok = "\<lambda>w. ow_mq w = ow_mq ?w \<and> table_inv (sy_written S) (set (taken_of taken S)) (ob_rows T (ow_db w))"
  have tab: "table_inv (sy_written S) (set (taken_of taken S)) (rows_of T S)"
    using inv by (simp add: system_inv_def)
  have upd: "table_inv (sy_written S) (set (taken_of taken S)) (updated [o_id e] st t ` rows_of T S)"
    by (rule table_inv_update [OF tab]) (use written_message [OF tab at(1)] sent in simp)
  have "wp (on_outbox (ob_update E [o_id e] st t)) (\<lambda>_. ?ok) (\<lambda>_. ?ok) ?w"
    by (rule wp_ob_update [OF laws]) (use tab upd in auto)
  with run have "?ok w" by (auto simp: wp_def split: sum.splits)
  moreover have "entry ` events_at p \<subseteq> sy_written S" using p(1) at by blast
  ultimately show ?thesis using p(2) by (intro system_inv_moved [OF inv]) auto
qed

lemma write_keeps:
  assumes laws: "outbox_laws E T" and inv: "system_inv T taken S"
    and run: "createOutboxRecord E pattern payload (sy_world S) = (res, w)"
    and new: "new = ob_rows T (ow_db w) - rows_of T S" "o_id ` new \<inter> fst ` sy_written S = {}"
  shows "system_inv T taken (S\<lparr>sy_world := w, sy_written := sy_written S \<union> entry ` new\<rparr>)"
proof -
  let ?w = "sy_world S"
  let ?e = "new_outbox pattern payload"
  have tab: "table_inv (sy_written S) (set (taken_of taken S)) (rows_of T S)"
    using inv by (simp add: system_inv_def)
  have "insert_ok T ?e (ow_db ?w) (ob_save E ?e (ow_db ?w))" by (rule outbox_lawsD(5) [OF laws])
  with run have "ow_mq w = ow_mq ?w \<and> (ob_rows T (ow_db w) = rows_of T S \<or>
      (\<exists>e'. ob_rows T (ow_db w) = insert e' (rows_of T S) \<and> o_id e' \<notin> o_id ` rows_of T S \<and> \<not> is_sent e'))"
    by (auto simp: createOutboxRecord_def thenE_def bindE_def on_outbox_def zoomE_def returnE_def insert_ok_def is_sent_def new_outbox_def
        split: prod.splits sum.splits)
  then consider "ow_mq w = ow_mq ?w" "ob_rows T (ow_db w) = rows_of T S"
    | e' where "ow_mq w = ow_mq ?w" "ob_rows T (ow_db w) = insert e' (rows_of T S)" "o_id e' \<notin> o_id ` rows_of T S" "\<not> is_sent e'"
    by blast
  then show ?thesis
  proof cases
    case 1
    then show ?thesis using inv new(1) by (simp add: system_inv_def)
  next
    case 2
    then have "new = {e'}" using new(1) by auto
    then have fresh: "o_id e' \<notin> fst ` sy_written S" using new(2) by simp
    have "table_inv (insert (entry e') (sy_written S)) (set (taken_of taken S)) (insert e' (rows_of T S))"
      by (rule table_inv_insert [OF tab 2(4) fresh])
    moreover have "place_inv (insert (entry e') (sy_written S)) (set (taken_of taken S)) (sy_place S i)" for i
      using inv by (auto simp: system_inv_def intro: place_inv_mono)
    ultimately show ?thesis using 2 \<open>new = {e'}\<close> by (simp add: system_inv_def)
  qed
qed

lemma clean_keeps:
  assumes laws: "outbox_laws E T" and inv: "system_inv T taken S"
    and run: "ob_delete E is_sent CLEANUP_BATCH_SIZE (ow_db (sy_world S)) = (res, d)"
  shows "system_inv T taken (S\<lparr>sy_world := (sy_world S)\<lparr>ow_db := d\<rparr>\<rparr>)"
proof -
  have "delete_ok T is_sent CLEANUP_BATCH_SIZE (ow_db (sy_world S)) (res, d)"
    using outbox_lawsD(4) [OF laws] run by metis
  then obtain D where "D \<subseteq> {e \<in> rows_of T S. is_sent e}" "ob_rows T d = rows_of T S - D"
    by (auto simp: delete_ok_def)
  then show ?thesis using inv table_inv_delete by (auto simp: system_inv_def)
qed

lemma audit_step_keeps:
  assumes "audit_step E T S S'" and laws: "outbox_laws E T" "emit_laws E taken up" and inv: "system_inv T taken S"
  shows "system_inv T taken S'"
  using assms(1)
proof cases
  case (step_write pattern payload res w new)
  then show ?thesis using write_keeps [OF laws(1) inv] by simp
next
  case (step_claim i res w)
  then show ?thesis using claim_keeps [OF laws(1) inv] by simp
next
  case (step_emit i e es res w)
  then show ?thesis using emit_keeps [OF laws(2) inv] by simp
next
  case (step_sent i e es res w)
  have "entry ` events_at (Emitted e es) \<subseteq> sy_written S \<and> message_of ` emitted_at (Emitted e es) \<subseteq> set (taken_of taken S)"
    using inv step_sent(2) unfolding system_inv_def place_inv_def by metis
  then show ?thesis unfolding step_sent(1)
    by (intro mark_keeps [OF laws(1) inv _ _ step_sent(3) [unfolded mark_sent_def]]) auto
next
  case (step_pending i e es res w)
  have "entry ` events_at (Failed e es) \<subseteq> sy_written S"
    using inv step_pending(2) unfolding system_inv_def place_inv_def by metis
  then show ?thesis unfolding step_pending(1)
    by (intro mark_keeps [OF laws(1) inv _ _ step_pending(3) [unfolded mark_pending_def]]) auto
next
  case (step_stop i)
  then show ?thesis using inv by (auto simp: system_inv_def moved_def place_inv_def)
next
  case (step_clean res d)
  then show ?thesis using clean_keeps [OF laws(1) inv] by simp
next
  case (step_time now)
  then show ?thesis using inv by (simp add: system_inv_def)
qed


section \<open>What is not sent waits\<close>

text \<open>A row is sent, or waits for a publisher: pending, or claimed at a moment that has passed.\<close>

definition waiting :: "int \<Rightarrow> outbox \<Rightarrow> bool" where
  "waiting now e \<longleftrightarrow> o_destination e = ''audit_queue'' \<and>
     (is_sent e \<or> o_status e = OutboxPENDING \<or>
      o_status e = OutboxPROCESSING \<and> (\<exists>t \<in> set_option (o_claimed_at e). t \<le> now))"

definition all_wait :: "'d outbox_table \<Rightarrow> ('d, 'q) outbox_world \<Rightarrow> bool" where
  "all_wait T w \<longleftrightarrow> (\<forall>e \<in> ob_rows T (ow_db w). waiting (ow_now w) e)"

lemma waiting_claimable:
  assumes "waiting now e" "\<not> is_sent e" "now + PROCESSING_TIMEOUT_MS < later"
  shows "claimable later e"
  using assms by (auto simp: waiting_def claimable_def)

lemma waiting_updated:
  assumes "waiting now e" "st = OutboxSENT \<or> st = OutboxPENDING \<or> st = OutboxPROCESSING \<and> t = Some now"
  shows "waiting now (updated ids st t e)"
  using assms by (auto simp: waiting_def updated_def is_sent_def)

lemma all_wait_updated:
  assumes "all_wait T w" "st = OutboxSENT \<or> st = OutboxPENDING \<or> st = OutboxPROCESSING \<and> t = Some (ow_now w)"
    and "ob_rows T d = ob_rows T (ow_db w) \<or> ob_rows T d = updated ids st t ` ob_rows T (ow_db w)"
  shows "all_wait T (w\<lparr>ow_db := d\<rparr>)"
  using assms waiting_updated [OF _ assms(2)] by (auto simp: all_wait_def)

lemma all_wait_mark:
  assumes laws: "outbox_laws E T" and w: "all_wait T w" and st: "st = OutboxSENT \<or> st = OutboxPENDING"
    and run: "on_outbox (ob_update E ids st t) w = (res, w')"
  shows "all_wait T w'"
proof -
  have "wp (on_outbox (ob_update E ids st t)) (\<lambda>_. all_wait T) (\<lambda>_. all_wait T) w"
    by (rule wp_ob_update [OF laws]) (use all_wait_updated [OF w] st in blast)+
  with run show ?thesis by (auto simp: wp_def split: sum.splits)
qed

lemma audit_step_waits:
  assumes "audit_step E T S S'" and laws: "outbox_laws E T" "emit_laws E taken up" and w: "all_wait T (sy_world S)"
  shows "all_wait T (sy_world S')"
  using assms(1)
proof cases
  case (step_write pattern payload res v new)
  let ?e = "new_outbox pattern payload"
  have "insert_ok T ?e (ow_db (sy_world S)) (ob_save E ?e (ow_db (sy_world S)))" by (rule outbox_lawsD(5) [OF laws(1)])
  with step_write(2) w have "all_wait T v"
    by (auto simp: createOutboxRecord_def thenE_def bindE_def on_outbox_def zoomE_def returnE_def insert_ok_def
        new_outbox_def all_wait_def waiting_def split: prod.splits sum.splits)
  then show ?thesis by (simp add: step_write(1))
next
  case (step_claim i res v)
  have "wp (claimAvailableEvents E) (\<lambda>_. all_wait T) (\<lambda>_. all_wait T) (sy_world S)"
    by (rule wp_claimAvailableEvents [OF laws(1)]) (use all_wait_updated [OF w] in blast)+
  with step_claim(3) have "all_wait T v" by (auto simp: wp_def split: sum.splits)
  then show ?thesis by (simp add: step_claim(1) moved_def)
next
  case (step_emit i e es res v)
  have "wp (emit_event E e) (\<lambda>_. all_wait T) (\<lambda>_. all_wait T) (sy_world S)"
    by (rule wp_emit_event [OF laws(2)]) (use w in \<open>simp_all add: all_wait_def\<close>)
  with step_emit(3) have "all_wait T v" by (auto simp: wp_def split: sum.splits)
  then show ?thesis by (simp add: step_emit(1) moved_def)
next
  case (step_sent i e es res v)
  have "all_wait T v" by (rule all_wait_mark [OF laws(1) w _ step_sent(3) [unfolded mark_sent_def]]) simp
  then show ?thesis by (simp add: step_sent(1) moved_def)
next
  case (step_pending i e es res v)
  have "all_wait T v" by (rule all_wait_mark [OF laws(1) w _ step_pending(3) [unfolded mark_pending_def]]) simp
  then show ?thesis by (simp add: step_pending(1) moved_def)
next
  case (step_clean res d)
  have "delete_ok T is_sent CLEANUP_BATCH_SIZE (ow_db (sy_world S)) (res, d)"
    using outbox_lawsD(4) [OF laws(1)] step_clean(2) by metis
  then have "ob_rows T d \<subseteq> rows_of T S" by (auto simp: delete_ok_def)
  then show ?thesis using w by (auto simp: step_clean(1) all_wait_def)
next
  case (step_time now)
  then show ?thesis using w by (fastforce simp: all_wait_def waiting_def)
qed (use w in \<open>simp_all add: moved_def\<close>)

end
