(* ===== verification/OutboxProperties.thy ===== *)
theory OutboxProperties imports OutboxSteps "HOL-Library.Multiset" begin

text \<open>
  The properties of the outbox: what the listeners write, that nothing written is lost, that the
  publisher is one of the runs that claim is about and delivers in order, and that the cleanup ends.
\<close>

section \<open>A concrete table and broker\<close>

record mem_outbox =
  mo_rows :: "outbox list"
  mo_locked :: "string list"
  mo_up :: bool

text \<open>Insertion sort by a relation, and the query run on the list of rows.\<close>

fun insert_by :: "('a \<Rightarrow> 'a \<Rightarrow> bool) \<Rightarrow> 'a \<Rightarrow> 'a list \<Rightarrow> 'a list" where
  "insert_by R x [] = [x]"
| "insert_by R x (y # ys) = (if R x y then x # y # ys else y # insert_by R x ys)"

definition sort_by :: "('a \<Rightarrow> 'a \<Rightarrow> bool) \<Rightarrow> 'a list \<Rightarrow> 'a list" where
  "sort_by R xs = foldr (insert_by R) xs []"

lemma mset_sort_by: "mset (sort_by R xs) = mset xs"
proof -
  have "mset (insert_by R x ys) = add_mset x (mset ys)" for x ys by (induction ys) auto
  then show ?thesis by (induction xs) (simp_all add: sort_by_def)
qed

lemma sort_by_set [simp]: "set (sort_by R xs) = set xs" "distinct (sort_by R xs) = distinct xs"
  by (rule mset_eq_setD [OF mset_sort_by]) (rule mset_eq_imp_distinct_iff [OF mset_sort_by])

lemma sorted_sort_by:
  assumes total: "\<And>a b. R a b \<or> R b a" and trans: "\<And>a b c. R a b \<Longrightarrow> R b c \<Longrightarrow> R a c"
  shows "sorted_wrt R (sort_by R xs)"
proof -
  have set: "set (insert_by R x ys) = insert x (set ys)" for x ys by (induction ys) auto
  have ins: "sorted_wrt R (insert_by R x ys)" if "sorted_wrt R ys" for x ys
    using that
  proof (induction ys)
    case (Cons y ys)
    show ?case
    proof (cases "R x y")
      case True
      then show ?thesis using Cons.prems trans by auto
    next
      case False
      then have "R y x" using total by blast
      then show ?thesis using Cons False set by auto
    qed
  qed simp
  show ?thesis by (induction xs) (simp_all add: sort_by_def ins)
qed

lemma in_order_total_trans:
  assumes id: "\<And>i j. ob_id_le T i j \<or> ob_id_le T j i" "\<And>i j k. ob_id_le T i j \<Longrightarrow> ob_id_le T j k \<Longrightarrow> ob_id_le T i k"
  shows "in_order T cs a b \<or> in_order T cs b a" "in_order T cs a b \<Longrightarrow> in_order T cs b c \<Longrightarrow> in_order T cs a c"
proof -
  have total: "column_le T col a b \<or> column_le T col b a" for col a b using id(1) by (cases col) auto
  have trans: "column_le T col a b \<Longrightarrow> column_le T col b c \<Longrightarrow> column_le T col a c" for col a b c
    using id(2) by (cases col) auto
  show "in_order T cs a b \<or> in_order T cs b a"
  proof (induction cs)
    case (Cons x cs)
    obtain col d where x: "x = (col, d)" by fastforce
    show ?case using Cons total [of col a b] by (cases d) (auto simp: x)
  qed simp
  show "in_order T cs a b \<Longrightarrow> in_order T cs b c \<Longrightarrow> in_order T cs a c"
  proof (induction cs)
    case (Cons x cs)
    obtain col d where x: "x = (col, d)" by fastforce
    show ?case using Cons trans [of col a b c] trans [of col c b a] trans [of col b c a] trans [of col c a b]
        trans [of col b a c] trans [of col a c b] by (cases d) (auto simp: x)
  qed simp
qed

definition mem_outbox_table :: "mem_outbox outbox_table" where
  "mem_outbox_table = \<lparr>ob_rows = (\<lambda>d. set (mo_rows d)), ob_locked = (\<lambda>d. set (mo_locked d)), ob_answers = mo_up,
     ob_id_le = (\<le>)\<rparr>"

definition mem_getMany :: "outbox_query \<Rightarrow> mem_outbox \<Rightarrow> exn + outbox list" where
  "mem_getMany q d = (if mo_up d
     then Inr (take (oq_limit q) (sort_by (in_order mem_outbox_table (oq_orderBy q)) (filter (\<lambda>e. oq_where q e \<and>
            (oq_setLock q \<noteq> None \<and> oq_setOnLocked q = Some SkipLocked \<longrightarrow> o_id e \<notin> set (mo_locked d)))
            (remdups (mo_rows d)))))
     else Inl db_down)"

definition mem_outbox_env :: "(mem_outbox, (string \<times> audit_payload) list \<times> bool) outbox_env" where
  "mem_outbox_env =
     \<lparr>ob_getMany = mem_getMany,
      ob_update = (\<lambda>ids st t d. if mo_up d
        then (Inr (), d\<lparr>mo_rows := List.map (updated ids st t) (mo_rows d)\<rparr>) else (Inl db_down, d)),
      ob_delete = (\<lambda>p n d. let D = take n (filter p (remdups (mo_rows d))) in
        if mo_up d then (Inr (Some (length D)), d\<lparr>mo_rows := filter (\<lambda>e. e \<notin> set D) (mo_rows d)\<rparr>)
        else (Inl db_down, d)),
      ob_save = (\<lambda>e d. let e' = e\<lparr>o_id := fresh_id (List.map o_id (mo_rows d)), o_created_at := int (length (mo_rows d))\<rparr> in
        if mo_up d then (Inr e', d\<lparr>mo_rows := e' # mo_rows d\<rparr>) else (Inl db_down, d)),
      ob_commit = (\<lambda>before now. (Inr (), now)), ob_rollback = (\<lambda>before now. before),
      audit_emit = (\<lambda>pattern payload (q, up). if up then (Inr (), q @ [(pattern, payload)], up) else (Inl db_down, q, up)),
      ob_toISOString = (\<lambda>_. ''t'')\<rparr>"

lemma mem_emit_laws: "emit_laws mem_outbox_env fst snd"
  by (simp add: emit_laws_def emit_ok_def mem_outbox_env_def)

lemma mem_outbox_laws: "outbox_laws mem_outbox_env mem_outbox_table"
proof -
  let ?E = mem_outbox_env and ?T = mem_outbox_table
  have "getMany_ok ?T q d (ob_getMany ?E q d)" for q d
  proof -
    let ?R = "in_order ?T (oq_orderBy q)"
    have le: "ob_id_le ?T i j \<or> ob_id_le ?T j i" "ob_id_le ?T i j \<Longrightarrow> ob_id_le ?T j k \<Longrightarrow> ob_id_le ?T i k" for i j k
      by (auto simp: mem_outbox_table_def)
    have total: "?R a b \<or> ?R b a" for a b
      by (rule in_order_total_trans(1)) (use le in blast)+
    have trans: "?R a b \<Longrightarrow> ?R b c \<Longrightarrow> ?R a c" for a b c
      by (rule in_order_total_trans(2)) (use le in blast)+
    have "sorted_wrt ?R (sort_by ?R xs)" for xs
      by (rule sorted_sort_by) (fact total, fact trans)
    moreover have "ob_getMany ?E = mem_getMany" "ob_rows ?T d = set (mo_rows d)" "ob_locked ?T d = set (mo_locked d)"
      "ob_answers ?T d = mo_up d" by (simp_all add: mem_outbox_env_def mem_outbox_table_def)
    ultimately show ?thesis unfolding getMany_ok_def mem_getMany_def Let_def
      by (auto intro!: exI [of _ "sort_by ?R (filter (\<lambda>e. oq_where q e \<and>
            (oq_setLock q \<noteq> None \<and> oq_setOnLocked q = Some SkipLocked \<longrightarrow> o_id e \<notin> set (mo_locked d)))
            (remdups (mo_rows d)))"])
  qed
  moreover have "delete_ok ?T p n d (ob_delete ?E p n d)" for p n d
  proof -
    let ?D = "take n (filter p (remdups (mo_rows d)))"
    have D: "set ?D \<subseteq> {e \<in> set (mo_rows d). p e}" by (auto dest: in_set_takeD)
    have "card {e \<in> set (mo_rows d). p e} = length (filter p (remdups (mo_rows d)))"
      by (subst distinct_card [symmetric]) auto
    moreover have "card (set ?D) = length ?D" by (rule distinct_card) simp
    ultimately have c: "card (set ?D) = min n (card {e \<in> set (mo_rows d). p e})" by simp
    show ?thesis
    proof (cases "mo_up d")
      case True
      then show ?thesis using D c
        by (auto simp: delete_ok_def mem_outbox_env_def mem_outbox_table_def Let_def distinct_card intro!: exI [of _ "set ?D"])
    next
      case False
      then show ?thesis
        by (auto simp: delete_ok_def mem_outbox_env_def mem_outbox_table_def Let_def intro!: exI [of _ "{}"])
    qed
  qed
  moreover have "insert_ok ?T e d (ob_save ?E e d)" for e d
    using fresh_id_fresh [of "List.map o_id (mo_rows d)"]
    by (auto simp: insert_ok_def mem_outbox_env_def mem_outbox_table_def Let_def)
  moreover have "update_ok ?T ids st t d (ob_update ?E ids st t d)" "end_ok ?T d d' (ob_commit ?E d d')"
    "ob_rows ?T (ob_rollback ?E d d') = ob_rows ?T d" "finite (ob_rows ?T d)" for ids st t d d'
    by (simp_all add: update_ok_def end_ok_def mem_outbox_env_def mem_outbox_table_def)
  ultimately show ?thesis unfolding outbox_laws_def by blast
qed

section \<open>Lemmas\<close>

text \<open>What one turn of the loop does to the table and the broker.\<close>

lemma publish_event_run:
  "publish_event E e (m, w) =
     (case emit_event E e w of
        (Inr _, w1) \<Rightarrow> (case mark_sent E e w1 of
            (Inr _, w2) \<Rightarrow> (Inr (), m\<lparr>dependencyDuration := count_up (''rabbitmq'', ''publish'', ''success'') (dependencyDuration m)\<rparr>, w2)
          | (Inl x, w2) \<Rightarrow> (case mark_pending E e w2 of (res, w3) \<Rightarrow> (res,
              m\<lparr>dependencyDuration := count_up (''rabbitmq'', ''publish'', ''error'') (dependencyDuration m),
                dependencyErrorsTotal := count_up (''rabbitmq'', ''publish'', error_type x) (dependencyErrorsTotal m)\<rparr>, w3)))
      | (Inl x, w1) \<Rightarrow> (case mark_pending E e w1 of (res, w3) \<Rightarrow> (res,
              m\<lparr>dependencyDuration := count_up (''rabbitmq'', ''publish'', ''error'') (dependencyDuration m),
                dependencyErrorsTotal := count_up (''rabbitmq'', ''publish'', error_type x) (dependencyErrorsTotal m)\<rparr>, w3)))"
  by (simp add: publish_event_def recordDependencyCall_def catchE_def thenE_def bindE_def unmeasured_def zoomE_def
      split: prod.split sum.split)

lemma moved_moved [simp]: "moved i p w (moved i p' w' S) = moved i p w S"
  "sy_world (moved i p w S) = w" "sy_place (moved i p w S) i = p"
  by (simp_all add: moved_def)

lemma publish_steps:
  assumes at: "sy_place S i = Todo (e # es)" and run: "publish_event E e (m, sy_world S) = (res, m', w')"
  shows "(audit_step E T)\<^sup>*\<^sup>* S (moved i (if is_ok res then Todo es else Idle) w' S)"
proof -
  obtain r1 w1 where r1: "emit_event E e (sy_world S) = (r1, w1)" by fastforce
  have pend: "(audit_step E T)\<^sup>*\<^sup>* (moved i (Failed e es) w S) (moved i (if is_ok r then Todo es else Idle) v S)"
    if "mark_pending E e w = (r, v)" for w v r
    using audit_step.step_pending [of "moved i (Failed e es) w S" i e es E r v T] that by simp
  note first = audit_step.step_emit [OF at r1, of T]
  show ?thesis
  proof (cases r1)
    case (Inl x)
    obtain r v where r: "mark_pending E e w1 = (r, v)" by fastforce
    have "res = r \<and> w' = v" using run r1 Inl r by (simp add: publish_event_run)
    then show ?thesis using first Inl pend [OF r] by (simp add: converse_rtranclp_into_rtranclp)
  next
    case (Inr x)
    obtain r2 w2 where r2: "mark_sent E e w1 = (r2, w2)" by fastforce
    have second: "audit_step E T (moved i (Emitted e es) w1 S) (moved i (if is_ok r2 then Todo es else Failed e es) w2 S)"
      using audit_step.step_sent [of "moved i (Emitted e es) w1 S" i e es E r2 w2 T] r2 by simp
    show ?thesis
    proof (cases r2)
      case (Inl y)
      obtain r v where r: "mark_pending E e w2 = (r, v)" by fastforce
      have "res = r \<and> w' = v" using run r1 Inr r2 Inl r by (simp add: publish_event_run)
      then show ?thesis using first Inr second Inl pend [OF r] by (simp add: converse_rtranclp_into_rtranclp)
    next
      case (Inr y)
      have "res = Inr () \<and> w' = w2" using run r1 \<open>r1 = Inr x\<close> r2 Inr by (simp add: publish_event_run)
      then show ?thesis using first \<open>r1 = Inr x\<close> second Inr by (simp add: converse_rtranclp_into_rtranclp)
    qed
  qed
qed

lemma publish_all_steps:
  assumes "sy_place S i = Todo es" "forE es (publish_event E) (m, sy_world S) = (res, m', w')"
  shows "\<exists>p. (audit_step E T)\<^sup>*\<^sup>* S (moved i p w' S)"
  using assms
proof (induction es arbitrary: S m)
  case Nil
  then have "moved i (Todo []) w' S = S" by (auto simp: moved_def returnE_def fun_upd_idem)
  then show ?case by (metis rtranclp.rtrancl_refl)
next
  case (Cons e es)
  obtain r m1 w1 where r: "publish_event E e (m, sy_world S) = (r, m1, w1)" by (metis surj_pair)
  note step = publish_steps [OF Cons.prems(1) r, of T]
  show ?case
  proof (cases r)
    case (Inl x)
    then have "w' = w1" using Cons.prems(2) r by (simp add: bindE_def)
    then show ?thesis using step by blast
  next
    case (Inr x)
    let ?S = "moved i (Todo es) w1 S"
    have "forE es (publish_event E) (m1, sy_world ?S) = (res, m', w')"
      using Cons.prems(2) r Inr by (simp add: bindE_def)
    with Cons.IH [of ?S m1] obtain p where "(audit_step E T)\<^sup>*\<^sup>* ?S (moved i p w' ?S)" by auto
    with step Inr show ?thesis by auto (meson rtranclp_trans)
  qed
qed

section \<open>The publisher\<close>

text \<open>C25. The publisher as written is a run of the steps above: whatever \<open>handleAuditEvents\<close>
  answers, what it does to the table and the broker is a sequence of a claim, hand-overs and
  updates of one publisher, which is not running afterwards; nothing else of the system changes.\<close>

theorem handleAuditEvents_is_a_run:
  assumes "sy_place S i = Idle" "handleAuditEvents E (m, sy_world S) = (res, m', w')"
  shows "(audit_step E T)\<^sup>*\<^sup>* S (moved i Idle w' S)"
proof -
  obtain r w1 where r: "claimAvailableEvents E (sy_world S) = (r, w1)" by fastforce
  note claim = audit_step.step_claim [OF assms(1) r, of T]
  show ?thesis
  proof (cases r)
    case (Inl x)
    then have "w' = w1" using assms(2) r by (simp add: handleAuditEvents_def bindE_def unmeasured_def zoomE_def)
    then show ?thesis using claim Inl by auto
  next
    case (Inr es)
    let ?S = "moved i (Todo es) w1 S"
    have "forE es (publish_event E) (m\<lparr>outboxBatchSize := length es\<rparr>, sy_world ?S) = (res, m', w')"
      using assms(2) r Inr
      by (simp add: handleAuditEvents_def thenE_def bindE_def unmeasured_def zoomE_def set_outboxBatchSize_def)
    from publish_all_steps [OF _ this, of i T] obtain p where
      p: "(audit_step E T)\<^sup>*\<^sup>* ?S (moved i p w' S)" by auto
    have "audit_step E T (moved i p w' S) (moved i Idle w' S)"
      using audit_step.step_stop [of E T "moved i p w' S" i] by simp
    with claim Inr p show ?thesis by auto
  qed
qed

text \<open>C24. No audit event is lost: from an empty table on, whatever the publishers, the requests, the
  cleanup and crashes do in whatever order while the clock goes forward, and whichever calls fail with
  or without effect, every
  event ever written has been taken by the broker, or it is still in the table, unsent and so that
  more than \<open>PROCESSING_TIMEOUT_MS\<close> later at the latest, when nobody has touched it since, it can be
  claimed by a publisher; and an event marked as sent has been taken.\<close>

theorem no_audit_event_lost:
  assumes "outbox_laws E T" "emit_laws E taken up" "(audit_step E T)\<^sup>*\<^sup>* S S'"
    and "ob_rows T (ow_db (sy_world S)) = {}" "sy_written S = {}" "\<forall>i. sy_place S i = Idle"
  shows "(\<forall>(i, m) \<in> sy_written S'. m \<in> set (taken (ow_mq (sy_world S'))) \<or>
      (\<exists>e \<in> ob_rows T (ow_db (sy_world S')). o_id e = i \<and> message_of e = m \<and> o_status e \<noteq> OutboxSENT \<and>
        (\<forall>later. ow_now (sy_world S') + PROCESSING_TIMEOUT_MS < later \<longrightarrow> claimable later e))) \<and>
    (\<forall>e \<in> ob_rows T (ow_db (sy_world S')). o_status e = OutboxSENT \<longrightarrow> message_of e \<in> set (taken (ow_mq (sy_world S'))))"
proof -
  have "system_inv T taken S \<and> all_wait T (sy_world S)"
    using assms(4-6) by (simp add: system_inv_def table_inv_def place_inv_def all_wait_def)
  with assms(3) have inv: "system_inv T taken S' \<and> all_wait T (sy_world S')"
    by (induction rule: rtranclp_induct)
      (auto intro: audit_step_keeps [OF _ assms(1,2)] audit_step_waits [OF _ assms(1,2)])
  then have "\<forall>e \<in> rows_of T S'. \<not> is_sent e \<longrightarrow>
      (\<forall>later. ow_now (sy_world S') + PROCESSING_TIMEOUT_MS < later \<longrightarrow> claimable later e)"
    using waiting_claimable by (auto simp: all_wait_def)
  with inv show ?thesis by (fastforce simp: system_inv_def table_inv_def entry_def is_sent_def)
qed


section \<open>Delivery\<close>

text \<open>A claimed row when the events \<open>ys\<close> of the batch have been published.\<close>

definition half_done :: "string list \<Rightarrow> int \<Rightarrow> outbox list \<Rightarrow> outbox \<Rightarrow> outbox" where
  "half_done ids now ys e =
     (if o_id e \<in> o_id ` set ys then updated (List.map o_id ys) OutboxSENT None e
      else updated ids OutboxPROCESSING (Some now) e)"

lemma half_done_facts:
  "half_done ids now [] e = updated ids OutboxPROCESSING (Some now) e"
  "updated [o_id x] OutboxSENT None (half_done ids now ys e) = half_done ids now (ys @ [x]) e"
  "o_id ` set ys = set ids \<Longrightarrow> half_done ids now ys e = updated ids OutboxSENT None e"
  by (auto simp: half_done_def updated_def)

lemma wp_publish_delivers:
  assumes laws: "outbox_laws E T" "emit_laws E taken up" and ready: "ob_answers T (ow_db w)" "up (ow_mq w)"
    and Q: "\<And>m' d' q'. ob_rows T d' = updated [o_id e] OutboxSENT None ` ob_rows T (ow_db w) \<Longrightarrow> ob_answers T d' \<Longrightarrow>
      taken q' = taken (ow_mq w) @ [message_of e] \<Longrightarrow> up q' \<Longrightarrow> outboxBatchSize m' = outboxBatchSize m \<Longrightarrow>
      Q () (m', w\<lparr>ow_mq := q', ow_db := d'\<rparr>)"
  shows "wp (publish_event E e) Q F (m, w)"
proof -
  have "wp (emit_event E e) (\<lambda>_. wp (mark_sent E e) (\<lambda>_ w'. \<forall>m'. outboxBatchSize m' = outboxBatchSize m \<longrightarrow> Q () (m', w'))
      (\<lambda>_ _. False)) (\<lambda>_ _. False) w"
  proof (rule wp_emit_event [OF laws(2)], goal_cases)
    case (1 q')
    show ?case unfolding mark_sent_def
      by (rule wp_ob_update [OF laws(1)]) (use 1 ready Q in auto)
  qed (use ready in simp)
  then obtain w1 w2 where "emit_event E e w = (Inr (), w1)" "mark_sent E e w1 = (Inr (), w2)"
    "\<forall>m'. outboxBatchSize m' = outboxBatchSize m \<longrightarrow> Q () (m', w2)"
    by (auto dest!: wp_returns)
  then show ?thesis by (simp add: wp_def publish_event_run)
qed

text \<open>C26. The publisher delivers: while the database and the broker answer, a run claims the
  claimable events that no other transaction holds locked, the oldest first and those of one moment by
  identifier, up to \<open>BATCH_SIZE\<close>; it hands each to the broker exactly once in that order and leaves
  them all marked as sent; no other row changes.\<close>

theorem handleAuditEvents_delivers:
  assumes "outbox_laws E T" "emit_laws E taken up" "ob_answers T (ow_db w)" "up (ow_mq w)"
  shows "\<exists>L m' w'. claim_order T {e \<in> ob_rows T (ow_db w). claimable (ow_now w) e \<and> o_id e \<notin> ob_locked T (ow_db w)} L \<and>
    handleAuditEvents E (m, w) = (Inr (), m', w') \<and>
    taken (ow_mq w') = taken (ow_mq w) @ List.map message_of (take BATCH_SIZE L) \<and>
    ob_rows T (ow_db w') = updated (List.map o_id (take BATCH_SIZE L)) OutboxSENT None ` ob_rows T (ow_db w) \<and>
    outboxBatchSize m' = length (take BATCH_SIZE L)"
proof -
  let ?R = "ob_rows T (ow_db w)" and ?now = "ow_now w"
  let ?post = "\<lambda>L m' w'. claim_order T {e \<in> ?R. claimable ?now e \<and> o_id e \<notin> ob_locked T (ow_db w)} L \<and>
      taken (ow_mq w') = taken (ow_mq w) @ List.map message_of (take BATCH_SIZE L) \<and>
      ob_rows T (ow_db w') = updated (List.map o_id (take BATCH_SIZE L)) OutboxSENT None ` ?R \<and>
      outboxBatchSize m' = length (take BATCH_SIZE L)"
  have "wp (claimAvailableEvents E) (\<lambda>es w1. \<forall>m. wp (forE es (publish_event E)) (\<lambda>_ (m', w'). \<exists>L. ?post L m' w')
      (\<lambda>_ _. False) (m\<lparr>outboxBatchSize := length es\<rparr>, w1)) (\<lambda>_ _. False) w"
  proof (rule wp_claimAvailableEvents [OF assms(1)], goal_cases)
    case (1 L d)
    let ?es = "take BATCH_SIZE L" and ?ids = "List.map o_id (take BATCH_SIZE L)"
    have same: "o_id (claimed ?now e) = o_id e" "message_of (claimed ?now e) = message_of e" for e
      by (simp_all add: claimed_def message_of_def)
    note claimed_db = 1(2,3)
    show ?case
    proof
      fix m :: metrics
      let ?I = "\<lambda>ys (m', w'). ob_rows T (ow_db w') = half_done ?ids ?now ys ` ?R \<and>
          ob_answers T (ow_db w') \<and> taken (ow_mq w') = taken (ow_mq w) @ List.map message_of ys \<and> up (ow_mq w') \<and>
          outboxBatchSize m' = length ?es"
      show "wp (forE (List.map (claimed ?now) ?es) (publish_event E)) (\<lambda>_ (m', w'). \<exists>L. ?post L m' w') (\<lambda>_ _. False)
          (m\<lparr>outboxBatchSize := length (List.map (claimed ?now) ?es)\<rparr>, w\<lparr>ow_db := d\<rparr>)"
      proof (rule wp_forE_prefix [where I = ?I], goal_cases)
        case 1
        show ?case using claimed_db assms(3,4) by (simp add: half_done_facts(1))
      next
        case (2 ys x zs s)
        obtain m1 w1 where s: "s = (m1, w1)" by fastforce
        have i: "?I ys (m1, w1)" using 2(2) s by simp
        show ?case unfolding s
        proof (rule wp_publish_delivers [OF assms(1,2)], goal_cases)
          case (3 m' d' q')
          with i show ?case by (simp add: image_image half_done_facts(2))
        qed (use i in simp_all)
      next
        case (3 s)
        obtain m1 w1 where s: "s = (m1, w1)" by fastforce
        have i: "?I (List.map (claimed ?now) ?es) (m1, w1)" using 3 s by simp
        have "half_done ?ids ?now (List.map (claimed ?now) ?es) ` ?R = updated ?ids OutboxSENT None ` ?R"
          by (rule image_cong [OF refl half_done_facts(3)]) (simp add: image_image same)
        then have "?post L m1 w1"
          using i 1(1) by (simp add: same comp_def)
        then show ?case unfolding s by blast
      qed
    qed
  qed (use assms(3) in simp)
  from wp_returns [OF this] obtain es w1 where c: "claimAvailableEvents E w = (Inr es, w1)"
    "wp (forE es (publish_event E)) (\<lambda>_ (m', w'). \<exists>L. ?post L m' w') (\<lambda>_ _. False) (m\<lparr>outboxBatchSize := length es\<rparr>, w1)"
    by auto
  from wp_returns [OF c(2)] obtain L m' w' where
    "forE es (publish_event E) (m\<lparr>outboxBatchSize := length es\<rparr>, w1) = (Inr (), m', w')" "?post L m' w'" by auto
  moreover from this(1) c(1) have "handleAuditEvents E (m, w) = (Inr (), m', w')"
    by (simp add: handleAuditEvents_def thenE_def bindE_def unmeasured_def zoomE_def set_outboxBatchSize_def)
  ultimately show ?thesis by blast
qed


text \<open>Events of the outbox: \<open>event_b\<close> was written before \<open>event_a\<close> and its publisher died an hour ago;
  \<open>event_c\<close> is sent; \<open>event_d\<close>, the oldest, is locked by another transaction.\<close>

definition event_payload :: audit_payload where
  "event_payload = \<lparr>ap_action = ''ROLEENTITY_CREATED'', ap_entity = ''RoleEntity'', ap_primary_key = [(''id'', Some ''r1'')],
     ap_done_by_id = None, ap_done_by_email = None, ap_timestamp = ''t''\<rparr>"

definition event_a :: outbox where
  "event_a = \<lparr>o_id = ''a'', o_destination = ''audit_queue'', o_pattern = ''role_entity_created'', o_payload = event_payload,
     o_status = OutboxPENDING, o_claimed_at = None, o_created_at = 2\<rparr>"

definition event_b :: outbox where
  "event_b = event_a\<lparr>o_id := ''b'', o_pattern := ''role_entity_deleted'', o_status := OutboxPROCESSING,
     o_claimed_at := Some 0, o_created_at := 1\<rparr>"

definition event_c :: outbox where
  "event_c = event_a\<lparr>o_id := ''c'', o_status := OutboxSENT\<rparr>"

definition event_d :: outbox where
  "event_d = event_a\<lparr>o_id := ''d'', o_created_at := 0\<rparr>"

definition outbox_world0 :: "(mem_outbox, (string \<times> audit_payload) list \<times> bool) outbox_world" where
  "outbox_world0 = \<lparr>ow_db = \<lparr>mo_rows = [event_a, event_b, event_c, event_d], mo_locked = [''d''], mo_up = True\<rparr>, ow_mq = ([], True), ow_now = 3600000\<rparr>"

lemmas events_def = event_a_def event_b_def event_c_def event_d_def event_payload_def

theorem handleAuditEvents_delivers_witness:
  "\<exists>m' w'. handleAuditEvents mem_outbox_env (metrics0, outbox_world0) = (Inr (), m', w') \<and>
     fst (ow_mq w') = [message_of event_b, message_of event_a] \<and>
     (\<forall>e \<in> ob_rows mem_outbox_table (ow_db w'). o_status e = OutboxSENT \<longleftrightarrow> o_id e \<noteq> ''d'') \<and> outboxBatchSize m' = 2"
proof -
  let ?R = "ob_rows mem_outbox_table (ow_db outbox_world0)"
  have ready: "ob_answers mem_outbox_table (ow_db outbox_world0)" "snd (ow_mq outbox_world0)"
    by (simp_all add: outbox_world0_def mem_outbox_table_def)
  from handleAuditEvents_delivers [OF mem_outbox_laws mem_emit_laws ready, of metrics0] obtain L m' w' where
    L: "claim_order mem_outbox_table {e \<in> ?R. claimable (ow_now outbox_world0) e \<and> o_id e \<notin> ob_locked mem_outbox_table (ow_db outbox_world0)} L"
    and run: "handleAuditEvents mem_outbox_env (metrics0, outbox_world0) = (Inr (), m', w')"
    and post: "fst (ow_mq w') = fst (ow_mq outbox_world0) @ List.map message_of (take BATCH_SIZE L)"
      "ob_rows mem_outbox_table (ow_db w') = updated (List.map o_id (take BATCH_SIZE L)) OutboxSENT None ` ?R"
      "outboxBatchSize m' = length (take BATCH_SIZE L)" by blast
  have R: "?R = {event_a, event_b, event_c, event_d}" by (simp add: outbox_world0_def mem_outbox_table_def)
  have sel: "{e \<in> ?R. claimable (ow_now outbox_world0) e \<and> o_id e \<notin> ob_locked mem_outbox_table (ow_db outbox_world0)} = {event_a, event_b}"
    unfolding R by (auto simp: outbox_world0_def mem_outbox_table_def claimable_def events_def PROCESSING_TIMEOUT_MS_def)
  have ab: "event_a \<noteq> event_b" by (simp add: events_def)
  have two: "set L = {event_a, event_b}" "distinct L" using L sel by (simp_all add: claim_order_def)
  then have "length L = 2" using ab distinct_card [OF two(2)] by simp
  then obtain x y where xy: "L = [x, y]" by (auto simp: numeral_2_eq_2 length_Suc_conv)
  then have "L = [event_a, event_b] \<or> L = [event_b, event_a]"
    using two(1) by (auto simp: doubleton_eq_iff)
  moreover have "\<not> claim_order mem_outbox_table S [event_a, event_b]" for S
    by (simp add: claim_order_def events_def)
  ultimately have L': "L = [event_b, event_a]" using L by auto
  have "\<forall>e \<in> updated [''b'', ''a''] OutboxSENT None ` ?R. o_status e = OutboxSENT \<longleftrightarrow> o_id e \<noteq> ''d''"
    unfolding R by (simp add: updated_def events_def)
  moreover have "List.map o_id (take BATCH_SIZE L) = [''b'', ''a'']" by (simp add: L' BATCH_SIZE_def events_def)
  moreover have "fst (ow_mq outbox_world0) = []" by (simp add: outbox_world0_def)
  ultimately show ?thesis using run post by (simp add: L' BATCH_SIZE_def)
qed


section \<open>Runs of the example\<close>

definition system0 :: "(mem_outbox, (string \<times> audit_payload) list \<times> bool) audit_system" where
  "system0 = \<lparr>sy_world = outbox_world0, sy_place = (\<lambda>_. Idle), sy_written = {}\<rparr>"

theorem handleAuditEvents_is_a_run_witness:
  "\<exists>w'. (audit_step mem_outbox_env mem_outbox_table)\<^sup>*\<^sup>* system0 (moved 0 Idle w' system0) \<and>
     snd (snd (handleAuditEvents mem_outbox_env (metrics0, outbox_world0))) = w'"
proof -
  obtain res m' w' where run: "handleAuditEvents mem_outbox_env (metrics0, outbox_world0) = (res, m', w')"
    by (metis surj_pair)
  then have "handleAuditEvents mem_outbox_env (metrics0, sy_world system0) = (res, m', w')" by (simp add: system0_def)
  from handleAuditEvents_is_a_run [OF _ this, of 0 mem_outbox_table] run show ?thesis by (simp add: system0_def)
qed

text \<open>An event is written to an empty table and claimed by a publisher that dies at once.\<close>

definition empty_world :: "(mem_outbox, (string \<times> audit_payload) list \<times> bool) outbox_world" where
  "empty_world = \<lparr>ow_db = \<lparr>mo_rows = [], mo_locked = [], mo_up = True\<rparr>, ow_mq = ([], True), ow_now = 0\<rparr>"

definition written_event :: outbox where
  "written_event = \<lparr>o_id = ''n'', o_destination = ''audit_queue'', o_pattern = ''role_entity_created'',
     o_payload = event_payload, o_status = OutboxPENDING, o_claimed_at = None, o_created_at = 0\<rparr>"

definition written_world :: "(mem_outbox, (string \<times> audit_payload) list \<times> bool) outbox_world" where
  "written_world = empty_world\<lparr>ow_db := \<lparr>mo_rows = [written_event], mo_locked = [], mo_up = True\<rparr>\<rparr>"

lemma write_run: "createOutboxRecord mem_outbox_env ''role_entity_created'' event_payload empty_world = (Inr (), written_world)"
  by (simp add: createOutboxRecord_def thenE_def bindE_def on_outbox_def zoomE_def returnE_def mem_outbox_env_def
      empty_world_def written_world_def written_event_def new_outbox_def fresh_id_def Let_def)

theorem no_audit_event_lost_witness:
  "\<exists>S. (audit_step mem_outbox_env mem_outbox_table)\<^sup>*\<^sup>* \<lparr>sy_world = empty_world, sy_place = (\<lambda>_. Idle), sy_written = {}\<rparr> S \<and>
     entry written_event \<in> sy_written S \<and>
     (message_of written_event \<in> set (fst (ow_mq (sy_world S))) \<or>
      (\<exists>e \<in> ob_rows mem_outbox_table (ow_db (sy_world S)). o_id e = ''n'' \<and> o_status e \<noteq> OutboxSENT \<and>
        claimable (ow_now (sy_world S) + 60001) e))"
proof -
  let ?S0 = "\<lparr>sy_world = empty_world, sy_place = (\<lambda>_. Idle), sy_written = {}\<rparr>"
  let ?S1 = "?S0\<lparr>sy_world := written_world, sy_written := sy_written ?S0 \<union> entry ` {written_event}\<rparr>"
  have "audit_step mem_outbox_env mem_outbox_table ?S0 ?S1"
  proof (rule audit_step.step_write)
    show "createOutboxRecord mem_outbox_env ''role_entity_created'' event_payload (sy_world ?S0) = (Inr (), written_world)"
      by (simp add: write_run)
    show "{written_event} = ob_rows mem_outbox_table (ow_db written_world) - ob_rows mem_outbox_table (ow_db (sy_world ?S0))"
      by (simp add: mem_outbox_table_def written_world_def empty_world_def)
  qed simp
  moreover obtain r w where "claimAvailableEvents mem_outbox_env (sy_world ?S1) = (r, w)" by fastforce
  then have "audit_step mem_outbox_env mem_outbox_table ?S1 (moved 7 (case r of Inr es \<Rightarrow> Todo es | Inl _ \<Rightarrow> Idle) w ?S1)"
    by (intro audit_step.step_claim) simp_all
  moreover define S where "S = moved 7 (case r of Inr es \<Rightarrow> Todo es | Inl _ \<Rightarrow> Idle) w ?S1"
  ultimately have run: "(audit_step mem_outbox_env mem_outbox_table)\<^sup>*\<^sup>* ?S0 S" by simp
  have empty: "ob_rows mem_outbox_table (ow_db (sy_world ?S0)) = {}" by (simp add: mem_outbox_table_def empty_world_def)
  have "\<forall>(i, m) \<in> sy_written S. m \<in> set (fst (ow_mq (sy_world S))) \<or>
      (\<exists>e \<in> ob_rows mem_outbox_table (ow_db (sy_world S)). o_id e = i \<and> message_of e = m \<and> o_status e \<noteq> OutboxSENT \<and>
        (\<forall>later. ow_now (sy_world S) + PROCESSING_TIMEOUT_MS < later \<longrightarrow> claimable later e))"
    using no_audit_event_lost [OF mem_outbox_laws mem_emit_laws run empty] by simp
  moreover have "entry written_event \<in> sy_written S" by (simp add: S_def moved_def)
  moreover have "ow_now (sy_world S) + PROCESSING_TIMEOUT_MS < ow_now (sy_world S) + 60001"
    by (simp add: PROCESSING_TIMEOUT_MS_def)
  ultimately have "message_of written_event \<in> set (fst (ow_mq (sy_world S))) \<or>
      (\<exists>e \<in> ob_rows mem_outbox_table (ow_db (sy_world S)). o_id e = ''n'' \<and> o_status e \<noteq> OutboxSENT \<and>
        claimable (ow_now (sy_world S) + 60001) e)"
    by (fastforce simp: entry_def written_event_def)
  with run \<open>entry written_event \<in> sy_written S\<close> show ?thesis by blast
qed

section \<open>The cleanup\<close>

lemma cleanup_loop_run:
  assumes laws: "outbox_laws E T"
  shows "\<exists>res d'. cleanup_loop E n d = Some (res, d') \<and>
    {e \<in> ob_rows T d'. \<not> is_sent e} = {e \<in> ob_rows T d. \<not> is_sent e} \<and> ob_rows T d' \<subseteq> ob_rows T d \<and>
    (ob_answers T d \<longrightarrow> res = Inr (n + card {e \<in> ob_rows T d. is_sent e}) \<and> {e \<in> ob_rows T d'. is_sent e} = {})"
proof (induction "card {e \<in> ob_rows T d. is_sent e}" arbitrary: n d rule: less_induct)
  case less
  let ?sent = "{e \<in> ob_rows T d. is_sent e}"
  obtain r d1 where r: "ob_delete E is_sent CLEANUP_BATCH_SIZE d = (r, d1)" by fastforce
  have "delete_ok T is_sent CLEANUP_BATCH_SIZE d (r, d1)" using outbox_lawsD(4) [OF laws] r by metis
  then obtain D where D: "D \<subseteq> ?sent" "ob_rows T d1 = ob_rows T d - D"
    and c: "case r of Inr a \<Rightarrow> card D = min CLEANUP_BATCH_SIZE (card ?sent) \<and> a = Some (card D) \<and>
        (ob_answers T d \<longrightarrow> ob_answers T d1) | Inl _ \<Rightarrow> \<not> ob_answers T d"
    unfolding delete_ok_def fst_conv snd_conv by blast
  have ok: "\<And>a. r = Inr a \<Longrightarrow> card D = min CLEANUP_BATCH_SIZE (card ?sent) \<and> a = Some (card D) \<and> (ob_answers T d \<longrightarrow> ob_answers T d1)"
    and err: "\<And>x. r = Inl x \<Longrightarrow> \<not> ob_answers T d"
    using c by simp_all
  have fin: "finite ?sent" using outbox_lawsD(1) [OF laws] by simp
  have kept: "{e \<in> ob_rows T d1. \<not> is_sent e} = {e \<in> ob_rows T d. \<not> is_sent e}" "ob_rows T d1 \<subseteq> ob_rows T d"
    using D by auto
  have left: "{e \<in> ob_rows T d1. is_sent e} = ?sent - D" using D by auto
  show ?case
  proof (cases r)
    case (Inl x)
    then show ?thesis using r err kept by (subst cleanup_loop.simps) simp
  next
    case (Inr a)
    note c = ok [OF Inr]
    show ?thesis
    proof (cases "card D = CLEANUP_BATCH_SIZE")
      case True
      have small: "card {e \<in> ob_rows T d1. is_sent e} = card ?sent - card D"
        unfolding left using D(1) fin by (simp add: card_Diff_subset finite_subset)
      moreover have "0 < card D" "card D \<le> card ?sent"
        using True card_mono [OF fin D(1)] by (simp_all add: CLEANUP_BATCH_SIZE_def)
      ultimately have "card {e \<in> ob_rows T d1. is_sent e} < card ?sent" by simp
      from less [OF this, of "n + card D"] obtain res d' where rest: "cleanup_loop E (n + card D) d1 = Some (res, d')"
        "{e \<in> ob_rows T d'. \<not> is_sent e} = {e \<in> ob_rows T d1. \<not> is_sent e}" "ob_rows T d' \<subseteq> ob_rows T d1"
        "ob_answers T d1 \<longrightarrow> res = Inr (n + card D + card {e \<in> ob_rows T d1. is_sent e}) \<and> {e \<in> ob_rows T d'. is_sent e} = {}"
        by blast
      have "cleanup_loop E n d = Some (res, d')"
        using r Inr c True rest(1) by (subst cleanup_loop.simps) (simp add: Let_def)
      then show ?thesis using rest kept c small \<open>card D \<le> card ?sent\<close> by auto
    next
      case False
      then have all: "card D = card ?sent" using c by linarith
      then have "D = ?sent" using D(1) fin by (simp add: card_subset_eq)
      moreover have "cleanup_loop E n d = Some (Inr (n + card D), d1)"
        using r Inr c False by (subst cleanup_loop.simps) (auto simp: Let_def)
      ultimately show ?thesis using kept left all by simp
    qed
  qed
qed

text \<open>C27. The cleanup ends: however many events there are, the \<open>do ... while\<close> loop returns after
  finitely many batches; it never deletes an event that is not marked as sent, and while the
  database answers it deletes every event that is and counts them.\<close>

theorem handleOutboxCleanup_ends:
  assumes "outbox_laws E T"
  shows "\<exists>deleted d'. handleOutboxCleanup E d = Some (deleted, d') \<and>
    {e \<in> ob_rows T d'. \<not> is_sent e} = {e \<in> ob_rows T d. \<not> is_sent e} \<and>
    (ob_answers T d \<longrightarrow> deleted = Some (card {e \<in> ob_rows T d. is_sent e}) \<and> {e \<in> ob_rows T d'. is_sent e} = {})"
proof -
  from cleanup_loop_run [OF assms, of 0 d] obtain res d' where "cleanup_loop E 0 d = Some (res, d')"
    "{e \<in> ob_rows T d'. \<not> is_sent e} = {e \<in> ob_rows T d. \<not> is_sent e}"
    "ob_answers T d \<longrightarrow> res = Inr (card {e \<in> ob_rows T d. is_sent e}) \<and> {e \<in> ob_rows T d'. is_sent e} = {}"
    by auto
  then show ?thesis by (auto simp: handleOutboxCleanup_def split: sum.splits)
qed

theorem handleOutboxCleanup_ends_witness:
  "\<exists>d'. handleOutboxCleanup mem_outbox_env (ow_db outbox_world0) = Some (Some 1, d') \<and>
     {e \<in> ob_rows mem_outbox_table d'. \<not> is_sent e} = {event_a, event_b, event_d}"
proof -
  have rows: "ob_rows mem_outbox_table (ow_db outbox_world0) = {event_a, event_b, event_c, event_d}"
    "ob_answers mem_outbox_table (ow_db outbox_world0)"
    by (simp_all add: mem_outbox_table_def outbox_world0_def)
  have "{e \<in> {event_a, event_b, event_c, event_d}. is_sent e} = {event_c}"
    "{e \<in> {event_a, event_b, event_c, event_d}. \<not> is_sent e} = {event_a, event_b, event_d}"
    by (auto simp: is_sent_def events_def)
  then show ?thesis
    using handleOutboxCleanup_ends [OF mem_outbox_laws, of "ow_db outbox_world0"] rows by auto
qed


section \<open>The listeners\<close>

definition audit_row :: "('d, 'q) outbox_env \<Rightarrow> string \<Rightarrow> string \<Rightarrow> entity_metadata \<Rightarrow> entity \<Rightarrow> auth_user option \<Rightarrow> int \<Rightarrow> outbox \<Rightarrow> bool" where
  "audit_row E name suffix md en user now e \<longleftrightarrow>
     o_destination e = ''audit_queue'' \<and> o_status e = OutboxPENDING \<and> o_pattern e = toSnakeCase name @ ''_'' @ suffix \<and>
     o_payload e = \<lparr>ap_action = toUpperCase name @ ''_'' @ toUpperCase suffix, ap_entity = name,
       ap_primary_key = extractPrimaryKeys (Some md) en, ap_done_by_id = map_option au_id user,
       ap_done_by_email = map_option au_email user, ap_timestamp = ob_toISOString E now\<rparr>"

text \<open>What a listener writes: a change of an entity, in a request whose context names the user,
  adds exactly one event to the outbox, pending, for the audit queue, with the name of the entity in
  the action and in snake case in the pattern, the primary key and who did it; a change of the
  outbox itself writes nothing; and outside a request the listener throws, which fails the change.\<close>

lemma listeners_write_one_event:
  assumes "outbox_laws E T"
    and "listener \<in> {(afterInsert, ''created''), (afterUpdate, ''updated''), (afterRemove, ''deleted'')}"
  shows "(\<not> shouldSkip (Some md) \<longrightarrow> rs_store r = Some user \<longrightarrow>
      fst listener E (Some md) (Some en) (w, r) = (Inr (), w', r') \<longrightarrow>
      r' = r \<and> ow_mq w' = ow_mq w \<and> ow_now w' = ow_now w \<and>
      (\<exists>e. ob_rows T (ow_db w') = insert e (ob_rows T (ow_db w)) \<and> o_id e \<notin> o_id ` ob_rows T (ow_db w) \<and>
        audit_row E (resolveEntityName (Some md) en) (snd listener) md en user (ow_now w) e)) \<and>
    (shouldSkip (Some md) \<longrightarrow> fst listener E (Some md) (Some en) (w, r) = (Inr (), w, r)) \<and>
    (\<not> shouldSkip (Some md) \<longrightarrow> rs_store r = None \<longrightarrow>
      fst listener E (Some md) (Some en) (w, r) =
        (Inl (JsError ''Error'' ''RequestContext not initialized'' None None), w, r))"
proof -
  have l: "fst listener = (\<lambda>E. audit_event E (snd listener))"
    using assms(2) by (auto simp: afterInsert_def afterUpdate_def afterRemove_def)
  have saved: "r' = r \<and> ow_mq w' = ow_mq w \<and> ow_now w' = ow_now w \<and>
      (\<exists>e. ob_rows T (ow_db w') = insert e (ob_rows T (ow_db w)) \<and> o_id e \<notin> o_id ` ob_rows T (ow_db w) \<and>
        audit_row E (resolveEntityName (Some md) en) (snd listener) md en user (ow_now w) e)"
    if run: "\<not> shouldSkip (Some md)" "rs_store r = Some user"
      "audit_event E (snd listener) (Some md) (Some en) (w, r) = (Inr (), w', r')"
  proof -
    obtain e d where e: "audit_row E (resolveEntityName (Some md) en) (snd listener) md en user (ow_now w) e"
      and res: "(case ob_save E e (ow_db w) of (Inl x, d) \<Rightarrow> (Inl x, w\<lparr>ow_db := d\<rparr>, r) | (Inr _, d) \<Rightarrow> (Inr (), w\<lparr>ow_db := d\<rparr>, r))
        = (Inr (), w', r')"
    proof (rule that)
      let ?name = "resolveEntityName (Some md) en"
      let ?e = "new_outbox (toSnakeCase ?name @ ''_'' @ snd listener)
        \<lparr>ap_action = toUpperCase ?name @ ''_'' @ toUpperCase (snd listener), ap_entity = ?name,
         ap_primary_key = extractPrimaryKeys (Some md) en, ap_done_by_id = map_option au_id user,
         ap_done_by_email = map_option au_email user, ap_timestamp = ob_toISOString E (ow_now w)\<rparr>"
      show "audit_row E ?name (snd listener) md en user (ow_now w) ?e"
        by (simp add: audit_row_def new_outbox_def)
      show "(case ob_save E ?e (ow_db w) of (Inl x, d) \<Rightarrow> (Inl x, w\<lparr>ow_db := d\<rparr>, r) | (Inr _, d) \<Rightarrow> (Inr (), w\<lparr>ow_db := d\<rparr>, r))
        = (Inr (), w', r')"
        using run(3)
        by (simp add: run(1,2) audit_event_def bindE_def zoomE_def getCurrentUser_def getContext_def getE_def returnE_def Let_def
            createOutboxRecord_def thenE_def on_outbox_def split: prod.splits sum.splits)
    qed
    have ok: "insert_ok T e (ow_db w) (ob_save E e (ow_db w))" by (rule outbox_lawsD(5) [OF assms(1)])
    obtain e' d where save: "ob_save E e (ow_db w) = (Inr e', d)" "w' = w\<lparr>ow_db := d\<rparr>" "r' = r"
      using res by (auto split: prod.splits sum.splits)
    then have "audit_row E (resolveEntityName (Some md) en) (snd listener) md en user (ow_now w) e'"
      using ok e by (auto simp: insert_ok_def audit_row_def)
    with save ok show ?thesis by (auto simp: insert_ok_def)
  qed
  have "audit_event E (snd listener) (Some md) (Some en) (w, r) = (Inr (), w, r)" if "shouldSkip (Some md)"
    using that by (simp add: audit_event_def returnE_def)
  moreover have "audit_event E (snd listener) (Some md) (Some en) (w, r) =
      (Inl (JsError ''Error'' ''RequestContext not initialized'' None None), w, r)"
    if "\<not> shouldSkip (Some md)" "rs_store r = None"
    using that by (simp add: audit_event_def bindE_def zoomE_def getCurrentUser_def getContext_def getE_def throwE_def)
  ultimately show ?thesis unfolding l using saved by blast
qed

text \<open>The creation of a role by \<open>ana\<close>; and a change outside a request.\<close>

definition role_metadata :: entity_metadata where
  "role_metadata = \<lparr>md_target = ''RoleEntity'', md_targetName = Some ''RoleEntity'', md_name = Some ''RoleEntity'',
     md_tableName = Some ''roles'', md_primaryColumns = [''id'']\<rparr>"

definition role_entity :: entity where
  "role_entity = \<lparr>en_constructor = Some ''RoleEntity'', en_property = [''id'' \<mapsto> ''r9'']\<rparr>"

definition in_request :: request_state where
  "in_request = \<lparr>rs_user = None, rs_store = Some None\<rparr>"

definition no_request :: request_state where
  "no_request = \<lparr>rs_user = None, rs_store = None\<rparr>"

lemma listeners_write_one_event_example:
  "(\<exists>w' e. afterInsert mem_outbox_env (Some role_metadata) (Some role_entity) (empty_world, in_request)
       = (Inr (), w', in_request) \<and> ob_rows mem_outbox_table (ow_db w') = {e} \<and> o_pattern e = ''role_entity_created'' \<and>
       ap_action (o_payload e) = ''ROLEENTITY_CREATED'' \<and> ap_primary_key (o_payload e) = [(''id'', Some ''r9'')]) \<and>
   fst (afterRemove mem_outbox_env (Some role_metadata) (Some role_entity) (empty_world, no_request))
     = Inl (JsError ''Error'' ''RequestContext not initialized'' None None)"
proof
  have skip: "\<not> shouldSkip (Some role_metadata)" by code_simp
  have store: "rs_store in_request = Some None" "rs_store no_request = None"
    by (simp_all add: in_request_def no_request_def)
  have "\<exists>w'. afterInsert mem_outbox_env (Some role_metadata) (Some role_entity) (empty_world, in_request) = (Inr (), w', in_request)"
    using skip by (simp add: afterInsert_def audit_event_def bindE_def zoomE_def getCurrentUser_def getContext_def getE_def
        returnE_def Let_def createOutboxRecord_def thenE_def on_outbox_def mem_outbox_env_def empty_world_def in_request_def)
  then obtain w' where w': "afterInsert mem_outbox_env (Some role_metadata) (Some role_entity) (empty_world, in_request)
      = (Inr (), w', in_request)" by blast
  have ins: "(afterInsert, ''created'') \<in> {(afterInsert, ''created''), (afterUpdate, ''updated''), (afterRemove, ''deleted'')}"
    by simp
  have names: "resolveEntityName (Some role_metadata) role_entity = ''RoleEntity''"
    "toSnakeCase ''RoleEntity'' @ ''_'' @ ''created'' = ''role_entity_created''"
    "toUpperCase ''RoleEntity'' @ ''_'' @ toUpperCase ''created'' = ''ROLEENTITY_CREATED''"
    "extractPrimaryKeys (Some role_metadata) role_entity = [(''id'', Some ''r9'')]" by code_simp+
  have "ob_rows mem_outbox_table (ow_db empty_world) = {}" by (simp add: mem_outbox_table_def empty_world_def)
  then obtain e where e: "ob_rows mem_outbox_table (ow_db w') = {e}"
    "audit_row mem_outbox_env ''RoleEntity'' ''created'' role_metadata role_entity None (ow_now empty_world) e"
    using listeners_write_one_event [OF mem_outbox_laws ins, of role_metadata in_request None role_entity empty_world w' in_request]
      skip store(1) w' names(1) by auto
  from e(2) have "o_pattern e = ''role_entity_created''" "ap_action (o_payload e) = ''ROLEENTITY_CREATED''"
    "ap_primary_key (o_payload e) = [(''id'', Some ''r9'')]"
    unfolding audit_row_def names by simp_all
  with w' e(1) show "\<exists>w' e. afterInsert mem_outbox_env (Some role_metadata) (Some role_entity) (empty_world, in_request)
       = (Inr (), w', in_request) \<and> ob_rows mem_outbox_table (ow_db w') = {e} \<and> o_pattern e = ''role_entity_created'' \<and>
       ap_action (o_payload e) = ''ROLEENTITY_CREATED'' \<and> ap_primary_key (o_payload e) = [(''id'', Some ''r9'')]"
    by blast
  have del: "(afterRemove, ''deleted'') \<in> {(afterInsert, ''created''), (afterUpdate, ''updated''), (afterRemove, ''deleted'')}"
    by simp
  show "fst (afterRemove mem_outbox_env (Some role_metadata) (Some role_entity) (empty_world, no_request))
     = Inl (JsError ''Error'' ''RequestContext not initialized'' None None)"
    using listeners_write_one_event [OF mem_outbox_laws del, of role_metadata no_request None role_entity empty_world empty_world
        no_request] skip store(2) by simp
qed

end
