(* ===== verification/Http.thy ===== *)
theory Http imports Guards Roles begin

text \<open>
  The shell around the controllers: what a decorated method of a controller is made of. The
  decorators of the source give every endpoint a verb, a path, a guard and an endpoint key;
  the framework runs the middleware, the guard, the method and, when one of them throws, the
  exception filter. A method runs on the services, on the state of the request and on the
  cookies of the response.
\<close>

section \<open>Bodies\<close>

text \<open>A JSON value. Numbers are integers: no body of the service holds another, and a fraction in a
  request is refused by the rules of its property.\<close>

datatype json =
  JNull | JBool bool | JNum int | JStr string | JArr "json list" | JObj "(string \<times> json) list"

type_synonym props = "(string \<times> json) list"

definition message_json :: "string \<Rightarrow> json" where
  "message_json m = JObj [(''message'', JStr m)]"

definition auth_user_json :: "auth_user option \<Rightarrow> json" where
  "auth_user_json u = (case u of
       None \<Rightarrow> JNull
     | Some a \<Rightarrow> JObj [(''id'', JStr (au_id a)), (''person_id'', JStr (au_person_id a)),
                       (''email'', JStr (au_email a)), (''session_id'', JStr (au_session_id a))])"

text \<open>
  \<open>ClassSerializerInterceptor\<close> turns an entity into a plain object. It is code of the framework:
  a function of the names under \<open>@Exclude()\<close> and of the own properties of the object, of which
  the documentation says that the excluded ones are left out. An endpoint without the
  interceptor sends the object as it is.
\<close>

type_synonym serializer = "string list \<Rightarrow> props \<Rightarrow> props"

definition serializer_laws :: "serializer \<Rightarrow> bool" where
  "serializer_laws S \<longleftrightarrow> (\<forall>excluded ps. S excluded ps = filter (\<lambda>p. fst p \<notin> set excluded) ps)"

definition unserialized :: serializer where
  "unserialized excluded ps = ps"

definition mem_serializer :: serializer where
  "mem_serializer excluded ps = filter (\<lambda>p. fst p \<notin> set excluded) ps"

text \<open>The own properties of the entities and the names their classes exclude; the two columns
  that only the database writes are left out.\<close>

definition permission_json :: "serializer \<Rightarrow> permission \<Rightarrow> json" where
  "permission_json S p =
     JObj (S [] [(''id'', JStr (p_id p)), (''code'', JStr (p_code p)),
                 (''created_by'', auth_user_json (p_created_by p))])"

definition role_json :: "serializer \<Rightarrow> role \<Rightarrow> json" where
  "role_json S r =
     JObj (S [] [(''id'', JStr (r_id r)), (''name'', JStr (r_name r)), (''is_restricted'', JBool (r_is_restricted r)),
                 (''created_by'', auth_user_json (r_created_by r)),
                 (''permissions'', JArr (List.map (permission_json S) (r_permissions r)))])"

definition relation_props :: "string \<Rightarrow> ('e \<Rightarrow> json) \<Rightarrow> 'e list option \<Rightarrow> props" where
  "relation_props name f es = (case es of None \<Rightarrow> [] | Some xs \<Rightarrow> [(name, JArr (List.map f xs))])"

definition user_props :: "serializer \<Rightarrow> user \<Rightarrow> props" where
  "user_props S u =
     [(''id'', JStr (u_id u)), (''email'', JStr (u_email u)), (''password'', JStr (u_password u)),
      (''status'', JStr (UserStatus (u_status u))), (''person_id'', JStr (u_person_id u)),
      (''created_by'', auth_user_json (u_created_by u))]
     @ relation_props ''roles'' (role_json S) (u_roles u)
     @ (case u_originalPassword u of None \<Rightarrow> [] | Some p \<Rightarrow> [(''originalPassword'', JStr p)])"

definition UserEntity_excluded :: "string list" where
  "UserEntity_excluded = [''password'']"

definition user_json :: "serializer \<Rightarrow> user \<Rightarrow> json" where
  "user_json S u = JObj (S UserEntity_excluded (user_props S u))"

definition ApiKeyEntity_excluded :: "string list" where
  "ApiKeyEntity_excluded = [''key_fingerprint'', ''created_at'', ''updated_at'', ''created_by'']"

definition api_key_json :: "serializer \<Rightarrow> api_key \<Rightarrow> json" where
  "api_key_json S k =
     JObj (S ApiKeyEntity_excluded
       ([(''id'', JStr (k_id k)), (''key_fingerprint'', JStr (k_key_fingerprint k)), (''client'', JStr (k_client k)),
         (''active'', JBool (k_active k)), (''created_by'', auth_user_json (k_created_by k))]
        @ relation_props ''permissions'' (permission_json S) (k_permissions k)))"

definition EndpointPermissionRulesEntity_excluded :: "string list" where
  "EndpointPermissionRulesEntity_excluded = [''created_at'', ''updated_at'', ''created_by'']"

definition epr_json :: "serializer \<Rightarrow> epr \<Rightarrow> json" where
  "epr_json S r =
     JObj (S EndpointPermissionRulesEntity_excluded
       ([(''id'', JStr (e_id r)), (''endpoint_key_name'', JStr (e_endpoint_key_name r)),
         (''enabled'', JBool (e_enabled r)), (''created_by'', auth_user_json (e_created_by r))]
        @ relation_props ''permissions'' (permission_json S) (e_permissions r)))"

definition session_props :: "session \<Rightarrow> props" where
  "session_props s =
     [(''user_id'', JStr (s_user_id s)), (''person_id'', JStr (s_person_id s)), (''email'', JStr (s_email s)),
      (''permissions'', JArr (List.map JStr (s_permissions s))), (''active'', JBool (s_active s)),
      (''ip'', JStr (s_ip s)), (''userAgent'', JStr (s_userAgent s)), (''device'', JStr (s_device s)),
      (''created_at'', JStr (s_created_at s)), (''last_refresh_at'', JStr (s_last_refresh_at s))]"

definition paginated_json :: "('e \<Rightarrow> json) \<Rightarrow> 'e paginated \<Rightarrow> json" where
  "paginated_json f p =
     JObj [(''data'', JArr (List.map f (pg_data p))), (''total'', JNum (int (pg_total p))),
           (''page'', JNum (pg_page p)), (''limit'', JNum (pg_limit p)), (''totalPages'', JNum (pg_totalPages p))]"

definition details_json :: "string \<Rightarrow> (string \<times> string) list \<Rightarrow> json" where
  "details_json name xs = JArr (List.map (\<lambda>(i, x). JObj [(''id'', JStr i), (name, JStr x)]) xs)"

text \<open>A property of a body.\<close>

definition json_prop :: "json \<Rightarrow> string \<Rightarrow> json option" where
  "json_prop j name = (case j of JObj ps \<Rightarrow> map_of ps name | _ \<Rightarrow> None)"

section \<open>Controller methods\<close>

text \<open>What a method queues on the response: a cookie to set or one to clear.\<close>

datatype cookie = SetCookie string string cookie_options | ClearCookie string string

type_synonym ('r, 'd, 'q, 'a) route =
  "((('r, 'd, 'q) world \<times> cookie list) \<times> request_state, exn, 'a) io"

definition services :: "('r, 'd, 'q, 'a) service \<Rightarrow> ('r, 'd, 'q, 'a) route" where
  "services = zoomE (fst \<circ> fst) (\<lambda>w s. ((w, snd (fst s)), snd s))"

definition on_guard :: "('r, 'd, 'q, 'a) handler \<Rightarrow> ('r, 'd, 'q, 'a) route" where
  "on_guard = zoomE (\<lambda>s. (fst (fst s), snd s)) (\<lambda>t s. ((fst t, snd (fst s)), snd t))"

definition response_cookie ::
  "string \<Rightarrow> string \<Rightarrow> cookie_options \<Rightarrow> ('r, 'd, 'q, unit) route" where
  "response_cookie name value options = (\<lambda>((w, cs), r). (Inr (), ((w, cs @ [SetCookie name value options]), r)))"

definition response_clearCookie :: "string \<Rightarrow> string \<Rightarrow> ('r, 'd, 'q, unit) route" where
  "response_clearCookie name pth = (\<lambda>((w, cs), r). (Inr (), ((w, cs @ [ClearCookie name pth]), r)))"

text \<open>\<open>request.user\<close>, and a property of it, which an undefined user does not have.\<close>

definition request_user :: "('r, 'd, 'q, auth_user option) route" where
  "request_user = getE (rs_user \<circ> snd)"

definition request_user_of :: "('r, 'd, 'q, auth_user) route" where
  "request_user_of = bindE request_user (\<lambda>user. case user of
       None \<Rightarrow> throwE (JsError ''TypeError'' ''Cannot read properties of undefined'' None None)
     | Some u \<Rightarrow> returnE u)"

section \<open>Endpoints\<close>

datatype verb = GET | POST | PATCH | DELETE

datatype guard = Unguarded | AuthGuard | ApiKeyGuard | MicroserviceGuard

record endpoint =
  ep_verb :: verb
  ep_path :: "string list"
  ep_guard :: guard
  ep_key :: "string option"

definition endpoint :: "verb \<Rightarrow> string list \<Rightarrow> guard \<Rightarrow> string option \<Rightarrow> endpoint" where
  "endpoint v pth g k = \<lparr>ep_verb = v, ep_path = pth, ep_guard = g, ep_key = k\<rparr>"

text \<open>The parameters of a path that matches a pattern; the text of a path is compared without
  regard to case, as the router does.\<close>

fun path_params :: "string list \<Rightarrow> string list \<Rightarrow> (string \<times> string) list option" where
  "path_params [] [] = Some []"
| "path_params (p # ps) (s # ss) =
     (if starts_with p '':'' then map_option ((#) (tl p, s)) (path_params ps ss)
      else if toLowerCase p = toLowerCase s then path_params ps ss else None)"
| "path_params _ _ = None"

definition serves :: "verb \<Rightarrow> string list \<Rightarrow> endpoint \<Rightarrow> bool" where
  "serves v segs ep \<longleftrightarrow> ep_verb ep = v \<and> path_params (ep_path ep) segs \<noteq> None"

section \<open>The request cycle\<close>

definition run_guard ::
  "('r, 'd, 'q) env \<Rightarrow> endpoint \<Rightarrow> request \<Rightarrow> ('r, 'd, 'q, bool) handler" where
  "run_guard E ep req =
     (case ep_guard ep of
        Unguarded \<Rightarrow> returnE True
      | AuthGuard \<Rightarrow> authGuard E (ep_key ep) req
      | ApiKeyGuard \<Rightarrow> apiKeyGuard E (ep_key ep) req
      | MicroserviceGuard \<Rightarrow> microserviceGuard E (ep_key ep) req)"

definition forbidden_resource :: exn where
  "forbidden_resource =
     HttpException ''ForbiddenException'' (ObjectResponse (OneMessage ''Forbidden resource'') None)
       ''Forbidden resource'' FORBIDDEN None"

definition guarded ::
  "('r, 'd, 'q) env \<Rightarrow> endpoint \<Rightarrow> request \<Rightarrow> ('r, 'd, 'q, json) route \<Rightarrow> ('r, 'd, 'q, json) route" where
  "guarded E ep req m =
     bindE (on_guard (run_guard E ep req)) (\<lambda>admitted. if admitted then m else throwE forbidden_resource)"

datatype reply_body = Reply json | Failure error_response

record reply =
  re_status :: nat
  re_body :: reply_body
  re_cookies :: "cookie list"

text \<open>A resolved \<open>POST\<close> answers 201, any other verb 200.\<close>

definition success_status :: "verb \<Rightarrow> nat" where
  "success_status v = (if v = POST then 201 else 200)"

definition failure_reply :: "('r, 'd, 'q) env \<Rightarrow> int \<Rightarrow> string \<Rightarrow> exn \<Rightarrow> cookie list \<Rightarrow> reply" where
  "failure_reply E now url e cs =
     \<lparr>re_status = filter_status e, re_body = Failure (catch_exception (toISOString E now) url e), re_cookies = cs\<rparr>"

definition send_reply ::
  "('r, 'd, 'q) env \<Rightarrow> endpoint \<Rightarrow> string \<Rightarrow> (exn + json) \<times> (('r, 'd, 'q) world \<times> cookie list) \<times> request_state \<Rightarrow>
   reply \<times> ('r, 'd, 'q) world" where
  "send_reply E ep url out = (case out of (res, ((w, cs), r)) \<Rightarrow>
     (case res of
        Inr j \<Rightarrow> \<lparr>re_status = success_status (ep_verb ep), re_body = Reply j, re_cookies = cs\<rparr>
      | Inl e \<Rightarrow> failure_reply E (w_now w) url e cs, w))"

text \<open>A request with no user and no context yet goes through the middleware, the guard and the
  method; the filter turns a thrown value into the response.\<close>

definition new_request :: request_state where
  "new_request = \<lparr>rs_user = None, rs_store = None\<rparr>"

definition serve ::
  "('r, 'd, 'q) env \<Rightarrow> endpoint \<Rightarrow> string \<Rightarrow> request \<Rightarrow> ('r, 'd, 'q, json) route \<Rightarrow>
   ('r, 'd, 'q) world \<Rightarrow> reply \<times> ('r, 'd, 'q) world" where
  "serve E ep url req m w = send_reply E ep url (middleware_use (guarded E ep req m) ((w, []), new_request))"

section \<open>Facts\<close>

lemma services_run: "services m ((w, cs), r) = (case m w of (x, w') \<Rightarrow> (x, ((w', cs), r)))"
  by (simp add: services_def zoomE_def split: prod.splits)

lemma on_guard_run: "on_guard g ((w, cs), r) = (case g (w, r) of (x, w', r') \<Rightarrow> (x, ((w', cs), r')))"
  by (simp add: on_guard_def zoomE_def split: prod.splits)

lemma middleware_run:
  "middleware_use m (s, r) =
   (case m (s, r\<lparr>rs_store := Some None\<rparr>) of (x, s', r') \<Rightarrow> (x, s', r'\<lparr>rs_store := rs_store r\<rparr>))"
  by (simp add: middleware_use_def context_start_def)

text \<open>The state of a request inside the middleware, and what the guard makes of it.\<close>

definition in_context :: request_state where
  "in_context = \<lparr>rs_user = None, rs_store = Some None\<rparr>"

lemma in_context_store [simp]: "rs_store in_context \<noteq> None" "rs_user in_context = None"
  by (simp_all add: in_context_def)

lemma send_reply_store [simp]: "send_reply E ep url (res, s, r\<lparr>rs_store := x\<rparr>) = send_reply E ep url (res, s, r)"
  by (simp add: send_reply_def split: prod.splits)

lemma serve_denied:
  assumes "run_guard E ep req (w, in_context) = (Inl e, w', r')"
  shows "serve E ep url req m w = (failure_reply E (w_now w') url e [], w')"
  using assms by (simp add: serve_def middleware_run new_request_def guarded_def bindE_def on_guard_run in_context_def)
    (simp add: send_reply_def)

lemma serve_admitted:
  assumes "run_guard E ep req (w, in_context) = (Inr True, w', r')"
  shows "serve E ep url req m w = send_reply E ep url (m ((w', []), r'))"
  using assms by (simp add: serve_def middleware_run new_request_def guarded_def bindE_def on_guard_run in_context_def
      split: prod.splits)

lemma serve_open: "ep_guard ep = Unguarded \<Longrightarrow> serve E ep url req m w = send_reply E ep url (m ((w, []), in_context))"
  by (rule serve_admitted) (simp add: run_guard_def returnE_def)

lemma mem_serializer_laws: "serializer_laws mem_serializer"
  by (simp add: serializer_laws_def mem_serializer_def)

end
