(* ===== verification/Controllers.thy ===== *)
theory Controllers imports Http Metrics begin

text \<open>
  The controllers of \<open>src/src/services\<close> and \<open>src/src/observability\<close>: one endpoint and one method
  per decorated method of the source, in its order. The DTOs arrive validated and transformed;
  random values that a service draws are arguments.
\<close>

section \<open>UsersController\<close>

definition ep_users_register :: endpoint where
  "ep_users_register = endpoint POST [''users'', ''register''] ApiKeyGuard (Some ''users.register'')"

definition UsersController_register ::
  "('r, 'd, 'q) env \<Rightarrow> string \<Rightarrow> register_dto \<Rightarrow> ('r, 'd, 'q, json) route" where
  "UsersController_register E password dto =
     bindE request_user (\<lambda>user.
     bindE (services (register E password dto user)) (\<lambda>m. returnE (message_json m)))"

definition ep_users_firstActivation :: endpoint where
  "ep_users_firstActivation = endpoint POST [''users'', ''first-activation''] Unguarded None"

definition UsersController_firstActivation ::
  "('r, 'd, 'q) env \<Rightarrow> string \<Rightarrow> string \<Rightarrow> string \<Rightarrow> ('r, 'd, 'q, json) route" where
  "UsersController_firstActivation E email password new_password =
     bindE (services (firstActivation E email password new_password)) (\<lambda>m. returnE (message_json m))"

definition ep_users_activate :: endpoint where
  "ep_users_activate = endpoint POST [''users'', ''activate'', '':id''] AuthGuard (Some ''users.update'')"

definition UsersController_activate :: "('r, 'd, 'q) env \<Rightarrow> string \<Rightarrow> ('r, 'd, 'q, json) route" where
  "UsersController_activate E uid =
     bindE (services (users_activate E uid)) (\<lambda>m. returnE (message_json m))"

definition ep_users_deactivate :: endpoint where
  "ep_users_deactivate = endpoint POST [''users'', ''deactivate'', '':id''] AuthGuard (Some ''users.update'')"

definition UsersController_deactivate :: "('r, 'd, 'q) env \<Rightarrow> string \<Rightarrow> ('r, 'd, 'q, json) route" where
  "UsersController_deactivate E uid =
     bindE (services (users_deactivate E uid)) (\<lambda>m. returnE (message_json m))"

definition ep_users_login :: endpoint where
  "ep_users_login = endpoint POST [''users'', ''login''] Unguarded None"

text \<open>The two cookies of a pair of tokens; the options of each are computed before it is set.\<close>

definition token_cookies :: "('r, 'd, 'q) env \<Rightarrow> auth_tokens \<Rightarrow> ('r, 'd, 'q, unit) route" where
  "token_cookies E tokens =
     bindE (liftE (getAuthCookieOptions E)) (\<lambda>auth.
     thenE (response_cookie ''auth_token'' (t_accessToken tokens) auth)
     (bindE (liftE (getRefreshCookieOptions E)) (\<lambda>refresh.
      response_cookie ''refresh_token'' (t_refreshToken tokens) refresh)))"

definition UsersController_logIn ::
  "('r, 'd, 'q) env \<Rightarrow> string \<Rightarrow> string \<Rightarrow> string \<Rightarrow> request \<Rightarrow> ('r, 'd, 'q, json) route" where
  "UsersController_logIn E sessionId email password req =
     bindE (services (logIn E sessionId email password req)) (\<lambda>tokens.
     thenE (token_cookies E tokens)
     (returnE (message_json ''Login successful'')))"

definition ep_users_logout :: endpoint where
  "ep_users_logout = endpoint POST [''users'', ''logout''] AuthGuard None"

definition UsersController_logOut :: "('r, 'd, 'q) env \<Rightarrow> ('r, 'd, 'q, json) route" where
  "UsersController_logOut E =
     bindE request_user_of (\<lambda>user.
     bindE (services (logOut E user)) (\<lambda>result.
     thenE (response_clearCookie ''auth_token'' ''/'')
     (thenE (response_clearCookie ''refresh_token'' ''/users/refresh-token'')
     (returnE (message_json result)))))"

definition ep_users_refreshToken :: endpoint where
  "ep_users_refreshToken = endpoint GET [''users'', ''refresh-token''] Unguarded None"

definition refresh_token_missing :: exn where
  "refresh_token_missing =
     users_exception ''Refresh token cookie missing'' users_error.REFRESH_TOKEN_MISSING UNAUTHORIZED None"

definition UsersController_refreshToken ::
  "('r, 'd, 'q) env \<Rightarrow> request \<Rightarrow> ('r, 'd, 'q, json) route" where
  "UsersController_refreshToken E req =
     (case rq_cookies req ''refresh_token'' of
        None \<Rightarrow> throwE refresh_token_missing
      | Some refreshToken \<Rightarrow>
          if refreshToken = '''' then throwE refresh_token_missing
          else
            bindE (services (users_refreshToken E refreshToken)) (\<lambda>tokens.
            thenE (token_cookies E tokens)
            (returnE (message_json ''Token refreshed''))))"

definition ep_users_canDo :: endpoint where
  "ep_users_canDo = endpoint GET [''users'', ''can-do'', '':permission''] MicroserviceGuard (Some ''users.find_api'')"

text \<open>\<open>canDo\<close> reads \<open>request.user.session_id\<close> in the service.\<close>

definition UsersController_canDo :: "('r, 'd, 'q) env \<Rightarrow> string \<Rightarrow> ('r, 'd, 'q, json) route" where
  "UsersController_canDo E permission =
     bindE request_user_of (\<lambda>user.
     bindE (services (users_canDo E user permission)) (\<lambda>b. returnE (JBool b)))"

definition ep_users_me :: endpoint where
  "ep_users_me = endpoint GET [''users'', ''me''] MicroserviceGuard (Some ''users.find_api'')"

definition UsersController_me :: "('r, 'd, 'q, json) route" where
  "UsersController_me =
     bindE request_user_of (\<lambda>user.
     returnE (JObj [(''id'', JStr (au_id user)), (''email'', JStr (au_email user)),
                    (''person_id'', JStr (au_person_id user)), (''session_id'', JStr (au_session_id user))]))"

definition ep_users_assignRole :: endpoint where
  "ep_users_assignRole = endpoint POST [''users'', ''assign-role'', '':id''] AuthGuard (Some ''users.update'')"

definition UsersController_assignRole ::
  "('r, 'd, 'q) env \<Rightarrow> serializer \<Rightarrow> string \<Rightarrow> string list \<Rightarrow> ('r, 'd, 'q, json) route" where
  "UsersController_assignRole E S uid rolesIds =
     bindE (services (assignRole E uid rolesIds)) (\<lambda>u. returnE (user_json S u))"

definition ep_users_forgotPassword :: endpoint where
  "ep_users_forgotPassword = endpoint POST [''users'', ''forgot-password''] Unguarded None"

definition UsersController_forgotPassword ::
  "('r, 'd, 'q) env \<Rightarrow> string \<Rightarrow> string \<Rightarrow> ('r, 'd, 'q, json) route" where
  "UsersController_forgotPassword E token email =
     bindE (services (forgotPassword E token email)) (\<lambda>m. returnE (message_json m))"

definition ep_users_resetPassword :: endpoint where
  "ep_users_resetPassword = endpoint POST [''users'', ''reset-password''] Unguarded None"

definition UsersController_resetPassword ::
  "('r, 'd, 'q) env \<Rightarrow> string \<Rightarrow> string \<Rightarrow> ('r, 'd, 'q, json) route" where
  "UsersController_resetPassword E token password =
     bindE (services (resetPassword E token password)) (\<lambda>m. returnE (message_json m))"

definition ep_users_findAll :: endpoint where
  "ep_users_findAll = endpoint GET [''users'', ''all''] AuthGuard (Some ''users.find'')"

definition UsersController_findAll ::
  "('r, 'd, 'q) env \<Rightarrow> serializer \<Rightarrow> pagination_query \<Rightarrow> ('r, 'd, 'q, json) route" where
  "UsersController_findAll E S query =
     bindE (services (users_findAll E query)) (\<lambda>page. returnE (paginated_json (user_json S) page))"

section \<open>SessionsController\<close>

definition ep_sessions_getUserSessions :: endpoint where
  "ep_sessions_getUserSessions =
     endpoint GET [''sessions'', ''user'', '':userId''] AuthGuard (Some ''sessions.find'')"

definition SessionsController_getUserSessions ::
  "('r, 'd, 'q) env \<Rightarrow> string \<Rightarrow> ('r, 'd, 'q, json) route" where
  "SessionsController_getUserSessions E userId =
     bindE (services (findUserSessions E userId)) (\<lambda>(sessions, total).
     returnE (JObj [(''sessions'', JArr (List.map (\<lambda>(sid, s). JObj ((''sid'', JStr sid) # session_props s)) sessions)),
                    (''total'', JNum (int total))]))"

definition ep_sessions_deactivateSession :: endpoint where
  "ep_sessions_deactivateSession =
     endpoint POST [''sessions'', ''deactivate'', '':sid''] AuthGuard (Some ''sessions.deactivate'')"

definition SessionsController_deactivateSession ::
  "('r, 'd, 'q) env \<Rightarrow> string \<Rightarrow> ('r, 'd, 'q, json) route" where
  "SessionsController_deactivateSession E sid =
     bindE (services (deactivateSession E sid)) (\<lambda>m. returnE (message_json m))"

section \<open>ApiKeysController\<close>

definition ep_apiKeys_canDo :: endpoint where
  "ep_apiKeys_canDo = endpoint GET [''api-keys'', ''can-do'', '':permission''] ApiKeyGuard None"

definition ApiKeysController_canDo ::
  "('r, 'd, 'q) env \<Rightarrow> request \<Rightarrow> string \<Rightarrow> ('r, 'd, 'q, json) route" where
  "ApiKeysController_canDo E req permission =
     bindE (services (api_canDo E req permission)) (\<lambda>b. returnE (JBool b))"

definition ep_apiKeys_generate :: endpoint where
  "ep_apiKeys_generate = endpoint POST [''api-keys'', ''generate''] AuthGuard (Some ''api-key.generate'')"

definition ApiKeysController_generate ::
  "('r, 'd, 'q) env \<Rightarrow> string \<Rightarrow> api_key_dto \<Rightarrow> ('r, 'd, 'q, json) route" where
  "ApiKeysController_generate E plainApiKey dto =
     bindE request_user (\<lambda>user.
     bindE (services (api_create E plainApiKey dto user)) (\<lambda>(apiKey, kid, client).
     returnE (JObj [(''apiKey'', JStr apiKey), (''id'', JStr kid), (''client'', JStr client)])))"

definition ep_apiKeys_findOne :: endpoint where
  "ep_apiKeys_findOne = endpoint GET [''api-keys'', ''find'', '':id''] AuthGuard (Some ''api-key.find'')"

definition ApiKeysController_findOne ::
  "('r, 'd, 'q) env \<Rightarrow> serializer \<Rightarrow> string \<Rightarrow> ('r, 'd, 'q, json) route" where
  "ApiKeysController_findOne E S kid =
     bindE (services (api_findOne E kid)) (\<lambda>k. returnE (api_key_json S k))"

definition ep_apiKeys_findAll :: endpoint where
  "ep_apiKeys_findAll = endpoint GET [''api-keys'', ''all''] AuthGuard (Some ''api-key.find'')"

definition ApiKeysController_findAll ::
  "('r, 'd, 'q) env \<Rightarrow> serializer \<Rightarrow> pagination_query \<Rightarrow> ('r, 'd, 'q, json) route" where
  "ApiKeysController_findAll E S query =
     bindE (services (api_findAll E query)) (\<lambda>page. returnE (paginated_json (api_key_json S) page))"

definition ep_apiKeys_changePermissions :: endpoint where
  "ep_apiKeys_changePermissions =
     endpoint PATCH [''api-keys'', ''change-permissions'', '':id''] AuthGuard (Some ''api-key.update'')"

definition ApiKeysController_changePermissions ::
  "('r, 'd, 'q) env \<Rightarrow> serializer \<Rightarrow> string \<Rightarrow> string list \<Rightarrow> ('r, 'd, 'q, json) route" where
  "ApiKeysController_changePermissions E S kid permissionsIds =
     bindE (services (api_changePermissions E kid permissionsIds)) (\<lambda>k. returnE (api_key_json S k))"

definition ep_apiKeys_deactivate :: endpoint where
  "ep_apiKeys_deactivate = endpoint PATCH [''api-keys'', ''deactivate'', '':id''] AuthGuard (Some ''api-key.deactivate'')"

definition ApiKeysController_deactivate :: "('r, 'd, 'q) env \<Rightarrow> string \<Rightarrow> ('r, 'd, 'q, json) route" where
  "ApiKeysController_deactivate E kid =
     bindE (services (api_deactivate E kid)) (\<lambda>m. returnE (message_json m))"

definition ep_apiKeys_activate :: endpoint where
  "ep_apiKeys_activate = endpoint PATCH [''api-keys'', ''activate'', '':id''] AuthGuard (Some ''api-key.activate'')"

definition ApiKeysController_activate :: "('r, 'd, 'q) env \<Rightarrow> string \<Rightarrow> ('r, 'd, 'q, json) route" where
  "ApiKeysController_activate E kid =
     bindE (services (api_activate E kid)) (\<lambda>m. returnE (message_json m))"

section \<open>EndpointPermissionRulesController\<close>

definition ep_epr_create :: endpoint where
  "ep_epr_create =
     endpoint POST [''endpoint-permission-rules'', ''new''] AuthGuard (Some ''endpoint-permission-rules.create'')"

definition EprController_create ::
  "('r, 'd, 'q) env \<Rightarrow> serializer \<Rightarrow> epr_dto \<Rightarrow> ('r, 'd, 'q, json) route" where
  "EprController_create E S dto =
     bindE request_user (\<lambda>user.
     bindE (services (epr_create E dto user)) (\<lambda>r. returnE (epr_json S r)))"

definition ep_epr_edit :: endpoint where
  "ep_epr_edit =
     endpoint PATCH [''endpoint-permission-rules'', ''edit'', '':id''] AuthGuard (Some ''endpoint-permission-rules.update'')"

definition EprController_edit ::
  "('r, 'd, 'q) env \<Rightarrow> serializer \<Rightarrow> string \<Rightarrow> epr_dto \<Rightarrow> ('r, 'd, 'q, json) route" where
  "EprController_edit E S rid dto =
     bindE (services (epr_update E rid dto)) (\<lambda>r. returnE (epr_json S r))"

definition ep_epr_assignPermissions :: endpoint where
  "ep_epr_assignPermissions =
     endpoint PATCH [''endpoint-permission-rules'', ''assign-permissions'', '':id''] AuthGuard
       (Some ''endpoint-permission-rules.update'')"

definition EprController_assignPermissions ::
  "('r, 'd, 'q) env \<Rightarrow> serializer \<Rightarrow> string \<Rightarrow> string list \<Rightarrow> ('r, 'd, 'q, json) route" where
  "EprController_assignPermissions E S rid permissionsIds =
     bindE (services (epr_assignPermissions E rid permissionsIds)) (\<lambda>r. returnE (epr_json S r))"

definition ep_epr_enableRule :: endpoint where
  "ep_epr_enableRule =
     endpoint PATCH [''endpoint-permission-rules'', ''enable'', '':id''] AuthGuard (Some ''endpoint-permission-rules.update'')"

definition EprController_enableRule :: "('r, 'd, 'q) env \<Rightarrow> string \<Rightarrow> ('r, 'd, 'q, json) route" where
  "EprController_enableRule E rid =
     bindE (services (enableRule E rid)) (\<lambda>m. returnE (message_json m))"

definition ep_epr_disableRule :: endpoint where
  "ep_epr_disableRule =
     endpoint PATCH [''endpoint-permission-rules'', ''disable'', '':id''] AuthGuard (Some ''endpoint-permission-rules.update'')"

definition EprController_disableRule :: "('r, 'd, 'q) env \<Rightarrow> string \<Rightarrow> ('r, 'd, 'q, json) route" where
  "EprController_disableRule E rid =
     bindE (services (disableRule E rid)) (\<lambda>m. returnE (message_json m))"

definition ep_epr_delete :: endpoint where
  "ep_epr_delete =
     endpoint DELETE [''endpoint-permission-rules'', ''delete'', '':id''] AuthGuard (Some ''endpoint-permission-rules.delete'')"

definition EprController_delete :: "('r, 'd, 'q) env \<Rightarrow> string \<Rightarrow> ('r, 'd, 'q, json) route" where
  "EprController_delete E rid =
     bindE (services (epr_delete E rid)) (\<lambda>m. returnE (message_json m))"

definition ep_epr_findAll :: endpoint where
  "ep_epr_findAll =
     endpoint GET [''endpoint-permission-rules'', ''all''] AuthGuard (Some ''endpoint-permission-rules.find'')"

text \<open>Without the interceptor: the listing is sent as it is.\<close>

definition EprController_findAll ::
  "('r, 'd, 'q) env \<Rightarrow> pagination_query \<Rightarrow> ('r, 'd, 'q, json) route" where
  "EprController_findAll E query =
     bindE (services (epr_findAll E query)) (\<lambda>page. returnE (paginated_json (epr_json unserialized) page))"

definition ep_epr_findOne :: endpoint where
  "ep_epr_findOne =
     endpoint GET [''endpoint-permission-rules'', ''find'', '':id''] AuthGuard (Some ''endpoint-permission-rules.find'')"

definition EprController_findOne :: "('r, 'd, 'q) env \<Rightarrow> string \<Rightarrow> ('r, 'd, 'q, json) route" where
  "EprController_findOne E rid =
     bindE (services (epr_findOne E rid)) (\<lambda>r. returnE (epr_json unserialized r))"

definition ep_epr_getEndpointPermissions :: endpoint where
  "ep_epr_getEndpointPermissions =
     endpoint GET [''endpoint-permission-rules'', ''get-endpoint-permissions'', '':key''] ApiKeyGuard
       (Some ''endpoint-permission-rules.find_api'')"

definition EprController_getEndpointPermissions ::
  "('r, 'd, 'q) env \<Rightarrow> string \<Rightarrow> ('r, 'd, 'q, json) route" where
  "EprController_getEndpointPermissions E key =
     bindE (services (getPermissionsForEndpoint E key)) (\<lambda>codes. returnE (JArr (List.map JStr codes)))"

section \<open>RolesController\<close>

definition ep_roles_create :: endpoint where
  "ep_roles_create = endpoint POST [''roles'', ''new''] AuthGuard (Some ''roles.create'')"

definition RolesController_create :: "('r, 'd, 'q) env \<Rightarrow> role_dto \<Rightarrow> ('r, 'd, 'q, json) route" where
  "RolesController_create E dto =
     bindE request_user (\<lambda>user.
     bindE (services (roles_create E dto user)) (\<lambda>r. returnE (role_json unserialized r)))"

definition ep_roles_edit :: endpoint where
  "ep_roles_edit = endpoint PATCH [''roles'', ''edit'', '':id''] AuthGuard (Some ''roles.update'')"

definition RolesController_edit :: "('r, 'd, 'q) env \<Rightarrow> role_dto \<Rightarrow> string \<Rightarrow> ('r, 'd, 'q, json) route" where
  "RolesController_edit E dto rid =
     bindE (services (roles_update E rid dto)) (\<lambda>r. returnE (role_json unserialized r))"

definition ep_roles_assignPermissions :: endpoint where
  "ep_roles_assignPermissions = endpoint PATCH [''roles'', ''assign-permissions'', '':id''] AuthGuard (Some ''roles.update'')"

definition RolesController_assignPermissions ::
  "('r, 'd, 'q) env \<Rightarrow> string \<Rightarrow> string list \<Rightarrow> ('r, 'd, 'q, json) route" where
  "RolesController_assignPermissions E rid permissionsIds =
     bindE (services (roles_assignPermissions E rid permissionsIds)) (\<lambda>r. returnE (role_json unserialized r))"

definition ep_roles_delete :: endpoint where
  "ep_roles_delete = endpoint DELETE [''roles'', ''delete'', '':id''] AuthGuard (Some ''roles.delete'')"

definition RolesController_delete :: "('r, 'd, 'q) env \<Rightarrow> string \<Rightarrow> ('r, 'd, 'q, json) route" where
  "RolesController_delete E rid =
     bindE (services (roles_delete E rid)) (\<lambda>m. returnE (message_json m))"

definition ep_roles_getUnrestrictedDetails :: endpoint where
  "ep_roles_getUnrestrictedDetails =
     endpoint GET [''roles'', ''details'', ''unrestricted''] AuthGuard (Some ''roles.details'')"

definition RolesController_getUnrestrictedDetails :: "('r, 'd, 'q) env \<Rightarrow> ('r, 'd, 'q, json) route" where
  "RolesController_getUnrestrictedDetails E =
     bindE (services (roles_getUnrestrictedDetails E)) (\<lambda>xs. returnE (details_json ''name'' xs))"

definition ep_roles_getAllDetails :: endpoint where
  "ep_roles_getAllDetails =
     endpoint GET [''roles'', ''details'', ''restricted''] AuthGuard (Some ''roles.details.restricted'')"

definition RolesController_getAllDetails :: "('r, 'd, 'q) env \<Rightarrow> ('r, 'd, 'q, json) route" where
  "RolesController_getAllDetails E =
     bindE (services (roles_getAllDetails E)) (\<lambda>xs. returnE (details_json ''name'' xs))"

definition ep_roles_findOne :: endpoint where
  "ep_roles_findOne = endpoint GET [''roles'', ''find'', '':id''] AuthGuard (Some ''roles.find'')"

definition RolesController_findOne :: "('r, 'd, 'q) env \<Rightarrow> string \<Rightarrow> ('r, 'd, 'q, json) route" where
  "RolesController_findOne E rid =
     bindE (services (roles_findOne E rid)) (\<lambda>r. returnE (role_json unserialized r))"

definition ep_roles_findAll :: endpoint where
  "ep_roles_findAll = endpoint GET [''roles'', ''all''] AuthGuard (Some ''roles.find'')"

definition RolesController_findAll ::
  "('r, 'd, 'q) env \<Rightarrow> pagination_query \<Rightarrow> ('r, 'd, 'q, json) route" where
  "RolesController_findAll E query =
     bindE (services (roles_findAll E query)) (\<lambda>page. returnE (paginated_json (role_json unserialized) page))"

section \<open>PermissionsController\<close>

definition ep_permissions_create :: endpoint where
  "ep_permissions_create = endpoint POST [''permissions'', ''new''] AuthGuard (Some ''permission.create'')"

definition PermissionsController_create ::
  "('r, 'd, 'q) env \<Rightarrow> serializer \<Rightarrow> permission_dto \<Rightarrow> ('r, 'd, 'q, json) route" where
  "PermissionsController_create E S dto =
     bindE request_user (\<lambda>user.
     bindE (services (permissions_create E dto user)) (\<lambda>p. returnE (permission_json S p)))"

definition ep_permissions_edit :: endpoint where
  "ep_permissions_edit = endpoint PATCH [''permissions'', ''edit'', '':id''] AuthGuard (Some ''permission.update'')"

definition PermissionsController_edit ::
  "('r, 'd, 'q) env \<Rightarrow> serializer \<Rightarrow> permission_dto \<Rightarrow> string \<Rightarrow> ('r, 'd, 'q, json) route" where
  "PermissionsController_edit E S dto pid =
     bindE (services (permissions_update E pid dto)) (\<lambda>p. returnE (permission_json S p))"

definition ep_permissions_delete :: endpoint where
  "ep_permissions_delete = endpoint DELETE [''permissions'', ''delete'', '':id''] AuthGuard (Some ''permission.delete'')"

definition PermissionsController_delete :: "('r, 'd, 'q) env \<Rightarrow> string \<Rightarrow> ('r, 'd, 'q, json) route" where
  "PermissionsController_delete E pid =
     bindE (services (permissions_delete E pid)) (\<lambda>m. returnE (message_json m))"

definition ep_permissions_getDetails :: endpoint where
  "ep_permissions_getDetails = endpoint GET [''permissions'', ''details''] AuthGuard (Some ''permission.details'')"

definition PermissionsController_getDetails :: "('r, 'd, 'q) env \<Rightarrow> ('r, 'd, 'q, json) route" where
  "PermissionsController_getDetails E =
     bindE (services (permissions_getDetails E)) (\<lambda>xs. returnE (details_json ''code'' xs))"

definition ep_permissions_findOne :: endpoint where
  "ep_permissions_findOne = endpoint GET [''permissions'', ''find'', '':id''] AuthGuard (Some ''permission.find'')"

definition PermissionsController_findOne ::
  "('r, 'd, 'q) env \<Rightarrow> serializer \<Rightarrow> string \<Rightarrow> ('r, 'd, 'q, json) route" where
  "PermissionsController_findOne E S pid =
     bindE (services (permissions_findOne E pid)) (\<lambda>p. returnE (permission_json S p))"

definition ep_permissions_findAll :: endpoint where
  "ep_permissions_findAll = endpoint GET [''permissions'', ''all''] AuthGuard (Some ''permission.find'')"

definition PermissionsController_findAll ::
  "('r, 'd, 'q) env \<Rightarrow> serializer \<Rightarrow> pagination_query \<Rightarrow> ('r, 'd, 'q, json) route" where
  "PermissionsController_findAll E S query =
     bindE (services (permissions_findAll E query)) (\<lambda>page. returnE (paginated_json (permission_json S) page))"

section \<open>MetricsController and AppController\<close>

definition ep_metrics :: endpoint where
  "ep_metrics = endpoint GET [''metrics''] ApiKeyGuard (Some ''metrics.get'')"

text \<open>
  \<open>conf\<close> is \<open>ConfigService.get\<close>, which answers the value of the validated configuration as it
  is, a boolean included; \<open>enabled !== 'true'\<close> compares without conversion. \<open>registry\<close> is the
  text the metrics library writes.
\<close>

definition MetricsController_getMetrics ::
  "(string \<Rightarrow> json option) \<Rightarrow> exn + string \<Rightarrow> ('r, 'd, 'q, json) route" where
  "MetricsController_getMetrics conf registry =
     (let enabled = (case conf ''METRICS_ENABLED'' of None \<Rightarrow> JStr ''true'' | Some v \<Rightarrow> v)
      in if enabled \<noteq> JStr ''true'' then
           throwE (HttpException ''NotFoundException''
             (ObjectResponse (OneMessage ''Metrics endpoint is disabled'') None)
             ''Metrics endpoint is disabled'' NOT_FOUND None)
         else bindE (liftE registry) (\<lambda>metrics. returnE (JStr metrics)))"

definition ep_status :: endpoint where
  "ep_status = endpoint GET [] Unguarded None"

definition AppController_status :: "string \<Rightarrow> ('r, 'd, 'q, json) route" where
  "AppController_status getStatus = returnE (JStr getStatus)"

section \<open>The endpoints of the service\<close>

text \<open>In the order the modules register their controllers.\<close>

definition endpoints :: "endpoint list" where
  "endpoints =
     [ep_status,
      ep_permissions_create, ep_permissions_edit, ep_permissions_delete, ep_permissions_getDetails,
      ep_permissions_findOne, ep_permissions_findAll,
      ep_apiKeys_canDo, ep_apiKeys_generate, ep_apiKeys_findOne, ep_apiKeys_findAll, ep_apiKeys_changePermissions,
      ep_apiKeys_deactivate, ep_apiKeys_activate,
      ep_users_register, ep_users_firstActivation, ep_users_activate, ep_users_deactivate, ep_users_login,
      ep_users_logout, ep_users_refreshToken, ep_users_canDo, ep_users_me, ep_users_assignRole,
      ep_users_forgotPassword, ep_users_resetPassword, ep_users_findAll,
      ep_roles_create, ep_roles_edit, ep_roles_assignPermissions, ep_roles_delete, ep_roles_getUnrestrictedDetails,
      ep_roles_getAllDetails, ep_roles_findOne, ep_roles_findAll,
      ep_sessions_getUserSessions, ep_sessions_deactivateSession,
      ep_metrics,
      ep_epr_create, ep_epr_edit, ep_epr_assignPermissions, ep_epr_enableRule, ep_epr_disableRule, ep_epr_delete,
      ep_epr_findAll, ep_epr_findOne, ep_epr_getEndpointPermissions]"

lemmas endpoint_defs = endpoint_def ep_status_def
  ep_permissions_create_def ep_permissions_edit_def ep_permissions_delete_def ep_permissions_getDetails_def
  ep_permissions_findOne_def ep_permissions_findAll_def
  ep_apiKeys_canDo_def ep_apiKeys_generate_def ep_apiKeys_findOne_def ep_apiKeys_findAll_def
  ep_apiKeys_changePermissions_def ep_apiKeys_deactivate_def ep_apiKeys_activate_def
  ep_users_register_def ep_users_firstActivation_def ep_users_activate_def ep_users_deactivate_def ep_users_login_def
  ep_users_logout_def ep_users_refreshToken_def ep_users_canDo_def ep_users_me_def ep_users_assignRole_def
  ep_users_forgotPassword_def ep_users_resetPassword_def ep_users_findAll_def
  ep_roles_create_def ep_roles_edit_def ep_roles_assignPermissions_def ep_roles_delete_def
  ep_roles_getUnrestrictedDetails_def ep_roles_getAllDetails_def ep_roles_findOne_def ep_roles_findAll_def
  ep_sessions_getUserSessions_def ep_sessions_deactivateSession_def ep_metrics_def
  ep_epr_create_def ep_epr_edit_def ep_epr_assignPermissions_def ep_epr_enableRule_def ep_epr_disableRule_def
  ep_epr_delete_def ep_epr_findAll_def ep_epr_findOne_def ep_epr_getEndpointPermissions_def

end
