(* ===== verification/GuardFrames.thy ===== *)
theory GuardFrames imports Guards UserSessions begin

text \<open>
  The lookups of the guards write only the cache entries they fill: what they leave alone,
  and what the check of an endpoint's permissions decides.
\<close>

section \<open>The keys a lookup may write\<close>

definition epr_keys :: "string \<Rightarrow> bool" where
  "epr_keys k \<longleftrightarrow> starts_with k ''epr:'' \<or> k = epr_index"

definition api_keys :: "string \<Rightarrow> bool" where
  "api_keys k \<longleftrightarrow> starts_with k ''api_key:fp:'' \<or> k = api_index"

lemma cache_keys [simp]:
  "epr_keys (epr_redisKey k)" "epr_keys epr_index" "api_keys (api_redisKey fp)" "api_keys api_index"
  "\<not> epr_keys (session_key sid)" "\<not> api_keys (session_key sid)" "\<not> api_keys (epr_redisKey k)"
  by (simp_all add: epr_keys_def api_keys_def epr_redisKey_def api_redisKey_def session_key_def
      epr_index_def api_index_def starts_with_def)

lemma readonly_rules_find [simp]: "readonly (rulesRepository_findByEndpointKey E k)"
  by (simp add: rulesRepository_findByEndpointKey_def)

lemma readonly_keys_find [simp]: "readonly (apiKeysRepository_findByFingerprint E k)"
  by (simp add: apiKeysRepository_findByFingerprint_def)

lemma keeps_getPermissionsForEndpoint:
  assumes "redis_laws (redis_api E) view up"
  shows "keeps (outside view epr_keys) (getPermissionsForEndpoint E k)"
  unfolding getPermissionsForEndpoint_def epr_from_redis_def epr_from_db_def epr_store_def
  by (intro keeps_rules keeps_readonly [of "raw_get E _"] keeps_readonly [of "rulesRepository_findByEndpointKey E _"]
      keeps_outside_write [OF assms]) simp_all

lemma keeps_findActiveByPlainKey:
  assumes "redis_laws (redis_api E) view up"
  shows "keeps (outside view api_keys) (findActiveByPlainKey E k)"
  unfolding findActiveByPlainKey_def findActiveByFingerprint_def api_from_redis_def api_from_db_def api_backfill_def
    computeHmac_def api_store_commands_def
  by (intro keeps_rules keeps_readonly [of "raw_get E _"] keeps_readonly [of "apiKeysRepository_findByFingerprint E _"]
      keeps_outside_exec [OF assms]) auto

text \<open>The observations the guards depend on survive such a lookup.\<close>

lemma outside_sess:
  "outside view P w' = outside view P w \<Longrightarrow> (\<And>sid. \<not> P (session_key sid)) \<Longrightarrow>
   sess view w' sid = sess view w sid"
  unfolding session_at_def by (simp add: outside_val)

lemma outside_sessions_wf:
  "outside view P w' = outside view P w \<Longrightarrow> (\<And>sid. \<not> P (session_key sid)) \<Longrightarrow>
   sessions_wf (view (w_redis w')) = sessions_wf (view (w_redis w))"
  unfolding sessions_wf_def by (simp add: outside_val)

lemma outside_epr_cached:
  "outside view P w' = outside view P w \<Longrightarrow> (\<And>k. \<not> P (epr_redisKey k)) \<Longrightarrow>
   epr_cached (E, view, up, T) w' = epr_cached (E, view, up, T) w"
  by (rule ext) (simp add: epr_cached_def outside_val)

section \<open>The decision of the guards\<close>

text \<open>Redis answers and holds only sessions under the session keys, and the cached rules are
  those of the database.\<close>

definition guard_ready ::
  "('r, 'd, 'q) env \<Rightarrow> ('r \<Rightarrow> redis_view) \<Rightarrow> ('r \<Rightarrow> bool) \<Rightarrow> ('d, epr) table \<Rightarrow> ('r, 'd, 'q) world \<Rightarrow> bool" where
  "guard_ready E view up T w \<longleftrightarrow> epr_ready (E, view, up, T) w \<and> epr_cache.coherent (E, view, up, T) w \<and>
     sessions_wf (view (w_redis w))"

lemma guard_readyD:
  assumes "guard_ready E view up T w"
  shows "epr_ready (E, view, up, T) w" "epr_cache.coherent (E, view, up, T) w" "session_ready E view up w"
    "redis_laws (redis_api E) view up"
  using assms epr_readyD(1,4) [of E view up T w] by (auto simp: guard_ready_def session_ready_def)

text \<open>The world \<open>dt\<close> milliseconds later, when nothing has happened in between: the clock has moved,
  Redis has aged, the database is the same.\<close>

definition later ::
  "('r \<Rightarrow> redis_view) \<Rightarrow> ('r \<Rightarrow> bool) \<Rightarrow> int \<Rightarrow> ('r, 'd, 'q) world \<Rightarrow> ('r, 'd, 'q) world \<Rightarrow> bool" where
  "later view up dt w w' \<longleftrightarrow> 0 \<le> dt \<and> w_now w' = w_now w + dt \<and> w_db w' = w_db w \<and>
     elapsed dt (view (w_redis w)) (view (w_redis w')) \<and> up (w_redis w')"

lemma guard_ready_later:
  assumes "guard_ready E view up T w" "later view up dt w w'"
  shows "guard_ready E view up T w'"
proof -
  have l: "w_db w' = w_db w" "elapsed dt (view (w_redis w)) (view (w_redis w'))" "up (w_redis w')"
    using assms(2) by (simp_all add: later_def)
  have "sessions_wf (view (w_redis w'))"
    using assms(1) unfolding guard_ready_def sessions_wf_def by (blast dest: elapsed_val_le [OF l(2)])
  moreover have "epr_cached (E, view, up, T) w k = Some cs" if "epr_cached (E, view, up, T) w' k = Some cs" for k cs
    using that elapsed_val_le [OF l(2)] by (auto simp: epr_cached_def split: option.splits doc.splits)
  moreover have "epr_stored (E, view, up, T) w' = epr_stored (E, view, up, T) w"
    by (intro ext) (simp add: epr_stored_def l(1))
  ultimately show ?thesis
    using assms(1) l(1,3) by (simp add: guard_ready_def epr_ready_def epr_cache.coherent_def)
qed

lemma later_sess:
  assumes "later view up dt w w'"
  shows "sess view w' sid = (case ttl (view (w_redis w)) (session_key sid) of
      Some t \<Rightarrow> if t \<le> dt then None else sess view w sid | None \<Rightarrow> sess view w sid)"
proof -
  have "elapsed dt (view (w_redis w)) (view (w_redis w'))" using assms by (simp add: later_def)
  from elapsed_val [OF this, of "session_key sid"] show ?thesis
    unfolding session_at_def by (simp split: option.split)
qed

text \<open>The rule of an endpoint, as the database has it: a route without a key is open, one with a
  key needs an enabled rule that admits the permissions of the caller.\<close>

definition endpoint_open :: "('d, epr) table \<Rightarrow> 'd \<Rightarrow> string option \<Rightarrow> string list \<Rightarrow> bool" where
  "endpoint_open T d endpointKey permissions \<longleftrightarrow> endpointKey = None \<or> endpointKey = Some '''' \<or>
     (\<exists>rule \<in> rows T d. Some (e_endpoint_key_name rule) = endpointKey \<and> e_enabled rule \<and>
        admits (epr_permissionCodes rule) permissions)"

text \<open>The session a token opens: the token verifies and names an active session of its address.\<close>

definition live_session ::
  "('r, 'd, 'q) env \<Rightarrow> ('r \<Rightarrow> redis_view) \<Rightarrow> ('r, 'd, 'q) world \<Rightarrow> string \<Rightarrow> (session \<times> string) option" where
  "live_session E view w token =
     (case payload_of E token AuthToken (w_now w) of
        Inl e \<Rightarrow> None
      | Inr p \<Rightarrow> (case sess view w (session_id_of p token) of
            None \<Rightarrow> None
          | Some s \<Rightarrow> if s_active s \<and> Some (s_email s) = pl_email p then Some (s, session_id_of p token) else None))"

lemma check_dynamic_run:
  assumes "guard_ready E view up T w"
  shows "\<exists>w'. guard_ready E view up T w' \<and> outside view epr_keys w' = outside view epr_keys w \<and>
    (if endpoint_open T (w_db w) endpointKey permissions
     then check_dynamic_permissions E endpointKey permissions message w = (Inr (), w')
     else \<exists>e. check_dynamic_permissions E endpointKey permissions message w = (Inl e, w'))"
proof (cases "endpointKey = None \<or> endpointKey = Some ''''")
  case True
  then show ?thesis
    using assms by (intro exI [where x = w]) (auto simp: endpoint_open_def check_dynamic_permissions_def returnE_def)
next
  case False
  then obtain key where key: "endpointKey = Some key" "key \<noteq> ''''" by auto
  let ?env = "(E, view, up, T)"
  let ?denied = "insufficient message"
  have run: "check_dynamic_permissions E endpointKey permissions message w =
      gate (getPermissionsForEndpoint (fst ?env)) key permissions ?denied w"
    using key by (simp add: check_dynamic_permissions_def)
  have keep: "keeps (outside view epr_keys) (gate (getPermissionsForEndpoint E) key permissions ?denied)"
    unfolding gate_def by (intro keeps_rules keeps_getPermissionsForEndpoint [OF guard_readyD(4) [OF assms]])
  have same: "outside view epr_keys (snd (check_dynamic_permissions E endpointKey permissions message w)) =
      outside view epr_keys w"
    using keep run by (simp add: keeps_def)
  have "open": "endpoint_open T (w_db w) endpointKey permissions \<longleftrightarrow>
      (\<exists>cs. epr_stored ?env w key cs \<and> admits cs permissions)"
    using key by (auto simp: endpoint_open_def epr_stored_def)
  have wf: "sessions_wf (view (w_redis w)) \<Longrightarrow> outside view epr_keys w' = outside view epr_keys w \<Longrightarrow>
      sessions_wf (view (w_redis w'))" for w'
    using outside_sessions_wf [of view epr_keys w' w] by simp
  show ?thesis
  proof (cases rule: epr_cache.gate_cases [OF guard_readyD(1,2) [OF assms], of key permissions ?denied])
    case (1 cs w')
    then have w': "check_dynamic_permissions E endpointKey permissions message w =
        (if admits cs permissions then Inr () else Inl ?denied, w')" using run by simp
    moreover have o': "outside view epr_keys w' = outside view epr_keys w" using same w' by simp
    moreover have "guard_ready E view up T w'"
      using 1(2,3) wf [OF _ o'] assms by (simp add: guard_ready_def)
    moreover have "endpoint_open T (w_db w) endpointKey permissions \<longleftrightarrow> admits cs permissions"
      using "open" 1(1) epr_stored_unique [OF guard_readyD(1) [OF assms]] by blast
    ultimately show ?thesis by (intro exI [where x = w']) auto
  next
    case (2 e)
    then show ?thesis using run "open" assms by (intro exI [where x = w]) auto
  qed
qed

text \<open>Running on a part of the state.\<close>

lemma on_world_run: "on_world m (w, r) = (case m w of (x, w') \<Rightarrow> (x, w', r))"
  by (simp add: on_world_def zoomE_def split: prod.splits)

lemma set_request_user_run:
  "set_request_user u (w, r) =
     (if rs_store r = None then (Inl (JsError ''Error'' ''RequestContext not initialized'' None None), w, r\<lparr>rs_user := Some u\<rparr>)
      else (Inr (), w, r\<lparr>rs_user := Some u, rs_store := Some (Some u)\<rparr>))"
  by (auto simp: set_request_user_def on_request_def zoomE_def setUser_def getContext_def thenE_def bindE_def getE_def
      throwE_def returnE_def split: option.splits)

lemma check_session_run:
  assumes "session_ready E view up w"
  shows "check_session E p token w =
    (case sess view w (session_id_of p token) of
       None \<Rightarrow> (Inl (auth_exception ''Session expired or invalid'' auth_error.SESSION_INVALID UNAUTHORIZED None), w)
     | Some s \<Rightarrow>
         if \<not> s_active s then
           (Inl (auth_exception ''This session is no longer active'' auth_error.SESSION_EXPIRED UNAUTHORIZED None), w)
         else if Some (s_email s) \<noteq> pl_email p then
           (Inl (auth_exception ''Token/Session mismatch'' auth_error.SESSION_TOKEN_MISMATCH UNAUTHORIZED None), w)
         else (Inr s, w))"
  by (simp add: check_session_def bindE_def readS [OF assms] throwE_def returnE_def split: option.splits)

text \<open>Verifying a token and its session, as both guards do it.\<close>

lemma token_session_run:
  assumes "session_ready E view up w"
  shows "live_session E view w token = Some (s, sid) \<Longrightarrow>
      \<exists>p. payload_of E token AuthToken (w_now w) = Inr p \<and> session_id_of p token = sid \<and>
        check_session E p token w = (Inr s, w)"
    and "live_session E view w token = None \<Longrightarrow>
      (\<exists>e. payload_of E token AuthToken (w_now w) = Inl e) \<or>
      (\<exists>p e. payload_of E token AuthToken (w_now w) = Inr p \<and> check_session E p token w = (Inl e, w))"
  by (auto simp: live_session_def check_session_run [OF assms] split: sum.splits option.splits if_splits)

end
