(* ===== verification/GuardProperties.thy ===== *)
theory GuardProperties imports GuardFrames SessionProperties EprProperties ApiKeyProperties begin

text \<open>
  Whom the guards admit, stated against the database and the sessions, with the in-memory
  container as the concrete instance.
\<close>

section \<open>AuthGuard\<close>

lemma authGuard_run:
  assumes "guard_ready E view up T w" "rs_store r \<noteq> None"
    and "extractToken req = Some token" "token \<noteq> ''''"
  shows "live_session E view w token = Some (s, sid) \<Longrightarrow> sameSubnetCheck (s_ip s) (getClientIp req) \<Longrightarrow>
      endpoint_open T (w_db w) key (s_permissions s) \<Longrightarrow>
      \<exists>w'. authGuard E key req (w, r) = (Inr True, w', r\<lparr>rs_user := Some (auth_user_of s sid),
          rs_store := Some (Some (auth_user_of s sid))\<rparr>) \<and>
        guard_ready E view up T w' \<and> outside view epr_keys w' = outside view epr_keys w"
    and "live_session E view w token = None \<or> (\<exists>s sid. live_session E view w token = Some (s, sid) \<and>
        (\<not> sameSubnetCheck (s_ip s) (getClientIp req) \<or> \<not> endpoint_open T (w_db w) key (s_permissions s))) \<Longrightarrow>
      \<exists>e. fst (authGuard E key req (w, r)) = Inl e"
proof -
  note ready = guard_readyD(3) [OF assms(1)]
  obtain y where y: "rs_store r = Some y" using assms(2) by blast
  have unfold: "authGuard E key req (w, r) =
      bindE (on_world (getPayload E token AuthToken)) (\<lambda>payload.
      bindE (on_world (check_session E payload token)) (\<lambda>session.
      if \<not> sameSubnetCheck (s_ip session) (getClientIp req) then
        throwE (auth_exception ''Session IP mismatch'' auth_error.SESSION_IP_MISMATCH UNAUTHORIZED None)
      else
        thenE (set_request_user (auth_user_of session (session_id_of payload token)))
        (thenE (on_world (check_dynamic_permissions E key (s_permissions session) ''Insufficient permissions''))
        (returnE True)))) (w, r)"
    using assms(3,4) by (simp add: authGuard_def)
  have dynamic: "thenE (set_request_user u) (thenE (on_world (check_dynamic_permissions E key ps m)) (returnE True)) (w, r) =
      (case check_dynamic_permissions E key ps m w of
         (Inl e, w') \<Rightarrow> (Inl e, w', r\<lparr>rs_user := Some u, rs_store := Some (Some u)\<rparr>)
       | (Inr x, w') \<Rightarrow> (Inr True, w', r\<lparr>rs_user := Some u, rs_store := Some (Some u)\<rparr>))" for u ps m
    by (simp add: y thenE_def bindE_def set_request_user_run on_world_run returnE_def
        split: prod.splits sum.splits)
  {
    fix s sid assume live: "live_session E view w token = Some (s, sid)"
    then obtain p where p: "payload_of E token AuthToken (w_now w) = Inr p" "session_id_of p token = sid"
      "check_session E p token w = (Inr s, w)" using token_session_run(1) [OF ready] by blast
    have "authGuard E key req (w, r) = (if \<not> sameSubnetCheck (s_ip s) (getClientIp req) then
        (Inl (auth_exception ''Session IP mismatch'' auth_error.SESSION_IP_MISMATCH UNAUTHORIZED None), w, r)
      else (case check_dynamic_permissions E key (s_permissions s) ''Insufficient permissions'' w of
         (Inl e, w') \<Rightarrow> (Inl e, w', r\<lparr>rs_user := Some (auth_user_of s sid), rs_store := Some (Some (auth_user_of s sid))\<rparr>)
       | (Inr x, w') \<Rightarrow> (Inr True, w', r\<lparr>rs_user := Some (auth_user_of s sid), rs_store := Some (Some (auth_user_of s sid))\<rparr>)))"
      unfolding unfold by (simp add: bindE_def on_world_run getPayload_run p dynamic throwE_def)
  } note live = this
  note dyn = check_dynamic_run [OF assms(1), of key _ "''Insufficient permissions''"]
  show "live_session E view w token = Some (s, sid) \<Longrightarrow> sameSubnetCheck (s_ip s) (getClientIp req) \<Longrightarrow>
      endpoint_open T (w_db w) key (s_permissions s) \<Longrightarrow>
      \<exists>w'. authGuard E key req (w, r) = (Inr True, w', r\<lparr>rs_user := Some (auth_user_of s sid),
          rs_store := Some (Some (auth_user_of s sid))\<rparr>) \<and>
        guard_ready E view up T w' \<and> outside view epr_keys w' = outside view epr_keys w"
    using live dyn [of "s_permissions s"] by auto
  assume "live_session E view w token = None \<or> (\<exists>s sid. live_session E view w token = Some (s, sid) \<and>
        (\<not> sameSubnetCheck (s_ip s) (getClientIp req) \<or> \<not> endpoint_open T (w_db w) key (s_permissions s)))"
  then show "\<exists>e. fst (authGuard E key req (w, r)) = Inl e"
  proof (elim disjE exE conjE)
    assume "live_session E view w token = None"
    from token_session_run(2) [OF ready this] show ?thesis
      unfolding unfold by (auto simp: bindE_def on_world_run getPayload_run)
  next
    fix s sid assume "live_session E view w token = Some (s, sid)" "\<not> sameSubnetCheck (s_ip s) (getClientIp req)"
    then show ?thesis by (simp add: live)
  next
    fix s sid assume s: "live_session E view w token = Some (s, sid)" "\<not> endpoint_open T (w_db w) key (s_permissions s)"
    from dyn [of "s_permissions s"] s(2) obtain e w' where
      "check_dynamic_permissions E key (s_permissions s) ''Insufficient permissions'' w = (Inl e, w')" by auto
    then show ?thesis by (simp add: live [OF s(1)])
  qed
qed

text \<open>C17. Whom \<open>AuthGuard\<close> admits: while Redis and the database answer, the rule cache is coherent
  and the request has a context, a request passes as the user \<open>u\<close> exactly when its cookie holds
  an access token that verifies and names an active session of the token's address, the request
  comes from the /24 network the session was opened from, and the endpoint is open to the
  permissions of the session: it has no key, or its rule in the database is enabled and lists
  no permission or one of the session's. The request and the context then carry that user, and
  neither the database nor any session has changed.\<close>

theorem authGuard_admits:
  assumes "guard_ready E view up T w" "rs_store r \<noteq> None"
  shows "(\<exists>w' r'. authGuard E key req (w, r) = (Inr True, w', r') \<and> rs_user r' = Some u \<and>
      rs_store r' = Some (Some u) \<and> w_db w' = w_db w \<and> (\<forall>sid. sess view w' sid = sess view w sid)) \<longleftrightarrow>
    (\<exists>token s sid. extractToken req = Some token \<and> token \<noteq> '''' \<and>
      live_session E view w token = Some (s, sid) \<and> sameSubnetCheck (s_ip s) (getClientIp req) \<and>
      endpoint_open T (w_db w) key (s_permissions s) \<and> u = auth_user_of s sid)"
    (is "?passes \<longleftrightarrow> ?admitted")
proof
  assume ?admitted
  then obtain token s sid where h: "extractToken req = Some token" "token \<noteq> ''''"
    "live_session E view w token = Some (s, sid)" "sameSubnetCheck (s_ip s) (getClientIp req)"
    "endpoint_open T (w_db w) key (s_permissions s)" "u = auth_user_of s sid" by blast
  from authGuard_run(1) [OF assms h(1-5)] obtain w' where
    "authGuard E key req (w, r) = (Inr True, w', r\<lparr>rs_user := Some u, rs_store := Some (Some u)\<rparr>)"
    "outside view epr_keys w' = outside view epr_keys w" using h(6) by blast
  moreover from this(2) have "w_db w' = w_db w" "sess view w' sid = sess view w sid" for sid
    using outside_eqD(3) [of view epr_keys w' w] outside_sess [of view epr_keys w' w] by simp_all
  ultimately show ?passes
    by (intro exI [where x = w'] exI [where x = "r\<lparr>rs_user := Some u, rs_store := Some (Some u)\<rparr>"]) simp
next
  assume ?passes
  then obtain w' r' where run: "authGuard E key req (w, r) = (Inr True, w', r')" "rs_user r' = Some u" by blast
  then obtain token where token: "extractToken req = Some token" "token \<noteq> ''''"
    by (auto simp: authGuard_def throwE_def split: option.splits if_splits)
  have "\<not> (live_session E view w token = None \<or> (\<exists>s sid. live_session E view w token = Some (s, sid) \<and>
      (\<not> sameSubnetCheck (s_ip s) (getClientIp req) \<or> \<not> endpoint_open T (w_db w) key (s_permissions s))))"
  proof
    assume "live_session E view w token = None \<or> (\<exists>s sid. live_session E view w token = Some (s, sid) \<and>
      (\<not> sameSubnetCheck (s_ip s) (getClientIp req) \<or> \<not> endpoint_open T (w_db w) key (s_permissions s)))"
    from authGuard_run(2) [OF assms token this] run(1) show False by simp
  qed
  then obtain s sid where
    ok: "live_session E view w token = Some (s, sid)" "sameSubnetCheck (s_ip s) (getClientIp req)"
    "endpoint_open T (w_db w) key (s_permissions s)" by (cases "live_session E view w token") auto
  from authGuard_run(1) [OF assms token ok] run have "u = auth_user_of s sid" by auto
  with token ok show ?admitted by blast
qed

definition request_ana :: request where
  "request_ana = \<lparr>rq_headers = (\<lambda>h. if h = ''x-api-key'' then Some (Single '' secret'')
       else if h = ''authorization'' then Some (Single (''Bearer '' @ access_ana)) else None),
     rq_cookies = [''auth_token'' \<mapsto> access_ana], rq_ip = Some ''10.0.0.9'', rq_remoteAddress = None\<rparr>"

definition fresh_request :: request_state where
  "fresh_request = \<lparr>rs_user = None, rs_store = Some None\<rparr>"

lemma world0_guard_ready: "guard_ready mem_env mem_view m_up mem_rules world0"
  using world0_epr_ready world0_epr_coherent world0_session_ready
  by (simp add: guard_ready_def session_ready_def)

lemma access_ana_token: "access_ana \<noteq> ''''" "extractToken request_ana = Some access_ana"
proof -
  have "pad s @ t \<noteq> []" for s t by (cases s) auto
  then show "access_ana \<noteq> ''''" by (simp add: access_ana_def mem_token_def)
qed (simp add: extractToken_def request_ana_def)

lemma access_ana_live: "live_session mem_env mem_view world0 access_ana = Some (session_ana, ''s1'')"
  by (simp add: live_session_def world0_now access_ana_payload signed_claims_def session_id_of_def world0_session)
    (simp add: session_ana_def)

lemma request_ana_subnet: "sameSubnetCheck (s_ip session_ana) (getClientIp request_ana)"
proof -
  have "getClientIp request_ana = ''10.0.0.9''"
    by (simp add: getClientIp_def forwarded_for_def request_ana_def or_else_def Let_def starts_with_def)
  moreover have "sameSubnetCheck ''10.0.0.1'' ''10.0.0.9''" by code_simp
  ultimately show ?thesis by (simp add: session_ana_def)
qed

lemma users_find_open: "endpoint_open mem_rules (w_db world0) (Some ''users.find'') (s_permissions session_ana)"
  by (auto simp: endpoint_open_def mem_tables world0_defs admits_def epr_permissionCodes_def)

theorem authGuard_admits_witness:
  "\<exists>w' r'. authGuard mem_env (Some ''users.find'') request_ana (world0, fresh_request) = (Inr True, w', r') \<and>
     rs_user r' = Some (auth_user_of session_ana ''s1'')"
proof -
  have "rs_store fresh_request \<noteq> None" by (simp add: fresh_request_def)
  from authGuard_admits [OF world0_guard_ready this, of "Some ''users.find''" request_ana "auth_user_of session_ana ''s1''",
      THEN iffD2] access_ana_token access_ana_live request_ana_subnet users_find_open
  show ?thesis by blast
qed

section \<open>ApiKeyGuard and MicroserviceGuard\<close>

text \<open>The permission codes of the active API key that a request presents.\<close>

definition presents_key ::
  "('r, 'd, 'q) env \<Rightarrow> ('d, api_key) table \<Rightarrow> 'd \<Rightarrow> request \<Rightarrow> string list \<Rightarrow> bool" where
  "presents_key E K d req codes \<longleftrightarrow>
     (\<exists>plain secret. \<exists>k \<in> rows K d. extractApiKey req = Inr plain \<and> config E ''HMAC_SECRET'' = Some secret \<and>
        k_key_fingerprint k = hmac_sha256 E secret plain \<and> k_active k \<and> codes = api_key_permissionCodes k)"

lemma guard_ready_outside:
  assumes "guard_ready E view up T w" "api_ready (E, view, up, K) w'" "outside view api_keys w' = outside view api_keys w"
  shows "guard_ready E view up T w'" "w_db w' = w_db w" "w_now w' = w_now w" "sess view w' sid = sess view w sid"
proof -
  show same: "w_db w' = w_db w" "w_now w' = w_now w" "sess view w' sid = sess view w sid"
    using outside_eqD(3,5) [OF assms(3)] outside_sess [OF assms(3)] by simp_all
  have cached: "epr_cached (E, view, up, T) w' = epr_cached (E, view, up, T) w"
    by (rule outside_epr_cached [OF assms(3)]) simp
  have stored: "epr_stored (E, view, up, T) w' = epr_stored (E, view, up, T) w"
    by (intro ext) (simp add: epr_stored_def same)
  have "epr_ready (E, view, up, T) w'"
    using assms(1) api_readyD(4) [OF assms(2)] by (simp add: guard_ready_def epr_ready_def same)
  moreover have "epr_cache.coherent (E, view, up, T) w'"
    using guard_readyD(2) [OF assms(1)] by (simp add: epr_cache.coherent_def cached stored)
  moreover have "sessions_wf (view (w_redis w'))"
    using assms(1) outside_sessions_wf [OF assms(3)] by (simp add: guard_ready_def)
  ultimately show "guard_ready E view up T w'" by (simp add: guard_ready_def)
qed

lemma presented_key_run:
  assumes "guard_ready E view up T w" "api_ready (E, view, up, K) w" "api_cache.coherent (E, view, up, K) w"
    and "extractApiKey req = Inr plain"
  shows "(\<exists>codes w'. presents_key E K (w_db w) req codes \<and> findActiveByPlainKey E plain w = (Inr codes, w') \<and>
      api_ready (E, view, up, K) w' \<and> outside view api_keys w' = outside view api_keys w) \<or>
    (\<exists>e. (\<forall>codes. \<not> presents_key E K (w_db w) req codes) \<and> findActiveByPlainKey E plain w = (Inl e, w))"
proof (cases "config E ''HMAC_SECRET''")
  case None
  then show ?thesis
    by (auto simp: presents_key_def findActiveByPlainKey_def computeHmac_def bindE_def throwE_def)
next
  case (Some secret)
  let ?fp = "hmac_sha256 E secret plain"
  have run: "findActiveByPlainKey E plain w = findActiveByFingerprint (fst (E, view, up, K)) ?fp w"
    using Some by (simp add: findActiveByPlainKey_def computeHmac_def bindE_def returnE_def)
  have presents: "presents_key E K (w_db w) req codes \<longleftrightarrow> api_stored (E, view, up, K) w ?fp codes" for codes
    using Some assms(4) by (auto simp: presents_key_def api_stored_def)
  have same: "outside view api_keys (snd (findActiveByPlainKey E plain w)) = outside view api_keys w"
    using keeps_findActiveByPlainKey [OF guard_readyD(4) [OF assms(1)], of plain] by (simp add: keeps_def)
  show ?thesis
  proof (cases rule: api_cache.lookup_cases [OF assms(2,3), of ?fp])
    case (1 cs w')
    then show ?thesis using run presents same by auto
  next
    case (2 e)
    then show ?thesis using run presents by auto
  qed
qed

lemma validateApiKey_run:
  assumes "guard_ready E view up T w" "api_ready (E, view, up, K) w" "api_cache.coherent (E, view, up, K) w"
  shows "(\<exists>codes. presents_key E K (w_db w) req codes \<and> endpoint_open T (w_db w) key codes) \<and>
      (\<exists>w'. validateApiKey E key req w = (Inr (), w') \<and> guard_ready E view up T w' \<and> w_db w' = w_db w \<and>
        w_now w' = w_now w \<and> (\<forall>sid. sess view w' sid = sess view w sid)) \<or>
    (\<forall>codes. presents_key E K (w_db w) req codes \<longrightarrow> \<not> endpoint_open T (w_db w) key codes) \<and>
      (\<exists>e w'. validateApiKey E key req w = (Inl e, w'))"
proof (cases "extractApiKey req")
  case (Inl e)
  then show ?thesis by (auto simp: presents_key_def validateApiKey_def bindE_def liftE_def)
next
  case (Inr plain)
  have unfold: "validateApiKey E key req w = bindE (findActiveByPlainKey E plain)
      (\<lambda>codes. check_dynamic_permissions E key codes ''Insufficient API Key permissions'') w"
    using Inr by (simp add: validateApiKey_def bindE_def liftE_def)
  have unique: "presents_key E K (w_db w) req c \<Longrightarrow> presents_key E K (w_db w) req c' \<Longrightarrow> c = c'" for c c'
    using api_readyD(8) [OF assms(2)] Inr by (clarsimp simp: presents_key_def) (metis inj_onD)
  from presented_key_run [OF assms Inr] show ?thesis
  proof (elim disjE exE conjE)
    fix codes w1 assume c: "presents_key E K (w_db w) req codes" "findActiveByPlainKey E plain w = (Inr codes, w1)"
      "api_ready (E, view, up, K) w1" "outside view api_keys w1 = outside view api_keys w"
    note r1 = guard_ready_outside [OF assms(1) c(3,4)]
    have run: "validateApiKey E key req w = check_dynamic_permissions E key codes ''Insufficient API Key permissions'' w1"
      unfolding unfold by (simp add: bindE_def c(2))
    from check_dynamic_run [OF r1(1), of key codes "''Insufficient API Key permissions''"] obtain w2 where
      2: "guard_ready E view up T w2" "outside view epr_keys w2 = outside view epr_keys w1"
      "if endpoint_open T (w_db w1) key codes
       then check_dynamic_permissions E key codes ''Insufficient API Key permissions'' w1 = (Inr (), w2)
       else \<exists>e. check_dynamic_permissions E key codes ''Insufficient API Key permissions'' w1 = (Inl e, w2)" by blast
    have same: "w_db w2 = w_db w" "w_now w2 = w_now w" "sess view w2 sid = sess view w sid" for sid
      using outside_eqD(3,5) [OF 2(2)] outside_sess [OF 2(2)] r1(2-4) by simp_all
    show ?thesis
    proof (cases "endpoint_open T (w_db w) key codes")
      case True
      then have "validateApiKey E key req w = (Inr (), w2)" using 2(3) run r1(2) by simp
      with True c(1) 2(1) same show ?thesis by blast
    next
      case False
      then have "\<exists>e. validateApiKey E key req w = (Inl e, w2)" using 2(3) run r1(2) by simp
      with False unique [OF c(1)] show ?thesis by blast
    qed
  next
    fix e assume "\<forall>codes. \<not> presents_key E K (w_db w) req codes" "findActiveByPlainKey E plain w = (Inl e, w)"
    then show ?thesis unfolding unfold by (auto simp: bindE_def)
  qed
qed

lemma apiKeyGuard_validates:
  "apiKeyGuard E key req (w, r) = (case validateApiKey E key req w of
     (Inl e, w') \<Rightarrow> (Inl e, w', r) | (Inr x, w') \<Rightarrow> (Inr True, w', r))"
  by (simp add: apiKeyGuard_def validateApiKey_def thenE_def bindE_def on_world_run returnE_def
      split: prod.splits sum.splits)

text \<open>Whom \<open>ApiKeyGuard\<close> admits: while Redis and the database answer and both caches are
  coherent, exactly the requests whose \<open>x-api-key\<close> header, trimmed, is the plain text of a key
  that the database keeps as active, on an endpoint that is open to the permissions of that
  key; a request that passes changes no request state, no row and no session.\<close>

lemma apiKeyGuard_admits:
  assumes "guard_ready E view up T w" "api_ready (E, view, up, K) w" "api_cache.coherent (E, view, up, K) w"
  shows "(\<exists>w'. apiKeyGuard E key req (w, r) = (Inr True, w', r) \<and> w_db w' = w_db w \<and>
      (\<forall>sid. sess view w' sid = sess view w sid)) \<longleftrightarrow>
    (\<exists>plain secret. \<exists>k \<in> rows K (w_db w). extractApiKey req = Inr plain \<and>
      config E ''HMAC_SECRET'' = Some secret \<and> k_key_fingerprint k = hmac_sha256 E secret plain \<and> k_active k \<and>
      endpoint_open T (w_db w) key (api_key_permissionCodes k))"
proof -
  have spec: "(\<exists>plain secret. \<exists>k \<in> rows K (w_db w). extractApiKey req = Inr plain \<and>
      config E ''HMAC_SECRET'' = Some secret \<and> k_key_fingerprint k = hmac_sha256 E secret plain \<and> k_active k \<and>
      endpoint_open T (w_db w) key (api_key_permissionCodes k)) \<longleftrightarrow>
    (\<exists>codes. presents_key E K (w_db w) req codes \<and> endpoint_open T (w_db w) key codes)"
    unfolding presents_key_def by blast
  from validateApiKey_run [OF assms, of req key] show ?thesis
    unfolding spec apiKeyGuard_validates by (elim disjE conjE exE) auto
qed

lemma apiKeyGuard_admits_example:
  "\<exists>w'. apiKeyGuard mem_env (Some ''users.find'') request_ana (world0, fresh_request) = (Inr True, w', fresh_request)"
proof -
  have "extractApiKey request_ana = Inr ''secret''"
  proof -
    have "trim '' secret'' = ''secret''" by code_simp
    then show ?thesis by (simp add: extractApiKey_def request_ana_def)
  qed
  moreover have "config mem_env ''HMAC_SECRET'' = Some ''HMAC_SECRET?''"
    "k_key_fingerprint key_active = hmac_sha256 mem_env ''HMAC_SECRET?'' ''secret''" "k_active key_active"
    "key_active \<in> rows mem_api_keys (w_db world0)"
    by (simp_all add: mem_env_def key_active_def mem_tables world0_defs)
  moreover have "endpoint_open mem_rules (w_db world0) (Some ''users.find'') (api_key_permissionCodes key_active)"
    by (auto simp: endpoint_open_def mem_tables world0_defs admits_def epr_permissionCodes_def api_key_permissionCodes_def)
  ultimately show ?thesis
    using apiKeyGuard_admits [OF world0_guard_ready world0_api_ready world0_api_coherent,
        of "Some ''users.find''" request_ana fresh_request, THEN iffD2] by blast
qed

lemma validateUserToken_run:
  assumes "session_ready E view up w" "rs_store r \<noteq> None" "extractBearer req = Inr token"
  shows "live_session E view w token = Some (s, sid) \<Longrightarrow>
      validateUserToken E req (w, r) = (Inr (), w, r\<lparr>rs_user := Some (auth_user_of s sid),
        rs_store := Some (Some (auth_user_of s sid))\<rparr>)"
    and "live_session E view w token = None \<Longrightarrow> \<exists>e. validateUserToken E req (w, r) = (Inl e, w, r)"
proof -
  obtain y where y: "rs_store r = Some y" using assms(2) by blast
  have unfold: "validateUserToken E req (w, r) =
     bindE (on_world (getPayload E token AuthToken)) (\<lambda>payload.
     bindE (on_world (check_session E payload token)) (\<lambda>session.
     set_request_user (auth_user_of session (session_id_of payload token)))) (w, r)"
    using assms(3) by (simp add: validateUserToken_def bindE_def liftE_def)
  show "live_session E view w token = Some (s, sid) \<Longrightarrow>
      validateUserToken E req (w, r) = (Inr (), w, r\<lparr>rs_user := Some (auth_user_of s sid),
        rs_store := Some (Some (auth_user_of s sid))\<rparr>)"
    unfolding unfold using token_session_run(1) [OF assms(1), of token s sid]
    by (auto simp: bindE_def on_world_run getPayload_run set_request_user_run y)
  show "live_session E view w token = None \<Longrightarrow> \<exists>e. validateUserToken E req (w, r) = (Inl e, w, r)"
    unfolding unfold using token_session_run(2) [OF assms(1), of token]
    by (auto simp: bindE_def on_world_run getPayload_run)
qed

lemma live_session_same:
  "w_now w' = w_now w \<Longrightarrow> (\<And>sid. sess view w' sid = sess view w sid) \<Longrightarrow>
   live_session E view w' token = live_session E view w token"
  by (simp add: live_session_def split: sum.split)

text \<open>Whom \<open>MicroserviceGuard\<close> admits: a call needs both the calling service's active API key,
  with permissions the endpoint is open to, and a bearer token that opens a live session; the
  user's own permissions and address are not asked for. The request then carries the user of
  the session.\<close>

lemma microserviceGuard_admits:
  assumes "guard_ready E view up T w" "api_ready (E, view, up, K) w" "api_cache.coherent (E, view, up, K) w"
    and "rs_store r \<noteq> None"
  shows "(\<exists>w' r'. microserviceGuard E key req (w, r) = (Inr True, w', r') \<and> rs_user r' = Some u \<and>
      rs_store r' = Some (Some u) \<and> w_db w' = w_db w) \<longleftrightarrow>
    (\<exists>codes. presents_key E K (w_db w) req codes \<and> endpoint_open T (w_db w) key codes) \<and>
    (\<exists>token s sid. extractBearer req = Inr token \<and> live_session E view w token = Some (s, sid) \<and>
      u = auth_user_of s sid)" (is "?passes \<longleftrightarrow> ?key \<and> ?user")
proof (cases ?key)
  case False
  then have "\<exists>e w'. validateApiKey E key req w = (Inl e, w')"
    using validateApiKey_run [OF assms(1-3), of req key] by blast
  then have "\<exists>e s. microserviceGuard E key req (w, r) = (Inl e, s)"
    by (auto simp: microserviceGuard_def thenE_def bindE_def on_world_run)
  with False show ?thesis by auto
next
  case True
  then obtain w' where w': "validateApiKey E key req w = (Inr (), w')" "guard_ready E view up T w'"
    "w_db w' = w_db w" "w_now w' = w_now w" "\<And>sid. sess view w' sid = sess view w sid"
    using validateApiKey_run [OF assms(1-3), of req key] by blast
  note live = live_session_same [where view = view and E = E, OF w'(4,5)]
  have run: "microserviceGuard E key req (w, r) =
      (case validateUserToken E req (w', r) of (Inl e, s) \<Rightarrow> (Inl e, s) | (Inr x, s) \<Rightarrow> (Inr True, s))"
    by (simp add: microserviceGuard_def thenE_def bindE_def on_world_run w'(1) returnE_def split: prod.splits sum.splits)
  show ?thesis
  proof (cases "extractBearer req")
    case (Inl e)
    then show ?thesis using True run by (auto simp: validateUserToken_def bindE_def liftE_def)
  next
    case (Inr token)
    note user = validateUserToken_run [OF guard_readyD(3) [OF w'(2)] assms(4) Inr]
    show ?thesis
    proof (cases "live_session E view w token")
      case None
      then have "\<exists>e. validateUserToken E req (w', r) = (Inl e, w', r)" by (intro user(2)) (simp add: live)
      then show ?thesis using run Inr None by auto
    next
      case (Some x)
      obtain s sid where x: "x = (s, sid)" by (cases x)
      have "validateUserToken E req (w', r) = (Inr (), w', r\<lparr>rs_user := Some (auth_user_of s sid),
          rs_store := Some (Some (auth_user_of s sid))\<rparr>)"
        by (rule user(1)) (simp add: live Some x)
      then show ?thesis using run Inr Some x True w'(3) by auto
    qed
  qed
qed

lemma access_ana_text: "access_ana = ''_a_n_a._s_1._J_W_T___A_U_T_H___S_E_C_R_E_T_?.000010000111''"
  by (simp add: access_ana_def mem_token_def mem_secrets bits.simps)

lemma request_ana_bearer: "extractBearer request_ana = Inr access_ana"
proof -
  have "extractBearer \<lparr>rq_headers = (\<lambda>h. if h = ''authorization''
      then Some (Single ''Bearer _a_n_a._s_1._J_W_T___A_U_T_H___S_E_C_R_E_T_?.000010000111'') else None),
      rq_cookies = (\<lambda>_. None), rq_ip = None, rq_remoteAddress = None\<rparr> =
    Inr ''_a_n_a._s_1._J_W_T___A_U_T_H___S_E_C_R_E_T_?.000010000111''" by code_simp
  then show ?thesis by (simp add: extractBearer_def request_ana_def access_ana_text)
qed

lemma request_ana_key: "extractApiKey request_ana = Inr ''secret''"
proof -
  have "trim '' secret'' = ''secret''" by code_simp
  then show ?thesis by (simp add: extractApiKey_def request_ana_def)
qed

lemma microserviceGuard_admits_example:
  "\<exists>w' r'. microserviceGuard mem_env (Some ''users.find'') request_ana (world0, fresh_request) = (Inr True, w', r') \<and>
     rs_user r' = Some (auth_user_of session_ana ''s1'')"
proof -
  have "presents_key mem_env mem_api_keys (w_db world0) request_ana [''USERS_READ'']"
    unfolding presents_key_def using request_ana_key
    by (intro exI [where x = "''secret''"] exI [where x = "''HMAC_SECRET?''"] bexI [where x = key_active])
      (simp_all add: mem_env_def key_active_def mem_tables world0_defs api_key_permissionCodes_def)
  moreover have "endpoint_open mem_rules (w_db world0) (Some ''users.find'') [''USERS_READ'']"
    using users_find_open by (simp add: session_ana_def)
  moreover have "rs_store fresh_request \<noteq> None" by (simp add: fresh_request_def)
  ultimately show ?thesis
    using microserviceGuard_admits [OF world0_guard_ready world0_api_ready world0_api_coherent,
        of fresh_request "Some ''users.find''" request_ana "auth_user_of session_ana ''s1''", THEN iffD2]
      request_ana_bearer access_ana_live by blast
qed

section \<open>Closed endpoints and ended sessions\<close>

text \<open>The guards fail closed: a route whose endpoint key has no enabled rule in the database
  admits nobody, whatever the token, the session, the API key or the cached permissions.\<close>

lemma guards_fail_closed:
  assumes "guard_ready E view up T w" "api_ready (E, view, up, K) w" "api_cache.coherent (E, view, up, K) w"
    and "key \<noteq> ''''" "\<forall>rule \<in> rows T (w_db w). e_endpoint_key_name rule = key \<longrightarrow> \<not> e_enabled rule"
    and "rs_store r \<noteq> None"
  shows "\<not> is_ok (fst (authGuard E (Some key) req (w, r))) \<and>
    \<not> is_ok (fst (apiKeyGuard E (Some key) req (w, r))) \<and>
    \<not> is_ok (fst (microserviceGuard E (Some key) req (w, r)))"
proof (intro conjI)
  have closed: "\<not> endpoint_open T (w_db w) (Some key) ps" for ps
    using assms(4,5) by (auto simp: endpoint_open_def)
  then obtain e w' where v: "validateApiKey E (Some key) req w = (Inl e, w')"
    using validateApiKey_run [OF assms(1-3), of req "Some key"] by blast
  then show "\<not> is_ok (fst (apiKeyGuard E (Some key) req (w, r)))"
    by (simp add: apiKeyGuard_validates)
  show "\<not> is_ok (fst (microserviceGuard E (Some key) req (w, r)))"
    by (simp add: microserviceGuard_def thenE_def bindE_def on_world_run v)
  show "\<not> is_ok (fst (authGuard E (Some key) req (w, r)))"
  proof (cases "\<exists>token. extractToken req = Some token \<and> token \<noteq> ''''")
    case True
    then obtain token where token: "extractToken req = Some token" "token \<noteq> ''''" by blast
    have "live_session E view w token = None \<or> (\<exists>s sid. live_session E view w token = Some (s, sid) \<and>
        (\<not> sameSubnetCheck (s_ip s) (getClientIp req) \<or> \<not> endpoint_open T (w_db w) (Some key) (s_permissions s)))"
      using closed by (cases "live_session E view w token") auto
    from authGuard_run(2) [OF assms(1,6) token this] show ?thesis by auto
  next
    case False
    then show ?thesis by (cases "extractToken req") (auto simp: authGuard_def throwE_def)
  qed
qed

lemma guards_fail_closed_example:
  "\<not> is_ok (fst (authGuard mem_env (Some ''users.off'') request_ana (world0, fresh_request)))"
  using guards_fail_closed [OF world0_guard_ready world0_api_ready world0_api_coherent,
      of "''users.off''" fresh_request request_ana]
  by (simp add: mem_tables world0_defs fresh_request_def)

lemma authGuard_ended:
  assumes "session_ready E view up w" "\<And>s. sess view w sid = Some s \<Longrightarrow> \<not> s_active s"
    and "payload_of E token AuthToken (w_now w) = Inr p" "session_id_of p token = sid"
  shows "\<exists>e. check_session E p token w = (Inl e, w) \<and> status_of e = Some UNAUTHORIZED \<and> is_http e"
    and "extractToken req = Some token \<Longrightarrow>
      \<exists>e. authGuard E key req (w, r) = (Inl e, w, r) \<and> status_of e = Some UNAUTHORIZED \<and> is_http e"
proof -
  show c: "\<exists>e. check_session E p token w = (Inl e, w) \<and> status_of e = Some UNAUTHORIZED \<and> is_http e"
    using check_session_run [OF assms(1), of p token] assms(2,4)
    by (cases "sess view w sid") (auto simp: auth_exception_def)
  assume t: "extractToken req = Some token"
  show "\<exists>e. authGuard E key req (w, r) = (Inl e, w, r) \<and> status_of e = Some UNAUTHORIZED \<and> is_http e"
  proof (cases "token = ''''")
    case True
    then show ?thesis using t by (simp add: authGuard_def throwE_def auth_exception_def)
  next
    case False
    from c obtain e where "check_session E p token w = (Inl e, w)" "status_of e = Some UNAUTHORIZED" "is_http e"
      by blast
    then show ?thesis using t False assms(3) by (simp add: authGuard_def bindE_def on_world_run getPayload_run)
  qed
qed

text \<open>An ended session opens nothing: after a session has been deactivated or logged out, every
  access token that names it is rejected with 401 by \<open>AuthGuard\<close> and, as a bearer token, by the
  user check of \<open>MicroserviceGuard\<close>, without any effect on the world.\<close>

lemma ended_sessions_are_rejected:
  assumes "session_ready E view up w"
    and "deactivateSession E sid w = (Inr message, w') \<or>
      au_session_id user = sid \<and> logOut E user w = (Inr message, w')"
    and "payload_of E token AuthToken (w_now w') = Inr p" "session_id_of p token = sid"
  shows "(extractToken req = Some token \<longrightarrow>
      (\<exists>e. authGuard E key req (w', r) = (Inl e, w', r) \<and> status_of e = Some UNAUTHORIZED)) \<and>
    (extractBearer req = Inr token \<longrightarrow>
      (\<exists>e. validateUserToken E req (w', r) = (Inl e, w', r) \<and> status_of e = Some UNAUTHORIZED))"
proof -
  have ended: "session_ready E view up w' \<and> (\<forall>s. sess view w' sid = Some s \<longrightarrow> \<not> s_active s)"
    using assms(2)
  proof
    assume d: "deactivateSession E sid w = (Inr message, w')"
    show ?thesis
    proof (cases "sess view w sid")
      case None
      then show ?thesis using deactivateSession_run(1) [OF assms(1) None] d assms(1) by auto
    next
      case (Some s)
      from deactivateSession_run(2) [OF assms(1) Some] d obtain r' where "w' = w\<lparr>w_redis := r'\<rparr>"
        "session_ready E view up w'"
        "view r' = exec_cmd (SET (session_key sid) (SessionDoc (s\<lparr>s_active := False\<rparr>)) KEEPTTL) (view (w_redis w))"
        by auto
      then show ?thesis by simp
    qed
  next
    assume l: "au_session_id user = sid \<and> logOut E user w = (Inr message, w')"
    from logOut_run [OF assms(1), of user] l obtain r' where "w' = w\<lparr>w_redis := r'\<rparr>" "session_ready E view up w'"
      "view r' = exec_all [DEL (session_key sid), SREM (user_index (au_id user)) sid] (view (w_redis w))" by auto
    then show ?thesis by simp
  qed
  then have ready: "session_ready E view up w'" and off: "\<And>s. sess view w' sid = Some s \<Longrightarrow> \<not> s_active s" by auto
  note ended' = authGuard_ended [OF ready off assms(3,4)]
  from ended'(1) obtain e where "check_session E p token w' = (Inl e, w')" "status_of e = Some UNAUTHORIZED" by blast
  then have "\<exists>e. validateUserToken E req (w', r) = (Inl e, w', r) \<and> status_of e = Some UNAUTHORIZED"
    if "extractBearer req = Inr token"
    using that assms(3) by (simp add: validateUserToken_def bindE_def liftE_def on_world_run getPayload_run)
  then show ?thesis using ended'(2) by blast
qed

lemma ended_sessions_are_rejected_example:
  "\<exists>w' e. deactivateSession mem_env ''s1'' world0 = (Inr ''Session deactivated'', w') \<and>
     authGuard mem_env (Some ''users.find'') request_ana (w', fresh_request) = (Inl e, w', fresh_request) \<and>
     status_of e = Some UNAUTHORIZED"
proof -
  obtain r' where run: "deactivateSession mem_env ''s1'' world0 = (Inr ''Session deactivated'', world0\<lparr>w_redis := r'\<rparr>)"
    using deactivateSession_run(2) [OF world0_session_ready world0_session] by auto
  have p: "payload_of mem_env access_ana AuthToken (w_now (world0\<lparr>w_redis := r'\<rparr>)) =
      Inr (signed_claims (''ana'', ''s1'') 3600)" by (simp add: world0_now access_ana_payload)
  have "session_id_of (signed_claims (''ana'', ''s1'') 3600) access_ana = ''s1''"
    by (simp add: session_id_of_def signed_claims_def)
  from ended_sessions_are_rejected [OF world0_session_ready disjI1 [OF run] p this, of request_ana "Some ''users.find''"
      fresh_request] access_ana_token(2) run show ?thesis by blast
qed

section \<open>From login to the guard\<close>

lemma login_keys [simp]: "epr_redisKey k \<noteq> session_key sid" "epr_redisKey k \<noteq> user_index uid"
  by (simp_all add: epr_redisKey_def session_key_def user_index_def)

lemma guard_ready_login:
  assumes "guard_ready E view up T w" "session_ready E view up (w\<lparr>w_redis := r'\<rparr>)"
    and "view r' = exec_all (login_commands E sid u req now t) (view (w_redis w))"
  shows "guard_ready E view up T (w\<lparr>w_redis := r'\<rparr>)"
proof -
  have "strs (view r') (epr_redisKey k) = strs (view (w_redis w)) (epr_redisKey k)" for k
    unfolding assms(3) by (rule conjunct1 [OF exec_all_other]) (simp add: login_commands_def)
  then have "epr_cached (E, view, up, T) (w\<lparr>w_redis := r'\<rparr>) = epr_cached (E, view, up, T) w"
    by (intro ext) (simp add: epr_cached_def val_def)
  with assms(1,2) show ?thesis
    by (simp add: guard_ready_def session_ready_def epr_ready_def epr_cache.coherent_def)
qed

text \<open>What a login leaves behind: the session with its time to live, readable by the guards.\<close>

lemma login_leaves:
  assumes "guard_ready E view up T w" "users_ready E U w" "jwt_laws E"
    and "getTtlFromEnv E ''JWT_REFRESH_EXPIRES_IN'' = Inr t"
    and "logIn E sid email password req w = (Inr tk, w1)"
  shows "guard_ready E view up T w1" "w_db w1 = w_db w" "w_now w1 = w_now w"
    "ttl (view (w_redis w1)) (session_key sid) = Some t"
    "token_ok E (email, sid) (token_secret E AuthToken) (token_expiresIn E AuthToken) (w_now w) (t_accessToken tk)"
    "\<exists>u \<in> rows U (w_db w). u_email u = email \<and> u_status u = ACTIVE \<and>
      sess view w1 sid = Some (new_session E (loadOriginalPassword u) req (w_now w))"
proof -
  from logIn_Inr [OF guard_readyD(3) [OF assms(1)] assms(2-5)] obtain u r' where
    u: "u \<in> rows U (w_db w)" "u_email u = email" "bcrypt_compare E password (u_password u)" "u_status u = ACTIVE"
    and w1: "w1 = w\<lparr>w_redis := r'\<rparr>" "session_ready E view up w1"
      "view r' = exec_all (login_commands E sid (loadOriginalPassword u) req (w_now w) t) (view (w_redis w))"
    and tok: "token_ok E (email, sid) (token_secret E AuthToken) (token_expiresIn E AuthToken) (w_now w) (t_accessToken tk)"
    and "token_ok E (email, sid) (token_secret E RefreshToken) (token_expiresIn E RefreshToken) (w_now w) (t_refreshToken tk)" .
  show "guard_ready E view up T w1" using guard_ready_login [OF assms(1) _ w1(3)] w1(1,2) by simp
  show "w_db w1 = w_db w" "w_now w1 = w_now w" using w1(1) by simp_all
  show "ttl (view (w_redis w1)) (session_key sid) = Some t" using login_view(2) [of view r', OF w1(3)] w1(1) by simp
  show "token_ok E (email, sid) (token_secret E AuthToken) (token_expiresIn E AuthToken) (w_now w) (t_accessToken tk)"
    by (rule tok)
  have "sess view w1 sid = Some (new_session E (loadOriginalPassword u) req (w_now w))"
    using login_view(1) [of view r', OF w1(3)] w1(1) by simp
  with u show "\<exists>u \<in> rows U (w_db w). u_email u = email \<and> u_status u = ACTIVE \<and>
      sess view w1 sid = Some (new_session E (loadOriginalPassword u) req (w_now w))" by blast
qed

text \<open>From login to the guarded route: the access token of a successful login passes
  \<open>AuthGuard\<close>, as the user that logged in, until the token expires, from any address of the
  network the login came from, on every endpoint that is open to the permission codes the
  user's roles give, in any world that has the session of the login and the same database.\<close>

lemma login_opens_guard:
  assumes "guard_ready E view up T w" "users_ready E U w" "jwt_laws E"
    and "getTtlFromEnv E ''JWT_REFRESH_EXPIRES_IN'' = Inr t"
    and "logIn E sid email password req w = (Inr tk, w1)" "email \<noteq> ''''" "sid \<noteq> ''''"
    and "w_now w2 div 1000 < token_exp E (token_expiresIn E AuthToken) (w_now w)"
      "0 < token_exp E (token_expiresIn E AuthToken) (w_now w)"
    and "extractToken req2 = Some (t_accessToken tk)" "sameSubnetCheck (getClientIp req) (getClientIp req2)"
    and "\<forall>u \<in> rows U (w_db w). u_email u = email \<longrightarrow> endpoint_open T (w_db w) key (user_permissionCodes u)"
    and "rs_store r \<noteq> None"
    and "guard_ready E view up T w2" "w_db w2 = w_db w" "sess view w2 sid = sess view w1 sid"
  shows "\<exists>u w' a. u \<in> rows U (w_db w) \<and> u_email u = email \<and> u_status u = ACTIVE \<and>
    a = \<lparr>au_id = u_id u, au_person_id = u_person_id u, au_email = email, au_session_id = sid\<rparr> \<and>
    authGuard E key req2 (w2, r) =
      (Inr True, w', r\<lparr>rs_user := Some a, rs_store := Some (Some a)\<rparr>) \<and> w_db w' = w_db w"
proof -
  note leaves = login_leaves [OF assms(1-5)]
  from leaves(6) obtain u where u: "u \<in> rows U (w_db w)" "u_email u = email" "u_status u = ACTIVE"
    "sess view w1 sid = Some (new_session E (loadOriginalPassword u) req (w_now w))" by blast
  let ?s = "new_session E (loadOriginalPassword u) req (w_now w)"
  have s: "sess view w2 sid = Some ?s" using assms(16) u(4) by simp
  have payload: "payload_of E (t_accessToken tk) AuthToken (w_now w2) =
      Inr (signed_claims (email, sid) (nat (token_exp E (token_expiresIn E AuthToken) (w_now w))))"
    by (rule token_payload [OF leaves(5) assms(6,7,8,9)])
  have fields: "s_active ?s" "s_email ?s = email" "s_ip ?s = getClientIp req"
    "s_permissions ?s = user_permissionCodes u" "s_user_id ?s = u_id u" "s_person_id ?s = u_person_id u"
    using u(2) by (simp_all add: new_session_def getRequestData_def)
  have live: "live_session E view w2 (t_accessToken tk) = Some (?s, sid)"
    using payload s fields(1,2) by (simp add: live_session_def signed_claims_def session_id_of_def)
  have "t_accessToken tk \<noteq> ''''" using leaves(5) by (simp add: token_ok_def)
  moreover have "sameSubnetCheck (s_ip ?s) (getClientIp req2)" using assms(11) fields(3) by simp
  moreover have "endpoint_open T (w_db w2) key (s_permissions ?s)" using assms(12,15) u(1,2) fields(4) by simp
  ultimately obtain w' where "authGuard E key req2 (w2, r) =
      (Inr True, w', r\<lparr>rs_user := Some (auth_user_of ?s sid), rs_store := Some (Some (auth_user_of ?s sid))\<rparr>)"
      "outside view epr_keys w' = outside view epr_keys w2"
    using authGuard_run(1) [OF assms(14,13,10) _ live] by blast
  moreover from this(2) have "w_db w' = w_db w" using outside_eqD(3) [of view epr_keys w' w2] assms(15) by simp
  moreover have "auth_user_of ?s sid =
      \<lparr>au_id = u_id u, au_person_id = u_person_id u, au_email = email, au_session_id = sid\<rparr>"
    using fields(2,5,6) by (simp add: auth_user_of_def)
  ultimately show ?thesis using u by (intro exI [where x = u]) auto
qed

text \<open>When the session is gone, the access token that named it is refused, though it verifies.\<close>

lemma login_expired_guard:
  assumes "guard_ready E view up T w" "users_ready E U w" "jwt_laws E"
    and "getTtlFromEnv E ''JWT_REFRESH_EXPIRES_IN'' = Inr t"
    and "logIn E sid email password req w = (Inr tk, w1)" "email \<noteq> ''''" "sid \<noteq> ''''"
    and "w_now w2 div 1000 < token_exp E (token_expiresIn E AuthToken) (w_now w)"
      "0 < token_exp E (token_expiresIn E AuthToken) (w_now w)"
    and "extractToken req2 = Some (t_accessToken tk)"
    and "guard_ready E view up T w2" "sess view w2 sid = None"
  shows "\<exists>e. authGuard E key req2 (w2, r) = (Inl e, w2, r) \<and> status_of e = Some UNAUTHORIZED \<and> is_http e"
proof -
  let ?p = "signed_claims (email, sid) (nat (token_exp E (token_expiresIn E AuthToken) (w_now w)))"
  have p: "payload_of E (t_accessToken tk) AuthToken (w_now w2) = Inr ?p"
    by (rule token_payload [OF login_leaves(5) [OF assms(1-5)] assms(6,7,8,9)])
  have "session_id_of ?p (t_accessToken tk) = sid" by (simp add: signed_claims_def session_id_of_def)
  from authGuard_ended(2) [OF guard_readyD(3) [OF assms(11)] _ p this assms(10)] assms(12) show ?thesis by simp
qed

lemma login_ana_run: "\<exists>tk w1. logIn mem_env ''s9'' ''ana'' ''pw'' request0 world0 = (Inr tk, w1)"
proof -
  have "wp (logIn mem_env ''s9'' ''ana'' ''pw'' request0) (\<lambda>_ _. True) (\<lambda>_ _. False) world0"
  proof -
    have "logIn mem_env ''s9'' ''ana'' ''pw'' request0 world0 =
        issue_session mem_env ''s9'' (loadOriginalPassword user_ana) request0 world0"
      using logIn_run(1) [OF world0_users_ready world0_ana(1,2), of "''s9''" "''pw''" request0] world0_ana(4)
      by (simp add: mem_env_def user_ana_def)
    moreover have "wp (issue_session mem_env ''s9'' (loadOriginalPassword user_ana) request0) (\<lambda>_ _. True) (\<lambda>_ _. False) world0"
      by (rule wp_issue_session [OF world0_session_ready mem_jwt_laws mem_ttl]) (simp_all add: world0_now mem_signing)
    ultimately show ?thesis by (simp add: wp_def)
  qed
  from wp_returns [OF this] show ?thesis by blast
qed

end
