(* ===== verification/ControllerProperties.thy ===== *)
theory ControllerProperties imports Controllers GuardProperties begin

text \<open>
  The endpoints as a whole: which requests reach which method, what an anonymous request
  obtains, the life of the cookies from login to logout, and what the replies disclose.
\<close>

section \<open>Dispatch\<close>

text \<open>Two patterns in lower case that some path matches: equally long and, at each place, equal
  unless one of them has a parameter there.\<close>

fun overlap :: "string list \<Rightarrow> string list \<Rightarrow> bool" where
  "overlap [] [] = True"
| "overlap (p # ps) (q # qs) = ((p = q \<or> starts_with p '':'' \<or> starts_with q '':'') \<and> overlap ps qs)"
| "overlap _ _ = False"

definition lower_literals :: "string list \<Rightarrow> bool" where
  "lower_literals ps \<longleftrightarrow> list_all (\<lambda>p. starts_with p '':'' \<or> toLowerCase p = p) ps"

lemma path_params_overlap:
  "path_params ps segs \<noteq> None \<Longrightarrow> path_params qs segs \<noteq> None \<Longrightarrow>
   lower_literals ps \<Longrightarrow> lower_literals qs \<Longrightarrow> overlap ps qs"
  by (induction ps segs arbitrary: qs rule: path_params.induct)
    (case_tac qs; auto simp: lower_literals_def split: if_splits)+

definition clash :: "endpoint \<Rightarrow> endpoint \<Rightarrow> bool" where
  "clash a b \<longleftrightarrow> ep_verb a = ep_verb b \<and> overlap (ep_path a) (ep_path b)"

fun apart :: "endpoint list \<Rightarrow> bool" where
  "apart [] = True"
| "apart (e # es) = (list_all (\<lambda>x. \<not> clash e x) es \<and> apart es)"

lemma endpoints_lower: "list_all (\<lambda>ep. lower_literals (ep_path ep)) endpoints"
  by (simp add: endpoints_def endpoint_defs lower_literals_def starts_with_def toLowerCase_def to_lower_def)

lemma endpoints_apart: "apart endpoints"
  by (simp add: endpoints_def endpoint_defs clash_def starts_with_def)

lemma apart_unique:
  "apart eps \<Longrightarrow> a \<in> set eps \<Longrightarrow> b \<in> set eps \<Longrightarrow> clash a b \<Longrightarrow> clash b a \<Longrightarrow> a = b"
  by (induction eps) (auto simp: list_all_iff)

text \<open>The endpoints do not shadow each other: whatever the verb and the path of a request, at most
  one endpoint of the service answers it, so the order in which the modules register their
  controllers does not matter (\<open>details\<close> and \<open>find/:id\<close>, \<open>all\<close> and \<open>:id\<close> included).\<close>

lemma dispatch_unambiguous:
  assumes "a \<in> set endpoints" "b \<in> set endpoints" "serves v segs a" "serves v segs b"
  shows "a = b"
proof (rule apart_unique [OF endpoints_apart assms(1,2)])
  have "lower_literals (ep_path a)" "lower_literals (ep_path b)"
    using endpoints_lower assms(1,2) by (auto simp: list_all_iff)
  then show "clash a b" "clash b a"
    using assms(3,4) path_params_overlap [of "ep_path a" segs "ep_path b"]
      path_params_overlap [of "ep_path b" segs "ep_path a"] by (auto simp: serves_def clash_def)
qed

lemma dispatch_unambiguous_example:
  "serves GET [''Permissions'', ''details''] ep_permissions_getDetails \<and>
   list_all (\<lambda>b. serves GET [''Permissions'', ''details''] b = (b = ep_permissions_getDetails)) endpoints"
proof -
  have s: "serves GET [''Permissions'', ''details''] ep_permissions_getDetails" by code_simp
  have "ep_permissions_getDetails \<in> set endpoints" by (simp add: endpoints_def)
  from dispatch_unambiguous [OF _ this _ s] s show ?thesis unfolding list_all_iff by blast
qed

section \<open>Anonymous requests\<close>

definition public_endpoints :: "endpoint list" where
  "public_endpoints = [ep_status, ep_users_firstActivation, ep_users_login, ep_users_refreshToken,
     ep_users_forgotPassword, ep_users_resetPassword]"

lemma unguarded_endpoints: "filter (\<lambda>ep. ep_guard ep = Unguarded) endpoints = public_endpoints"
  by (simp add: endpoints_def public_endpoints_def endpoint_defs)

lemma filter_status_auth: "filter_status (auth_exception m c st x) = st"
  by (simp add: filter_status_def auth_exception_def status_or_def)

lemma guard_denies_anonymous:
  assumes "ep_guard ep \<noteq> Unguarded" "rq_cookies req ''auth_token'' = None" "rq_headers req ''x-api-key'' = None"
  shows "\<exists>m c. run_guard E ep req (w, r) = (Inl (auth_exception m c UNAUTHORIZED None), w, r)"
proof -
  have key: "extractApiKey req =
      Inl (auth_exception ''API key header missing'' auth_error.API_KEY_HEADER_MISSING UNAUTHORIZED None)"
    by (simp add: extractApiKey_def assms)
  show ?thesis
  proof (cases "ep_guard ep")
    case Unguarded
    then show ?thesis using assms(1) by simp
  next
    case AuthGuard
    then show ?thesis by (auto simp: run_guard_def authGuard_def extractToken_def assms throwE_def)
  next
    case ApiKeyGuard
    then show ?thesis
      by (auto simp: run_guard_def apiKeyGuard_def key bindE_def on_world_run liftE_def)
  next
    case MicroserviceGuard
    then show ?thesis
      by (auto simp: run_guard_def microserviceGuard_def validateApiKey_def key thenE_def bindE_def on_world_run liftE_def)
  qed
qed

text \<open>C29. What needs no credentials: a request with neither the \<open>auth_token\<close> cookie nor an
  \<open>x-api-key\<close> header reaches only the status page, the first activation, login, refresh and the
  two steps of a password reset. On every other endpoint, whatever its method would do, the reply
  is a 401 of the exception filter, no cookie is set, and the database, Redis, the mail queue, the
  clock and the templates are exactly as before. No service outside has to answer for this.\<close>

theorem anonymous_requests_denied:
  assumes "ep \<in> set endpoints" "ep \<notin> set public_endpoints"
    and "rq_cookies req ''auth_token'' = None" "rq_headers req ''x-api-key'' = None"
  shows "\<exists>body. serve E ep url req m w = (\<lparr>re_status = 401, re_body = Failure body, re_cookies = []\<rparr>, w) \<and>
    er_statusCode body = 401 \<and> er_path body = url"
proof -
  have "ep_guard ep \<noteq> Unguarded"
  proof
    assume "ep_guard ep = Unguarded"
    with assms(1) have "ep \<in> set (filter (\<lambda>ep. ep_guard ep = Unguarded) endpoints)" by simp
    with assms(2) show False by (simp only: unguarded_endpoints)
  qed
  from guard_denies_anonymous [OF this assms(3,4)] obtain msg c where
    "run_guard E ep req (w, in_context) = (Inl (auth_exception msg c UNAUTHORIZED None), w, in_context)" by blast
  from serve_denied [OF this, of url m] show ?thesis
    by (simp add: failure_reply_def filter_status_auth catch_exception_def Let_def)
qed

definition request_anonymous :: request where
  "request_anonymous =
     \<lparr>rq_headers = (\<lambda>_. None), rq_cookies = (\<lambda>_. None), rq_ip = Some ''10.0.0.9'', rq_remoteAddress = None\<rparr>"

theorem anonymous_requests_denied_witness:
  "\<exists>body. serve mem_env ep_users_findAll ''/users/all'' request_anonymous
      (UsersController_findAll mem_env mem_serializer PaginationQueryDto) world0 =
    (\<lparr>re_status = 401, re_body = Failure body, re_cookies = []\<rparr>, world0)"
proof -
  have "ep_users_findAll \<in> set endpoints" "ep_users_findAll \<notin> set public_endpoints"
    by (simp add: endpoints_def) (simp add: public_endpoints_def endpoint_defs)
  moreover have "rq_cookies request_anonymous ''auth_token'' = None" "rq_headers request_anonymous ''x-api-key'' = None"
    by (simp_all add: request_anonymous_def)
  ultimately show ?thesis using anonymous_requests_denied by blast
qed

section \<open>What the listing of users discloses\<close>

lemma user_json_disclosed:
  assumes "serializer_laws S"
  shows "json_prop (user_json S (loadOriginalPassword u)) ''id'' = Some (JStr (u_id u))"
    and "json_prop (user_json S (loadOriginalPassword u)) ''password'' = None"
    and "json_prop (user_json S (loadOriginalPassword u)) ''originalPassword'' = Some (JStr (u_password u))"
  using assms
  by (auto simp: json_prop_def user_json_def user_props_def UserEntity_excluded_def serializer_laws_def
      relation_props_def split: option.splits)

text \<open>C32. The listing of users hands out the password hashes. \<open>UserEntity\<close> marks \<open>password\<close> with
  \<open>@Exclude()\<close>, but its \<open>AfterLoad\<close> hook copies the hash to the property \<open>originalPassword\<close>, which
  is not excluded: for every user \<open>u\<close> of the page, a caller whom the guard of \<open>GET /users/all\<close>
  admits receives an entry without \<open>password\<close> and with the bcrypt hash of \<open>u\<close> under
  \<open>originalPassword\<close>.\<close>

theorem listing_discloses_password_hash:
  assumes "serializer_laws S" "run_guard E ep_users_findAll req (w, in_context) = (Inr True, w', r')"
    and "users_listing (E, U) w'" "1 \<le> q_page q" "1 \<le> q_limit q"
    and "u \<in> set (take (nat (q_limit q)) (drop (nat ((q_page q - 1) * q_limit q)) (ordered_rows U user_order (w_db w'))))"
  shows "\<exists>body entries entry.
    serve E ep_users_findAll url req (UsersController_findAll E S q) w =
      (\<lparr>re_status = 200, re_body = Reply body, re_cookies = []\<rparr>, w') \<and>
    json_prop body ''data'' = Some (JArr entries) \<and> entry \<in> set entries \<and>
    json_prop entry ''id'' = Some (JStr (u_id u)) \<and> json_prop entry ''password'' = None \<and>
    json_prop entry ''originalPassword'' = Some (JStr (u_password u))"
proof -
  let ?page = "take (nat (q_limit q)) (drop (nat ((q_page q - 1) * q_limit q)) (ordered_rows U user_order (w_db w')))"
  let ?entries = "List.map (user_json S) (List.map loadOriginalPassword ?page)"
  obtain p where p: "users_findAll E q w' = (Inr p, w')" "pg_data p = List.map loadOriginalPassword ?page"
    using users_findAll_run [OF assms(3-5)] by (auto simp: PaginatedResponseDto_def)
  have "UsersController_findAll E S q ((w', []), r') = (Inr (paginated_json (user_json S) p), ((w', []), r'))"
    by (simp add: UsersController_findAll_def bindE_def services_run p(1) returnE_def)
  then have "serve E ep_users_findAll url req (UsersController_findAll E S q) w =
      (\<lparr>re_status = 200, re_body = Reply (paginated_json (user_json S) p), re_cookies = []\<rparr>, w')"
    using serve_admitted [OF assms(2)]
    by (simp add: send_reply_def success_status_def ep_users_findAll_def endpoint_def)
  moreover have "json_prop (paginated_json (user_json S) p) ''data'' = Some (JArr ?entries)"
    by (simp add: json_prop_def paginated_json_def p(2))
  moreover have "user_json S (loadOriginalPassword u) \<in> set ?entries" using assms(6) by auto
  ultimately show ?thesis using user_json_disclosed [OF assms(1)] by blast
qed

lemma world0_users_listing: "w_db w = db0 \<Longrightarrow> users_listing (mem_env, mem_users) w"
  using mem_env_laws(1) by (auto simp: users_listing_def listing_available_def mem_tables db0_def user_ana_def
      user_new_def user_order_def)

lemma ana_on_first_page:
  fixes w :: mem_world
  assumes "w_db w = db0"
  shows "user_ana \<in> set (take (nat 20) (drop (nat 0) (ordered_rows mem_users user_order (w_db w))))"
proof -
  have av: "listing_available (users_orm mem_env) mem_users user_order (w_db w)"
    using world0_users_listing [OF assms] by (simp add: users_listing_def)
  have rows: "rows mem_users (w_db w) = {user_ana, user_new}" using assms by (simp add: mem_tables db0_def)
  have "length (ordered_rows mem_users user_order (w_db w)) \<le> 2"
    using distinct_card [OF ordered_rows_listing(2) [OF av]] ordered_rows_listing(1) [OF av] rows
    by (simp add: card_insert_if split: if_splits)
  then show ?thesis using ordered_rows_listing(1) [OF av] rows by simp
qed

theorem listing_discloses_password_hash_witness:
  "\<exists>w' body entries entry.
    serve mem_env ep_users_findAll ''/users/all'' request_ana
      (UsersController_findAll mem_env mem_serializer PaginationQueryDto) world0 =
      (\<lparr>re_status = 200, re_body = Reply body, re_cookies = []\<rparr>, w') \<and>
    json_prop body ''data'' = Some (JArr entries) \<and> entry \<in> set entries \<and>
    json_prop entry ''originalPassword'' = Some (JStr ''hash:pw'')"
proof -
  have open': "endpoint_open mem_rules (w_db world0) (ep_key ep_users_findAll) (s_permissions session_ana)"
    using users_find_open by (simp add: ep_users_findAll_def endpoint_def)
  from authGuard_run(1) [OF world0_guard_ready in_context_store(1) access_ana_token(2,1) access_ana_live
      request_ana_subnet open'] obtain w' r' where
    g: "authGuard mem_env (ep_key ep_users_findAll) request_ana (world0, in_context) = (Inr True, w', r')"
    and o: "outside mem_view epr_keys w' = outside mem_view epr_keys world0" by blast
  from o have db: "w_db w' = db0" using outside_eqD(3) [of mem_view epr_keys w' world0] by (simp add: world0_def)
  have run: "run_guard mem_env ep_users_findAll request_ana (world0, in_context) = (Inr True, w', r')"
    using g by (simp add: run_guard_def ep_users_findAll_def endpoint_def)
  have q: "1 \<le> q_page PaginationQueryDto" "1 \<le> q_limit PaginationQueryDto"
    "user_ana \<in> set (take (nat (q_limit PaginationQueryDto)) (drop
      (nat ((q_page PaginationQueryDto - 1) * q_limit PaginationQueryDto)) (ordered_rows mem_users user_order (w_db w'))))"
    using ana_on_first_page [OF db] by (simp_all add: PaginationQueryDto_def)
  from listing_discloses_password_hash [OF mem_serializer_laws run world0_users_listing [OF db] q, of "''/users/all''"]
  show ?thesis by (auto simp: user_ana_def)
qed

section \<open>Cookies from login to logout\<close>

lemma token_cookies_run:
  "token_cookies E tk ((w, cs), r) =
   (case getAuthCookieOptions E of
      Inl e \<Rightarrow> (Inl e, ((w, cs), r))
    | Inr oa \<Rightarrow>
        (case getRefreshCookieOptions E of
           Inl e \<Rightarrow> (Inl e, ((w, cs @ [SetCookie ''auth_token'' (t_accessToken tk) oa]), r))
         | Inr ob \<Rightarrow> (Inr (), ((w, cs @ [SetCookie ''auth_token'' (t_accessToken tk) oa,
                                        SetCookie ''refresh_token'' (t_refreshToken tk) ob]), r))))"
  by (simp add: token_cookies_def bindE_def liftE_def thenE_def response_cookie_def split: sum.splits)

lemma cookie_options_safe:
  "getAuthCookieOptions E = Inr oa \<Longrightarrow> httpOnly oa \<and> sameSite oa = ''strict'' \<and> path oa = ''/''"
  "getRefreshCookieOptions E = Inr oa \<Longrightarrow>
     httpOnly oa \<and> sameSite oa = ''strict'' \<and> path oa = ''/users/refresh-token''"
  by (auto simp: getAuthCookieOptions_def getRefreshCookieOptions_def cookie_options_for_def split: sum.splits)

lemma login_reply:
  assumes "serve E ep_users_login url req (UsersController_logIn E sid email password req) w = (rep, w1)"
    and "re_body rep = Reply j"
  shows "\<exists>tk oa ob. logIn E sid email password req w = (Inr tk, w1) \<and> getAuthCookieOptions E = Inr oa \<and>
    getRefreshCookieOptions E = Inr ob \<and> re_status rep = 201 \<and>
    re_cookies rep = [SetCookie ''auth_token'' (t_accessToken tk) oa, SetCookie ''refresh_token'' (t_refreshToken tk) ob]"
proof -
  have "ep_guard ep_users_login = Unguarded" "ep_verb ep_users_login = POST"
    by (simp_all add: ep_users_login_def endpoint_def)
  with assms show ?thesis
    by (auto simp: serve_open send_reply_def UsersController_logIn_def bindE_def thenE_def services_run token_cookies_run
        returnE_def failure_reply_def success_status_def split: prod.splits sum.splits)
qed

definition path_text :: "string list \<Rightarrow> string" where
  "path_text segs = concat (List.map (\<lambda>s. ''/'' @ s) segs)"

lemma failure_reply_401:
  assumes "status_of e = Some UNAUTHORIZED" "is_http e"
  shows "\<exists>body. failure_reply E now url e cs = \<lparr>re_status = 401, re_body = Failure body, re_cookies = cs\<rparr>"
  using assms by (simp add: failure_reply_def filter_status_def status_or_def)

text \<open>What the cookie of a login gets at an endpoint in a world \<open>w2\<close>: the method is run as the user that
  logged in, in a world with the database of \<open>w\<close>, and its outcome is the reply; or a 401.\<close>

definition opened ::
  "('r, 'd, 'q) env \<Rightarrow> ('d, user) table \<Rightarrow> ('r, 'd, 'q) world \<Rightarrow> string \<Rightarrow> string \<Rightarrow> endpoint \<Rightarrow> request \<Rightarrow>
   ('r, 'd, 'q) world \<Rightarrow> bool" where
  "opened E U w email sid ep req2 w2 \<longleftrightarrow>
     (\<exists>u w3 a. u \<in> rows U (w_db w) \<and> u_email u = email \<and> u_status u = ACTIVE \<and> w_db w3 = w_db w \<and>
        a = \<lparr>au_id = u_id u, au_person_id = u_person_id u, au_email = email, au_session_id = sid\<rparr> \<and>
        (\<forall>url2 m. serve E ep url2 req2 m w2 =
           send_reply E ep url2 (m ((w3, []), \<lparr>rs_user = Some a, rs_store = Some (Some a)\<rparr>))))"

definition refused :: "('r, 'd, 'q) env \<Rightarrow> endpoint \<Rightarrow> request \<Rightarrow> ('r, 'd, 'q) world \<Rightarrow> bool" where
  "refused E ep req2 w2 \<longleftrightarrow>
     (\<forall>url2 m. \<exists>body. serve E ep url2 req2 m w2 = (\<lparr>re_status = 401, re_body = Failure body, re_cookies = []\<rparr>, w2))"

text \<open>C30. From login to any endpoint, while Redis and the database answer and the rule cache is coherent:
  a login for an address that is not empty, under a session identifier that is not empty, with tokens
  that expire after the epoch, if it answers with a body, answers 201 and sets exactly two cookies, both \<open>HttpOnly\<close> and
  \<open>SameSite=strict\<close>: \<open>auth_token\<close> for the whole site and \<open>refresh_token\<close> for the path of the
  refresh endpoint alone. Any time later, Redis having aged by it and nothing else having happened, as
  long as the access token has not expired: when less than \<open>JWT_REFRESH_EXPIRES_IN\<close> has passed, a
  request with that \<open>auth_token\<close>, from the network of the login, reaches the method of every
  \<open>AuthGuard\<close> endpoint that is open to the permission codes of the user's roles, the method runs as
  the user that logged in, on the database as it was, and its outcome is the reply; when that time has
  passed, the session is gone and every \<open>AuthGuard\<close> endpoint answers 401 without any effect,
  though the token still verifies.\<close>

theorem login_cookie_opens_endpoints:
  assumes "guard_ready E view up T w" "users_ready E U w" "jwt_laws E" "email \<noteq> ''''" "sid \<noteq> ''''"
    and "serve E ep_users_login url req (UsersController_logIn E sid email password req) w = (rep, w1)"
    and "re_body rep = Reply j" "0 < token_exp E (token_expiresIn E AuthToken) (w_now w)"
  shows "\<exists>access refresh oa ob t. re_status rep = 201 \<and>
    re_cookies rep = [SetCookie ''auth_token'' access oa, SetCookie ''refresh_token'' refresh ob] \<and>
    httpOnly oa \<and> httpOnly ob \<and> sameSite oa = ''strict'' \<and> sameSite ob = ''strict'' \<and> path oa = ''/'' \<and>
    path ob = path_text (ep_path ep_users_refreshToken) \<and>
    getTtlFromEnv E ''JWT_REFRESH_EXPIRES_IN'' = Inr t \<and>
    (\<forall>req2 ep dt w2. ep_guard ep = AuthGuard \<and> rq_cookies req2 ''auth_token'' = Some access \<and>
       later view up dt w1 w2 \<and> w_now w2 div 1000 < token_exp E (token_expiresIn E AuthToken) (w_now w) \<longrightarrow>
       (dt < t \<and> sameSubnetCheck (getClientIp req) (getClientIp req2) \<and>
          (\<forall>u \<in> rows U (w_db w). u_email u = email \<longrightarrow> endpoint_open T (w_db w) (ep_key ep) (user_permissionCodes u)) \<longrightarrow>
        opened E U w email sid ep req2 w2) \<and>
       (t \<le> dt \<longrightarrow> refused E ep req2 w2))"
proof -
  from login_reply [OF assms(6,7)] obtain tk oa ob where
    l: "logIn E sid email password req w = (Inr tk, w1)" "getAuthCookieOptions E = Inr oa"
      "getRefreshCookieOptions E = Inr ob" "re_status rep = 201"
      "re_cookies rep = [SetCookie ''auth_token'' (t_accessToken tk) oa, SetCookie ''refresh_token'' (t_refreshToken tk) ob]"
    by blast
  obtain t where ttl: "getTtlFromEnv E ''JWT_REFRESH_EXPIRES_IN'' = Inr t"
    using l(3) by (auto simp: getRefreshCookieOptions_def split: sum.splits)
  note leaves = login_leaves [OF assms(1-3) ttl l(1)]
  have world: "guard_ready E view up T w2" "w_db w2 = w_db w"
    "sess view w2 sid = (if t \<le> dt then None else sess view w1 sid)" if "later view up dt w1 w2" for dt w2
    using guard_ready_later [OF leaves(1) that] later_sess [OF that, of sid] that leaves(2,4)
    by (simp_all add: later_def)
  have token: "extractToken req2 = Some (t_accessToken tk)" if "rq_cookies req2 ''auth_token'' = Some (t_accessToken tk)"
    for req2 :: request using that by (simp add: extractToken_def)
  have opens: "opened E U w email sid ep req2 w2"
    if h: "ep_guard ep = AuthGuard" "rq_cookies req2 ''auth_token'' = Some (t_accessToken tk)" "later view up dt w1 w2"
      "w_now w2 div 1000 < token_exp E (token_expiresIn E AuthToken) (w_now w)" "dt < t"
      "sameSubnetCheck (getClientIp req) (getClientIp req2)"
      "\<forall>u \<in> rows U (w_db w). u_email u = email \<longrightarrow> endpoint_open T (w_db w) (ep_key ep) (user_permissionCodes u)"
    for req2 ep dt w2
  proof -
    have "sess view w2 sid = sess view w1 sid" using world(3) [OF h(3)] h(5) by simp
    from login_opens_guard [OF assms(1-3) ttl l(1) assms(4,5) h(4) assms(8) token [OF h(2)] h(6,7) in_context_store(1)
        world(1,2) [OF h(3)] this]
    obtain u w3 a where g: "u \<in> rows U (w_db w)" "u_email u = email" "u_status u = ACTIVE"
      "a = \<lparr>au_id = u_id u, au_person_id = u_person_id u, au_email = email, au_session_id = sid\<rparr>"
      "authGuard E (ep_key ep) req2 (w2, in_context) =
        (Inr True, w3, in_context\<lparr>rs_user := Some a, rs_store := Some (Some a)\<rparr>)" "w_db w3 = w_db w" by blast
    have "run_guard E ep req2 (w2, in_context) = (Inr True, w3, \<lparr>rs_user = Some a, rs_store = Some (Some a)\<rparr>)"
      using g(5) h(1) by (simp add: run_guard_def in_context_def)
    from serve_admitted [OF this] g show ?thesis unfolding opened_def by blast
  qed
  have closes: "refused E ep req2 w2"
    if h: "ep_guard ep = AuthGuard" "rq_cookies req2 ''auth_token'' = Some (t_accessToken tk)" "later view up dt w1 w2"
      "w_now w2 div 1000 < token_exp E (token_expiresIn E AuthToken) (w_now w)" "t \<le> dt"
    for req2 ep dt w2
  proof -
    have "sess view w2 sid = None" using world(3) [OF h(3)] h(5) by simp
    from login_expired_guard [OF assms(1-3) ttl l(1) assms(4,5) h(4) assms(8) token [OF h(2)] world(1) [OF h(3)] this]
    obtain e where e: "authGuard E (ep_key ep) req2 (w2, in_context) = (Inl e, w2, in_context)"
      "status_of e = Some UNAUTHORIZED" "is_http e" by blast
    have "run_guard E ep req2 (w2, in_context) = (Inl e, w2, in_context)"
      using e(1) h(1) by (simp add: run_guard_def)
    note denied = serve_denied [OF this]
    have "\<exists>body. failure_reply E (w_now w2) url2 e [] = \<lparr>re_status = 401, re_body = Failure body, re_cookies = []\<rparr>" for url2
      by (rule failure_reply_401 [OF e(2,3)])
    then show ?thesis unfolding refused_def denied by auto
  qed
  have p: "path_text (ep_path ep_users_refreshToken) = ''/users/refresh-token''"
    by (simp add: path_text_def ep_users_refreshToken_def endpoint_def)
  show ?thesis
    by (rule exI [where x = "t_accessToken tk"], rule exI [where x = "t_refreshToken tk"], rule exI [where x = oa],
        rule exI [where x = ob], rule exI [where x = t], intro conjI allI impI)
      (use l(4,5) cookie_options_safe(1) [OF l(2)] cookie_options_safe(2) [OF l(3)] p ttl opens closes in \<open>(simp; fail) | blast\<close>)+
qed

lemma mem_cookie_options: "\<exists>oa. getAuthCookieOptions mem_env = Inr oa" "\<exists>ob. getRefreshCookieOptions mem_env = Inr ob"
  by (simp_all add: getAuthCookieOptions_def getRefreshCookieOptions_def mem_ttl)

text \<open>\<open>ana\<close> logs in; a second later the cookie opens the listing of users.\<close>

theorem login_cookie_opens_endpoints_witness:
  "\<exists>rep w1 w2 access oa rest req2. serve mem_env ep_users_login ''/users/login'' request0
       (UsersController_logIn mem_env ''s9'' ''ana'' ''pw'' request0) world0 = (rep, w1) \<and>
     re_cookies rep = SetCookie ''auth_token'' access oa # rest \<and> rq_cookies req2 ''auth_token'' = Some access \<and>
     w_now w2 = 1000 \<and> opened mem_env mem_users world0 ''ana'' ''s9'' ep_users_findAll req2 w2"
proof -
  obtain tk w1 where run: "logIn mem_env ''s9'' ''ana'' ''pw'' request0 world0 = (Inr tk, w1)" using login_ana_run by blast
  obtain oa ob where o: "getAuthCookieOptions mem_env = Inr oa" "getRefreshCookieOptions mem_env = Inr ob"
    using mem_cookie_options by blast
  define rep where "rep = \<lparr>re_status = 201, re_body = Reply (message_json ''Login successful''),
    re_cookies = [SetCookie ''auth_token'' (t_accessToken tk) oa, SetCookie ''refresh_token'' (t_refreshToken tk) ob]\<rparr>"
  have s: "serve mem_env ep_users_login ''/users/login'' request0
       (UsersController_logIn mem_env ''s9'' ''ana'' ''pw'' request0) world0 = (rep, w1)"
    by (simp add: serve_open ep_users_login_def endpoint_def UsersController_logIn_def bindE_def thenE_def services_run
        run token_cookies_run o returnE_def send_reply_def success_status_def rep_def)
  have body: "re_body rep = Reply (message_json ''Login successful'')" by (simp add: rep_def)
  have time: "0 < token_exp mem_env (token_expiresIn mem_env AuthToken) (w_now world0)" by (simp add: world0_now mem_exp)
  define req2 where "req2 = \<lparr>rq_headers = (\<lambda>_. None), rq_cookies = [''auth_token'' \<mapsto> t_accessToken tk],
    rq_ip = Some ''10.0.0.77'', rq_remoteAddress = None\<rparr>"
  have ip: "getClientIp request0 = ''10.0.0.9''" "getClientIp req2 = ''10.0.0.77''"
    by (simp_all add: getClientIp_def forwarded_for_def request0_def req2_def or_else_def Let_def starts_with_def)
  have subnet: "sameSubnetCheck (getClientIp request0) (getClientIp req2)" unfolding ip by code_simp
  have rule: "\<forall>u \<in> rows mem_users (w_db world0). u_email u = ''ana'' \<longrightarrow>
      endpoint_open mem_rules (w_db world0) (ep_key ep_users_findAll) (user_permissionCodes u)"
    by (auto simp: ep_users_findAll_def endpoint_def endpoint_open_def mem_tables world0_defs admits_def
        epr_permissionCodes_def user_permissionCodes_def)
  have texts: "''ana'' \<noteq> ''''" "''s9'' \<noteq> ''''" by simp_all
  note leaves = login_leaves [OF world0_guard_ready world0_users_ready mem_jwt_laws mem_ttl run]
  define w2 where "w2 = w1\<lparr>w_redis := mem_wait 1000 (w_redis w1), w_now := 1000\<rparr>"
  have "m_up (w_redis w1)" using guard_readyD(3) [OF leaves(1)] by (simp add: session_ready_def)
  then have later: "later mem_view m_up 1000 w1 w2"
    using leaves(3) by (simp add: later_def w2_def mem_wait_elapsed world0_now)
  have prem: "ep_guard ep_users_findAll = AuthGuard" "rq_cookies req2 ''auth_token'' = Some (t_accessToken tk)"
    "w_now w2 div 1000 < token_exp mem_env (token_expiresIn mem_env AuthToken) (w_now world0)" "(1000 :: int) < 3600000"
    by (simp_all add: ep_users_findAll_def endpoint_def req2_def w2_def world0_now mem_exp)
  from login_cookie_opens_endpoints [OF world0_guard_ready world0_users_ready mem_jwt_laws texts s body time]
  have "opened mem_env mem_users world0 ''ana'' ''s9'' ep_users_findAll req2 w2"
  proof (elim exE conjE)
    fix access refresh oa' ob' t
    assume "re_cookies rep = [SetCookie ''auth_token'' access oa', SetCookie ''refresh_token'' refresh ob']"
    then have a: "access = t_accessToken tk" by (simp add: rep_def)
    assume "getTtlFromEnv mem_env ''JWT_REFRESH_EXPIRES_IN'' = Inr t"
    then have t: "t = 3600000" by (simp add: mem_ttl)
    assume all: "\<forall>req2 ep dt w2. ep_guard ep = AuthGuard \<and> rq_cookies req2 ''auth_token'' = Some access \<and>
       later mem_view m_up dt w1 w2 \<and> w_now w2 div 1000 < token_exp mem_env (token_expiresIn mem_env AuthToken) (w_now world0) \<longrightarrow>
       (dt < t \<and> sameSubnetCheck (getClientIp request0) (getClientIp req2) \<and>
          (\<forall>u \<in> rows mem_users (w_db world0). u_email u = ''ana'' \<longrightarrow>
             endpoint_open mem_rules (w_db world0) (ep_key ep) (user_permissionCodes u)) \<longrightarrow>
        opened mem_env mem_users world0 ''ana'' ''s9'' ep req2 w2) \<and>
       (t \<le> dt \<longrightarrow> refused mem_env ep req2 w2)"
    note this [THEN spec [where x = req2], THEN spec [where x = ep_users_findAll], THEN spec [where x = 1000],
        THEN spec [where x = w2], unfolded a t, THEN mp, OF conjI [OF prem(1) conjI [OF prem(2) conjI [OF later prem(3)]]],
        THEN conjunct1, THEN mp, OF conjI [OF prem(4) conjI [OF subnet rule]]]
    then show ?thesis .
  qed
  with s prem(2) show ?thesis
    by (intro exI [where x = rep] exI [where x = w1] exI [where x = w2] exI [where x = "t_accessToken tk"] exI [where x = oa]
        exI [where x = "[SetCookie ''refresh_token'' (t_refreshToken tk) ob]"] exI [where x = req2]) (simp add: rep_def w2_def)
qed

text \<open>The refresh endpoint with the token of a session that is not there any more.\<close>

lemma refresh_without_session:
  assumes "session_ready E view up w" "payload_of E token RefreshToken (w_now w) = Inr p" "pl_sid p = Some sid"
    and "sess view w sid = None" "token \<noteq> ''''" "rq_cookies req ''refresh_token'' = Some token"
  shows "\<exists>body. serve E ep_users_refreshToken url req (UsersController_refreshToken E req) w =
    (\<lparr>re_status = 401, re_body = Failure body, re_cookies = []\<rparr>, w)"
proof -
  have "refresh_check E token w = (Inl session_invalid, w)"
    using assms(2-4) by (simp add: refresh_check_def bindE_def getPayload_run readS [OF assms(1)] throwE_def Let_def)
  then have "UsersController_refreshToken E req ((w, []), in_context) = (Inl session_invalid, ((w, []), in_context))"
    using assms(5,6) by (simp add: UsersController_refreshToken_def users_refreshToken_def bindE_def services_run)
  moreover have "ep_guard ep_users_refreshToken = Unguarded" by (simp add: ep_users_refreshToken_def endpoint_def)
  moreover have "status_of session_invalid = Some UNAUTHORIZED" "is_http session_invalid"
    by (simp_all add: session_invalid_def users_exception_def)
  ultimately show ?thesis using failure_reply_401 by (simp add: serve_open send_reply_def)
qed

text \<open>Logout ends what login began: a request to \<open>POST /users/logout\<close> whose cookie opens the live
  session \<open>sid\<close> answers 201 and clears both cookies under the paths they were set for. From then on,
  the same access token is answered 401 on every \<open>AuthGuard\<close> endpoint, whatever its method, and
  every refresh token of the session is answered 401 by the refresh endpoint, all without any
  effect on the world.\<close>

lemma logout_closes_endpoints:
  assumes "guard_ready E view up T w" "rq_cookies req ''auth_token'' = Some token" "token \<noteq> ''''"
    and "live_session E view w token = Some (s, sid)" "sameSubnetCheck (s_ip s) (getClientIp req)"
    and "serve E ep_users_logout url req (UsersController_logOut E) w = (rep, w')"
  shows "rep = \<lparr>re_status = 201, re_body = Reply (message_json ''Logged out successfully''),
      re_cookies = [ClearCookie ''auth_token'' ''/'', ClearCookie ''refresh_token'' ''/users/refresh-token'']\<rparr> \<and>
    (\<forall>ep req2 url2 m. ep_guard ep = AuthGuard \<and> rq_cookies req2 ''auth_token'' = Some token \<longrightarrow>
       (\<exists>body. serve E ep url2 req2 m w' = (\<lparr>re_status = 401, re_body = Failure body, re_cookies = []\<rparr>, w'))) \<and>
    (\<forall>req2 url2 rt p. payload_of E rt RefreshToken (w_now w') = Inr p \<and> pl_sid p = Some sid \<and> rt \<noteq> '''' \<and>
       rq_cookies req2 ''refresh_token'' = Some rt \<longrightarrow>
       (\<exists>body. serve E ep_users_refreshToken url2 req2 (UsersController_refreshToken E req2) w' =
          (\<lparr>re_status = 401, re_body = Failure body, re_cookies = []\<rparr>, w')))"
proof -
  let ?a = "auth_user_of s sid"
  let ?r = "in_context\<lparr>rs_user := Some ?a, rs_store := Some (Some ?a)\<rparr>"
  have t: "extractToken req = Some token" using assms(2) by (simp add: extractToken_def)
  have "endpoint_open T (w_db w) None ps" for ps by (simp add: endpoint_open_def)
  from authGuard_run(1) [OF assms(1) in_context_store(1) t assms(3,4,5) this] obtain w1 where
    g: "authGuard E None req (w, in_context) = (Inr True, w1, ?r)" "guard_ready E view up T w1"
      "outside view epr_keys w1 = outside view epr_keys w" by blast
  have adm: "run_guard E ep_users_logout req (w, in_context) = (Inr True, w1, ?r)"
    using g(1) by (simp add: run_guard_def ep_users_logout_def endpoint_def)
  from logOut_run [OF guard_readyD(3) [OF g(2)], of ?a] obtain r2 where
    l: "logOut E ?a w1 = (Inr ''Logged out successfully'', w1\<lparr>w_redis := r2\<rparr>)"
      "session_ready E view up (w1\<lparr>w_redis := r2\<rparr>)"
      "view r2 = exec_all [DEL (session_key sid), SREM (user_index (s_user_id s)) sid] (view (w_redis w1))"
    by (auto simp: auth_user_of_def)
  let ?w = "w1\<lparr>w_redis := r2\<rparr>"
  have run: "UsersController_logOut E ((w1, []), ?r) = (Inr (message_json ''Logged out successfully''), ((?w,
      [ClearCookie ''auth_token'' ''/'', ClearCookie ''refresh_token'' ''/users/refresh-token'']), ?r))"
    by (simp add: UsersController_logOut_def request_user_of_def request_user_def getE_def bindE_def thenE_def returnE_def
        services_run l(1) response_clearCookie_def)
  have w': "w' = ?w" and rep: "rep = \<lparr>re_status = 201, re_body = Reply (message_json ''Logged out successfully''),
      re_cookies = [ClearCookie ''auth_token'' ''/'', ClearCookie ''refresh_token'' ''/users/refresh-token'']\<rparr>"
    using assms(6) serve_admitted [OF adm, of url "UsersController_logOut E"]
    by (simp_all add: run send_reply_def success_status_def ep_users_logout_def endpoint_def)
  have gone: "sess view ?w sid = None" by (simp add: l(3))
  obtain p where p: "payload_of E token AuthToken (w_now w) = Inr p" "session_id_of p token = sid"
    using assms(4) by (auto simp: live_session_def split: sum.splits option.splits if_splits)
  have p': "payload_of E token AuthToken (w_now ?w) = Inr p"
    using p(1) outside_eqD(5) [OF g(3)] by simp
  have closed: "\<exists>body. serve E ep url2 req2 m ?w = (\<lparr>re_status = 401, re_body = Failure body, re_cookies = []\<rparr>, ?w)"
    if "ep_guard ep = AuthGuard" "rq_cookies req2 ''auth_token'' = Some token" for ep url2 req2 m
  proof -
    note h = that
    have t2: "extractToken req2 = Some token" using h(2) by (simp add: extractToken_def)
    have "\<exists>e. authGuard E (ep_key ep) req2 (?w, in_context) = (Inl e, ?w, in_context) \<and>
        status_of e = Some UNAUTHORIZED \<and> is_http e"
      by (rule authGuard_ended(2) [OF l(2) _ p' p(2) t2]) (use gone in simp)
    then obtain e where
      "run_guard E ep req2 (?w, in_context) = (Inl e, ?w, in_context)" "status_of e = Some UNAUTHORIZED" "is_http e"
      using h(1) by (auto simp: run_guard_def)
    from serve_denied [OF this(1)] failure_reply_401 [OF this(2,3)] show ?thesis by simp
  qed
  show ?thesis unfolding w' using rep closed refresh_without_session [OF l(2) _ _ gone] by blast
qed

lemma logout_closes_endpoints_example:
  "\<exists>rep w' body. serve mem_env ep_users_logout ''/users/logout'' request_ana (UsersController_logOut mem_env) world0 = (rep, w') \<and>
     re_status rep = 201 \<and>
     serve mem_env ep_users_findAll ''/users/all'' request_ana
       (UsersController_findAll mem_env mem_serializer PaginationQueryDto) w' =
     (\<lparr>re_status = 401, re_body = Failure body, re_cookies = []\<rparr>, w')"
proof -
  obtain rep w' where s: "serve mem_env ep_users_logout ''/users/logout'' request_ana (UsersController_logOut mem_env) world0 =
      (rep, w')" by fastforce
  have c: "rq_cookies request_ana ''auth_token'' = Some access_ana" by (simp add: request_ana_def)
  have "ep_guard ep_users_findAll = AuthGuard" by (simp add: ep_users_findAll_def endpoint_def)
  with logout_closes_endpoints [OF world0_guard_ready c access_ana_token(1) access_ana_live request_ana_subnet s] c s
  show ?thesis by fastforce
qed

end
