(* ===== verification/Regex.thy ===== *)
theory Regex imports JsString begin

text \<open>
  The regular expressions the source uses: JavaScript's anchors, character classes, greedy
  repetition of a class and lookahead, with the set of ends a match can have from a position.
  A position is the number of characters before it and the text after it.
\<close>

type_synonym position = "nat \<times> string"

datatype regex =
  Begin | End | Class "char \<Rightarrow> bool" | Repeat nat "char \<Rightarrow> bool" | Lookahead regex | Seq regex regex

text \<open>\<open>.\<close> without the flag \<open>s\<close>: any character but a line terminator.\<close>

definition dot :: "char \<Rightarrow> bool" where
  "dot c \<longleftrightarrow> c \<noteq> CHR 0x0A \<and> c \<noteq> CHR 0x0D"

text \<open>The ends of at least \<open>n\<close> repetitions of a class.\<close>

fun repetitions :: "nat \<Rightarrow> (char \<Rightarrow> bool) \<Rightarrow> nat \<Rightarrow> string \<Rightarrow> position list" where
  "repetitions n P i [] = (if n = 0 then [(i, [])] else [])"
| "repetitions n P i (c # cs) =
     (if n = 0 then [(i, c # cs)] else []) @ (if P c then repetitions (n - 1) P (Suc i) cs else [])"

fun ends :: "regex \<Rightarrow> position \<Rightarrow> position list" where
  "ends Begin (i, s) = (if i = 0 then [(i, s)] else [])"
| "ends End (i, s) = (if s = [] then [(i, s)] else [])"
| "ends (Class P) (i, s) = (case s of [] \<Rightarrow> [] | c # cs \<Rightarrow> if P c then [(Suc i, cs)] else [])"
| "ends (Repeat n P) (i, s) = repetitions n P i s"
| "ends (Lookahead r) (i, s) = (if ends r (i, s) = [] then [] else [(i, s)])"
| "ends (Seq a b) (i, s) = concat (List.map (ends b) (ends a (i, s)))"

text \<open>\<open>/r/.test(s)\<close>: a match from some position.\<close>

definition regex_test :: "regex \<Rightarrow> string \<Rightarrow> bool" where
  "regex_test r s = list_ex (\<lambda>i. ends r (i, drop i s) \<noteq> []) [0..<Suc (length s)]"

section \<open>Facts\<close>

lemma repetitions_ends:
  "(j, t) \<in> set (repetitions n P i s) \<longleftrightarrow>
   (\<exists>k. n \<le> k \<and> k \<le> length s \<and> j = i + k \<and> t = drop k s \<and> (\<forall>c \<in> set (take k s). P c))"
proof (induction s arbitrary: n i)
  case Nil
  then show ?case by auto
next
  case (Cons c cs)
  show ?case (is "?L \<longleftrightarrow> ?R")
  proof
    assume ?L
    then consider "n = 0" "j = i" "t = c # cs" | "P c" "(j, t) \<in> set (repetitions (n - 1) P (Suc i) cs)"
      by (auto split: if_splits)
    then show ?R
    proof cases
      case 1
      then show ?thesis by (intro exI [where x = 0]) simp
    next
      case 2
      then obtain k where "n - 1 \<le> k" "k \<le> length cs" "j = Suc i + k" "t = drop k cs" "\<forall>x \<in> set (take k cs). P x"
        using Cons.IH by blast
      with 2(1) show ?thesis by (intro exI [where x = "Suc k"]) auto
    qed
  next
    assume ?R
    then obtain k where k: "n \<le> k" "k \<le> length (c # cs)" "j = i + k" "t = drop k (c # cs)"
      "\<forall>x \<in> set (take k (c # cs)). P x" by blast
    show ?L
    proof (cases k)
      case 0
      with k show ?thesis by simp
    next
      case (Suc m)
      with k have "(j, t) \<in> set (repetitions (n - 1) P (Suc i) cs)"
        by (subst Cons.IH) (intro exI [where x = m], auto)
      with k Suc show ?thesis by auto
    qed
  qed
qed

lemma Repeat_ends [simp]:
  "(j, t) \<in> set (ends (Repeat n P) (i, s)) \<longleftrightarrow>
   (\<exists>k. n \<le> k \<and> k \<le> length s \<and> j = i + k \<and> t = drop k s \<and> (\<forall>c \<in> set (take k s). P c))"
  by (simp only: ends.simps repetitions_ends)

lemma Lookahead_ends [simp]:
  "q \<in> set (ends (Lookahead r) p) \<longleftrightarrow> q = p \<and> (\<exists>e. e \<in> set (ends r p))"
proof (cases p)
  case (Pair i s)
  have "ends r p \<noteq> [] \<longleftrightarrow> (\<exists>e. e \<in> set (ends r p))" by (cases "ends r p") (auto simp del: split_paired_Ex)
  with Pair show ?thesis by (simp del: split_paired_Ex)
qed

lemma Seq_ends [simp]: "q \<in> set (ends (Seq a b) p) \<longleftrightarrow> (\<exists>m. m \<in> set (ends a p) \<and> q \<in> set (ends b m))"
  by (cases p) (auto simp del: split_paired_Ex)

lemma Begin_ends [simp]: "q \<in> set (ends Begin p) \<longleftrightarrow> q = p \<and> fst p = 0"
  by (cases p) auto

lemma End_ends [simp]: "q \<in> set (ends End p) \<longleftrightarrow> q = p \<and> snd p = []"
  by (cases p) auto

lemma Class_ends [simp]: "q \<in> set (ends (Class P) p) \<longleftrightarrow> (\<exists>c cs. snd p = c # cs \<and> P c \<and> q = (Suc (fst p), cs))"
  by (cases p) (auto split: list.splits)

declare ends.simps [simp del]

lemma regex_test_iff: "regex_test r s \<longleftrightarrow> (\<exists>i \<le> length s. \<exists>e. e \<in> set (ends r (i, drop i s)))"
proof -
  have "xs \<noteq> [] \<longleftrightarrow> (\<exists>e. e \<in> set xs)" for xs :: "position list" by (cases xs) (auto simp del: split_paired_Ex)
  moreover have "(\<exists>i \<in> set [0..<Suc n]. Q i) \<longleftrightarrow> (\<exists>i \<le> n. Q i)" for Q n
    by (auto simp: less_Suc_eq_le simp del: upt_Suc)
  ultimately show ?thesis by (simp only: regex_test_def list_ex_iff)
qed

text \<open>\<open>(?=.*[P])\<close>: some character of the class is ahead, before any line terminator.\<close>

lemma class_at: "(\<exists>c cs. drop k s = c # cs \<and> P c) \<longleftrightarrow> k < length s \<and> P (s ! k)"
  by (cases "k < length s") (auto simp: Cons_nth_drop_Suc [symmetric])

lemma lookahead_somewhere:
  "q \<in> set (ends (Lookahead (Seq (Repeat 0 dot) (Class P))) (i, s)) \<longleftrightarrow>
   q = (i, s) \<and> (\<exists>k < length s. P (s ! k) \<and> (\<forall>c \<in> set (take k s). dot c))"
proof -
  have "(\<exists>e. e \<in> set (ends (Seq (Repeat 0 dot) (Class P)) (i, s))) \<longleftrightarrow>
      (\<exists>k \<le> length s. (\<forall>c \<in> set (take k s). dot c) \<and> (\<exists>c cs. drop k s = c # cs \<and> P c))"
  proof -
    have "(\<exists>e. e \<in> set (ends (Seq (Repeat 0 dot) (Class P)) (i, s))) \<longleftrightarrow>
        (\<exists>m. m \<in> set (ends (Repeat 0 dot) (i, s)) \<and> (\<exists>c cs. snd m = c # cs \<and> P c))"
      unfolding Seq_ends Class_ends by blast
    also have "\<dots> \<longleftrightarrow> (\<exists>j t. (\<exists>k. 0 \<le> k \<and> k \<le> length s \<and> j = i + k \<and> t = drop k s \<and> (\<forall>c \<in> set (take k s). dot c)) \<and>
        (\<exists>c cs. t = c # cs \<and> P c))"
      unfolding split_paired_Ex Repeat_ends snd_conv ..
    also have "\<dots> \<longleftrightarrow> (\<exists>k \<le> length s. (\<forall>c \<in> set (take k s). dot c) \<and> (\<exists>c cs. drop k s = c # cs \<and> P c))"
      by blast
    finally show ?thesis .
  qed
  then show ?thesis unfolding class_at Lookahead_ends by (auto intro: less_imp_le)
qed

end
