(* ===== verification/Dto.thy ===== *)
theory Dto imports Controllers Regex begin

text \<open>
  The request bodies: the classes of \<open>src/src/interfaces/DTO\<close> with the rules their decorators
  state, the five uniqueness validators of \<open>src/src/common/validators\<close>, and the validation pipe
  of \<open>src/src/main.ts\<close> with its exception factory.
\<close>

section \<open>Rules\<close>

datatype unique_column = UniqueEmail | UniquePerson | UniquePermissionCode | UniqueRoleName | UniqueEndpointKey

datatype rule =
  IsString | IsNotEmpty | IsEmail | IsUUID nat | EachIsUUID nat | IsArray | IsBoolean | IsInt | IsNumber
| Min int | Max int | MinLength nat | Matches regex | IsUnique unique_column | Whitelisted

datatype js_type = StringT | NumberT | BooleanT | ArrayT

text \<open>A property of a class: its name, declared type, initial value, whether it is optional, and its
  decorators, each with the message it gives or none.\<close>

record field =
  f_name :: string
  f_type :: js_type
  f_default :: "json option"
  f_optional :: bool
  f_rules :: "(rule \<times> string option) list"

definition required :: "string \<Rightarrow> js_type \<Rightarrow> (rule \<times> string option) list \<Rightarrow> field" where
  "required name t rs = \<lparr>f_name = name, f_type = t, f_default = None, f_optional = False, f_rules = rs\<rparr>"

section \<open>The classes\<close>

definition LoginDTO :: "field list" where
  "LoginDTO =
     [required ''email'' StringT
        [(IsString, Some ''Your email must be a string''), (IsEmail, Some ''Your email must be a valid email address''),
         (IsNotEmpty, Some ''This field is required'')],
      required ''password'' StringT
        [(IsString, Some ''Your password must be a string''), (IsNotEmpty, Some ''This field is required'')]]"

definition RegisterUserDTO :: "field list" where
  "RegisterUserDTO =
     [required ''email'' StringT
        [(IsString, Some ''Your email must be a string''), (IsNotEmpty, Some ''This field is required''),
         (IsUnique UniqueEmail, None)],
      required ''person_id'' StringT
        [(IsUUID 7, Some ''person_id must be a valid UUID''), (IsNotEmpty, Some ''This field is required''),
         (IsUnique UniquePerson, None)],
      required ''rolesIds'' ArrayT
        [(IsNotEmpty, Some ''This field is required''), (EachIsUUID 4, Some ''Each roleId must be a valid UUID''),
         (IsArray, Some ''This field must be an array'')]]"

definition lower_letter :: "char \<Rightarrow> bool" where
  "lower_letter c \<longleftrightarrow> CHR ''a'' \<le> c \<and> c \<le> CHR ''z''"

definition upper_letter :: "char \<Rightarrow> bool" where
  "upper_letter c \<longleftrightarrow> CHR ''A'' \<le> c \<and> c \<le> CHR ''Z''"

definition digit_char :: "char \<Rightarrow> bool" where
  "digit_char c \<longleftrightarrow> CHR ''0'' \<le> c \<and> c \<le> CHR ''9''"

definition special_char :: "char \<Rightarrow> bool" where
  "special_char c \<longleftrightarrow> c \<in> set ''@$!%*?&''"

text \<open>\<^verbatim>\<open>/^(?=.*[a-z])(?=.*[A-Z])(?=.*\d)(?=.*[@$!%*?&])[A-Za-z\d@$!%*?&]{8,}$/\<close>.\<close>

definition ahead :: "(char \<Rightarrow> bool) \<Rightarrow> regex" where
  "ahead P = Lookahead (Seq (Repeat 0 dot) (Class P))"

definition password_regex :: regex where
  "password_regex =
     Seq Begin (Seq (ahead lower_letter) (Seq (ahead upper_letter) (Seq (ahead digit_char) (Seq (ahead special_char)
       (Seq (Repeat 8 (\<lambda>c. upper_letter c \<or> lower_letter c \<or> digit_char c \<or> special_char c)) End)))))"

definition password_message :: string where
  "password_message = ''Your password must be at least 8 characters long, contain at least one uppercase letter, one lowercase letter, one number, and one special character''"

definition ActivateUserDTO :: "field list" where
  "ActivateUserDTO =
     [required ''email'' StringT
        [(IsString, Some ''Your email must be a string''), (IsNotEmpty, Some ''This field is required'')],
      required ''password'' StringT
        [(IsString, Some ''Your password must be a string''), (IsNotEmpty, Some ''This field is required'')],
      required ''new_password'' StringT
        [(IsNotEmpty, None), (IsString, None), (Matches password_regex, Some password_message)]]"

definition ForgotPasswordDTO :: "field list" where
  "ForgotPasswordDTO = [required ''email'' StringT [(IsEmail, None), (IsNotEmpty, None)]]"

definition ResetPasswordDTO :: "field list" where
  "ResetPasswordDTO =
     [required ''password'' StringT
        [(IsNotEmpty, None), (IsString, None), (Matches password_regex, Some password_message)]]"

definition AssignApiPermissionDTO :: "field list" where
  "AssignApiPermissionDTO =
     [required ''permissionIds'' ArrayT
        [(IsNotEmpty, Some ''permissionIds is required''), (IsArray, Some ''permissionIds must be an array''),
         (EachIsUUID 4, Some ''Each permissionId must be a valid UUID'')]]"

definition CreateApiKeyDTO :: "field list" where
  "CreateApiKeyDTO = AssignApiPermissionDTO @
     [required ''client'' StringT
        [(IsNotEmpty, Some ''client is required''), (IsString, Some ''client must be a string'')]]"

definition AssignPermissionDTO :: "field list" where
  "AssignPermissionDTO =
     [required ''permissionsIds'' ArrayT
        [(IsNotEmpty, Some ''This field is required''), (EachIsUUID 4, Some ''Each permissionId must be a valid UUID''),
         (IsArray, Some ''This field must be an array'')]]"

definition AssignRoleDTO :: "field list" where
  "AssignRoleDTO =
     [required ''rolesIds'' ArrayT
        [(IsNotEmpty, Some ''This field is required''), (EachIsUUID 4, Some ''Each roleId must be a valid UUID''),
         (IsArray, Some ''This field must be an array'')]]"

definition CreatePermissionDTO :: "field list" where
  "CreatePermissionDTO =
     [required ''code'' StringT
        [(IsString, Some ''Code must be a string''), (IsNotEmpty, Some ''This field is required''),
         (IsUnique UniquePermissionCode, None)]]"

definition CreateRoleDTO :: "field list" where
  "CreateRoleDTO =
     [required ''name'' StringT
        [(IsString, Some ''Name must be a string''), (IsNotEmpty, Some ''This field is required''),
         (IsUnique UniqueRoleName, None)],
      required ''is_restricted'' BooleanT
        [(IsBoolean, Some ''is_restricted must be a boolean''),
         (IsNotEmpty, Some ''is_restricted field is required'')]]"

definition PatchPermissionDTO :: "field list" where
  "PatchPermissionDTO = CreatePermissionDTO"

definition PatchRoleDTO :: "field list" where
  "PatchRoleDTO = CreateRoleDTO"

definition CreateEndpointPermissionRulesDTO :: "field list" where
  "CreateEndpointPermissionRulesDTO =
     [required ''endpoint_key_name'' StringT
        [(IsNotEmpty, Some ''This field is required''), (IsString, Some ''This field must be a string''),
         (IsUnique UniqueEndpointKey, None)]]"

definition PatchEndpointPermissionRulesDTO :: "field list" where
  "PatchEndpointPermissionRulesDTO = CreateEndpointPermissionRulesDTO"

definition PaginationQueryFields :: "field list" where
  "PaginationQueryFields =
     [\<lparr>f_name = ''page'', f_type = NumberT, f_default = Some (JNum 1), f_optional = True,
       f_rules = [(IsInt, Some ''page must be an integer''), (Min 1, Some ''page must be at least 1'')]\<rparr>,
      \<lparr>f_name = ''limit'', f_type = NumberT, f_default = Some (JNum 20), f_optional = True,
       f_rules = [(IsInt, Some ''limit must be an integer''), (Min 1, Some ''limit must be at least 1''),
                  (Max 100, Some ''limit must not exceed 100'')]\<rparr>]"

section \<open>The validation libraries\<close>

text \<open>
  The parts of class-validator and class-transformer the classes rely on: the checks of addresses
  and UUIDs, the implicit conversion to the declared type, the default messages, the assembly of
  the failed rules to \<open>ValidationError\<close>s, and the lookup of a column for a value that is no text.
\<close>

record validation_lib =
  lib_isEmail :: "string \<Rightarrow> bool"
  lib_isUUID :: "nat \<Rightarrow> string \<Rightarrow> bool"
  lib_convert :: "js_type \<Rightarrow> json \<Rightarrow> json"
  lib_message :: "rule \<Rightarrow> string"
  lib_errors :: "(string \<times> rule \<times> string) list \<Rightarrow> verror list"
  lib_lookup :: "unique_column \<Rightarrow> json \<Rightarrow> exn + bool"

section \<open>The uniqueness validators\<close>

text \<open>\<open>args.object?.[ignoreIdField]\<close>, where the field is the one the options of the decorator name
  or \<open>id\<close>; an empty text is falsy.\<close>

definition ignore_id :: "string option \<Rightarrow> props \<Rightarrow> string option" where
  "ignore_id ignoreIdField obj =
     (case map_of obj (or_else ignoreIdField ''id'') of
        Some (JStr i) \<Rightarrow> if i = '''' then None else Some i
      | _ \<Rightarrow> None)"

definition not_ignored :: "string option \<Rightarrow> string \<Rightarrow> bool" where
  "not_ignored ignored i \<longleftrightarrow> ignored \<noteq> Some i"

text \<open>\<open>validate(value, args)\<close>: a falsy value passes; otherwise no other row has it.\<close>

definition validate_unique ::
  "validation_lib \<Rightarrow> unique_column \<Rightarrow> (string \<Rightarrow> 'd \<Rightarrow> exn + bool) \<Rightarrow> json option \<Rightarrow> ('r, 'd, 'q, bool) service" where
  "validate_unique L col lookup value =
     (case value of
        None \<Rightarrow> returnE True
      | Some JNull \<Rightarrow> returnE True
      | Some (JStr s) \<Rightarrow>
          if s = '''' then returnE True
          else bindE (on_db (readE (lookup s))) (\<lambda>found. returnE (\<not> found))
      | Some j \<Rightarrow>
          if j = JBool False \<or> j = JNum 0 then returnE True
          else bindE (liftE (lib_lookup L col j)) (\<lambda>found. returnE (\<not> found)))"

definition IsUniqueEmail_validate ::
  "('r, 'd, 'q) env \<Rightarrow> validation_lib \<Rightarrow> string option \<Rightarrow> props \<Rightarrow> json option \<Rightarrow> ('r, 'd, 'q, bool) service" where
  "IsUniqueEmail_validate E L ignoreIdField obj value =
     validate_unique L UniqueEmail
       (\<lambda>s. orm_exists (users_orm E) (\<lambda>u. u_email u = s \<and> not_ignored (ignore_id ignoreIdField obj) (u_id u))) value"

definition IsUniquePerson_validate ::
  "('r, 'd, 'q) env \<Rightarrow> validation_lib \<Rightarrow> string option \<Rightarrow> props \<Rightarrow> json option \<Rightarrow> ('r, 'd, 'q, bool) service" where
  "IsUniquePerson_validate E L ignoreIdField obj value =
     validate_unique L UniquePerson
       (\<lambda>s. orm_exists (users_orm E) (\<lambda>u. u_person_id u = s \<and> not_ignored (ignore_id ignoreIdField obj) (u_id u))) value"

definition IsUniquePermissionCode_validate ::
  "('r, 'd, 'q) env \<Rightarrow> validation_lib \<Rightarrow> string option \<Rightarrow> props \<Rightarrow> json option \<Rightarrow> ('r, 'd, 'q, bool) service" where
  "IsUniquePermissionCode_validate E L ignoreIdField obj value =
     validate_unique L UniquePermissionCode
       (\<lambda>s. orm_exists (permissions_orm E) (\<lambda>p. p_code p = s \<and> not_ignored (ignore_id ignoreIdField obj) (p_id p))) value"

definition IsUniqueRoleName_validate ::
  "('r, 'd, 'q) env \<Rightarrow> validation_lib \<Rightarrow> string option \<Rightarrow> props \<Rightarrow> json option \<Rightarrow> ('r, 'd, 'q, bool) service" where
  "IsUniqueRoleName_validate E L ignoreIdField obj value =
     validate_unique L UniqueRoleName
       (\<lambda>s. orm_exists (roles_orm E) (\<lambda>r. r_name r = s \<and> not_ignored (ignore_id ignoreIdField obj) (r_id r))) value"

definition IsUniqueEndpointKeyName_validate ::
  "('r, 'd, 'q) env \<Rightarrow> validation_lib \<Rightarrow> string option \<Rightarrow> props \<Rightarrow> json option \<Rightarrow> ('r, 'd, 'q, bool) service" where
  "IsUniqueEndpointKeyName_validate E L ignoreIdField obj value =
     validate_unique L UniqueEndpointKey
       (\<lambda>s. orm_exists (rules_orm E)
              (\<lambda>r. e_endpoint_key_name r = s \<and> not_ignored (ignore_id ignoreIdField obj) (e_id r))) value"

text \<open>The default message of each validator, and the error code in the context of its decorator; no other
  decorator has one.\<close>

definition IsUniqueEmail_defaultMessage :: string where
  "IsUniqueEmail_defaultMessage = ''This email is already in use. Please choose another one.''"

definition IsUniqueEmail_errorCode :: string where
  "IsUniqueEmail_errorCode = UsersErrorCodes users_error.USER_ALREADY_REGISTERED"

definition IsUniquePerson_defaultMessage :: string where
  "IsUniquePerson_defaultMessage = ''This person already has an account registered.''"

definition IsUniquePerson_errorCode :: string where
  "IsUniquePerson_errorCode = UsersErrorCodes users_error.USER_PERSON_ALREADY_REGISTERED"

definition IsUniquePermissionCode_defaultMessage :: string where
  "IsUniquePermissionCode_defaultMessage = ''This permission code is already register. Please choose another one.''"

definition IsUniquePermissionCode_errorCode :: string where
  "IsUniquePermissionCode_errorCode = PermissionsErrorCodes permissions_error.PERMISSION_ALREADY_EXISTS"

definition IsUniqueRoleName_defaultMessage :: string where
  "IsUniqueRoleName_defaultMessage = ''This role name is already register. Please choose another one.''"

definition IsUniqueRoleName_errorCode :: string where
  "IsUniqueRoleName_errorCode = RolesErrorCodes roles_error.ROLES_ALREADY_EXISTS"

definition IsUniqueEndpointKeyName_defaultMessage :: string where
  "IsUniqueEndpointKeyName_defaultMessage = ''This endpoint key is already registered.''"

definition IsUniqueEndpointKeyName_errorCode :: string where
  "IsUniqueEndpointKeyName_errorCode = EndpointPermissionRulesErrorCodes epr_error.ENDPOINT_PERMISSION_RULE_ALREADY_EXISTS"

fun unique_message :: "unique_column \<Rightarrow> string" where
  "unique_message UniqueEmail = IsUniqueEmail_defaultMessage"
| "unique_message UniquePerson = IsUniquePerson_defaultMessage"
| "unique_message UniquePermissionCode = IsUniquePermissionCode_defaultMessage"
| "unique_message UniqueRoleName = IsUniqueRoleName_defaultMessage"
| "unique_message UniqueEndpointKey = IsUniqueEndpointKeyName_defaultMessage"

fun unique_code :: "unique_column \<Rightarrow> string" where
  "unique_code UniqueEmail = IsUniqueEmail_errorCode"
| "unique_code UniquePerson = IsUniquePerson_errorCode"
| "unique_code UniquePermissionCode = IsUniquePermissionCode_errorCode"
| "unique_code UniqueRoleName = IsUniqueRoleName_errorCode"
| "unique_code UniqueEndpointKey = IsUniqueEndpointKeyName_errorCode"

definition rule_code :: "rule \<Rightarrow> string option" where
  "rule_code r = (case r of IsUnique col \<Rightarrow> Some (unique_code col) | _ \<Rightarrow> None)"

section \<open>The validation pipe\<close>

definition on_text :: "(string \<Rightarrow> bool) \<Rightarrow> json option \<Rightarrow> bool" where
  "on_text P v = (case v of Some (JStr s) \<Rightarrow> P s | _ \<Rightarrow> False)"

definition on_number :: "(int \<Rightarrow> bool) \<Rightarrow> json option \<Rightarrow> bool" where
  "on_number P v = (case v of Some (JNum n) \<Rightarrow> P n | _ \<Rightarrow> False)"

definition on_array :: "(json list \<Rightarrow> bool) \<Rightarrow> json option \<Rightarrow> bool" where
  "on_array P v = (case v of Some (JArr xs) \<Rightarrow> P xs | _ \<Rightarrow> False)"

fun value_rule :: "validation_lib \<Rightarrow> rule \<Rightarrow> json option \<Rightarrow> bool" where
  "value_rule L IsNotEmpty v \<longleftrightarrow> v \<noteq> None \<and> v \<noteq> Some JNull \<and> v \<noteq> Some (JStr '''')"
| "value_rule L IsString v = on_text (\<lambda>_. True) v"
| "value_rule L IsEmail v = on_text (lib_isEmail L) v"
| "value_rule L (IsUUID n) v = on_text (lib_isUUID L n) v"
| "value_rule L (EachIsUUID n) v = on_array (list_all (\<lambda>x. on_text (lib_isUUID L n) (Some x))) v"
| "value_rule L IsArray v = on_array (\<lambda>_. True) v"
| "value_rule L IsBoolean v = (v = Some (JBool True) \<or> v = Some (JBool False))"
| "value_rule L IsInt v = on_number (\<lambda>_. True) v"
| "value_rule L IsNumber v = on_number (\<lambda>_. True) v"
| "value_rule L (Min k) v = on_number (\<lambda>n. k \<le> n) v"
| "value_rule L (Max k) v = on_number (\<lambda>n. n \<le> k) v"
| "value_rule L (MinLength k) v = on_text (\<lambda>s. k \<le> length s) v"
| "value_rule L (Matches r) v = on_text (regex_test r) v"
| "value_rule L (IsUnique col) v = False"
| "value_rule L Whitelisted v = False"

definition rule_holds ::
  "('r, 'd, 'q) env \<Rightarrow> validation_lib \<Rightarrow> props \<Rightarrow> rule \<Rightarrow> json option \<Rightarrow> ('r, 'd, 'q, bool) service" where
  "rule_holds E L obj r v =
     (case r of
        IsUnique UniqueEmail \<Rightarrow> IsUniqueEmail_validate E L None obj v
      | IsUnique UniquePerson \<Rightarrow> IsUniquePerson_validate E L None obj v
      | IsUnique UniquePermissionCode \<Rightarrow> IsUniquePermissionCode_validate E L None obj v
      | IsUnique UniqueRoleName \<Rightarrow> IsUniqueRoleName_validate E L None obj v
      | IsUnique UniqueEndpointKey \<Rightarrow> IsUniqueEndpointKeyName_validate E L None obj v
      | _ \<Rightarrow> returnE (value_rule L r v))"

definition rule_message :: "validation_lib \<Rightarrow> rule \<Rightarrow> string option \<Rightarrow> string" where
  "rule_message L r given =
     (case given of
        Some m \<Rightarrow> m
      | None \<Rightarrow> (case r of IsUnique col \<Rightarrow> unique_message col | _ \<Rightarrow> lib_message L r))"

definition skipped :: "field \<Rightarrow> json option \<Rightarrow> bool" where
  "skipped f v \<longleftrightarrow> f_optional f \<and> (v = None \<or> v = Some JNull)"

definition field_failures ::
  "('r, 'd, 'q) env \<Rightarrow> validation_lib \<Rightarrow> props \<Rightarrow> field \<Rightarrow> ('r, 'd, 'q, (string \<times> rule \<times> string) list) service" where
  "field_failures E L obj f =
     (let v = map_of obj (f_name f)
      in if skipped f v then returnE []
         else bindE (mapE (\<lambda>(r, m). bindE (rule_holds E L obj r v) (\<lambda>b.
                       returnE (if b then [] else [(f_name f, r, rule_message L r m)]))) (f_rules f))
                (\<lambda>xs. returnE (concat xs)))"

text \<open>\<open>plainToInstance\<close>: the initial values of the class under the values of the body, each
  converted to the declared type. \<open>forbidNonWhitelisted\<close>: a property without a decorator fails.\<close>

definition transform :: "validation_lib \<Rightarrow> field list \<Rightarrow> props \<Rightarrow> props" where
  "transform L flds body =
     List.map (\<lambda>(k, v). (k, case map_of (List.map (\<lambda>f. (f_name f, f_type f)) flds) k of
                             Some t \<Rightarrow> lib_convert L t v | None \<Rightarrow> v)) body
     @ concat (List.map (\<lambda>f. case f_default f of
                 Some v \<Rightarrow> if map_of body (f_name f) = None then [(f_name f, v)] else [] | None \<Rightarrow> []) flds)"

definition unknown_failures :: "field list \<Rightarrow> props \<Rightarrow> (string \<times> rule \<times> string) list" where
  "unknown_failures flds obj =
     List.map (\<lambda>(k, v). (k, Whitelisted, ''property '' @ k @ '' should not exist''))
       (filter (\<lambda>(k, v). k \<notin> f_name ` set flds) obj)"

definition dto_failures ::
  "('r, 'd, 'q) env \<Rightarrow> validation_lib \<Rightarrow> field list \<Rightarrow> props \<Rightarrow> ('r, 'd, 'q, (string \<times> rule \<times> string) list) service" where
  "dto_failures E L flds obj =
     bindE (mapE (field_failures E L obj) flds) (\<lambda>xs. returnE (unknown_failures flds obj @ concat xs))"

definition exceptionFactory :: "verror list \<Rightarrow> exn" where
  "exceptionFactory errors =
     (let errorCode = (case findFirstErrorCode errors of Some c \<Rightarrow> c | None \<Rightarrow> ''VALIDATION_ERROR'');
          message = findFirstMessage errors
      in HttpException ''BadRequestException'' (ObjectResponse (OneMessage message) (Some errorCode)) message
           BAD_REQUEST None)"

definition validation_pipe ::
  "('r, 'd, 'q) env \<Rightarrow> validation_lib \<Rightarrow> field list \<Rightarrow> props \<Rightarrow> ('r, 'd, 'q, props) service" where
  "validation_pipe E L flds body =
     (let obj = transform L flds body
      in bindE (dto_failures E L flds obj) (\<lambda>failures.
         if failures = [] then returnE obj else throwE (exceptionFactory (lib_errors L failures))))"

text \<open>A method with a validated parameter: the pipe runs after the guard and before the method.\<close>

definition with_body ::
  "('r, 'd, 'q) env \<Rightarrow> validation_lib \<Rightarrow> field list \<Rightarrow> props \<Rightarrow> (props \<Rightarrow> ('r, 'd, 'q, json) route) \<Rightarrow>
   ('r, 'd, 'q, json) route" where
  "with_body E L flds body m = bindE (services (validation_pipe E L flds body)) m"

text \<open>The instances the methods receive.\<close>

definition str_prop :: "props \<Rightarrow> string \<Rightarrow> string" where
  "str_prop obj name = (case map_of obj name of Some (JStr s) \<Rightarrow> s | _ \<Rightarrow> '''')"

definition strs_prop :: "props \<Rightarrow> string \<Rightarrow> string list" where
  "strs_prop obj name =
     (case map_of obj name of
        Some (JArr xs) \<Rightarrow> List.map (\<lambda>x. case x of JStr s \<Rightarrow> s | _ \<Rightarrow> '''') xs | _ \<Rightarrow> [])"

definition num_prop :: "props \<Rightarrow> string \<Rightarrow> int" where
  "num_prop obj name = (case map_of obj name of Some (JNum n) \<Rightarrow> n | _ \<Rightarrow> 0)"

definition register_dto_of :: "props \<Rightarrow> register_dto" where
  "register_dto_of obj =
     \<lparr>dto_email = str_prop obj ''email'', dto_person_id = str_prop obj ''person_id'',
      dto_rolesIds = strs_prop obj ''rolesIds''\<rparr>"

definition pagination_of :: "props \<Rightarrow> pagination_query" where
  "pagination_of obj = \<lparr>q_page = num_prop obj ''page'', q_limit = num_prop obj ''limit''\<rparr>"

section \<open>Facts\<close>

lemma on_text_iff: "on_text P v \<longleftrightarrow> (\<exists>s. v = Some (JStr s) \<and> P s)"
  by (auto simp: on_text_def split: option.splits json.splits)

lemma on_number_iff: "on_number P v \<longleftrightarrow> (\<exists>n. v = Some (JNum n) \<and> P n)"
  by (auto simp: on_number_def split: option.splits json.splits)

lemma on_array_iff: "on_array P v \<longleftrightarrow> (\<exists>xs. v = Some (JArr xs) \<and> P xs)"
  by (auto simp: on_array_def split: option.splits json.splits)

lemmas on_value_iff = on_text_iff on_number_iff on_array_iff

text \<open>The pipe reads and changes nothing.\<close>

lemma mapE_readonly_Inr:
  assumes "\<And>x. readonly (f x)" "mapE f xs w = (Inr ys, w')"
  shows "w' = w \<and> list_all2 (\<lambda>x y. f x w = (Inr y, w)) xs ys"
  using assms(2)
proof (induction xs arbitrary: ys)
  case Nil
  then show ?case by (simp add: returnE_def)
next
  case (Cons x xs)
  have same: "snd (f x w) = w" using assms(1) by (simp add: readonly_def)
  from Cons.prems obtain y zs where "f x w = (Inr y, w)" "mapE f xs w = (Inr zs, w')" "ys = y # zs"
    using same by (auto simp: bindE_def returnE_def split: prod.splits sum.splits)
  with Cons.IH show ?case by simp
qed

lemma readonly_db_read [simp]: "readonly (on_db (readE f))"
  by simp

lemma readonly_validate_unique: "readonly (validate_unique L col lookup v)"
  unfolding validate_unique_def by (auto split: option.splits json.splits)

lemma readonly_rule_holds: "readonly (rule_holds E L obj r v)"
  unfolding rule_holds_def IsUniqueEmail_validate_def IsUniquePerson_validate_def IsUniquePermissionCode_validate_def
    IsUniqueRoleName_validate_def IsUniqueEndpointKeyName_validate_def
  by (auto split: rule.splits unique_column.splits intro: readonly_validate_unique)

lemma readonly_field_failures: "readonly (field_failures E L obj f)"
  unfolding field_failures_def Let_def
  by (auto intro!: readonly_mapE readonly_bind readonly_rule_holds split: prod.splits)

lemma readonly_dto_failures: "readonly (dto_failures E L flds obj)"
  unfolding dto_failures_def by (intro readonly_bind readonly_mapE readonly_field_failures) simp

lemma readonly_validation_pipe: "readonly (validation_pipe E L flds body)"
  unfolding validation_pipe_def Let_def by (auto intro!: readonly_bind readonly_dto_failures)

lemma list_all2_member: "list_all2 P xs ys \<Longrightarrow> x \<in> set xs \<Longrightarrow> \<exists>y \<in> set ys. P x y"
  by (induction rule: list_all2_induct) auto

text \<open>What an accepted body satisfies: every rule of every property that is not skipped.\<close>

lemma field_failures_none:
  assumes "field_failures E L obj f w = (Inr [], w')" "\<not> skipped f (map_of obj (f_name f))" "(r, m) \<in> set (f_rules f)"
  shows "rule_holds E L obj r (map_of obj (f_name f)) w = (Inr True, w)"
proof -
  let ?v = "map_of obj (f_name f)"
  let ?g = "\<lambda>(r, m). bindE (rule_holds E L obj r ?v) (\<lambda>b. returnE (if b then [] else [(f_name f, r, rule_message L r m)]))"
  obtain ys where ys: "mapE ?g (f_rules f) w = (Inr ys, w')" "concat ys = []"
    using assms(1,2) by (auto simp: field_failures_def Let_def bindE_def returnE_def split: prod.splits sum.splits)
  have "readonly (?g x)" for x by (cases x) (simp add: readonly_bind readonly_rule_holds)
  from mapE_readonly_Inr [OF this ys(1)] have all: "list_all2 (\<lambda>x y. ?g x w = (Inr y, w)) (f_rules f) ys" by blast
  from list_all2_member [OF all assms(3)] obtain y where "y \<in> set ys" "?g (r, m) w = (Inr y, w)" by blast
  moreover have "y = []" using ys(2) calculation(1) by auto
  moreover have "snd (rule_holds E L obj r ?v w) = w" using readonly_rule_holds [of E L obj r ?v] by (simp add: readonly_def)
  ultimately show ?thesis
    by (auto simp: bindE_def returnE_def split: prod.splits sum.splits if_splits)
qed

lemma validation_pipe_Inr:
  assumes "validation_pipe E L flds body w = (Inr obj, w')"
  shows "w' = w" "obj = transform L flds body" "fst ` set obj \<subseteq> f_name ` set flds"
    and "f \<in> set flds \<Longrightarrow> (r, m) \<in> set (f_rules f) \<Longrightarrow> \<not> skipped f (map_of obj (f_name f)) \<Longrightarrow>
      rule_holds E L obj r (map_of obj (f_name f)) w = (Inr True, w)"
proof -
  show w: "w' = w" using readonly_validation_pipe assms by (metis readonly_def snd_conv)
  show obj: "obj = transform L flds body"
    using assms by (auto simp: validation_pipe_def Let_def bindE_def returnE_def throwE_def
        split: prod.splits sum.splits if_splits)
  have "dto_failures E L flds obj w = (Inr [], w)"
    using assms w unfolding obj
    by (auto simp: validation_pipe_def Let_def bindE_def returnE_def throwE_def split: prod.splits sum.splits if_splits)
  then obtain xs where xs: "mapE (field_failures E L obj) flds w = (Inr xs, w)" "unknown_failures flds obj = []"
    "concat xs = []"
    by (auto simp: dto_failures_def bindE_def returnE_def split: prod.splits sum.splits)
  show "fst ` set obj \<subseteq> f_name ` set flds"
    using xs(2) by (auto simp: unknown_failures_def filter_empty_conv)
  have all: "list_all2 (\<lambda>f y. field_failures E L obj f w = (Inr y, w)) flds xs"
    using mapE_readonly_Inr [OF readonly_field_failures xs(1)] by blast
  show "f \<in> set flds \<Longrightarrow> (r, m) \<in> set (f_rules f) \<Longrightarrow> \<not> skipped f (map_of obj (f_name f)) \<Longrightarrow>
      rule_holds E L obj r (map_of obj (f_name f)) w = (Inr True, w)"
  proof -
    assume f: "f \<in> set flds" "(r, m) \<in> set (f_rules f)" "\<not> skipped f (map_of obj (f_name f))"
    from list_all2_member [OF all f(1)] obtain y where "y \<in> set xs" "field_failures E L obj f w = (Inr y, w)" by blast
    moreover have "y = []" using xs(3) calculation(1) by auto
    ultimately show ?thesis using field_failures_none f(2,3) by blast
  qed
qed

lemma required_not_skipped [simp]: "\<not> skipped (required n t rs) v"
  by (simp add: skipped_def required_def)

lemma required_sel [simp]: "f_name (required n t rs) = n" "f_rules (required n t rs) = rs"
  "f_default (required n t rs) = None" "f_type (required n t rs) = t" "f_optional (required n t rs) = False"
  by (simp_all add: required_def)

lemma rule_holds_value [simp]:
  "(\<And>col. r \<noteq> IsUnique col) \<Longrightarrow> rule_holds E L obj r v w = (Inr (value_rule L r v), w)"
  by (cases r) (fastforce simp: rule_holds_def returnE_def)+

lemma validate_unique_True:
  assumes "validate_unique L col lookup (Some (JStr s)) w = (Inr True, w')" "s \<noteq> ''''"
  shows "lookup s (w_db w) = Inr False"
  using assms by (auto simp: validate_unique_def bindE_def returnE_def on_db_def zoomE_def readE_def split: sum.splits)

lemma ignore_id_absent:
  assumes "''id'' \<notin> fst ` set obj"
  shows "ignore_id None obj = None"
proof -
  have "map_of obj ''id'' = None" using assms by (simp only: map_of_eq_None_iff) simp
  then show ?thesis by (simp add: ignore_id_def or_else_def)
qed

end
