(* ===== verification/DtoProperties.thy ===== *)
theory DtoProperties imports Dto ControllerProperties begin

text \<open>
  What a validated request is: the policy on passwords, the typing of an accepted registration,
  the bounds of an accepted listing, and the reply to a body that is refused.
\<close>

section \<open>Passwords\<close>

definition password_char :: "char \<Rightarrow> bool" where
  "password_char c \<longleftrightarrow> upper_letter c \<or> lower_letter c \<or> digit_char c \<or> special_char c"

lemma password_char_dot: "password_char c \<Longrightarrow> dot c"
proof -
  assume c: "password_char c"
  have "\<not> password_char (CHR 0x0A)" "\<not> password_char (CHR 0x0D)"
    by (simp_all add: password_char_def upper_letter_def lower_letter_def digit_char_def special_char_def
        less_eq_char_def)
  with c show "dot c" by (auto simp: dot_def)
qed

lemma ahead_ends:
  "q \<in> set (ends (ahead P) (i, s)) \<longleftrightarrow> q = (i, s) \<and> (\<exists>k < length s. P (s ! k) \<and> (\<forall>c \<in> set (take k s). dot c))"
  by (simp only: ahead_def lookahead_somewhere)

lemma password_tail:
  "(\<exists>e. e \<in> set (ends (Seq (Repeat 8 password_char) End) (0, s))) \<longleftrightarrow> 8 \<le> length s \<and> list_all password_char s"
proof -
  have "(\<exists>e. e \<in> set (ends (Seq (Repeat 8 password_char) End) (0, s))) \<longleftrightarrow>
      (\<exists>j t. (j, t) \<in> set (ends (Repeat 8 password_char) (0, s)) \<and> t = [])"
    unfolding Seq_ends End_ends split_paired_Ex by auto
  also have "\<dots> \<longleftrightarrow> (\<exists>k. 8 \<le> k \<and> k \<le> length s \<and> drop k s = [] \<and> (\<forall>c \<in> set (take k s). password_char c))"
    unfolding Repeat_ends by auto
  also have "\<dots> \<longleftrightarrow> 8 \<le> length s \<and> list_all password_char s"
    by (auto simp: list_all_iff intro: exI [where x = "length s"])
  finally show ?thesis .
qed

lemma password_regex_iff:
  "regex_test password_regex s \<longleftrightarrow>
     8 \<le> length s \<and> list_all password_char s \<and> list_ex lower_letter s \<and> list_ex upper_letter s \<and>
     list_ex digit_char s \<and> list_ex special_char s"
proof -
  let ?tail = "Seq (Repeat 8 password_char) End"
  have r: "password_regex = Seq Begin (Seq (ahead lower_letter) (Seq (ahead upper_letter) (Seq (ahead digit_char)
      (Seq (ahead special_char) ?tail))))"
    by (simp only: password_regex_def password_char_def [abs_def])
  let ?some = "\<lambda>P. \<exists>k < length s. P (s ! k) \<and> (\<forall>c \<in> set (take k s). dot c)"
  have "regex_test password_regex s \<longleftrightarrow>
      ?some lower_letter \<and> ?some upper_letter \<and> ?some digit_char \<and> ?some special_char \<and>
      (\<exists>e. e \<in> set (ends ?tail (0, s)))"
    unfolding regex_test_iff r Seq_ends [of _ Begin] Seq_ends [of _ "ahead _"] Begin_ends
    by (auto simp del: Seq_ends simp: ahead_ends)
  moreover have "?some P \<longleftrightarrow> list_ex P s" if "list_all password_char s" for P
  proof -
    have "dot c" if "c \<in> set (take k s)" for c k
      using that \<open>list_all password_char s\<close> password_char_dot in_set_takeD by (fastforce simp: list_all_iff)
    then have "?some P \<longleftrightarrow> (\<exists>k < length s. P (s ! k))" by blast
    then show ?thesis by (simp add: list_ex_length)
  qed
  ultimately show ?thesis unfolding password_tail by blast
qed

text \<open>What the \<open>password_message\<close> of the rule and the description of the property say of a new password: at least
  eight characters, among them an upper case letter, a lower case letter, a number and a special
  character (no character is ruled out; the pattern's own class says what counts as special).\<close>

definition meets_message :: "string \<Rightarrow> bool" where
  "meets_message s \<longleftrightarrow> 8 \<le> length s \<and> list_ex upper_letter s \<and> list_ex lower_letter s \<and> list_ex digit_char s \<and>
     list_ex special_char s"

text \<open>C33. The pattern that activation and password reset demand of a new password is stricter than its
  message: it accepts exactly the passwords that meet the message (at least eight characters, an upper
  case and a lower case letter, a digit and one of \<^verbatim>\<open>@$!%*?&\<close>) and have no character beside
  letters of the English alphabet, digits and those special characters. So every accepted password
  meets the message, but a password that meets it is refused when any other character is added to it,
  such as a hash, a space, a hyphen or a letter with an accent.\<close>

theorem password_policy:
  "(regex_test password_regex s \<longleftrightarrow> meets_message s \<and> list_all password_char s) \<and>
   (\<not> password_char c \<and> meets_message (a @ b) \<longrightarrow>
      meets_message (a @ c # b) \<and> \<not> regex_test password_regex (a @ c # b))"
proof -
  have "list_ex P (a @ c # b)" if "list_ex P (a @ b)" for P :: "char \<Rightarrow> bool" using that by auto
  then show ?thesis by (auto simp: password_regex_iff meets_message_def)
qed

theorem password_policy_witness:
  "meets_message (''Passw0rd!'' @ [CHR ''#'']) \<and> \<not> regex_test password_regex (''Passw0rd!'' @ [CHR ''#'']) \<and>
   regex_test password_regex ''Passw0rd!''"
proof -
  have m: "meets_message ''Passw0rd!''" "list_all password_char ''Passw0rd!''" "\<not> password_char (CHR ''#'')" by code_simp+
  from password_policy [of "''Passw0rd!''" "CHR ''#''" "''Passw0rd!''" "[]"] m show ?thesis by simp
qed


section \<open>Stand-ins of the libraries\<close>

text \<open>The name of a rule in the maps of a \<open>ValidationError\<close>.\<close>

fun rule_name :: "rule \<Rightarrow> string" where
  "rule_name IsString = ''isString''"
| "rule_name IsNotEmpty = ''isNotEmpty''"
| "rule_name IsEmail = ''isEmail''"
| "rule_name (IsUUID n) = ''isUuid''"
| "rule_name (EachIsUUID n) = ''isUuid''"
| "rule_name IsArray = ''isArray''"
| "rule_name IsBoolean = ''isBoolean''"
| "rule_name IsInt = ''isInt''"
| "rule_name IsNumber = ''isNumber''"
| "rule_name (Min n) = ''min''"
| "rule_name (Max n) = ''max''"
| "rule_name (MinLength n) = ''minLength''"
| "rule_name (Matches r) = ''matches''"
| "rule_name (IsUnique col) = ''unique''"
| "rule_name Whitelisted = ''whitelistValidation''"

definition digits_value :: "string \<Rightarrow> int" where
  "digits_value s = foldl (\<lambda>n c. 10 * n + (of_char c - 48)) 0 s"

definition mem_convert :: "js_type \<Rightarrow> json \<Rightarrow> json" where
  "mem_convert t j = (case j of
       JStr s \<Rightarrow> if t = NumberT \<and> s \<noteq> '''' \<and> list_all digit_char s then JNum (digits_value s)
                 else if t = BooleanT then JBool (s \<noteq> '''') else JStr s
     | _ \<Rightarrow> j)"

definition mem_uuid :: "nat \<Rightarrow> string \<Rightarrow> bool" where
  "mem_uuid version s \<longleftrightarrow> length s = 36 \<and> s ! 14 = char_of (48 + version)"

definition mem_lib :: validation_lib where
  "mem_lib =
     \<lparr>lib_isEmail = (\<lambda>s. CHR ''@'' \<in> set s), lib_isUUID = mem_uuid, lib_convert = mem_convert,
      lib_message = rule_name,
      lib_errors = List.map (\<lambda>(n, r, m). VError
        (Some (case rule_code r of None \<Rightarrow> [] | Some c \<Rightarrow> [(rule_name r, Some c)])) (Some [(rule_name r, m)]) []),
      lib_lookup = (\<lambda>_ _. Inr False)\<rparr>"

section \<open>An accepted registration\<close>

text \<open>The rules that a class demands of a property.\<close>

definition demands :: "field list \<Rightarrow> string \<Rightarrow> rule \<Rightarrow> bool" where
  "demands flds name r \<longleftrightarrow> (\<exists>f \<in> set flds. f_name f = name \<and> \<not> f_optional f \<and> r \<in> fst ` set (f_rules f))"

lemma accepted_rule:
  assumes "validation_pipe E L flds body w = (Inr obj, w')" "demands flds name r"
  shows "rule_holds E L obj r (map_of obj name) w = (Inr True, w)"
proof -
  from assms(2) obtain f m where "f \<in> set flds" "(r, m) \<in> set (f_rules f)" "f_name f = name" "\<not> f_optional f"
    by (auto simp: demands_def)
  then show ?thesis using validation_pipe_Inr(4) [OF assms(1), of f r m] by (simp add: skipped_def)
qed

lemma accepted_value:
  assumes "validation_pipe E L flds body w = (Inr obj, w')" "demands flds name r" "\<And>col. r \<noteq> IsUnique col"
  shows "value_rule L r (map_of obj name)"
  using accepted_rule [OF assms(1,2)] assms(3) by simp

lemma unique_email_free:
  assumes "orm_laws (users_orm E) U" "rule_holds E L obj (IsUnique UniqueEmail) (Some (JStr s)) w = (Inr True, w')"
    and "s \<noteq> ''''" "''id'' \<notin> fst ` set obj" "u \<in> rows U (w_db w)"
  shows "u_email u \<noteq> s"
proof -
  have "orm_exists (users_orm E) (\<lambda>u. u_email u = s \<and> not_ignored (ignore_id None obj) (u_id u)) (w_db w) = Inr False"
    using assms(2,3) by (intro validate_unique_True) (simp_all add: rule_holds_def IsUniqueEmail_validate_def)
  from exists_law(1) [OF assms(1) this] assms(5) show ?thesis
    by (auto simp: ignore_id_absent [OF assms(4)] not_ignored_def)
qed

lemma unique_person_free:
  assumes "orm_laws (users_orm E) U" "rule_holds E L obj (IsUnique UniquePerson) (Some (JStr s)) w = (Inr True, w')"
    and "s \<noteq> ''''" "''id'' \<notin> fst ` set obj" "u \<in> rows U (w_db w)"
  shows "u_person_id u \<noteq> s"
proof -
  have "orm_exists (users_orm E) (\<lambda>u. u_person_id u = s \<and> not_ignored (ignore_id None obj) (u_id u)) (w_db w) = Inr False"
    using assms(2,3) by (intro validate_unique_True) (simp_all add: rule_holds_def IsUniquePerson_validate_def)
  from exists_law(1) [OF assms(1) this] assms(5) show ?thesis
    by (auto simp: ignore_id_absent [OF assms(4)] not_ignored_def)
qed

lemma all_texts:
  assumes "list_all (\<lambda>x. on_text P (Some x)) xs"
  shows "\<exists>ids. xs = List.map JStr ids \<and> list_all P ids"
  using assms
proof (induction xs)
  case (Cons x xs)
  then obtain s ids where "x = JStr s" "P s" "xs = List.map JStr ids" "list_all P ids" by (auto simp: on_text_iff)
  then show ?case by (intro exI [where x = "s # ids"]) simp
qed simp

text \<open>C34. A registration that passes the validation pipe is well typed: the body has the three
  properties of \<open>RegisterUserDTO\<close> and no other; the e-mail is a text that is not empty, the person
  a UUID of version 7, the roles a list of UUIDs of version 4; no user of the database has this
  e-mail or this person; the service receives these values and the validation changed nothing.\<close>

theorem accepted_registration_typed:
  assumes "orm_laws (users_orm E) U" "validation_pipe E L RegisterUserDTO body w = (Inr obj, w')"
  shows "\<exists>email person ids. fst ` set obj = {''email'', ''person_id'', ''rolesIds''} \<and>
     map_of obj ''email'' = Some (JStr email) \<and> map_of obj ''person_id'' = Some (JStr person) \<and>
     map_of obj ''rolesIds'' = Some (JArr (List.map JStr ids)) \<and>
     email \<noteq> '''' \<and> lib_isUUID L 7 person \<and> list_all (lib_isUUID L 4) ids \<and>
     {u \<in> rows U (w_db w). u_email u = email \<or> u_person_id u = person} = {} \<and>
     register_dto_of obj = \<lparr>dto_email = email, dto_person_id = person, dto_rolesIds = ids\<rparr> \<and> w' = w"
proof -
  note ok = assms(2) and rule = accepted_rule [OF assms(2)] and val = accepted_value [OF assms(2)]
  note flds = RegisterUserDTO_def
  have names: "fst ` set obj \<subseteq> {''email'', ''person_id'', ''rolesIds''}" and same: "w' = w"
    using validation_pipe_Inr(1,3) [OF ok] by (auto simp: RegisterUserDTO_def)
  then have no_id: "''id'' \<notin> fst ` set obj" by auto
  have "value_rule L IsString (map_of obj ''email'')" by (rule val) (simp_all add: demands_def flds)
  moreover have "value_rule L IsNotEmpty (map_of obj ''email'')" by (rule val) (simp_all add: demands_def flds)
  ultimately obtain email where email: "map_of obj ''email'' = Some (JStr email)" "email \<noteq> ''''" by (auto simp: on_text_iff)
  have "value_rule L (IsUUID 7) (map_of obj ''person_id'')" by (rule val) (simp_all add: demands_def flds)
  moreover have "value_rule L IsNotEmpty (map_of obj ''person_id'')" by (rule val) (simp_all add: demands_def flds)
  ultimately obtain person where person: "map_of obj ''person_id'' = Some (JStr person)" "person \<noteq> ''''" "lib_isUUID L 7 person"
    by (auto simp: on_text_iff)
  have "value_rule L (EachIsUUID 4) (map_of obj ''rolesIds'')"
    by (rule val) (simp_all add: demands_def flds)
  then obtain ids where ids: "map_of obj ''rolesIds'' = Some (JArr (List.map JStr ids))" "list_all (lib_isUUID L 4) ids"
    by (auto simp: on_array_iff dest!: all_texts)
  have "rule_holds E L obj (IsUnique UniqueEmail) (map_of obj ''email'') w = (Inr True, w)"
    by (rule rule) (simp_all add: demands_def flds)
  moreover have "rule_holds E L obj (IsUnique UniquePerson) (map_of obj ''person_id'') w = (Inr True, w)"
    by (rule rule) (simp_all add: demands_def flds)
  ultimately have free: "u_email u \<noteq> email" "u_person_id u \<noteq> person" if "u \<in> rows U (w_db w)" for u
    using unique_email_free [OF assms(1) _ email(2) no_id that] unique_person_free [OF assms(1) _ person(2) no_id that]
      email(1) person(1) by simp_all
  have "{''email'', ''person_id'', ''rolesIds''} \<subseteq> fst ` set obj"
    using map_of_SomeD [OF email(1)] map_of_SomeD [OF person(1)] map_of_SomeD [OF ids(1)] by force
  with names have names: "fst ` set obj = {''email'', ''person_id'', ''rolesIds''}" by (rule subset_antisym)
  have dto: "register_dto_of obj = \<lparr>dto_email = email, dto_person_id = person, dto_rolesIds = ids\<rparr>"
    by (simp add: register_dto_of_def str_prop_def strs_prop_def email(1) person(1) ids(1) comp_def)
  have none: "{u \<in> rows U (w_db w). u_email u = email \<or> u_person_id u = person} = {}" using free by blast
  show ?thesis by (intro exI conjI) (fact names email person ids none dto same)+
qed


definition body_eve :: props where
  "body_eve = [(''email'', JStr ''eve''), (''person_id'', JStr ''018f0000-0000-7000-8000-000000000001''),
     (''rolesIds'', JArr [JStr ''550e8400-e29b-41d4-a716-446655440000''])]"

lemma accepted_eve: "validation_pipe mem_env mem_lib RegisterUserDTO body_eve world0 = (Inr body_eve, world0)"
proof -
  have "fst (validation_pipe mem_env mem_lib RegisterUserDTO body_eve world0) = Inr body_eve" by code_simp
  then show ?thesis using readonly_validation_pipe by (metis prod.collapse readonly_def)
qed

theorem accepted_registration_typed_witness:
  "\<exists>email person ids. map_of body_eve ''email'' = Some (JStr email) \<and>
     register_dto_of body_eve = \<lparr>dto_email = email, dto_person_id = person, dto_rolesIds = ids\<rparr> \<and>
     {u \<in> rows mem_users (w_db world0). u_email u = email \<or> u_person_id u = person} = {}"
  using accepted_registration_typed [OF mem_env_laws(1) accepted_eve]
  by (elim exE conjE) (intro exI conjI; assumption)


section \<open>An accepted listing\<close>

lemma map_of_transformed:
  "map_of (List.map (\<lambda>(k, v). (k, g k v)) xs) n = map_option (g n) (map_of xs n)"
  by (induction xs) auto

lemma map_of_transform:
  assumes "map_of body n = Some v" "map_of (List.map (\<lambda>f. (f_name f, f_type f)) flds) n = Some t"
  shows "map_of (transform L flds body) n = Some (lib_convert L t v)"
  using assms
  by (simp add: transform_def map_add_Some_iff map_of_transformed
      [of "\<lambda>k v. case map_of (List.map (\<lambda>f. (f_name f, f_type f)) flds) k of Some t \<Rightarrow> lib_convert L t v | None \<Rightarrow> v"])

lemma map_of_transform_default:
  assumes "map_of body n = None"
  shows "map_of (transform L flds body) n = map_of (concat (List.map (\<lambda>f. case f_default f of
      Some v \<Rightarrow> if map_of body (f_name f) = None then [(f_name f, v)] else [] | None \<Rightarrow> []) flds)) n"
  using assms
  by (simp add: transform_def map_add_def map_of_transformed
      [of "\<lambda>k v. case map_of (List.map (\<lambda>f. (f_name f, f_type f)) flds) k of Some t \<Rightarrow> lib_convert L t v | None \<Rightarrow> v"])

text \<open>\<open>Number\<close> never gives \<open>null\<close>, and a query has texts only.\<close>

definition number_laws :: "validation_lib \<Rightarrow> bool" where
  "number_laws L \<longleftrightarrow> (\<forall>s. lib_convert L NumberT (JStr s) \<noteq> JNull)"

definition query_body :: "(string \<times> string) list \<Rightarrow> props" where
  "query_body q = List.map (\<lambda>(k, v). (k, JStr v)) q"

lemma map_of_query: "map_of (query_body q) n = map_option JStr (map_of q n)"
  by (simp add: query_body_def map_of_transformed)

lemma query_property:
  assumes "number_laws L" "n = ''page'' \<or> n = ''limit''"
  shows "\<exists>j. map_of (transform L PaginationQueryFields (query_body q)) n = Some j \<and> j \<noteq> JNull"
proof (cases "map_of q n")
  case None
  then have "map_of (query_body q) n = None" by (simp add: map_of_query)
  from map_of_transform_default [OF this] this assms(2) show ?thesis by (auto simp: PaginationQueryFields_def)
next
  case (Some s)
  then have "map_of (query_body q) n = Some (JStr s)" by (simp add: map_of_query)
  from map_of_transform [OF this, of PaginationQueryFields NumberT] assms show ?thesis
    by (auto simp: PaginationQueryFields_def number_laws_def)
qed

lemma accepted_number:
  assumes "number_laws L" "validation_pipe E L PaginationQueryFields (query_body q) w = (Inr obj, w')"
    and "f \<in> set PaginationQueryFields" "r \<in> fst ` set (f_rules f)"
  shows "value_rule L r (map_of obj (f_name f))"
proof -
  have n: "f_name f = ''page'' \<or> f_name f = ''limit''" "\<And>col. r \<noteq> IsUnique col"
    using assms(3,4) by (auto simp: PaginationQueryFields_def)
  obtain m where "(r, m) \<in> set (f_rules f)" using assms(4) by auto
  moreover have "\<not> skipped f (map_of obj (f_name f))"
    using query_property [OF assms(1) n(1), of q] validation_pipe_Inr(2) [OF assms(2)] by (auto simp: skipped_def)
  ultimately have "rule_holds E L obj r (map_of obj (f_name f)) w = (Inr True, w)"
    by (rule validation_pipe_Inr(4) [OF assms(2,3)])
  then show ?thesis unfolding rule_holds_value [OF n(2)] by simp
qed

lemma accepted_query:
  assumes "number_laws L" "validation_pipe E L PaginationQueryFields (query_body q) w = (Inr obj, w')"
  shows "valid_query (pagination_of obj)"
proof -
  note ok = accepted_number [OF assms]
  have "value_rule L (Min 1) (map_of obj ''page'')" "value_rule L (Min 1) (map_of obj ''limit'')"
    "value_rule L (Max 100) (map_of obj ''limit'')"
    using ok [of "PaginationQueryFields ! 0" "Min 1"] ok [of "PaginationQueryFields ! 1" "Min 1"]
      ok [of "PaginationQueryFields ! 1" "Max 100"] by (simp_all add: PaginationQueryFields_def)
  then show ?thesis
    by (auto simp: on_number_iff valid_query_def pagination_of_def num_prop_def)
qed

text \<open>C35. The bounds of a listing: whatever the texts of \<open>page\<close> and \<open>limit\<close> in the query, if the pipe
  accepts them then \<open>findAll\<close> of the users answers with a page numbered from 1 and at most 100 rows,
  its \<open>limit\<close> included, and a client that asks with this limit for each page up to \<open>totalPages\<close>
  receives every user of the database exactly once and as many as \<open>total\<close> says.\<close>

theorem accepted_listing_bounded:
  assumes "number_laws L" "validation_pipe E L PaginationQueryFields (query_body q) w = (Inr obj, w')"
    and "users_listing (E, T) w"
  shows "\<exists>p rows_of_pages. users_findAll E (pagination_of obj) w = (Inr p, w) \<and>
     1 \<le> pg_page p \<and> 1 \<le> pg_limit p \<and> pg_limit p \<le> 100 \<and> length (pg_data p) \<le> nat (pg_limit p) \<and>
     rows_of_pages = concat (List.map (\<lambda>i. user_pages.page_data (E, T) (pg_limit p) w (int i + 1))
       [0..<nat (pg_totalPages p)]) \<and>
     set rows_of_pages = loadOriginalPassword ` rows T (w_db w) \<and> distinct rows_of_pages \<and>
     length rows_of_pages = pg_total p"
proof -
  let ?q = "pagination_of obj"
  have v: "1 \<le> q_page ?q" "1 \<le> q_limit ?q" "q_limit ?q \<le> 100"
    using accepted_query [OF assms(1,2)] by (simp_all add: valid_query_def)
  let ?one = "\<lparr>q_page = 1, q_limit = q_limit ?q\<rparr>"
  obtain p where p: "users_findAll E ?q w = (Inr p, w)" "pg_page p = q_page ?q" "pg_limit p = q_limit ?q"
    using users_findAll_run [OF assms(3) v(1,2)] by (auto simp: PaginatedResponseDto_def)
  obtain p1 where p1: "users_findAll E ?one w = (Inr p1, w)"
    using users_findAll_run [OF assms(3), of ?one] v(2) by auto
  have same: "pg_totalPages p1 = pg_totalPages p" "pg_total p1 = pg_total p"
    using users_findAll_run [OF assms(3) v(1,2)] users_findAll_run [OF assms(3), of ?one] v(2) p(1) p1
    by (auto simp: PaginatedResponseDto_def)
  note walk = user_pages.walk_all_pages [OF assms(3) v(2), of p1 w, unfolded fst_conv snd_conv, OF p1 refl]
  have "length (pg_data p) \<le> nat (q_limit ?q)"
    using user_pages.page_bounds(1) [OF assms(3) v(1,2), of p w] p(1) by simp
  with v p walk show ?thesis unfolding same by (intro exI [where x = p] exI conjI) auto
qed


lemma mem_number_laws: "number_laws mem_lib"
  by (simp add: number_laws_def mem_lib_def mem_convert_def)

theorem accepted_listing_bounded_witness:
  "\<exists>obj p. validation_pipe mem_env mem_lib PaginationQueryFields (query_body [(''limit'', ''50'')]) world0 =
       (Inr obj, world0) \<and>
     users_findAll mem_env (pagination_of obj) world0 = (Inr p, world0) \<and> pg_limit p \<le> 100"
proof -
  have "fst (validation_pipe mem_env mem_lib PaginationQueryFields (query_body [(''limit'', ''50'')]) world0) =
      Inr [(''limit'', JNum 50), (''page'', JNum 1)]" by code_simp
  then obtain obj where obj: "validation_pipe mem_env mem_lib PaginationQueryFields
      (query_body [(''limit'', ''50'')]) world0 = (Inr obj, world0)"
    using readonly_validation_pipe by (metis prod.collapse readonly_def)
  have "users_listing (mem_env, mem_users) world0"
    by (rule world0_users_listing) (simp add: world0_def)
  from accepted_listing_bounded [OF mem_number_laws obj this] obtain p where
    "users_findAll mem_env (pagination_of obj) world0 = (Inr p, world0)" "pg_limit p \<le> 100" by blast
  with obj show ?thesis by blast
qed

section \<open>A body that is refused\<close>

text \<open>
  What the documentation of class-validator says of the errors it gives for failed rules of a flat
  class: nothing is nested, messages and codes are those of failed rules, and no failure goes
  without a message, no failed rule with a code without a code.
\<close>

definition errors_laws :: "validation_lib \<Rightarrow> bool" where
  "errors_laws L \<longleftrightarrow> (\<forall>failures.
     (\<forall>e \<in> set (lib_errors L failures). v_children e = [] \<and> v_constraints e \<noteq> [] \<and>
        (\<forall>k m. (k, m) \<in> set (v_constraints e) \<longrightarrow> k \<noteq> '''' \<and> m \<in> (snd \<circ> snd) ` set failures) \<and>
        (\<forall>k c. (k, c) \<in> set (v_contexts e) \<longrightarrow> c \<in> rule_code ` (fst \<circ> snd) ` set failures)) \<and>
     (failures \<noteq> [] \<longrightarrow> lib_errors L failures \<noteq> []) \<and>
     ((\<exists>r \<in> (fst \<circ> snd) ` set failures. rule_code r \<noteq> None) \<longrightarrow>
        (\<exists>e \<in> set (lib_errors L failures). \<exists>k c. (k, Some c) \<in> set (v_contexts e))))"

lemma errors_lawsD:
  assumes "errors_laws L"
  shows "e \<in> set (lib_errors L fs) \<Longrightarrow> v_children e = []"
    and "e \<in> set (lib_errors L fs) \<Longrightarrow> v_constraints e \<noteq> []"
    and "e \<in> set (lib_errors L fs) \<Longrightarrow> (k, m) \<in> set (v_constraints e) \<Longrightarrow> k \<noteq> '''' \<and> m \<in> (snd \<circ> snd) ` set fs"
    and "e \<in> set (lib_errors L fs) \<Longrightarrow> (k, c) \<in> set (v_contexts e) \<Longrightarrow> c \<in> rule_code ` (fst \<circ> snd) ` set fs"
    and "fs \<noteq> [] \<Longrightarrow> lib_errors L fs \<noteq> []"
    and "\<exists>r \<in> (fst \<circ> snd) ` set fs. rule_code r \<noteq> None \<Longrightarrow>
      \<exists>e \<in> set (lib_errors L fs). \<exists>k c. (k, Some c) \<in> set (v_contexts e)"
proof -
  note l = assms [unfolded errors_laws_def, THEN spec [where x = fs]]
  note a = l [THEN conjunct1, THEN bspec]
  note b = a [THEN conjunct2, THEN conjunct2]
  show "e \<in> set (lib_errors L fs) \<Longrightarrow> v_children e = []" by (rule a [THEN conjunct1])
  show "e \<in> set (lib_errors L fs) \<Longrightarrow> v_constraints e \<noteq> []" by (rule a [THEN conjunct2, THEN conjunct1])
  show "e \<in> set (lib_errors L fs) \<Longrightarrow> (k, m) \<in> set (v_constraints e) \<Longrightarrow> k \<noteq> '''' \<and> m \<in> (snd \<circ> snd) ` set fs"
    by (rule b [THEN conjunct1, THEN spec, THEN spec, THEN mp])
  show "e \<in> set (lib_errors L fs) \<Longrightarrow> (k, c) \<in> set (v_contexts e) \<Longrightarrow> c \<in> rule_code ` (fst \<circ> snd) ` set fs"
    by (rule b [THEN conjunct2, THEN spec, THEN spec, THEN mp])
  show "fs \<noteq> [] \<Longrightarrow> lib_errors L fs \<noteq> []" by (rule l [THEN conjunct2, THEN conjunct1, THEN mp])
  show "\<exists>r \<in> (fst \<circ> snd) ` set fs. rule_code r \<noteq> None \<Longrightarrow>
      \<exists>e \<in> set (lib_errors L fs). \<exists>k c. (k, Some c) \<in> set (v_contexts e)"
    by (rule l [THEN conjunct2, THEN conjunct2, THEN mp])
qed

lemma rule_name_nonempty: "rule_name r \<noteq> ''''"
  by (cases r) simp_all

lemma mem_errors_laws: "errors_laws mem_lib"
proof -
  let ?e = "\<lambda>(n :: string, r, m). VError
    (Some (case rule_code r of None \<Rightarrow> [] | Some c \<Rightarrow> [(rule_name r, Some c)])) (Some [(rule_name r, m)]) []"
  have lib: "lib_errors mem_lib fs = List.map ?e fs" for fs by (simp add: mem_lib_def)
  have one: "\<exists>e \<in> set (lib_errors mem_lib fs). \<exists>k c. (k, Some c) \<in> set (v_contexts e)"
    if "(n, r, m) \<in> set fs" "rule_code r = Some c" for fs n r m c
  proof (rule bexI)
    show "?e (n, r, m) \<in> set (lib_errors mem_lib fs)" using that(1) by (force simp: lib)
    show "\<exists>k c. (k, Some c) \<in> set (v_contexts (?e (n, r, m)))" using that(2) by simp
  qed
  then have codes: "\<exists>e \<in> set (lib_errors mem_lib fs). \<exists>k c. (k, Some c) \<in> set (v_contexts e)"
    if "\<exists>r \<in> (fst \<circ> snd) ` set fs. rule_code r \<noteq> None" for fs
  proof -
    from that obtain f where f: "f \<in> set fs" "rule_code (fst (snd f)) \<noteq> None" by auto
    then obtain c where "rule_code (fst (snd f)) = Some c" by blast
    with one [of "fst f" "fst (snd f)" "snd (snd f)" fs c] f(1) show ?thesis by simp
  qed
  have each: "v_children e = [] \<and> v_constraints e \<noteq> [] \<and>
      (\<forall>k m. (k, m) \<in> set (v_constraints e) \<longrightarrow> k \<noteq> '''' \<and> m \<in> (snd \<circ> snd) ` set fs) \<and>
      (\<forall>k c. (k, c) \<in> set (v_contexts e) \<longrightarrow> c \<in> rule_code ` (fst \<circ> snd) ` set fs)"
    if e: "e \<in> set (lib_errors mem_lib fs)" for e fs
  proof -
    obtain n r m where f: "(n, r, m) \<in> set fs" "e = ?e (n, r, m)" using e by (auto simp: lib)
    then have "m \<in> (snd \<circ> snd) ` set fs" "r \<in> (fst \<circ> snd) ` set fs" by force+
    then show ?thesis unfolding f(2) using rule_name_nonempty [of r]
      by (auto split: option.splits dest: sym)
  qed
  show ?thesis unfolding errors_laws_def using each codes by (auto simp: lib)
qed

lemma unique_code_nonempty: "unique_code col \<noteq> ''''"
  by (cases col) (simp_all add: IsUniqueEmail_errorCode_def IsUniquePerson_errorCode_def
      IsUniquePermissionCode_errorCode_def IsUniqueRoleName_errorCode_def IsUniqueEndpointKeyName_errorCode_def)

lemma rule_code_nonempty: "rule_code r = Some c \<Longrightarrow> c \<noteq> ''''"
  by (auto simp: rule_code_def unique_code_nonempty split: rule.splits)

lemma first_some_flat:
  assumes "\<And>e. e \<in> set es \<Longrightarrow> v_children e = []"
  shows "search_errors f es = first_some f es"
proof (cases es)
  case (Cons e xs)
  have "concat (List.map v_children es) = []" using assms by simp
  with Cons show ?thesis by (simp add: search_errors_level_order del: concat_eq_Nil_conv)
qed simp

lemma first_some_None: "first_some f xs = None \<longleftrightarrow> (\<forall>x \<in> set xs. f x = None)"
  by (induction xs) (auto split: option.splits)

lemma first_some_SomeD: "first_some f xs = Some y \<Longrightarrow> \<exists>x \<in> set xs. f x = Some y"
  by (induction xs) (auto split: option.splits)

lemma first_code_Some: "first_code xs = Some c \<Longrightarrow> \<exists>k. (k, Some c) \<in> set xs"
  by (induction xs rule: first_code.induct) (auto split: if_splits)

lemma first_code_None: "first_code xs = None \<Longrightarrow> (k, Some c) \<in> set xs \<Longrightarrow> c = ''''"
  by (induction xs rule: first_code.induct) (auto split: if_splits)

lemma found_message:
  assumes "errors_laws L" "failures \<noteq> []"
  shows "findFirstMessage (lib_errors L failures) \<in> (snd \<circ> snd) ` set failures"
proof -
  note law = errors_lawsD [OF assms(1), where fs = failures]
  let ?f = "\<lambda>e. first_message (v_constraints e)"
  let ?es = "lib_errors L failures"
  have some: "\<exists>m. ?f e = Some m \<and> m \<in> (snd \<circ> snd) ` set failures" if e: "e \<in> set ?es" for e
  proof -
    obtain k m xs where v: "v_constraints e = (k, m) # xs" using law(2) [OF e] by (metis list.exhaust prod.exhaust)
    then have "(k, m) \<in> set (v_constraints e)" by simp
    then have "k \<noteq> '''' \<and> m \<in> (snd \<circ> snd) ` set failures" by (rule law(3) [OF e])
    with v show ?thesis by (simp add: first_message_def)
  qed
  obtain e where "e \<in> set ?es" using law(5) [OF assms(2)] by (cases ?es) auto
  with some have "first_some ?f ?es \<noteq> None" unfolding first_some_None by fastforce
  then obtain m where m: "first_some ?f ?es = Some m" by blast
  moreover have "m \<in> (snd \<circ> snd) ` set failures"
  proof -
    obtain e' where e': "e' \<in> set ?es" "?f e' = Some m" using first_some_SomeD [OF m] by blast
    from some [OF e'(1)] e'(2) show ?thesis by simp
  qed
  ultimately show ?thesis using first_some_flat [of ?es ?f] law(1) by (simp add: findFirstMessage_def)
qed

lemma found_code:
  assumes "errors_laws L"
  shows "findFirstErrorCode (lib_errors L failures) = Some c \<Longrightarrow> Some c \<in> rule_code ` (fst \<circ> snd) ` set failures"
    and "findFirstErrorCode (lib_errors L failures) = None \<Longrightarrow> list_all (\<lambda>f. rule_code (fst (snd f)) = None) failures"
proof -
  note law = errors_lawsD [OF assms, where fs = failures]
  let ?f = "\<lambda>e. first_code (v_contexts e)"
  let ?es = "lib_errors L failures"
  have flat: "findFirstErrorCode ?es = first_some ?f ?es"
    unfolding findFirstErrorCode_def using law(1) by (rule first_some_flat)
  show "Some c \<in> rule_code ` (fst \<circ> snd) ` set failures" if c: "findFirstErrorCode ?es = Some c"
  proof -
    obtain e where e: "e \<in> set ?es" "first_code (v_contexts e) = Some c"
      using first_some_SomeD [OF c [unfolded flat]] by blast
    obtain k where "(k, Some c) \<in> set (v_contexts e)" using first_code_Some [OF e(2)] by blast
    then show ?thesis by (rule law(4) [OF e(1)])
  qed
  show "list_all (\<lambda>f. rule_code (fst (snd f)) = None) failures" if n: "findFirstErrorCode ?es = None"
  proof (rule ccontr)
    assume "\<not> ?thesis"
    then have "\<exists>r \<in> (fst \<circ> snd) ` set failures. rule_code r \<noteq> None" by (auto simp: list_all_iff)
    from law(6) [OF this] obtain e k c where e: "e \<in> set ?es" "(k, Some c) \<in> set (v_contexts e)" by blast
    from law(4) [OF e] obtain r where "rule_code r = Some c" by (metis imageE)
    from rule_code_nonempty [OF this] have "c \<noteq> ''''" .
    moreover have "first_code (v_contexts e) = None" using n e(1) unfolding flat first_some_None by blast
    ultimately show False using first_code_None e(2) by blast
  qed
qed

lemma factory_reply:
  assumes "findFirstErrorCode es \<noteq> Some ''''"
  shows "er_statusCode (catch_exception now url (exceptionFactory es)) = 400"
    and "er_path (catch_exception now url (exceptionFactory es)) = url"
    and "er_message (catch_exception now url (exceptionFactory es)) = findFirstMessage es"
    and "er_errorCode (catch_exception now url (exceptionFactory es)) =
      (case findFirstErrorCode es of Some c \<Rightarrow> c | None \<Rightarrow> ''VALIDATION_ERROR'')"
    and "filter_status (exceptionFactory es) = 400"
proof -
  let ?e = "exceptionFactory es"
  have e: "is_http ?e" "is_error ?e" "error_cause ?e = None" "extractMessage ?e = findFirstMessage es"
    "filter_status ?e = 400"
    by (simp_all add: exceptionFactory_def Let_def filter_status_def status_or_def error_cause_def)
  then have "getDeepestHttpExceptionMessage ?e = findFirstMessage es"
    using getDeepestHttpExceptionMessage_wrapped [of ?e "[]"] by simp
  with e show "er_statusCode (catch_exception now url ?e) = 400" "er_path (catch_exception now url ?e) = url"
    "er_message (catch_exception now url ?e) = findFirstMessage es" "filter_status ?e = 400"
    by (simp_all add: catch_exception_def Let_def)
  show "er_errorCode (catch_exception now url ?e) =
      (case findFirstErrorCode es of Some c \<Rightarrow> c | None \<Rightarrow> ''VALIDATION_ERROR'')"
    using assms by (auto simp: catch_exception_def Let_def exceptionFactory_def split: option.splits)
qed

lemma refused_body:
  assumes "errors_laws L" "run_guard E ep req (w, in_context) = (Inr True, w', r')"
    and "dto_failures E L flds (transform L flds body) w' = (Inr failures, w'')" "failures \<noteq> []"
  shows "\<exists>b. serve E ep url req (with_body E L flds body m) w =
       (\<lparr>re_status = 400, re_body = Failure b, re_cookies = []\<rparr>, w') \<and>
     er_statusCode b = 400 \<and> er_path b = url \<and> er_message b \<in> (snd \<circ> snd) ` set failures \<and>
     (if list_ex (\<lambda>(n, r, m). rule_code r \<noteq> None) failures
      then Some (er_errorCode b) \<in> rule_code ` (fst \<circ> snd) ` set failures
      else er_errorCode b = ''VALIDATION_ERROR'')"
proof -
  have same: "w'' = w'" using readonly_dto_failures assms(3) by (metis readonly_def snd_conv)
  let ?es = "lib_errors L failures"
  have "validation_pipe E L flds body w' = (Inl (exceptionFactory ?es), w')"
    using assms(3,4) same by (simp add: validation_pipe_def Let_def bindE_def throwE_def)
  then have "with_body E L flds body m ((w', []), r') = (Inl (exceptionFactory ?es), ((w', []), r'))"
    by (simp add: with_body_def bindE_def services_run)
  then have reply: "serve E ep url req (with_body E L flds body m) w = (failure_reply E (w_now w') url (exceptionFactory ?es) [], w')"
    using serve_admitted [OF assms(2)] by (simp add: send_reply_def)
  let ?b = "catch_exception (toISOString E (w_now w')) url (exceptionFactory ?es)"
  let ?code = "case findFirstErrorCode ?es of Some c \<Rightarrow> c | None \<Rightarrow> ''VALIDATION_ERROR''"
  note code = found_code(1) [OF assms(1)]
  have "findFirstErrorCode ?es \<noteq> Some ''''" using code rule_code_nonempty by (metis imageE)
  note b = factory_reply [OF this]
  have choice: "if list_ex (\<lambda>(n, r, m). rule_code r \<noteq> None) failures
      then Some (er_errorCode ?b) \<in> rule_code ` (fst \<circ> snd) ` set failures else er_errorCode ?b = ''VALIDATION_ERROR''"
  proof (cases "findFirstErrorCode ?es")
    case None
    then show ?thesis using found_code(2) [OF assms(1) None] by (auto simp: b(4) list_all_iff list_ex_iff)
  next
    case (Some c)
    from code [OF Some] obtain f where f: "f \<in> set failures" "rule_code (fst (snd f)) = Some c" by auto
    then have "list_ex (\<lambda>(n, r, m). rule_code r \<noteq> None) failures" by (auto simp: list_ex_iff split_beta)
    with code [OF Some] Some show ?thesis by (simp add: b(4))
  qed
  have message: "er_message ?b \<in> (snd \<circ> snd) ` set failures" unfolding b(3) by (rule found_message [OF assms(1,4)])
  show ?thesis by (intro exI conjI) (fact reply [unfolded failure_reply_def b(5)] b(1,2) message choice)+
qed


lemma open_guard: "ep_guard ep = Unguarded \<Longrightarrow> run_guard E ep req (w, in_context) = (Inr True, w, in_context)"
  by (simp add: run_guard_def returnE_def)

text \<open>A body that fails its rules never reaches the method: the reply is the filter's 400 for the
  request's path, no cookie is set and the world is as the guard left it. Its message is one of the
  messages of the failed rules. Its error code is the one a failed uniqueness rule carries, if there
  is such a rule, whatever else failed, and \<open>VALIDATION_ERROR\<close> otherwise.\<close>

lemma refused_body_reply:
  assumes "errors_laws L" "run_guard E ep req (w, in_context) = (Inr True, w', r')"
    and "dto_failures E L flds (transform L flds body) w' = (Inr failures, w'')" "failures \<noteq> []"
  shows "\<exists>b. serve E ep url req (with_body E L flds body m) w =
       (\<lparr>re_status = 400, re_body = Failure b, re_cookies = []\<rparr>, w') \<and>
     er_statusCode b = 400 \<and> er_path b = url \<and> er_message b \<in> (snd \<circ> snd) ` set failures \<and>
     (if list_ex (\<lambda>(n, r, m). rule_code r \<noteq> None) failures
      then Some (er_errorCode b) \<in> rule_code ` (fst \<circ> snd) ` set failures
      else er_errorCode b = ''VALIDATION_ERROR'')"
  using assms by (rule refused_body)

lemma refused_body_reply_example:
  "\<exists>b. serve mem_env ep_users_resetPassword ''/users/reset-password'' request_anonymous
       (with_body mem_env mem_lib ResetPasswordDTO [(''password'', JStr ''weak'')]
          (\<lambda>dto. UsersController_resetPassword mem_env ''t'' (str_prop dto ''password''))) world0 =
     (\<lparr>re_status = 400, re_body = Failure b, re_cookies = []\<rparr>, world0)"
proof -
  let ?f = "dto_failures mem_env mem_lib ResetPasswordDTO
    (transform mem_lib ResetPasswordDTO [(''password'', JStr ''weak'')])"
  have "(case fst (?f world0) of Inr (x # xs) \<Rightarrow> True | _ \<Rightarrow> False)" by code_simp
  then obtain failures w' where "?f world0 = (Inr failures, w')" "failures \<noteq> []"
    by (cases "?f world0") (auto split: sum.splits list.splits)
  moreover have "run_guard mem_env ep_users_resetPassword request_anonymous (world0, in_context) =
      (Inr True, world0, in_context)"
    by (rule open_guard) (simp add: ep_users_resetPassword_def endpoint_def)
  ultimately show ?thesis using refused_body_reply [OF mem_errors_laws] by blast
qed

section \<open>An edit that keeps the name\<close>

lemma role_name_taken:
  assumes "orm_laws (roles_orm E) R" "answers R (w_db w)" "r \<in> rows R (w_db w)" "r_name r \<noteq> ''''"
    and "''id'' \<notin> fst ` set obj"
  shows "rule_holds E L obj (IsUnique UniqueRoleName) (Some (JStr (r_name r))) w = (Inr False, w)"
proof -
  let ?p = "\<lambda>x. r_name x = r_name r \<and> not_ignored (ignore_id None obj) (r_id x)"
  have "orm_exists (roles_orm E) ?p (w_db w) = Inr True"
    using exists_law [OF assms(1), of ?p "w_db w"] assms(2,3)
    by (cases "orm_exists (roles_orm E) ?p (w_db w)")
      (auto simp: ignore_id_absent [OF assms(5)] not_ignored_def)
  with assms(4) show ?thesis
    by (simp add: rule_holds_def IsUniqueRoleName_validate_def validate_unique_def bindE_def returnE_def on_db_def
        zoomE_def readE_def)
qed

text \<open>Texts and booleans are their own conversion to their type.\<close>

definition conversion_laws :: "validation_lib \<Rightarrow> bool" where
  "conversion_laws L \<longleftrightarrow> (\<forall>s. lib_convert L StringT (JStr s) = JStr s) \<and> (\<forall>b. lib_convert L BooleanT (JBool b) = JBool b)"

text \<open>C36. A role cannot be edited without renaming it. \<open>PatchRoleDTO\<close> inherits the uniqueness rule of the
  class for creation; the rule would except the row whose \<open>id\<close> the body names, but the class has no
  \<open>id\<close>. So the request that changes \<open>is_restricted\<close> of a role and sends its present name is
  answered 400 with the code of a name that is taken, and nothing is changed.\<close>

theorem edit_keeping_name_refused:
  assumes "errors_laws L" "conversion_laws L" "orm_laws (roles_orm E) R" "answers R (w_db w')"
    and "run_guard E ep_roles_edit req (w, in_context) = (Inr True, w', r')"
    and "role \<in> rows R (w_db w')" "r_name role \<noteq> ''''"
  shows "\<exists>b. serve E ep_roles_edit url req (with_body E L PatchRoleDTO
       [(''name'', JStr (r_name role)), (''is_restricted'', JBool restricted)] m) w =
     (\<lparr>re_status = 400, re_body = Failure b, re_cookies = []\<rparr>, w') \<and>
     er_errorCode b = RolesErrorCodes roles_error.ROLES_ALREADY_EXISTS"
proof -
  let ?body = "[(''name'', JStr (r_name role)), (''is_restricted'', JBool restricted)]"
  have obj: "transform L PatchRoleDTO ?body = ?body"
    using assms(2) by (simp add: transform_def PatchRoleDTO_def CreateRoleDTO_def conversion_laws_def)
  have taken: "rule_holds E L ?body (IsUnique UniqueRoleName) (Some (JStr (r_name role))) w' = (Inr False, w')"
    by (rule role_name_taken [OF assms(3,4,6,7)]) simp
  let ?failures = "[(''name'', IsUnique UniqueRoleName, unique_message UniqueRoleName)]"
  have "field_failures E L ?body (PatchRoleDTO ! 0) w' = (Inr ?failures, w')"
    using assms(7) taken
    by (simp add: PatchRoleDTO_def CreateRoleDTO_def field_failures_def Let_def bindE_def returnE_def on_text_def
        rule_message_def)
  moreover
  have "field_failures E L ?body (PatchRoleDTO ! 1) w' = (Inr [], w')"
    by (simp add: PatchRoleDTO_def CreateRoleDTO_def field_failures_def Let_def bindE_def returnE_def on_text_def
        rule_message_def)
  ultimately have "mapE (field_failures E L ?body) [PatchRoleDTO ! 0, PatchRoleDTO ! 1] w' = (Inr [?failures, []], w')"
    by (simp add: bindE_def returnE_def)
  moreover have fields_of: "[PatchRoleDTO ! 0, PatchRoleDTO ! 1] = PatchRoleDTO" by (simp add: PatchRoleDTO_def CreateRoleDTO_def)
  ultimately have "mapE (field_failures E L ?body) PatchRoleDTO w' = (Inr [?failures, []], w')" by (simp only: fields_of)
  moreover have "unknown_failures PatchRoleDTO ?body = []"
    by (simp add: unknown_failures_def PatchRoleDTO_def CreateRoleDTO_def)
  ultimately have failures: "dto_failures E L PatchRoleDTO (transform L PatchRoleDTO ?body) w' = (Inr ?failures, w')"
    by (simp add: obj dto_failures_def bindE_def returnE_def)
  obtain b where "serve E ep_roles_edit url req (with_body E L PatchRoleDTO ?body m) w =
       (\<lparr>re_status = 400, re_body = Failure b, re_cookies = []\<rparr>, w')"
    and "Some (er_errorCode b) \<in> rule_code ` (fst \<circ> snd) ` set ?failures"
    using refused_body [OF assms(1,5) failures] by (auto simp: rule_code_def)
  then show ?thesis by (auto simp: rule_code_def IsUniqueRoleName_errorCode_def)
qed

definition world_roles :: mem_world where
  "world_roles = world0\<lparr>w_db := db0\<lparr>t_rules := [rule_read\<lparr>e_endpoint_key_name := ''roles.update''\<rparr>]\<rparr>\<rparr>"

lemma world_roles_same: "w_redis world_roles = w_redis world0" "w_now world_roles = w_now world0"
  by (simp_all add: world_roles_def)

lemma world_roles_ready: "guard_ready mem_env mem_view m_up mem_rules world_roles"
proof -
  have "epr_cached mem_epr world_roles = (\<lambda>_. None)"
    using world0_epr_cached unfolding epr_cached_def fun_eq_iff by (simp add: world_roles_same)
  then have "epr_cache.coherent mem_epr world_roles" by (simp add: epr_cache.coherent_def)
  moreover have "epr_ready mem_epr world_roles"
    by (simp add: epr_ready_def epr_table_def mem_redis_laws mem_env_laws)
      (simp add: world_roles_def mem_tables world0_defs)
  moreover have "sessions_wf (mem_view (w_redis world_roles))"
    using world0_session_ready by (simp add: session_ready_def world_roles_same)
  ultimately show ?thesis by (simp add: guard_ready_def)
qed

lemma mem_conversion_laws: "conversion_laws mem_lib"
  by (simp add: conversion_laws_def mem_lib_def mem_convert_def)

theorem edit_keeping_name_refused_witness:
  "\<exists>w' b. serve mem_env ep_roles_edit ''/roles/edit/r1'' request_ana (with_body mem_env mem_lib PatchRoleDTO
       [(''name'', JStr ''reader''), (''is_restricted'', JBool True)] (\<lambda>_. returnE JNull)) world_roles =
     (\<lparr>re_status = 400, re_body = Failure b, re_cookies = []\<rparr>, w') \<and>
     er_errorCode b = RolesErrorCodes roles_error.ROLES_ALREADY_EXISTS"
proof -
  have live: "live_session mem_env mem_view world_roles access_ana = Some (session_ana, ''s1'')"
    using access_ana_live unfolding live_session_def session_at_def world_roles_same .
  have open': "endpoint_open mem_rules (w_db world_roles) (ep_key ep_roles_edit) (s_permissions session_ana)"
    by (auto simp: ep_roles_edit_def endpoint_def endpoint_open_def mem_tables world_roles_def world0_defs admits_def
        epr_permissionCodes_def)
  from authGuard_run(1) [OF world_roles_ready in_context_store(1) access_ana_token(2,1) live
      request_ana_subnet open'] obtain w' r' where
    g: "authGuard mem_env (ep_key ep_roles_edit) request_ana (world_roles, in_context) = (Inr True, w', r')"
    and o: "outside mem_view epr_keys w' = outside mem_view epr_keys world_roles" by blast
  have db: "w_db w' = w_db world_roles" using o by (rule outside_eqD(3))
  have run: "run_guard mem_env ep_roles_edit request_ana (world_roles, in_context) = (Inr True, w', r')"
    using g by (simp add: run_guard_def ep_roles_edit_def endpoint_def)
  have "answers mem_roles (w_db w')" "role_reader \<in> rows mem_roles (w_db w')"
    by (simp_all add: db world_roles_def mem_tables db0_def)
  note refused = edit_keeping_name_refused [OF mem_errors_laws mem_conversion_laws mem_env_laws(2) this(1) run this(2)]
  have "r_name role_reader = ''reader''" by (simp add: role_reader_def)
  with refused show ?thesis by (metis list.distinct(1))
qed

end
