(* ===== verification/EnvValidation.thy ===== *)
theory EnvValidation imports DtoProperties begin

text \<open>
  The configuration: the class of \<open>src/src/config/env-validation.ts\<close> with its rules, \<open>validate\<close>, and
  what the rest of the service can rely on once the process has started.
\<close>

section \<open>The class and its validation\<close>

definition optional :: "string \<Rightarrow> js_type \<Rightarrow> (rule \<times> string option) list \<Rightarrow> field" where
  "optional name t rs = \<lparr>f_name = name, f_type = t, f_default = None, f_optional = True, f_rules = rs\<rparr>"

definition EnvironmentVariables :: "field list" where
  "EnvironmentVariables =
     [required ''DATABASE_HOST'' StringT [(IsString, None), (IsNotEmpty, None)],
      required ''RABBITMQ_URL'' StringT [(IsString, None), (IsNotEmpty, None)],
      required ''REDIS_URL'' StringT [(IsString, None), (IsNotEmpty, None)],
      required ''PORT'' NumberT [(IsNumber, None), (IsNotEmpty, None)],
      required ''APP_NAME'' StringT [(IsString, None), (IsNotEmpty, None)],
      required ''FRONTEND_URL'' StringT [(IsString, None), (IsNotEmpty, None)],
      required ''JWT_AUTH_SECRET'' StringT [(IsString, None), (MinLength 32, None), (IsNotEmpty, None)],
      required ''JWT_REFRESH_SECRET'' StringT [(IsString, None), (MinLength 32, None), (IsNotEmpty, None)],
      required ''JWT_AUTH_EXPIRES_IN'' StringT [(IsString, None), (IsNotEmpty, None)],
      required ''JWT_REFRESH_EXPIRES_IN'' StringT [(IsString, None), (IsNotEmpty, None)],
      required ''HMAC_SECRET'' StringT [(IsString, None), (MinLength 32, None), (IsNotEmpty, None)],
      required ''RESET_PASSWORD_EXPIRES_IN'' StringT [(IsString, None), (IsNotEmpty, None)],
      optional ''COOKIE_DOMAIN'' StringT [(IsString, None)],
      optional ''COOKIE_SECURE'' BooleanT [(IsBoolean, None)],
      required ''CORS_ORIGIN'' StringT [(IsString, None), (IsNotEmpty, None)],
      optional ''METRICS_ENABLED'' BooleanT [(IsBoolean, None)]]"

text \<open>\<open>validateSync\<close>: the failed rules, none of them asynchronous. \<open>errors_text\<close> is the text the library
  writes for its errors.\<close>

definition validateSync :: "validation_lib \<Rightarrow> field list \<Rightarrow> props \<Rightarrow> (string \<times> rule \<times> string) list" where
  "validateSync L flds obj = concat (List.map (\<lambda>f.
     if skipped f (map_of obj (f_name f)) then []
     else List.map (\<lambda>(r, m). (f_name f, r, rule_message L r m))
            (filter (\<lambda>(r, m). \<not> value_rule L r (map_of obj (f_name f))) (f_rules f))) flds)"

definition validate ::
  "validation_lib \<Rightarrow> ((string \<times> rule \<times> string) list \<Rightarrow> string) \<Rightarrow> props \<Rightarrow> exn + props" where
  "validate L errors_text vars =
     (let validatedConfig = transform L EnvironmentVariables vars;
          errors = validateSync L EnvironmentVariables validatedConfig
      in if errors \<noteq> [] then Inl (JsError ''Error'' (errors_text errors) None None)
         else Inr validatedConfig)"

section \<open>Facts\<close>

lemma optional_sel [simp]: "f_name (optional n t rs) = n" "f_rules (optional n t rs) = rs"
  "f_default (optional n t rs) = None" "f_type (optional n t rs) = t" "f_optional (optional n t rs) = True"
  by (simp_all add: optional_def)

lemma validateSync_none:
  assumes "validateSync L flds obj = []" "f \<in> set flds" "r \<in> fst ` set (f_rules f)"
    and "\<not> skipped f (map_of obj (f_name f))"
  shows "value_rule L r (map_of obj (f_name f))"
proof -
  let ?v = "map_of obj (f_name f)"
  obtain m where m: "(r, m) \<in> set (f_rules f)" using assms(3) by auto
  have "List.map (\<lambda>(r, m). (f_name f, r, rule_message L r m)) (filter (\<lambda>(r, m). \<not> value_rule L r ?v) (f_rules f)) = []"
    using assms(1,2,4) unfolding validateSync_def concat_eq_Nil_conv set_map by (auto dest!: bspec)
  then have "\<forall>(r, m) \<in> set (f_rules f). value_rule L r ?v" by (auto simp: filter_empty_conv)
  with m show ?thesis by blast
qed

lemma validate_Inr:
  assumes "validate L tx vars = Inr conf"
  shows "conf = transform L EnvironmentVariables vars" "validateSync L EnvironmentVariables conf = []"
  using assms by (auto simp: validate_def Let_def split: if_splits)

lemma validated_rule:
  assumes "validate L tx vars = Inr conf" "demands EnvironmentVariables name r"
  shows "value_rule L r (map_of conf name)"
proof -
  from assms(2) obtain f where "f \<in> set EnvironmentVariables" "f_name f = name" "\<not> f_optional f" "r \<in> fst ` set (f_rules f)"
    by (auto simp: demands_def)
  then show ?thesis using validateSync_none [OF validate_Inr(2) [OF assms(1)]] by (auto simp: skipped_def)
qed

lemma validated_secret:
  assumes "validate L tx vars = Inr conf" "demands EnvironmentVariables name (MinLength n)"
  shows "\<exists>s. map_of conf name = Some (JStr s) \<and> n \<le> length s"
  using validated_rule [OF assms] by (auto simp: on_text_iff)

lemma validated_text:
  assumes "validate L tx vars = Inr conf" "demands EnvironmentVariables name IsString"
    "demands EnvironmentVariables name IsNotEmpty"
  shows "\<exists>s. map_of conf name = Some (JStr s) \<and> s \<noteq> ''''"
  using validated_rule [OF assms(1,2)] validated_rule [OF assms(1,3)] by (auto simp: on_text_iff)

text \<open>The variables the service asks for as texts, and the secrets.\<close>

definition text_variables :: "string list" where
  "text_variables = [''DATABASE_HOST'', ''RABBITMQ_URL'', ''REDIS_URL'', ''APP_NAME'', ''FRONTEND_URL'',
     ''JWT_AUTH_EXPIRES_IN'', ''JWT_REFRESH_EXPIRES_IN'', ''RESET_PASSWORD_EXPIRES_IN'', ''CORS_ORIGIN'']"

definition secret_variables :: "string list" where
  "secret_variables = [''JWT_AUTH_SECRET'', ''JWT_REFRESH_SECRET'', ''HMAC_SECRET'']"

lemma text_variables_demanded:
  "list_all (\<lambda>n. demands EnvironmentVariables n IsString \<and> demands EnvironmentVariables n IsNotEmpty) text_variables"
  by (simp add: text_variables_def demands_def EnvironmentVariables_def)

lemma secret_variables_demanded:
  "list_all (\<lambda>n. demands EnvironmentVariables n (MinLength 32)) secret_variables"
  by (simp add: secret_variables_def demands_def EnvironmentVariables_def)

section \<open>Properties\<close>

text \<open>C37. A process that starts is configured: if \<open>validate\<close> accepts the environment, then each of the
  nine texts the service reads is present and not empty, the two secrets of the tokens and the
  secret of the fingerprints have at least 32 characters, and \<open>PORT\<close> is a number. So the branches
  for a missing secret or lifetime are not taken in a running service.\<close>

theorem validated_configuration:
  assumes "validate L tx vars = Inr conf"
  shows "list_all (\<lambda>n. \<exists>s. map_of conf n = Some (JStr s) \<and> s \<noteq> '''') text_variables \<and>
    list_all (\<lambda>n. \<exists>s. map_of conf n = Some (JStr s) \<and> 32 \<le> length s) secret_variables \<and>
    (\<exists>port. map_of conf ''PORT'' = Some (JNum port))"
proof (intro conjI)
  show "list_all (\<lambda>n. \<exists>s. map_of conf n = Some (JStr s) \<and> s \<noteq> '''') text_variables"
    using text_variables_demanded validated_text [OF assms] by (auto simp: list_all_iff)
  show "list_all (\<lambda>n. \<exists>s. map_of conf n = Some (JStr s) \<and> 32 \<le> length s) secret_variables"
    using secret_variables_demanded validated_secret [OF assms] by (auto simp: list_all_iff)
  have "demands EnvironmentVariables ''PORT'' IsNumber" by (simp add: demands_def EnvironmentVariables_def)
  from validated_rule [OF assms this] show "\<exists>port. map_of conf ''PORT'' = Some (JNum port)" by (auto simp: on_number_iff)
qed

definition env_texts :: props where
  "env_texts = List.map (\<lambda>n. (n, JStr ''value'')) text_variables @
     List.map (\<lambda>n. (n, JStr ''0123456789abcdef0123456789abcdef'')) secret_variables @
     [(''PORT'', JStr ''3000''), (''METRICS_ENABLED'', JStr ''true'')]"

lemma env_texts_valid: "\<exists>conf. validate mem_lib (\<lambda>_. '''') env_texts = Inr conf"
proof -
  have "(case validate mem_lib (\<lambda>_. '''') env_texts of Inr conf \<Rightarrow> True | Inl e \<Rightarrow> False)" by code_simp
  then show ?thesis by (auto split: sum.splits)
qed

theorem validated_configuration_witness:
  "\<exists>conf. validate mem_lib (\<lambda>_. '''') env_texts = Inr conf \<and> (\<exists>port. map_of conf ''PORT'' = Some (JNum port))"
  using env_texts_valid validated_configuration by blast

lemma validated_metrics:
  assumes "validate L tx vars = Inr conf"
  shows "map_of conf ''METRICS_ENABLED'' = None \<longleftrightarrow> map_of vars ''METRICS_ENABLED'' = None"
    and "map_of conf ''METRICS_ENABLED'' \<noteq> Some (JStr ''true'')"
proof -
  let ?m = "optional ''METRICS_ENABLED'' BooleanT [(IsBoolean, None)]"
  have mem: "?m \<in> set EnvironmentVariables" by (simp add: EnvironmentVariables_def)
  have types: "map_of (List.map (\<lambda>f. (f_name f, f_type f)) EnvironmentVariables) ''METRICS_ENABLED'' = Some BooleanT"
    by (simp add: EnvironmentVariables_def)
  note conf = validate_Inr(1) [OF assms]
  show "map_of conf ''METRICS_ENABLED'' = None \<longleftrightarrow> map_of vars ''METRICS_ENABLED'' = None"
    using map_of_transform [OF _ types] map_of_transform_default [of vars "''METRICS_ENABLED''" L EnvironmentVariables]
    by (cases "map_of vars ''METRICS_ENABLED''") (simp_all add: conf EnvironmentVariables_def)
  show "map_of conf ''METRICS_ENABLED'' \<noteq> Some (JStr ''true'')"
    using validateSync_none [OF validate_Inr(2) [OF assms] mem, of IsBoolean] by (auto simp: skipped_def)
qed

text \<open>The switch of the metrics endpoint has one position. The validated configuration holds
  \<open>METRICS_ENABLED\<close> as a boolean, the controller compares it with the string \<open>true\<close>: so the endpoint
  answers with the metrics when the variable is not set at all, and with 404 whenever it is set,
  to \<open>true\<close>, to \<open>false\<close> or, as in \<open>example.env\<close>, to nothing.\<close>

lemma metrics_switch:
  assumes "validate L tx vars = Inr conf"
  shows "MetricsController_getMetrics (map_of conf) (Inr text_of_metrics) s =
    (if map_of vars ''METRICS_ENABLED'' = None then (Inr (JStr text_of_metrics), s)
     else (Inl (HttpException ''NotFoundException'' (ObjectResponse (OneMessage ''Metrics endpoint is disabled'') None)
             ''Metrics endpoint is disabled'' NOT_FOUND None), s))"
  using validated_metrics [OF assms]
  by (auto simp: MetricsController_getMetrics_def Let_def bindE_def liftE_def returnE_def throwE_def split: option.splits)

lemma metrics_switch_example:
  "\<exists>conf e. validate mem_lib (\<lambda>_. '''') env_texts = Inr conf \<and> map_of env_texts ''METRICS_ENABLED'' = Some (JStr ''true'') \<and>
     MetricsController_getMetrics (map_of conf) (Inr ''up 1'') ((world0, []), in_context) =
       (Inl e, ((world0, []), in_context)) \<and> filter_status e = 404"
proof -
  obtain conf where conf: "validate mem_lib (\<lambda>_. '''') env_texts = Inr conf" using env_texts_valid by blast
  have "map_of env_texts ''METRICS_ENABLED'' = Some (JStr ''true'')"
    by (simp add: env_texts_def text_variables_def secret_variables_def)
  with conf metrics_switch [OF conf, of "''up 1''" "((world0, []), in_context)"] show ?thesis
    by (auto simp: filter_status_def status_or_def)
qed

end
