(* ===== verification/Seed.thy ===== *)
theory Seed imports Users begin

text \<open>
  The seeding of the database: the data of \<open>src/src/database/seed/seed.data.ts\<close> and the service of
  \<open>src/src/database/seed/seed.service.ts\<close>, which writes it in one transaction. The service reaches the
  database through an entity manager only, so its state is the database.
\<close>

section \<open>The data\<close>

record seed_rule =
  sr_endpoint_key_name :: string
  sr_permission_code :: string
  sr_enabled :: bool

record seed_role =
  so_name :: string
  so_permission_codes :: "string list"
  so_is_restricted :: bool

record seed_user =
  su_email :: string
  su_password :: string
  su_status :: user_status
  su_person_id :: string
  su_role_names :: "string list"

definition SEED_PERMISSIONS :: "string list" where
  "SEED_PERMISSIONS =
     [''ENDPOINT-PERMISSION-RULES_CREATE'', ''ENDPOINT-PERMISSION-RULES_READ'', ''ENDPOINT-PERMISSION-RULES_UPDATE'',
      ''ENDPOINT-PERMISSION-RULES_DELETE'',
      ''API_KEYS_CREATE'', ''API_KEYS_READ'', ''API_KEYS_DEACTIVATE'',
      ''PERMISSIONS_CREATE'', ''PERMISSIONS_READ'', ''PERMISSIONS_UPDATE'', ''PERMISSIONS_DELETE'',
      ''ROLES_CREATE'', ''ROLES_READ'', ''ROLES_UPDATE'', ''ROLES_DELETE'',
      ''SESSIONS_READ'', ''SESSIONS_DEACTIVATE'',
      ''USERS_CREATE'', ''USERS_READ'', ''USERS_UPDATE'',
      ''METRICS_READ'',
      ''BASE_ACCESS'', ''API_KEY_ACCESS'',
      ''EMAIL_SEND'',
      ''LOGGER_READ'',
      ''GENDERS_CREATE'', ''GENDERS_READ'', ''GENDERS_UPDATE'', ''GENDERS_DELETE'',
      ''PERSONS_CREATE'', ''PERSONS_READ'', ''PERSONS_UPDATE'']"

definition seed_epr :: "string \<Rightarrow> string \<Rightarrow> seed_rule" where
  "seed_epr key code = \<lparr>sr_endpoint_key_name = key, sr_permission_code = code, sr_enabled = True\<rparr>"

definition SEED_EPR :: "seed_rule list" where
  "SEED_EPR =
     [seed_epr ''endpoint-permission-rules.create'' ''ENDPOINT-PERMISSION-RULES_CREATE'',
      seed_epr ''endpoint-permission-rules.find'' ''ENDPOINT-PERMISSION-RULES_READ'',
      seed_epr ''endpoint-permission-rules.find_api'' ''API_KEY_ACCESS'',
      seed_epr ''endpoint-permission-rules.update'' ''ENDPOINT-PERMISSION-RULES_UPDATE'',
      seed_epr ''endpoint-permission-rules.delete'' ''ENDPOINT-PERMISSION-RULES_DELETE'',
      seed_epr ''api-key.generate'' ''API_KEYS_CREATE'',
      seed_epr ''api-key.find'' ''API_KEYS_READ'',
      seed_epr ''api-key.deactivate'' ''API_KEYS_DEACTIVATE'',
      seed_epr ''permission.create'' ''PERMISSIONS_CREATE'',
      seed_epr ''permission.update'' ''PERMISSIONS_UPDATE'',
      seed_epr ''permission.delete'' ''PERMISSIONS_DELETE'',
      seed_epr ''permission.find'' ''PERMISSIONS_READ'',
      seed_epr ''permission.details'' ''PERMISSIONS_READ'',
      seed_epr ''roles.create'' ''ROLES_CREATE'',
      seed_epr ''roles.update'' ''ROLES_UPDATE'',
      seed_epr ''roles.delete'' ''ROLES_DELETE'',
      seed_epr ''roles.find'' ''ROLES_READ'',
      seed_epr ''roles.details'' ''USERS_CREATE'',
      seed_epr ''roles.details.restricted'' ''ROLES_READ'',
      seed_epr ''sessions.find'' ''SESSIONS_READ'',
      seed_epr ''sessions.deactivate'' ''SESSIONS_DEACTIVATE'',
      seed_epr ''users.register'' ''USERS_CREATE'',
      seed_epr ''users.update'' ''USERS_UPDATE'',
      seed_epr ''users.find'' ''USERS_READ'',
      seed_epr ''users.find_api'' ''API_KEY_ACCESS'',
      seed_epr ''metrics.get'' ''METRICS_READ'',
      seed_epr ''logger.find'' ''LOGGER_READ'',
      seed_epr ''genders.create'' ''GENDERS_CREATE'',
      seed_epr ''genders.update'' ''GENDERS_UPDATE'',
      seed_epr ''genders.delete'' ''GENDERS_DELETE'',
      seed_epr ''genders.find'' ''GENDERS_READ'',
      seed_epr ''genders.details'' ''BASE_ACCESS'',
      seed_epr ''persons.create'' ''PERSONS_CREATE'',
      seed_epr ''persons.update'' ''PERSONS_UPDATE'',
      seed_epr ''persons.find'' ''PERSONS_READ'',
      seed_epr ''persons.details'' ''BASE_ACCESS'']"

definition SEED_ROLES :: "seed_role list" where
  "SEED_ROLES = [\<lparr>so_name = ''SUPER_ADMIN'', so_permission_codes = [], so_is_restricted = True\<rparr>]"

definition SEED_ADMIN_USER :: seed_user where
  "SEED_ADMIN_USER =
     \<lparr>su_email = ''admin@admin.com'', su_password = ''admin'', su_status = ACTIVE,
      su_person_id = ''00000000-0000-0000-0000-000000000001'', su_role_names = [''SUPER_ADMIN'']\<rparr>"

section \<open>The service\<close>

text \<open>\<open>manager.upsert(Entity, values, {conflictPaths})\<close> for the three entities: a statement of the library
  that inserts the values and updates the rows that have the same key.\<close>

record 'd upserts =
  upsert_permissions :: "string list \<Rightarrow> ('d, exn, unit) io"
  upsert_rules :: "(string \<times> bool) list \<Rightarrow> ('d, exn, unit) io"
  upsert_role :: "string \<Rightarrow> bool \<Rightarrow> ('d, exn, unit) io"

definition seedPermissions :: "'d upserts \<Rightarrow> ('d, exn, unit) io" where
  "seedPermissions M = upsert_permissions M SEED_PERMISSIONS"

definition seed_one_rule :: "('r, 'd, 'q) env \<Rightarrow> seed_rule \<Rightarrow> ('d, exn, unit) io" where
  "seed_one_rule E rule =
     bindE (readE (orm_find_one (rules_orm E) (\<lambda>e. e_endpoint_key_name e = sr_endpoint_key_name rule))) (\<lambda>epr.
     bindE (readE (orm_find_one (permissions_orm E) (\<lambda>p. p_code p = sr_permission_code rule))) (\<lambda>permission.
       case (epr, permission) of
         (Some e, Some p) \<Rightarrow>
           bindE (orm_save (rules_orm E) (e\<lparr>e_permissions := Some [p]\<rparr>)) (\<lambda>_. returnE ())
       | _ \<Rightarrow> returnE ()))"

definition seedEndpointPermissionRules :: "('r, 'd, 'q) env \<Rightarrow> 'd upserts \<Rightarrow> ('d, exn, unit) io" where
  "seedEndpointPermissionRules E M =
     thenE (upsert_rules M (List.map (\<lambda>rule. (sr_endpoint_key_name rule, sr_enabled rule)) SEED_EPR))
       (forE SEED_EPR (seed_one_rule E))"

definition seed_one_role :: "('r, 'd, 'q) env \<Rightarrow> 'd upserts \<Rightarrow> seed_role \<Rightarrow> ('d, exn, unit) io" where
  "seed_one_role E M seedRole =
     thenE (upsert_role M (so_name seedRole) (so_is_restricted seedRole))
     (bindE (readE (orm_find_one (roles_orm E) (\<lambda>r. r_name r = so_name seedRole))) (\<lambda>found.
        case found of
          None \<Rightarrow> returnE ()
        | Some role \<Rightarrow>
            bindE (readE (orm_find (permissions_orm E)
                     (if length (so_permission_codes seedRole) = 0 then (\<lambda>p. True)
                      else (\<lambda>p. p_code p \<in> set (so_permission_codes seedRole))))) (\<lambda>permissions.
            bindE (orm_save (roles_orm E) (role\<lparr>r_permissions := permissions\<rparr>)) (\<lambda>_. returnE ()))))"

definition seedRoles :: "('r, 'd, 'q) env \<Rightarrow> 'd upserts \<Rightarrow> ('d, exn, unit) io" where
  "seedRoles E M = forE SEED_ROLES (seed_one_role E M)"

definition admin_roles :: "('r, 'd, 'q) env \<Rightarrow> ('d, exn, role list) io" where
  "admin_roles E = readE (orm_find (roles_orm E) (\<lambda>r. r_name r \<in> set (su_role_names SEED_ADMIN_USER)))"

text \<open>The admin that exists is loaded, so its \<open>AfterLoad\<close> hook has run and the hook of the update sees
  the password unchanged. The admin that is created is saved twice; the second time no column has
  changed, only a relation, and the library runs the update hook for changed columns only.\<close>

definition new_admin :: user where
  "new_admin =
     \<lparr>u_id = '''', u_email = su_email SEED_ADMIN_USER, u_password = su_password SEED_ADMIN_USER,
      u_status = su_status SEED_ADMIN_USER, u_person_id = su_person_id SEED_ADMIN_USER,
      u_created_by = None, u_roles = None, u_originalPassword = None\<rparr>"

definition seedUsers :: "('r, 'd, 'q) env \<Rightarrow> ('d, exn, unit) io" where
  "seedUsers E =
     bindE (readE (orm_find_one (users_orm E) (\<lambda>u. u_email u = su_email SEED_ADMIN_USER))) (\<lambda>found.
       case map_option loadOriginalPassword found of
         Some existingUser \<Rightarrow>
           bindE (admin_roles E) (\<lambda>roles.
           bindE (orm_save (users_orm E) (before_save E
                    (existingUser\<lparr>u_roles := Some roles, u_status := su_status SEED_ADMIN_USER\<rparr>)))
             (\<lambda>_. returnE ()))
       | None \<Rightarrow>
           bindE (orm_save (users_orm E) (before_save E new_admin)) (\<lambda>user.
           bindE (admin_roles E) (\<lambda>roles.
           bindE (orm_save (users_orm E) (user\<lparr>u_roles := Some roles\<rparr>)) (\<lambda>_. returnE ()))))"

text \<open>\<open>run\<close>: the four steps and the commit in a \<open>try\<close>, whose handler rolls back and throws again.\<close>

definition seed_steps :: "('r, 'd, 'q) env \<Rightarrow> 'd upserts \<Rightarrow> ('d, exn, unit) io" where
  "seed_steps E M =
     thenE (seedPermissions M)
     (thenE (seedEndpointPermissionRules E M)
     (thenE (seedRoles E M)
     (seedUsers E)))"

definition SeedService_run :: "('r, 'd, 'q) env \<Rightarrow> 'd upserts \<Rightarrow> ('d, exn, unit) io" where
  "SeedService_run E M = (\<lambda>before.
     catchE (thenE (seed_steps E M) (tx_commit E before))
            (\<lambda>error. thenE (\<lambda>now. (Inr (), tx_rollback E before now)) (throwE error)) before)"

end
