(* ===== verification/SeedSteps.thy ===== *)
theory SeedSteps imports Seed ControllerProperties begin

text \<open>
  The seeding step by step: what is asked of the library and of the database, what each of the four
  steps adds to its table and leaves of the others, and the run as a whole.
\<close>

section \<open>What is asked of the library and the database\<close>

text \<open>An upsert with a key column: rows with one of the keys are updated, keys without a row get a new
  one, and a statement that fails leaves the rows as they were.\<close>

definition upsert_ok ::
  "('d, 'e) table \<Rightarrow> ('e \<Rightarrow> string) \<Rightarrow> ('e \<Rightarrow> 'e) \<Rightarrow> ('e \<Rightarrow> bool) \<Rightarrow> string set \<Rightarrow> 'd \<Rightarrow> (exn + unit) \<times> 'd \<Rightarrow> bool" where
  "upsert_ok T key upd new keys d res = (case res of
       (Inr _, d') \<Rightarrow>
         (\<exists>N. rows T d' = (\<lambda>e. if key e \<in> keys then upd e else e) ` rows T d \<union> N \<and>
            key ` N = keys - key ` rows T d \<and> (\<forall>e \<in> N. new e \<and> ident T e \<noteq> '''')) \<and>
         (constraint T (rows T d) \<longrightarrow> constraint T (rows T d'))
     | (Inl _, d') \<Rightarrow> rows T d' = rows T d)"

definition enabled_as :: "(string \<times> bool) list \<Rightarrow> epr \<Rightarrow> epr" where
  "enabled_as rs e = e\<lparr>e_enabled := the (map_of rs (e_endpoint_key_name e))\<rparr>"

definition upsert_laws ::
  "'d upserts \<Rightarrow> ('d, permission) table \<Rightarrow> ('d, epr) table \<Rightarrow> ('d, role) table \<Rightarrow> bool" where
  "upsert_laws M P R L \<longleftrightarrow>
     (\<forall>codes d. distinct codes \<longrightarrow>
        upsert_ok P p_code (\<lambda>p. p) (\<lambda>p. p_created_by p = None) (set codes) d (upsert_permissions M codes d)) \<and>
     (\<forall>rs d. distinct (List.map fst rs) \<longrightarrow>
        upsert_ok R e_endpoint_key_name (enabled_as rs) (\<lambda>e. enabled_as rs e = e \<and> e_permissions e = Some [])
          (fst ` set rs) d (upsert_rules M rs d)) \<and>
     (\<forall>name b d. upsert_ok L r_name (\<lambda>r. r\<lparr>r_is_restricted := b\<rparr>) (\<lambda>r. r_is_restricted r = b \<and> r_permissions r = [])
          {name} d (upsert_role M name b d))"

text \<open>The rows of a table change by writes to this table only. (The roles inside the row of a user are
  joined from other tables, so of the users only the columns of their own are said to stay.)\<close>

definition leaves :: "('d \<Rightarrow> 'x) \<Rightarrow> ('d, exn, 'a) io \<Rightarrow> bool" where
  "leaves f m \<longleftrightarrow> (\<forall>d. f (snd (m d)) = f d)"

definition credentials :: "user \<Rightarrow> string \<times> string \<times> string \<times> string" where
  "credentials u = (u_id u, u_email u, u_password u, u_person_id u)"

definition accounts :: "('d, user) table \<Rightarrow> 'd \<Rightarrow> (string \<times> string \<times> string \<times> string) set" where
  "accounts U d = credentials ` rows U d"

definition frame_laws ::
  "('r, 'd, 'q) env \<Rightarrow> 'd upserts \<Rightarrow> ('d, permission) table \<Rightarrow> ('d, epr) table \<Rightarrow> ('d, role) table \<Rightarrow>
   ('d, user) table \<Rightarrow> bool" where
  "frame_laws E M P R L U \<longleftrightarrow>
     (\<forall>cs. leaves (rows R) (upsert_permissions M cs) \<and> leaves (rows L) (upsert_permissions M cs) \<and>
        leaves (accounts U) (upsert_permissions M cs)) \<and>
     (\<forall>rs. leaves (rows P) (upsert_rules M rs) \<and> leaves (rows L) (upsert_rules M rs) \<and>
        leaves (accounts U) (upsert_rules M rs)) \<and>
     (\<forall>e. leaves (rows P) (orm_save (rules_orm E) e) \<and> leaves (rows L) (orm_save (rules_orm E) e) \<and>
        leaves (accounts U) (orm_save (rules_orm E) e)) \<and>
     (\<forall>n b. leaves (rows P) (upsert_role M n b) \<and> leaves (rows R) (upsert_role M n b) \<and>
        leaves (accounts U) (upsert_role M n b)) \<and>
     (\<forall>r. leaves (rows P) (orm_save (roles_orm E) r) \<and> leaves (rows R) (orm_save (roles_orm E) r) \<and>
        leaves (accounts U) (orm_save (roles_orm E) r)) \<and>
     (\<forall>u. leaves (rows P) (orm_save (users_orm E) u) \<and> leaves (rows R) (orm_save (users_orm E) u) \<and>
        leaves (rows L) (orm_save (users_orm E) u))"

text \<open>The tables with their identifiers and unique columns, every row with an identifier.\<close>

definition permissions_table :: "('d, permission) table \<Rightarrow> bool" where
  "permissions_table T \<longleftrightarrow> ident T = p_id \<and> (\<forall>S. constraint T S \<longrightarrow> inj_on p_code S)"

definition roles_table :: "('d, role) table \<Rightarrow> bool" where
  "roles_table T \<longleftrightarrow> ident T = r_id \<and> (\<forall>S. constraint T S \<longrightarrow> inj_on r_id S \<and> inj_on r_name S)"

definition sound_table :: "('d, 'e) table \<Rightarrow> 'd \<Rightarrow> bool" where
  "sound_table T d \<longleftrightarrow> constraint T (rows T d) \<and> (\<forall>e \<in> rows T d. ident T e \<noteq> '''')"

definition seed_env ::
  "('r, 'd, 'q) env \<Rightarrow> 'd upserts \<Rightarrow> ('d, permission) table \<Rightarrow> ('d, epr) table \<Rightarrow> ('d, role) table \<Rightarrow>
   ('d, user) table \<Rightarrow> bool" where
  "seed_env E M P R L U \<longleftrightarrow>
     orm_laws (permissions_orm E) P \<and> orm_laws (rules_orm E) R \<and> orm_laws (roles_orm E) L \<and> orm_laws (users_orm E) U \<and>
     permissions_table P \<and> epr_table R \<and> roles_table L \<and> users_table U \<and>
     upsert_laws M P R L \<and> frame_laws E M P R L U \<and>
     tx_laws E P \<and> tx_laws E R \<and> tx_laws E L \<and> tx_laws E U"

definition seed_db ::
  "('d, permission) table \<Rightarrow> ('d, epr) table \<Rightarrow> ('d, role) table \<Rightarrow> ('d, user) table \<Rightarrow> 'd \<Rightarrow> bool" where
  "seed_db P R L U d \<longleftrightarrow> sound_table P d \<and> sound_table R d \<and> sound_table L d \<and>
     inj_on fst (accounts U d) \<and> '''' \<notin> fst ` accounts U d"


section \<open>The steps\<close>

text \<open>\<open>yields m Q d\<close>: if \<open>m\<close> resolves from \<open>d\<close>, then in \<open>Q\<close>.\<close>

abbreviation yields :: "('d, exn, 'a) io \<Rightarrow> ('a \<Rightarrow> 'd \<Rightarrow> bool) \<Rightarrow> 'd \<Rightarrow> bool" where
  "yields m Q d \<equiv> wp m Q (\<lambda>_ _. True) d"

lemma yields_leaves:
  assumes "leaves f m" "yields m (\<lambda>a d'. f d' = f d \<longrightarrow> Q a d') d"
  shows "yields m Q d"
proof -
  have "f (snd (m d)) = f d" using assms(1) by (simp add: leaves_def)
  with assms(2) show ?thesis by (cases "m d") (auto simp: wp_def split: sum.splits)
qed

lemma yields_upsert:
  assumes "upsert_ok T key upd new keys d (m d)" "sound_table T d"
    and "\<And>e. e \<in> rows T d \<Longrightarrow> ident T (upd e) = ident T e"
    and "\<And>d' N. rows T d' = (\<lambda>e. if key e \<in> keys then upd e else e) ` rows T d \<union> N \<Longrightarrow>
      key ` N = keys - key ` rows T d \<Longrightarrow> (\<And>e. e \<in> N \<Longrightarrow> new e) \<Longrightarrow> sound_table T d' \<Longrightarrow> Q () d'"
  shows "yields m Q d"
proof (rule run_wp)
  fix u d' assume "m d = (Inr u, d')"
  then have ok: "(\<exists>N. rows T d' = (\<lambda>e. if key e \<in> keys then upd e else e) ` rows T d \<union> N \<and>
      key ` N = keys - key ` rows T d \<and> (\<forall>e \<in> N. new e \<and> ident T e \<noteq> '''')) \<and>
      (constraint T (rows T d) \<longrightarrow> constraint T (rows T d'))"
    using assms(1) by (simp add: upsert_ok_def)
  then obtain N where N: "rows T d' = (\<lambda>e. if key e \<in> keys then upd e else e) ` rows T d \<union> N"
    "key ` N = keys - key ` rows T d" "\<forall>e \<in> N. new e \<and> ident T e \<noteq> ''''" by blast
  have "ident T e \<noteq> ''''" if e: "e \<in> rows T d'" for e
  proof (cases "e \<in> N")
    case False
    with e N(1) obtain x where "x \<in> rows T d" "e = (if key x \<in> keys then upd x else x)" by blast
    with assms(2,3) show ?thesis by (auto simp: sound_table_def)
  qed (use N(3) in blast)
  with ok assms(2) have "sound_table T d'" by (simp add: sound_table_def)
  with N have "Q () d'" by (intro assms(4)) blast+
  then show "Q u d'" by simp
qed simp

lemma yields_update:
  assumes "orm_laws G T" "sound_table T d" "ident T e \<noteq> ''''"
    and "\<And>d'. rows T d' = insert e {x \<in> rows T d. ident T x \<noteq> ident T e} \<Longrightarrow> sound_table T d' \<Longrightarrow> Q e d'"
  shows "yields (orm_save G e) Q d"
proof (rule wp_save [OF assms(1)])
  fix e' d' assume r: "rows T d' = saved_rows T e' (rows T d)" and i: "ident T e' \<noteq> ''''"
    and "ident T e \<noteq> '''' \<Longrightarrow> e' = e"
    and c: "constraint T (rows T d) \<Longrightarrow> constraint T (saved_rows T e' (rows T d))"
  then have "e' = e" using assms(3) by blast
  moreover have "sound_table T d'" using r i c assms(2) by (auto simp: sound_table_def saved_rows_def)
  ultimately show "Q e' d'" using r assms(4) by (simp add: saved_rows_def)
qed simp

lemma yields_find_one:
  assumes "orm_laws G T" "\<And>e. e \<in> rows T d \<Longrightarrow> p e \<Longrightarrow> Q (Some e) d" "(\<And>e. e \<in> rows T d \<Longrightarrow> \<not> p e) \<Longrightarrow> Q None d"
  shows "yields (readE (orm_find_one G p)) Q d"
  using find_one_law [OF assms(1), of p d] assms(2,3)
  by (cases "orm_find_one G p d") (auto simp: wp split: option.splits, metis option.exhaust)

lemma yields_find:
  assumes "orm_laws G T" "\<And>es. set es = {e \<in> rows T d. p e} \<Longrightarrow> distinct es \<Longrightarrow> Q es d"
  shows "yields (readE (orm_find G p)) Q d"
  using find_law [OF assms(1), of p d] assms(2) by (cases "orm_find G p d") (auto simp: wp)

lemma seed_envD:
  assumes "seed_env E M P R L U"
  shows "orm_laws (permissions_orm E) P" "orm_laws (rules_orm E) R" "orm_laws (roles_orm E) L" "orm_laws (users_orm E) U"
    "permissions_table P" "epr_table R" "roles_table L" "users_table U" "upsert_laws M P R L" "frame_laws E M P R L U"
    "tx_laws E P" "tx_laws E R" "tx_laws E L" "tx_laws E U"
  using assms by (simp_all add: seed_env_def)

lemma seed_distinct:
  "distinct SEED_PERMISSIONS" "distinct (List.map sr_endpoint_key_name SEED_EPR)"
  "list_all (\<lambda>rule. sr_permission_code rule \<in> set SEED_PERMISSIONS \<and> sr_enabled rule) SEED_EPR"
  by (simp add: SEED_PERMISSIONS_def) (simp add: SEED_EPR_def seed_epr_def, simp add: SEED_EPR_def seed_epr_def SEED_PERMISSIONS_def)

text \<open>What the steps add: the permissions; the rules with their codes.\<close>

definition permissions_seeded :: "('d, permission) table \<Rightarrow> 'd \<Rightarrow> bool" where
  "permissions_seeded P d \<longleftrightarrow> set SEED_PERMISSIONS \<subseteq> p_code ` rows P d"

definition rule_seeded :: "('d, epr) table \<Rightarrow> 'd \<Rightarrow> seed_rule \<Rightarrow> bool" where
  "rule_seeded R d rule \<longleftrightarrow> (\<exists>e \<in> rows R d. e_endpoint_key_name e = sr_endpoint_key_name rule \<and> e_enabled e \<and>
     epr_permissionCodes e = [sr_permission_code rule])"

text \<open>The rules afterwards: those of the data, and of other keys those that were there.\<close>

definition rules_seeded :: "('d, epr) table \<Rightarrow> 'd \<Rightarrow> 'd \<Rightarrow> bool" where
  "rules_seeded R d d' \<longleftrightarrow> list_all (rule_seeded R d') SEED_EPR \<and>
     e_endpoint_key_name ` rows R d' = e_endpoint_key_name ` rows R d \<union> sr_endpoint_key_name ` set SEED_EPR"

lemma seedPermissions_yields:
  assumes "seed_env E M P R L U" "seed_db P R L U d"
  shows "yields (seedPermissions M) (\<lambda>_ d'. seed_db P R L U d' \<and> permissions_seeded P d' \<and> rows R d' = rows R d \<and>
    accounts U d' = accounts U d) d"
proof -
  have up: "upsert_ok P p_code (\<lambda>p. p) (\<lambda>p. p_created_by p = None) (set SEED_PERMISSIONS) d
      (upsert_permissions M SEED_PERMISSIONS d)"
    using seed_envD(9) [OF assms(1)] seed_distinct(1) by (simp add: upsert_laws_def)
  have l: "leaves (rows R) (upsert_permissions M SEED_PERMISSIONS)" "leaves (rows L) (upsert_permissions M SEED_PERMISSIONS)"
    "leaves (accounts U) (upsert_permissions M SEED_PERMISSIONS)"
    using seed_envD(10) [OF assms(1)] by (simp_all add: frame_laws_def)
  show ?thesis unfolding seedPermissions_def
  proof (rule yields_leaves [OF l(1)], rule yields_leaves [OF l(2)], rule yields_leaves [OF l(3)],
      rule yields_upsert [where key = p_code and m = "upsert_permissions M SEED_PERMISSIONS" and upd = "\<lambda>p. p", OF up])
    show "sound_table P d" using assms(2) by (simp add: seed_db_def)
    fix d' N assume r: "rows P d' = (\<lambda>e. if p_code e \<in> set SEED_PERMISSIONS then e else e) ` rows P d \<union> N"
      "p_code ` N = set SEED_PERMISSIONS - p_code ` rows P d" and s: "sound_table P d'"
    from r have "permissions_seeded P d'" unfolding permissions_seeded_def by (simp add: image_Un)
    with s assms(2) show "accounts U d' = accounts U d \<longrightarrow> rows L d' = rows L d \<longrightarrow> rows R d' = rows R d \<longrightarrow>
        seed_db P R L U d' \<and> permissions_seeded P d' \<and> rows R d' = rows R d \<and> accounts U d' = accounts U d"
      by (simp add: seed_db_def sound_table_def)
  qed simp
qed


text \<open>The loop over the rules: those done have their code, the others their row.\<close>

definition rules_inv :: "('d, permission) table \<Rightarrow> ('d, epr) table \<Rightarrow> ('d, role) table \<Rightarrow> ('d, user) table \<Rightarrow>
    'd \<Rightarrow> seed_rule list \<Rightarrow> 'd \<Rightarrow> bool" where
  "rules_inv P R L U d done_rules d' \<longleftrightarrow> sound_table R d' \<and> rows P d' = rows P d \<and> rows L d' = rows L d \<and>
     accounts U d' = accounts U d \<and>
     e_endpoint_key_name ` rows R d' = e_endpoint_key_name ` rows R d \<union> sr_endpoint_key_name ` set SEED_EPR \<and>
     (\<forall>rule \<in> set SEED_EPR. \<exists>e \<in> rows R d'. e_endpoint_key_name e = sr_endpoint_key_name rule \<and> e_enabled e) \<and>
     (\<forall>rule \<in> set done_rules. rule_seeded R d' rule)"

lemma rules_inv_start:
  assumes "seed_env E M P R L U" "seed_db P R L U d"
  shows "yields (upsert_rules M (List.map (\<lambda>rule. (sr_endpoint_key_name rule, sr_enabled rule)) SEED_EPR))
    (\<lambda>_. rules_inv P R L U d []) d"
proof -
  let ?rs = "List.map (\<lambda>rule. (sr_endpoint_key_name rule, sr_enabled rule)) SEED_EPR"
  have keys: "distinct (List.map fst ?rs)" using seed_distinct(2) by (simp add: comp_def)
  have enabled: "map_of ?rs k = Some True" if "k \<in> fst ` set ?rs" for k
  proof -
    have "map_of ?rs k \<noteq> None" using that by (simp only: map_of_eq_None_iff) simp
    then obtain b where b: "map_of ?rs k = Some b" by blast
    from map_of_SomeD [OF b] have "b" using seed_distinct(3) by (auto simp: list_all_iff)
    with b show ?thesis by simp
  qed
  have up: "upsert_ok R e_endpoint_key_name (enabled_as ?rs) (\<lambda>e. enabled_as ?rs e = e \<and> e_permissions e = Some [])
      (fst ` set ?rs) d (upsert_rules M ?rs d)"
    using seed_envD(9) [OF assms(1), unfolded upsert_laws_def] keys by blast
  have l: "leaves (rows P) (upsert_rules M ?rs)" "leaves (rows L) (upsert_rules M ?rs)" "leaves (accounts U) (upsert_rules M ?rs)"
    using seed_envD(10) [OF assms(1)] by (simp_all add: frame_laws_def)
  show ?thesis
  proof (rule yields_leaves [OF l(1)], rule yields_leaves [OF l(2)], rule yields_leaves [OF l(3)],
      rule yields_upsert [where m = "upsert_rules M ?rs" and upd = "enabled_as ?rs", OF up])
    show "sound_table R d" using assms(2) by (simp add: seed_db_def)
    show "ident R (enabled_as ?rs e) = ident R e" for e
      using seed_envD(6) [OF assms(1)] by (simp add: epr_table_def enabled_as_def)
    fix d' N assume r: "rows R d' = (\<lambda>e. if e_endpoint_key_name e \<in> fst ` set ?rs then enabled_as ?rs e else e) ` rows R d \<union> N"
      "e_endpoint_key_name ` N = fst ` set ?rs - e_endpoint_key_name ` rows R d"
      and n: "\<And>e. e \<in> N \<Longrightarrow> enabled_as ?rs e = e \<and> e_permissions e = Some []" and s: "sound_table R d'"
    have row: "\<exists>e \<in> rows R d'. e_endpoint_key_name e = k \<and> e_enabled e" if k: "k \<in> fst ` set ?rs" for k
    proof (cases "k \<in> e_endpoint_key_name ` rows R d")
      case True
      then obtain e where e: "e \<in> rows R d" "e_endpoint_key_name e = k" by blast
      then have "enabled_as ?rs e \<in> rows R d'" unfolding r(1) using k by (auto intro!: rev_image_eqI)
      moreover have "e_endpoint_key_name (enabled_as ?rs e) = k" "e_enabled (enabled_as ?rs e)"
        using e(2) enabled [OF k] by (simp_all add: enabled_as_def)
      ultimately show ?thesis by blast
    next
      case False
      with k have "k \<in> fst ` set ?rs - e_endpoint_key_name ` rows R d" by (rule DiffI)
      then have "k \<in> e_endpoint_key_name ` N" by (simp only: r(2))
      then obtain e where e: "e \<in> N" "e_endpoint_key_name e = k" by blast
      then have "e_enabled (enabled_as ?rs e)" using enabled [OF k] by (simp add: enabled_as_def)
      then have "e_enabled e" using n [OF e(1)] by simp
      with e show ?thesis unfolding r(1) by blast
    qed
    show "accounts U d' = accounts U d \<longrightarrow> rows L d' = rows L d \<longrightarrow> rows P d' = rows P d \<longrightarrow> rules_inv P R L U d [] d'"
    proof -
      have "sr_endpoint_key_name rule \<in> fst ` set ?rs" if "rule \<in> set SEED_EPR" for rule using that by (force simp: image_iff)
      moreover have "e_endpoint_key_name ` rows R d' = e_endpoint_key_name ` rows R d \<union> sr_endpoint_key_name ` set SEED_EPR"
      proof -
        have "e_endpoint_key_name ` rows R d' = e_endpoint_key_name ` rows R d \<union> fst ` set ?rs"
        proof -
          have "e_endpoint_key_name (if b then enabled_as ?rs e else e) = e_endpoint_key_name e" for b e
            by (simp add: enabled_as_def)
          then show ?thesis unfolding r(1) image_Un image_image r(2) by (simp only: Un_Diff_cancel)
        qed
        then show ?thesis by (simp add: image_image)
      qed
      ultimately show ?thesis using row s by (simp add: rules_inv_def)
    qed
  qed
qed

lemma seed_one_rule_yields:
  assumes "seed_env E M P R L U" "permissions_seeded P d" "SEED_EPR = ys @ x # zs" "rules_inv P R L U d ys d'"
  shows "yields (seed_one_rule E x) (\<lambda>_. rules_inv P R L U d (ys @ [x])) d'"
proof -
  note laws = seed_envD [OF assms(1)]
  have "x \<in> set SEED_EPR" by (simp add: assms(3))
  then have x: "x \<in> set SEED_EPR" "sr_permission_code x \<in> set SEED_PERMISSIONS"
    using seed_distinct(3) by (simp_all add: list_all_iff)
  have l: "leaves (rows P) (orm_save (rules_orm E) e)" "leaves (rows L) (orm_save (rules_orm E) e)"
    "leaves (accounts U) (orm_save (rules_orm E) e)" for e
    using laws(10) by (simp_all add: frame_laws_def)
  have inv: "sound_table R d'" "rows P d' = rows P d" "rows L d' = rows L d" "accounts U d' = accounts U d"
    using assms(4) by (simp_all add: rules_inv_def)
  from assms(4) have each: "\<And>rule. rule \<in> set SEED_EPR \<Longrightarrow>
      \<exists>e \<in> rows R d'. e_endpoint_key_name e = sr_endpoint_key_name rule \<and> e_enabled e"
    and past: "\<And>rule. rule \<in> set ys \<Longrightarrow> rule_seeded R d' rule" by (simp_all add: rules_inv_def)
  have inj: "inj_on e_endpoint_key_name (rows R d')" "inj_on e_id (rows R d')" and id: "ident R = e_id"
    using inv(1) laws(6) by (simp_all add: sound_table_def epr_table_def)
  have save: "yields (orm_save (rules_orm E) (e\<lparr>e_permissions := Some [p]\<rparr>)) (\<lambda>_. rules_inv P R L U d (ys @ [x])) d'"
    if e: "e \<in> rows R d'" "e_endpoint_key_name e = sr_endpoint_key_name x" and p: "p_code p = sr_permission_code x" for e p
  proof (rule yields_leaves [OF l(1)], rule yields_leaves [OF l(2)], rule yields_leaves [OF l(3)],
      rule yields_update [OF laws(2) inv(1)])
    let ?e = "e\<lparr>e_permissions := Some [p]\<rparr>"
    show "ident R ?e \<noteq> ''''" using inv(1) e(1) by (simp add: id sound_table_def)
    fix d2 assume r: "rows R d2 = insert ?e {y \<in> rows R d'. ident R y \<noteq> ident R ?e}" and s: "sound_table R d2"
    obtain e2 where "e2 \<in> rows R d'" "e_endpoint_key_name e2 = sr_endpoint_key_name x" "e_enabled e2"
      using each [OF x(1)] by blast
    moreover from this e have "e2 = e" by (intro inj_onD [OF inj(1)]) simp_all
    ultimately have "e_enabled e" by simp
    then have this_rule: "rule_seeded R d2 x" using e p unfolding rule_seeded_def r by (simp add: epr_permissionCodes_def)
    have "rule_seeded R d2 rule" if rule: "rule \<in> set ys" for rule
    proof -
      have "sr_endpoint_key_name x \<notin> sr_endpoint_key_name ` set ys" using seed_distinct(2) unfolding assms(3) by simp
      with rule have "sr_endpoint_key_name rule \<noteq> sr_endpoint_key_name x" by (metis imageI)
      with past [OF rule] e(2) inj(2) e(1) show ?thesis unfolding rule_seeded_def r by (auto simp: id dest: inj_onD)
    qed
    moreover have "\<exists>y \<in> rows R d2. e_endpoint_key_name y = sr_endpoint_key_name rule \<and> e_enabled y"
      if rule: "rule \<in> set SEED_EPR" for rule
    proof -
      from each [OF rule] obtain y where y: "y \<in> rows R d'" "e_endpoint_key_name y = sr_endpoint_key_name rule" "e_enabled y" by blast
      show ?thesis
      proof (cases "e_id y = e_id e")
        case True
        with y(1) e(1) inj(2) have "y = e" by (auto dest: inj_onD)
        with y show ?thesis unfolding r by auto
      qed (use y in \<open>auto simp: r id\<close>)
    qed
    moreover have "e_endpoint_key_name ` rows R d2 = e_endpoint_key_name ` rows R d'"
    proof -
      have "y = e" if "y \<in> rows R d'" "e_id y = e_id e" for y using that e(1) by (intro inj_onD [OF inj(2)])
      then have "rows R d' = insert e {y \<in> rows R d'. e_id y \<noteq> e_id e}" using e(1) by blast
      then have "e_endpoint_key_name ` rows R d' = insert (e_endpoint_key_name e) (e_endpoint_key_name ` {y \<in> rows R d'. e_id y \<noteq> e_id e})"
        by (metis image_insert)
      then show ?thesis unfolding r by (simp add: id)
    qed
    moreover have "e_endpoint_key_name ` rows R d' = e_endpoint_key_name ` rows R d \<union> sr_endpoint_key_name ` set SEED_EPR"
      using assms(4) by (simp add: rules_inv_def)
    ultimately show "accounts U d2 = accounts U d' \<longrightarrow> rows L d2 = rows L d' \<longrightarrow> rows P d2 = rows P d' \<longrightarrow>
        rules_inv P R L U d (ys @ [x]) d2"
      using this_rule s inv by (auto simp: rules_inv_def)
  qed
  have some_rule: "\<exists>e \<in> rows R d'. e_endpoint_key_name e = sr_endpoint_key_name x" using each [OF x(1)] by blast
  have some_permission: "\<exists>p \<in> rows P d'. p_code p = sr_permission_code x"
    using subsetD [OF assms(2) [unfolded permissions_seeded_def] x(2)] unfolding inv(2) by auto
  show ?thesis unfolding seed_one_rule_def wp_bind
  proof (rule yields_find_one [OF laws(2)], goal_cases)
    case (1 e)
    show ?case
    proof (rule yields_find_one [OF laws(1)], goal_cases)
      case (1 p)
      then show ?case using save \<open>e \<in> rows R d'\<close> \<open>e_endpoint_key_name e = sr_endpoint_key_name x\<close> by (simp add: wp)
    next
      case 2
      with some_permission show ?case by blast
    qed
  next
    case 2
    with some_rule show ?case by blast
  qed
qed


lemma seedEndpointPermissionRules_yields:
  assumes "seed_env E M P R L U" "seed_db P R L U d" "permissions_seeded P d"
  shows "yields (seedEndpointPermissionRules E M) (\<lambda>_ d'. seed_db P R L U d' \<and> rows P d' = rows P d \<and>
    rules_seeded R d d' \<and> accounts U d' = accounts U d) d"
  unfolding seedEndpointPermissionRules_def wp_then
proof (rule wp_mono [OF rules_inv_start [OF assms(1,2)]])
  fix d1 assume start: "rules_inv P R L U d [] d1"
  show "yields (forE SEED_EPR (seed_one_rule E)) (\<lambda>_ d'. seed_db P R L U d' \<and> rows P d' = rows P d \<and>
      rules_seeded R d d' \<and> accounts U d' = accounts U d) d1"
  proof (rule wp_forE_prefix [where I = "rules_inv P R L U d"])
    fix d' assume "rules_inv P R L U d SEED_EPR d'"
    with assms(2) show "seed_db P R L U d' \<and> rows P d' = rows P d \<and>
        rules_seeded R d d' \<and> accounts U d' = accounts U d"
      by (simp add: rules_inv_def rules_seeded_def seed_db_def list_all_iff sound_table_def)
  qed (use start seed_one_rule_yields [OF assms(1,3)] in blast)+
qed simp

text \<open>The role holds every permission of the database.\<close>

definition super_admin :: "('d, permission) table \<Rightarrow> ('d, role) table \<Rightarrow> 'd \<Rightarrow> role \<Rightarrow> bool" where
  "super_admin P L d r \<longleftrightarrow> r \<in> rows L d \<and> r_name r = ''SUPER_ADMIN'' \<and> r_is_restricted r \<and> set (r_permissions r) = rows P d"

lemma seedRoles_yields:
  assumes "seed_env E M P R L U" "seed_db P R L U d"
  shows "yields (seedRoles E M) (\<lambda>_ d'. seed_db P R L U d' \<and> rows P d' = rows P d \<and> rows R d' = rows R d \<and>
    accounts U d' = accounts U d \<and> (\<exists>r. super_admin P L d' r)) d"
proof -
  note laws = seed_envD [OF assms(1)]
  have l: "leaves (rows P) (upsert_role M n b)" "leaves (rows R) (upsert_role M n b)" "leaves (accounts U) (upsert_role M n b)"
    "leaves (rows P) (orm_save (roles_orm E) r)" "leaves (rows R) (orm_save (roles_orm E) r)"
    "leaves (accounts U) (orm_save (roles_orm E) r)" for n b r
    using laws(10) by (simp_all add: frame_laws_def)
  let ?n = "''SUPER_ADMIN''"
  have id: "ident L = r_id" using laws(7) by (simp add: roles_table_def)
  have up: "upsert_ok L r_name (\<lambda>r. r\<lparr>r_is_restricted := True\<rparr>) (\<lambda>r. r_is_restricted r = True \<and> r_permissions r = [])
      {?n} d (upsert_role M ?n True d)"
    using laws(9) unfolding upsert_laws_def by blast
  let ?done = "\<lambda>d'. seed_db P R L U d' \<and> rows P d' = rows P d \<and> rows R d' = rows R d \<and>
    accounts U d' = accounts U d \<and> (\<exists>r. super_admin P L d' r)"
  let ?mid = "\<lambda>d'. sound_table L d' \<and> rows P d' = rows P d \<and> rows R d' = rows R d \<and> accounts U d' = accounts U d \<and>
    (\<exists>r \<in> rows L d'. r_name r = ?n \<and> r_is_restricted r)"
  have first: "yields (upsert_role M ?n True) (\<lambda>_. ?mid) d"
  proof (rule yields_leaves [OF l(1)], rule yields_leaves [OF l(2)], rule yields_leaves [OF l(3)],
      rule yields_upsert [where m = "upsert_role M ?n True" and upd = "\<lambda>r. r\<lparr>r_is_restricted := True\<rparr>", OF up])
    show "sound_table L d" using assms(2) by (simp add: seed_db_def)
    show "ident L (e\<lparr>r_is_restricted := True\<rparr>) = ident L e" for e by (simp add: id)
    fix d' N assume r: "rows L d' = (\<lambda>e. if r_name e \<in> {?n} then e\<lparr>r_is_restricted := True\<rparr> else e) ` rows L d \<union> N"
      "r_name ` N = {?n} - r_name ` rows L d" and n: "\<And>e. e \<in> N \<Longrightarrow> r_is_restricted e = True \<and> r_permissions e = []"
      and s: "sound_table L d'"
    have "\<exists>r \<in> rows L d'. r_name r = ?n \<and> r_is_restricted r"
    proof (cases "?n \<in> r_name ` rows L d")
      case True
      then obtain e where "e \<in> rows L d" "r_name e = ?n" by auto
      then show ?thesis unfolding r(1) by (intro bexI [where x = "e\<lparr>r_is_restricted := True\<rparr>"]) (auto intro!: rev_image_eqI)
    next
      case False
      then have "?n \<in> r_name ` N" unfolding r(2) by simp
      then obtain e where e: "e \<in> N" "?n = r_name e" by (rule imageE)
      have "e \<in> rows L d'" unfolding r(1) using e(1) by (rule UnI2)
      with e(2) [symmetric] n [OF e(1)] show ?thesis by blast
    qed
    with s show "accounts U d' = accounts U d \<longrightarrow> rows R d' = rows R d \<longrightarrow> rows P d' = rows P d \<longrightarrow> ?mid d'" by blast
  qed
  have save: "yields (orm_save (roles_orm E) (r\<lparr>r_permissions := ps\<rparr>)) (\<lambda>_. ?done) d1"
    if mid: "?mid d1" and r: "r \<in> rows L d1" "r_name r = ?n" and ps: "set ps = rows P d1" for d1 r ps
  proof (rule yields_leaves [OF l(4)], rule yields_leaves [OF l(5)], rule yields_leaves [OF l(6)],
      rule yields_update [OF laws(3)])
    let ?r = "r\<lparr>r_permissions := ps\<rparr>"
    from mid obtain r2 where "r2 \<in> rows L d1" "r_name r2 = ?n" "r_is_restricted r2" by blast
    moreover from this r mid laws(7) have "r2 = r"
      by (intro inj_onD [of r_name "rows L d1"]) (simp_all add: sound_table_def roles_table_def)
    ultimately have restricted: "r_is_restricted r" by simp
    show "sound_table L d1" using mid by blast
    then show "ident L ?r \<noteq> ''''" using r(1) by (simp add: id sound_table_def)
    fix d2 assume r2: "rows L d2 = insert ?r {x \<in> rows L d1. ident L x \<noteq> ident L ?r}" and s2: "sound_table L d2"
    show "accounts U d2 = accounts U d1 \<longrightarrow> rows R d2 = rows R d1 \<longrightarrow> rows P d2 = rows P d1 \<longrightarrow> ?done d2"
    proof (intro impI)
      assume "accounts U d2 = accounts U d1" "rows R d2 = rows R d1" "rows P d2 = rows P d1"
      with mid have same: "accounts U d2 = accounts U d" "rows R d2 = rows R d" "rows P d2 = rows P d" "rows P d1 = rows P d" by simp_all
      have "sound_table P d2" "sound_table R d2"
        using assms(2) unfolding seed_db_def sound_table_def same by blast+
      with s2 assms(2) have "seed_db P R L U d2" unfolding seed_db_def same by blast
      moreover have "super_admin P L d2 ?r" using r(2) ps restricted by (simp add: super_admin_def r2 same)
      ultimately show "?done d2" using same by blast
    qed
  qed
  have "yields (seed_one_role E M (SEED_ROLES ! 0)) (\<lambda>_. ?done) d"
    unfolding seed_one_role_def wp_then
  proof (rule wp_mono, simp add: SEED_ROLES_def, rule first)
    fix d1 assume mid: "?mid d1"
    show "yields (bindE (readE (orm_find_one (roles_orm E) (\<lambda>r. r_name r = so_name (SEED_ROLES ! 0)))) (\<lambda>found.
        case found of None \<Rightarrow> returnE ()
        | Some role \<Rightarrow>
            bindE (readE (orm_find (permissions_orm E)
                     (if length (so_permission_codes (SEED_ROLES ! 0)) = 0 then (\<lambda>p. True)
                      else (\<lambda>p. p_code p \<in> set (so_permission_codes (SEED_ROLES ! 0)))))) (\<lambda>permissions.
            bindE (orm_save (roles_orm E) (role\<lparr>r_permissions := permissions\<rparr>)) (\<lambda>_. returnE ())))) (\<lambda>_. ?done) d1"
      unfolding wp_bind
    proof (rule yields_find_one [OF laws(3)], goal_cases)
      case (1 r)
      then have r: "r \<in> rows L d1" "r_name r = ?n" by (simp_all add: SEED_ROLES_def)
      show ?case unfolding option.case wp_bind
      proof (rule yields_find [OF laws(1)], goal_cases)
        case (1 ps)
        then have "set ps = rows P d1" by (simp add: SEED_ROLES_def)
        from save [OF mid r this] show ?case by (simp only: wp_return)
      qed
    next
      case 2
      with mid show ?case by (auto simp: SEED_ROLES_def)
    qed
  qed simp
  then show ?thesis by (simp add: seedRoles_def SEED_ROLES_def wp)
qed


lemma yields_replace:
  assumes "orm_laws G T" "ident T e \<noteq> ''''"
    and "\<And>d'. rows T d' = insert e {x \<in> rows T d. ident T x \<noteq> ident T e} \<Longrightarrow> Q e d'"
  shows "yields (orm_save G e) Q d"
  by (rule wp_save [OF assms(1)]) (use assms(2,3) in \<open>auto simp: saved_rows_def\<close>)

lemma yields_insert:
  assumes "orm_laws G T" "ident T e = ''''"
    and "\<And>i e' d'. e' = assign T i e \<Longrightarrow> i = ident T e' \<Longrightarrow> i \<noteq> '''' \<Longrightarrow> i \<notin> ident T ` rows T d \<Longrightarrow>
      rows T d' = insert e' (rows T d) \<Longrightarrow> Q e' d'"
  shows "yields (orm_save G e) Q d"
proof (rule wp_save [OF assms(1)])
  fix e' d' assume r: "rows T d' = saved_rows T e' (rows T d)" and i: "ident T e' \<noteq> ''''"
    and "ident T e = '''' \<Longrightarrow> e' = assign T (ident T e') e \<and> ident T e' \<notin> ident T ` rows T d"
  then have a: "e' = assign T (ident T e') e" "ident T e' \<notin> ident T ` rows T d" using assms(2) by simp_all
  then have "rows T d' = insert e' (rows T d)" unfolding r saved_rows_def by (auto simp: image_iff)
  with a i show "Q e' d'" using assms(3) by blast
qed simp

lemma admin_roles_yields:
  assumes "seed_env E M P R L U" "sound_table L d" "super_admin P L d r" "Q [r] d"
  shows "yields (admin_roles E) Q d"
  unfolding admin_roles_def
proof (rule yields_find [OF seed_envD(3) [OF assms(1)]])
  fix es assume es: "set es = {x \<in> rows L d. r_name x \<in> set (su_role_names SEED_ADMIN_USER)}" "distinct es"
  have "inj_on r_name (rows L d)" using seed_envD(7) [OF assms(1)] assms(2) by (simp add: roles_table_def sound_table_def)
  moreover have r: "r \<in> rows L d" "r_name r = ''SUPER_ADMIN''" using assms(3) by (simp_all add: super_admin_def)
  ultimately have "set es = {r}" unfolding es(1) by (auto simp: SEED_ADMIN_USER_def intro: inj_onD)
  with es(2) have "es = [r]" by (cases es) (auto simp: set_eq_iff, metis list.set_intros(1) neq_Nil_conv)
  with assms(4) show "Q es d" by simp
qed

text \<open>The credentials of the administrator that is created.\<close>

definition admin_credentials :: "('r, 'd, 'q) env \<Rightarrow> string \<Rightarrow> string \<times> string \<times> string \<times> string" where
  "admin_credentials E i = (i, su_email SEED_ADMIN_USER, bcrypt_hashSync E (su_password SEED_ADMIN_USER) 10,
     su_person_id SEED_ADMIN_USER)"

definition admin_present :: "('d, user) table \<Rightarrow> 'd \<Rightarrow> bool" where
  "admin_present U d \<longleftrightarrow> su_email SEED_ADMIN_USER \<in> (fst \<circ> snd) ` accounts U d"

definition accounts_after ::
  "('r, 'd, 'q) env \<Rightarrow> ('d, user) table \<Rightarrow> 'd \<Rightarrow> 'd \<Rightarrow> bool" where
  "accounts_after E U d d' \<longleftrightarrow>
     (if admin_present U d then accounts U d' = accounts U d
      else \<exists>i. i \<notin> fst ` accounts U d \<and> accounts U d' = insert (admin_credentials E i) (accounts U d))"

definition admin_seeded :: "('d, user) table \<Rightarrow> 'd \<Rightarrow> role \<Rightarrow> bool" where
  "admin_seeded U d r \<longleftrightarrow> (\<exists>u \<in> rows U d. u_email u = su_email SEED_ADMIN_USER \<and> u_status u = ACTIVE \<and> u_roles u = Some [r])"

lemma accounts_replace:
  assumes "inj_on fst (accounts U d)" "u \<in> rows U d" "credentials e = credentials u"
    and "rows U d' = insert e {x \<in> rows U d. u_id x \<noteq> u_id u}"
  shows "accounts U d' = accounts U d"
proof -
  have "credentials x = credentials u" if "x \<in> rows U d" "u_id x = u_id u" for x
  proof (rule inj_onD [OF assms(1)])
    show "fst (credentials x) = fst (credentials u)" using that(2) by (simp add: credentials_def)
  qed (use that(1) assms(2) in \<open>simp_all add: accounts_def\<close>)
  then show ?thesis unfolding accounts_def assms(4) image_insert assms(3) using assms(2) by blast
qed

lemma seedUsers_yields:
  assumes "seed_env E M P R L U" "seed_db P R L U d" "super_admin P L d r"
  shows "yields (seedUsers E) (\<lambda>_ d'. rows P d' = rows P d \<and> rows R d' = rows R d \<and> rows L d' = rows L d \<and>
    accounts_after E U d d' \<and> admin_seeded U d' r) d"
proof -
  note laws = seed_envD [OF assms(1)]
  have id: "ident U = u_id" "assign U = (\<lambda>i e. e\<lparr>u_id := i\<rparr>)" using laws(8) by (simp_all add: users_table_def)
  have l: "leaves (rows P) (orm_save (users_orm E) u)" "leaves (rows R) (orm_save (users_orm E) u)"
    "leaves (rows L) (orm_save (users_orm E) u)" for u
    using laws(10) by (simp_all add: frame_laws_def)
  have L: "sound_table L d" and inj: "inj_on fst (accounts U d)" and ids: "'''' \<notin> fst ` accounts U d"
    using assms(2) by (simp_all add: seed_db_def)
  let ?Q = "\<lambda>d'. rows P d' = rows P d \<and> rows R d' = rows R d \<and> rows L d' = rows L d \<and>
    accounts_after E U d d' \<and> admin_seeded U d' r"
  show ?thesis unfolding seedUsers_def wp_bind
  proof (rule yields_find_one [OF laws(4)], goal_cases)
    case (1 u)
    let ?e = "(loadOriginalPassword u)\<lparr>u_roles := Some [r], u_status := su_status SEED_ADMIN_USER\<rparr>"
    have uid: "u_id u \<noteq> ''''" using ids 1(1) by (force simp: accounts_def credentials_def)
    then have same: "before_save E ?e = ?e" by (simp add: before_save_def)
    have cred: "credentials ?e = credentials u" by (simp add: credentials_def)
    have present: "admin_present U d" using 1 by (force simp: admin_present_def accounts_def credentials_def)
    have "yields (orm_save (users_orm E) ?e) (\<lambda>_. ?Q) d"
    proof (rule yields_leaves [OF l(1)], rule yields_leaves [OF l(2)], rule yields_leaves [OF l(3)], rule yields_replace [OF laws(4)])
      show "ident U ?e \<noteq> ''''" using uid by (simp add: id)
      fix d' assume r': "rows U d' = insert ?e {x \<in> rows U d. ident U x \<noteq> ident U ?e}"
      then have "accounts U d' = accounts U d" by (intro accounts_replace [OF inj 1(1) cred]) (simp add: id)
      moreover have "admin_seeded U d' r" unfolding admin_seeded_def r' using 1(2) by (simp add: SEED_ADMIN_USER_def)
      ultimately show "rows L d' = rows L d \<longrightarrow> rows R d' = rows R d \<longrightarrow> rows P d' = rows P d \<longrightarrow> ?Q d'"
        using present by (simp add: accounts_after_def)
    qed
    then have "yields (admin_roles E) (\<lambda>roles. yields (orm_save (users_orm E) (before_save E
        ((loadOriginalPassword u)\<lparr>u_roles := Some roles, u_status := su_status SEED_ADMIN_USER\<rparr>))) (\<lambda>_. ?Q)) d"
      by (intro admin_roles_yields [OF assms(1) L assms(3)]) (simp only: same)
    then show ?case by (simp add: wp_bind wp_return)
  next
    case 2
    let ?n = "before_save E new_admin"
    have absent: "\<not> admin_present U d"
    proof
      assume "admin_present U d"
      then obtain x where "x \<in> rows U d" "su_email SEED_ADMIN_USER = u_email x"
        by (auto simp: admin_present_def accounts_def credentials_def)
      with 2 [of x] show False by simp
    qed
    have new: "u_id ?n = ''''" "credentials (?n\<lparr>u_id := i, u_roles := rs\<rparr>) = admin_credentials E i"
      "u_email ?n = su_email SEED_ADMIN_USER" "u_status ?n = ACTIVE" for i rs
      by (simp_all add: before_save_def new_admin_def hasPasswordOnInsert_def credentials_def admin_credentials_def SEED_ADMIN_USER_def)
    have second: "yields (orm_save (users_orm E) (?n\<lparr>u_id := i, u_roles := Some [r]\<rparr>)) (\<lambda>_. ?Q) d1"
      if i: "i \<noteq> ''''" "i \<notin> u_id ` rows U d" and d1: "rows U d1 = insert (?n\<lparr>u_id := i\<rparr>) (rows U d)"
        "rows P d1 = rows P d" "rows R d1 = rows R d" "rows L d1 = rows L d" for i d1
    proof (rule yields_leaves [OF l(1)], rule yields_leaves [OF l(2)], rule yields_leaves [OF l(3)], rule yields_replace [OF laws(4)])
      let ?e = "?n\<lparr>u_id := i, u_roles := Some [r]\<rparr>"
      show "ident U ?e \<noteq> ''''" using i(1) by (simp add: id)
      fix d' assume "rows U d' = insert ?e {x \<in> rows U d1. ident U x \<noteq> ident U ?e}"
      then have r': "rows U d' = insert ?e (rows U d)" using i(2) by (auto simp: id d1(1))
      have "accounts U d' = insert (admin_credentials E i) (accounts U d)" by (simp add: accounts_def r' new(2))
      moreover have "i \<notin> fst ` accounts U d" using i(2) by (auto simp: accounts_def credentials_def)
      ultimately have "accounts_after E U d d'" using absent by (auto simp: accounts_after_def)
      moreover have "admin_seeded U d' r" by (simp add: admin_seeded_def r' new(3,4))
      ultimately show "rows L d' = rows L d1 \<longrightarrow> rows R d' = rows R d1 \<longrightarrow> rows P d' = rows P d1 \<longrightarrow> ?Q d'"
        using d1(2-4) by simp
    qed
    let ?rest = "\<lambda>user. yields (admin_roles E) (\<lambda>roles. yields (orm_save (users_orm E) (user\<lparr>u_roles := Some roles\<rparr>)) (\<lambda>_. ?Q))"
    have "yields (orm_save (users_orm E) ?n) ?rest d"
    proof (rule yields_leaves [OF l(1)], rule yields_leaves [OF l(2)], rule yields_leaves [OF l(3)], rule yields_insert [OF laws(4)])
      show "ident U ?n = ''''" by (simp add: id new(1))
      fix i e' d1 assume e': "e' = assign U i ?n" and i: "i \<noteq> ''''" "i \<notin> ident U ` rows U d" "rows U d1 = insert e' (rows U d)"
      show "rows L d1 = rows L d \<longrightarrow> rows R d1 = rows R d \<longrightarrow> rows P d1 = rows P d \<longrightarrow> ?rest e' d1"
      proof (intro impI)
        assume same: "rows L d1 = rows L d" "rows R d1 = rows R d" "rows P d1 = rows P d"
        have "super_admin P L d1 r" "sound_table L d1" using assms(3) L by (simp_all add: super_admin_def sound_table_def same)
        moreover have "yields (orm_save (users_orm E) (e'\<lparr>u_roles := Some [r]\<rparr>)) (\<lambda>_. ?Q) d1"
          using second [OF i(1), of d1] i(2,3) same by (simp add: e' id)
        ultimately show "?rest e' d1" by (intro admin_roles_yields [OF assms(1)])
      qed
    qed
    then show ?case by (simp add: wp_bind wp_return)
  qed
qed


section \<open>The run\<close>

definition seeded_tables ::
  "('r, 'd, 'q) env \<Rightarrow> ('d, permission) table \<Rightarrow> ('d, epr) table \<Rightarrow> ('d, role) table \<Rightarrow> ('d, user) table \<Rightarrow> 'd \<Rightarrow> 'd \<Rightarrow> bool" where
  "seeded_tables E P R L U d d' \<longleftrightarrow> permissions_seeded P d' \<and> rules_seeded R d d' \<and> accounts_after E U d d' \<and>
     (\<exists>r. super_admin P L d' r \<and> admin_seeded U d' r)"

lemma seed_steps_yields:
  assumes "seed_env E M P R L U" "seed_db P R L U d"
  shows "yields (seed_steps E M) (\<lambda>_. seeded_tables E P R L U d) d"
  unfolding seed_steps_def wp_then
proof (rule wp_mono [OF seedPermissions_yields [OF assms]])
  fix d1 assume d1: "seed_db P R L U d1 \<and> permissions_seeded P d1 \<and> rows R d1 = rows R d \<and> accounts U d1 = accounts U d"
  then have "seed_db P R L U d1" "permissions_seeded P d1" by simp_all
  from seedEndpointPermissionRules_yields [OF assms(1) this]
  show "yields (seedEndpointPermissionRules E M) (\<lambda>_. yields (seedRoles E M) (\<lambda>_. yields (seedUsers E)
      (\<lambda>_. seeded_tables E P R L U d))) d1"
  proof (rule wp_mono)
    fix d2 assume d2: "seed_db P R L U d2 \<and> rows P d2 = rows P d1 \<and> rules_seeded R d1 d2 \<and> accounts U d2 = accounts U d1"
    then have "seed_db P R L U d2" by simp
    from seedRoles_yields [OF assms(1) this]
    show "yields (seedRoles E M) (\<lambda>_. yields (seedUsers E) (\<lambda>_. seeded_tables E P R L U d)) d2"
    proof (rule wp_mono)
      fix d3 assume d3: "seed_db P R L U d3 \<and> rows P d3 = rows P d2 \<and> rows R d3 = rows R d2 \<and> accounts U d3 = accounts U d2 \<and>
        (\<exists>r. super_admin P L d3 r)"
      then obtain r where r: "seed_db P R L U d3" "super_admin P L d3 r" by blast
      show "yields (seedUsers E) (\<lambda>_. seeded_tables E P R L U d) d3"
      proof (rule wp_mono [OF seedUsers_yields [OF assms(1) r]])
        fix d4 assume d4: "rows P d4 = rows P d3 \<and> rows R d4 = rows R d3 \<and> rows L d4 = rows L d3 \<and>
          accounts_after E U d3 d4 \<and> admin_seeded U d4 r"
        have same: "rows P d4 = rows P d1" "rows R d4 = rows R d2" "accounts U d3 = accounts U d" using d1 d2 d3 d4 by simp_all
        have "permissions_seeded P d4" using d1 by (simp add: permissions_seeded_def same)
        moreover have "rules_seeded R d d4" using d1 d2 by (simp add: rules_seeded_def rule_seeded_def [abs_def] same)
        moreover have "accounts_after E U d d4"
          using d4 unfolding accounts_after_def admin_present_def same(3) by (elim conjE)
        moreover have "super_admin P L d4 r" using r(2) d4 by (simp add: super_admin_def)
        ultimately show "seeded_tables E P R L U d d4" using d4 by (auto simp: seeded_tables_def)
      qed simp
    qed simp
  qed simp
qed simp

lemma seed_run_cases:
  assumes "SeedService_run E M d = (x, d')"
  obtains d1 e where "x = Inl e" "d' = tx_rollback E d d1"
  | d1 where "x = Inr ()" "seed_steps E M d = (Inr (), d1)" "tx_commit E d d1 = (Inr (), d')"
  using assms by (auto simp: SeedService_run_def catchE_def thenE_def bindE_def throwE_def split: prod.splits sum.splits)

lemma seed_run_rows:
  assumes "SeedService_run E M d = (x, d')" "tx_laws E T"
  shows "x = Inl e \<Longrightarrow> rows T d' = rows T d" "seed_steps E M d = (Inr (), d1) \<Longrightarrow> x = Inr () \<Longrightarrow> rows T d' = rows T d1"
proof -
  have tx: "rows T (tx_rollback E d b) = rows T d" "commit_ok T d b (tx_commit E d b)" for b
    using assms(2) by (simp_all add: tx_laws_def)
  show "rows T d' = rows T d" if "x = Inl e"
    using that tx(1) by (cases rule: seed_run_cases [OF assms(1)]) simp_all
  show "rows T d' = rows T d1" if s: "seed_steps E M d = (Inr (), d1)" "x = Inr ()"
  proof (cases rule: seed_run_cases [OF assms(1)])
    case (2 d2)
    with s(1) have "tx_commit E d d1 = (Inr (), d')" by simp
    with tx(2) [of d1] show ?thesis by (simp add: commit_ok_def)
  qed (use s in simp)
qed

lemma seed_run_result:
  assumes "seed_env E M P R L U" "seed_db P R L U d" "SeedService_run E M d = (Inr (), d')"
  shows "seeded_tables E P R L U d d'"
proof (cases rule: seed_run_cases [OF assms(3)])
  case (2 d1)
  note r = seed_run_rows(2) [OF assms(3) _ 2(2) refl]
  have "rows P d' = rows P d1" "rows R d' = rows R d1" "rows L d' = rows L d1" "rows U d' = rows U d1"
    by (rule r, rule seed_envD [OF assms(1)])+
  then have same: "rows P d' = rows P d1" "rows R d' = rows R d1" "rows L d' = rows L d1" "rows U d' = rows U d1"
    "accounts U d' = accounts U d1" by (simp_all add: accounts_def)
  have "seeded_tables E P R L U d d1" using seed_steps_yields [OF assms(1,2)] 2(2) by (rule wp_runR)
  then show ?thesis
    unfolding seeded_tables_def permissions_seeded_def rules_seeded_def rule_seeded_def accounts_after_def
        super_admin_def admin_seeded_def same .
qed simp

lemma sound_seed_db:
  assumes "users_table U" "sound_table P d" "sound_table R d" "sound_table L d" "sound_table U d"
  shows "seed_db P R L U d"
proof -
  have "inj_on u_id (rows U d)" "\<forall>u \<in> rows U d. u_id u \<noteq> ''''"
    using assms(1,5) by (simp_all add: users_table_def sound_table_def)
  then have "inj_on fst (accounts U d)" "'''' \<notin> fst ` accounts U d"
    unfolding accounts_def by (auto simp: inj_on_def credentials_def)
  with assms(2-4) show ?thesis by (simp add: seed_db_def)
qed

end
