(* ===== verification/SeedExample.thy ===== *)
theory SeedExample imports SeedSteps begin

text \<open>
  Upserts over the in-memory database, shown to meet the laws, and a database with nothing in it, on
  which the seeding succeeds.
\<close>

section \<open>In-memory upserts\<close>

definition mem_ins :: "('e \<Rightarrow> string) \<Rightarrow> ('e \<Rightarrow> string) \<Rightarrow> (string \<Rightarrow> string \<Rightarrow> 'e) \<Rightarrow> string \<Rightarrow> 'e list \<Rightarrow> 'e list" where
  "mem_ins idf key mk k xs = (if k \<in> key ` set xs then xs else mk (fresh_id (List.map idf xs)) k # xs)"

definition mem_upsert ::
  "('e \<Rightarrow> string) \<Rightarrow> ('e \<Rightarrow> string) \<Rightarrow> ('e \<Rightarrow> 'e) \<Rightarrow> (string \<Rightarrow> string \<Rightarrow> 'e) \<Rightarrow> string list \<Rightarrow> 'e list \<Rightarrow> 'e list" where
  "mem_upsert idf key upd mk keys xs =
     fold (mem_ins idf key mk) keys (List.map (\<lambda>e. if key e \<in> set keys then upd e else e) xs)"

lemma fresh_id_new: "fresh_id (List.map idf xs) \<notin> idf ` set xs" "fresh_id xs' \<noteq> ''''"
  using fresh_id_fresh [of "List.map idf xs"] by (simp_all add: fresh_id_def)

lemma mem_ins_unique:
  assumes "\<And>i k. idf (mk i k) = i" "\<And>i k. key (mk i k) = k" "columns_unique [idf, key] xs"
  shows "columns_unique [idf, key] (mem_ins idf key mk k xs)"
proof (cases "k \<in> key ` set xs")
  case False
  let ?new = "mk (fresh_id (List.map idf xs)) k"
  have "inj_on idf (insert ?new (set xs))" "inj_on key (insert ?new (set xs))"
    using assms(3) False fresh_id_new(1) [of idf xs]
    by (auto simp: columns_unique_iff assms(1,2) inj_on_insert simp del: inj_on_insert)
  with False show ?thesis by (simp add: mem_ins_def columns_unique_iff)
qed (use assms(3) in \<open>simp add: mem_ins_def\<close>)

lemma mem_fold_unique:
  assumes "\<And>i k. idf (mk i k) = i" "\<And>i k. key (mk i k) = k" "columns_unique [idf, key] xs"
  shows "columns_unique [idf, key] (fold (mem_ins idf key mk) keys xs)"
  using assms(3)
proof (induction keys arbitrary: xs)
  case (Cons k keys)
  then show ?case using mem_ins_unique [OF assms(1,2) Cons.prems] by simp
qed simp

lemma mem_fold_new:
  assumes "\<And>i k. key (mk i k) = k"
  shows "\<exists>N. set (fold (mem_ins idf key mk) keys xs) = set xs \<union> N \<and> key ` N = set keys - key ` set xs \<and>
      (\<forall>e \<in> N. \<exists>i k. i \<noteq> '''' \<and> k \<in> set keys \<and> e = mk i k)"
proof (induction keys arbitrary: xs)
  case Nil
  then show ?case by simp
next
  case (Cons k keys)
  let ?ys = "mem_ins idf key mk k xs"
  let ?new = "mk (fresh_id (List.map idf xs)) k"
  let ?old = "k \<in> key ` set xs"
  have ys: "set ?ys = set xs \<union> (if ?old then {} else {?new})" by (simp add: mem_ins_def)
  from Cons.IH [of ?ys] obtain N where N: "set (fold (mem_ins idf key mk) keys ?ys) = set ?ys \<union> N"
    "key ` N = set keys - key ` set ?ys" "\<forall>e \<in> N. \<exists>i k. i \<noteq> '''' \<and> k \<in> set keys \<and> e = mk i k" by blast
  let ?N = "N \<union> (if ?old then {} else {?new})"
  have "set (fold (mem_ins idf key mk) (k # keys) xs) = set xs \<union> ?N" using N(1) ys by auto
  moreover have "key ` ?N = set (k # keys) - key ` set xs"
    unfolding image_Un N(2) ys by (auto simp: assms)
  moreover have "\<forall>e \<in> ?N. \<exists>i j. i \<noteq> '''' \<and> j \<in> set (k # keys) \<and> e = mk i j"
  proof (rule ballI)
    fix e assume "e \<in> ?N"
    then consider "e \<in> N" | "e = ?new" by (auto split: if_splits)
    then show "\<exists>i j. i \<noteq> '''' \<and> j \<in> set (k # keys) \<and> e = mk i j"
    proof cases
      case 1
      with N(3) obtain i j where "i \<noteq> ''''" "j \<in> set keys" "e = mk i j" by blast
      then show ?thesis by auto
    next
      case 2
      then show ?thesis using fresh_id_new(2) [of "List.map idf xs"]
        by (intro exI [where x = "fresh_id (List.map idf xs)"] exI [where x = k]) simp
    qed
  qed
  ultimately show ?case by blast
qed

definition mem_run_upsert :: "('d \<Rightarrow> bool) \<Rightarrow> ('e list \<Rightarrow> 'd \<Rightarrow> 'd) \<Rightarrow> ('d \<Rightarrow> 'e list) \<Rightarrow> ('d, exn, unit) io" where
  "mem_run_upsert ok put after d = (if ok d then (Inr (), put (after d) d) else (Inl db_down, d))"

lemma mem_upsert_ok:
  assumes mk: "\<And>i k. idf (mk i k) = i" "\<And>i k. key (mk i k) = k"
    and upd: "\<And>e. idf (upd e) = idf e" "\<And>e. key (upd e) = key e"
    and put: "\<And>xs d. get (put xs d) = xs" and new: "\<And>i k. k \<in> set keys \<Longrightarrow> new (mk i k)"
  shows "upsert_ok (mem_table ok get idf asg [idf, key]) key upd new (set keys) d
    (mem_run_upsert ok put (\<lambda>d. mem_upsert idf key upd mk keys (get d)) d)"
proof -
  let ?f = "\<lambda>e. if key e \<in> set keys then upd e else e"
  let ?xs = "List.map ?f (get d)"
  have same: "idf (?f e) = idf e" "key (?f e) = key e" for e using upd by simp_all
  obtain N where N: "set (fold (mem_ins idf key mk) keys ?xs) = set ?xs \<union> N"
    "key ` N = set keys - key ` set ?xs" "\<forall>e \<in> N. \<exists>i k. i \<noteq> '''' \<and> k \<in> set keys \<and> e = mk i k"
    using mem_fold_new [of key mk idf keys ?xs, OF mk(2)] by blast
  have "key ` set ?xs = key ` set (get d)" unfolding set_map image_image same ..
  with N have N2: "set (mem_upsert idf key upd mk keys (get d)) = ?f ` set (get d) \<union> N"
    "key ` N = set keys - key ` set (get d)" "\<forall>e \<in> N. new e \<and> idf e \<noteq> ''''"
    using new mk(1) by (auto simp: mem_upsert_def)
  have "inj_on c (?f ` S)" if "inj_on c S" "\<And>e. c (?f e) = c e" for c :: "'a \<Rightarrow> string" and S
  proof (rule inj_onI)
    fix a b assume "a \<in> ?f ` S" "b \<in> ?f ` S" "c a = c b"
    then obtain x y where "x \<in> S" "a = ?f x" "y \<in> S" "b = ?f y" by blast
    with \<open>c a = c b\<close> that show "a = b" by (metis inj_onD)
  qed
  then have "columns_unique [idf, key] ?xs" if "columns_unique [idf, key] (get d)"
    using that same by (simp add: columns_unique_iff)
  then have "columns_unique [idf, key] (mem_upsert idf key upd mk keys (get d))" if "columns_unique [idf, key] (get d)"
    using mem_fold_unique [of idf mk key ?xs keys, OF mk] that by (simp add: mem_upsert_def)
  with N2 show ?thesis
    by (auto simp: upsert_ok_def mem_run_upsert_def mem_table_def put columns_unique_iff)
qed

definition mem_upserts :: "mem_db upserts" where
  "mem_upserts =
     \<lparr>upsert_permissions = (\<lambda>codes. mem_run_upsert t_up (\<lambda>x d. d\<lparr>t_permissions := x\<rparr>) (\<lambda>d. mem_upsert p_id p_code (\<lambda>p. p)
        (\<lambda>i k. \<lparr>p_id = i, p_code = k, p_created_by = None\<rparr>) codes (t_permissions d))),
      upsert_rules = (\<lambda>rs. mem_run_upsert t_up (\<lambda>x d. d\<lparr>t_rules := x\<rparr>)
        (\<lambda>d. mem_upsert e_id e_endpoint_key_name (enabled_as rs)
          (\<lambda>i k. \<lparr>e_id = i, e_endpoint_key_name = k, e_enabled = the (map_of rs k), e_permissions = Some [], e_created_by = None\<rparr>)
          (List.map fst rs) (t_rules d))),
      upsert_role = (\<lambda>name b. mem_run_upsert t_up (\<lambda>x d. d\<lparr>t_roles := x\<rparr>)
        (\<lambda>d. mem_upsert r_id r_name (\<lambda>r. r\<lparr>r_is_restricted := b\<rparr>)
          (\<lambda>i k. \<lparr>r_id = i, r_name = k, r_is_restricted = b, r_created_by = None, r_permissions = []\<rparr>) [name] (t_roles d)))\<rparr>"

lemma mem_upsert_laws: "upsert_laws mem_upserts mem_permissions mem_rules mem_roles"
proof -
  have "upsert_ok mem_permissions p_code (\<lambda>p. p) (\<lambda>p. p_created_by p = None) (set codes) d
      (upsert_permissions mem_upserts codes d)" for codes d
    unfolding mem_permissions_def mem_upserts_def upserts.simps by (rule mem_upsert_ok) simp_all
  moreover have "upsert_ok mem_rules e_endpoint_key_name (enabled_as rs) (\<lambda>e. enabled_as rs e = e \<and> e_permissions e = Some [])
      (set (List.map fst rs)) d (upsert_rules mem_upserts rs d)" for rs d
    unfolding mem_rules_def mem_upserts_def upserts.simps by (rule mem_upsert_ok) (simp_all add: enabled_as_def)
  moreover have "upsert_ok mem_roles r_name (\<lambda>r. r\<lparr>r_is_restricted := b\<rparr>) (\<lambda>r. r_is_restricted r = b \<and> r_permissions r = [])
      (set [name]) d (upsert_role mem_upserts name b d)" for name b d
    unfolding mem_roles_def mem_upserts_def upserts.simps by (rule mem_upsert_ok) simp_all
  ultimately show ?thesis by (simp add: upsert_laws_def)
qed

lemma mem_frame_laws: "frame_laws mem_env mem_upserts mem_permissions mem_rules mem_roles mem_users"
  by (simp add: frame_laws_def leaves_def mem_upserts_def mem_run_upsert_def accounts_def mem_tables mem_env_def mem_orm_def Let_def)

lemma mem_seed_env: "seed_env mem_env mem_upserts mem_permissions mem_rules mem_roles mem_users"
  by (simp add: seed_env_def mem_env_laws mem_upsert_laws mem_frame_laws mem_tx_laws permissions_table_def epr_table_def
      roles_table_def users_table_def) (simp add: mem_tables)


section \<open>A seeding that succeeds\<close>

lemma mem_save_existing:
  assumes "ok d" "columns_unique cols (get d)" "orig \<in> set (get d)" "idf e \<noteq> ''''" "idf \<in> set cols"
    and "\<And>c. c \<in> set cols \<Longrightarrow> c e = c orig"
  shows "orm_save (mem_orm ok get put idf asg cols) e d = (Inr e, put (e # filter (\<lambda>x. idf x \<noteq> idf e) (get d)) d)"
proof -
  have "inj_on c (set (e # filter (\<lambda>x. idf x \<noteq> idf e) (get d)))" if c: "c \<in> set cols" for c
  proof -
    have inj: "inj_on c (set (get d))" using assms(2) c by (simp add: columns_unique_iff)
    have other: "c x \<noteq> c e" if x: "x \<in> set (get d)" "idf x \<noteq> idf e" for x
    proof
      assume "c x = c e"
      then have "x = orig" using inj_onD [OF inj _ x(1) assms(3)] assms(6) [OF c] by simp
      with x(2) assms(6) [OF assms(5)] show False by simp
    qed
    have "inj_on c {x \<in> set (get d). idf x \<noteq> idf e}" using inj by (rule inj_on_subset) blast
    moreover have "c e \<notin> c ` ({x \<in> set (get d). idf x \<noteq> idf e} - {e})" using other by fastforce
    ultimately show ?thesis by (simp add: inj_on_insert)
  qed
  then have "columns_unique cols (e # filter (\<lambda>x. idf x \<noteq> idf e) (get d))" unfolding columns_unique_iff by blast
  with assms(1,4) show ?thesis by (simp add: mem_orm_def Let_def)
qed

abbreviation succeeds :: "(mem_db, exn, 'a) io \<Rightarrow> mem_db \<Rightarrow> bool" where
  "succeeds m d \<equiv> wp m (\<lambda>_ d. t_up d) (\<lambda>_ _. False) d"

lemma wp_total: "yields m Q d \<Longrightarrow> succeeds m d \<Longrightarrow> wp m (\<lambda>a d. Q a d \<and> t_up d) (\<lambda>_ _. False) d"
  by (auto simp: wp_def split: prod.splits sum.splits)

lemma succeeds_upsert: "t_up d \<Longrightarrow> (\<And>x d. t_up (put x d) = t_up d) \<Longrightarrow> succeeds (mem_run_upsert t_up put f) d"
  by (simp add: wp_def mem_run_upsert_def)

lemma mem_queries:
  assumes "t_up d"
  shows "orm_find_one (rules_orm mem_env) p1 d = Inr (List.find p1 (t_rules d))"
    "orm_find_one (permissions_orm mem_env) p2 d = Inr (List.find p2 (t_permissions d))"
    "orm_find_one (roles_orm mem_env) p3 d = Inr (List.find p3 (t_roles d))"
    "orm_find_one (users_orm mem_env) p4 d = Inr (List.find p4 (t_users d))"
    "orm_find (permissions_orm mem_env) p5 d = Inr (filter p5 (remdups (t_permissions d)))"
    "orm_find (roles_orm mem_env) p6 d = Inr (filter p6 (remdups (t_roles d)))"
  using assms by (simp_all add: mem_env_def mem_orm_def)

lemma find_member: "List.find p xs = Some x \<Longrightarrow> x \<in> set xs \<and> p x"
  by (metis find_Some_iff nth_mem)

lemma succeeds_save_rule:
  assumes "sound_table mem_rules d" "t_up d" "e \<in> set (t_rules d)"
  shows "succeeds (orm_save (rules_orm mem_env) (e\<lparr>e_permissions := ps\<rparr>)) d"
proof -
  let ?cols = "[e_id, e_endpoint_key_name]"
  have o: "rules_orm mem_env = mem_orm t_up t_rules (\<lambda>x d. d\<lparr>t_rules := x\<rparr>) e_id (\<lambda>i e. e\<lparr>e_id := i\<rparr>) ?cols"
    by (simp add: mem_env_def)
  have "columns_unique ?cols (t_rules d)" "e_id e \<noteq> ''''"
    using assms(1,3) by (simp_all add: sound_table_def mem_tables columns_unique_iff)
  then show ?thesis unfolding wp_def o
    by (subst mem_save_existing [where ok = t_up and get = t_rules and orig = e]) (use assms(2,3) in auto)
qed

lemma succeeds_save_role:
  assumes "sound_table mem_roles d" "t_up d" "r \<in> set (t_roles d)"
  shows "succeeds (orm_save (roles_orm mem_env) (r\<lparr>r_permissions := ps\<rparr>)) d"
proof -
  let ?cols = "[r_id, r_name]"
  have o: "roles_orm mem_env = mem_orm t_up t_roles (\<lambda>x d. d\<lparr>t_roles := x\<rparr>) r_id (\<lambda>i e. e\<lparr>r_id := i\<rparr>) ?cols"
    by (simp add: mem_env_def)
  have "columns_unique ?cols (t_roles d)" "r_id r \<noteq> ''''"
    using assms(1,3) by (simp_all add: sound_table_def mem_tables columns_unique_iff)
  then show ?thesis unfolding wp_def o
    by (subst mem_save_existing [where ok = t_up and get = t_roles and orig = r]) (use assms(2,3) in auto)
qed

lemma succeeds_seed_one_rule:
  assumes "sound_table mem_rules d" "t_up d"
  shows "succeeds (seed_one_rule mem_env x) d"
  using succeeds_save_rule [OF assms] assms(2)
  by (auto simp: seed_one_rule_def wp mem_queries split: option.splits dest: find_member)

lemma succeeds_seedUsers:
  assumes "t_up d" "t_users d = []"
  shows "succeeds (seedUsers mem_env) d"
proof -
  let ?cols = "[u_id, u_email, u_person_id]"
  let ?u = "new_admin\<lparr>u_id := ''n'', u_password := ''hash:admin''\<rparr>"
  let ?d = "d\<lparr>t_users := [?u]\<rparr>"
  have o: "users_orm mem_env = mem_orm t_up t_users (\<lambda>x d. d\<lparr>t_users := x\<rparr>) u_id (\<lambda>i e. e\<lparr>u_id := i\<rparr>) ?cols"
    by (simp add: mem_env_def)
  have "before_save mem_env new_admin = new_admin\<lparr>u_password := ''hash:admin''\<rparr>"
    by (simp add: before_save_def new_admin_def hasPasswordOnInsert_def mem_env_def SEED_ADMIN_USER_def)
  then have first: "orm_save (users_orm mem_env) (before_save mem_env new_admin) d = (Inr ?u, ?d)"
    using assms by (simp add: o mem_orm_def Let_def columns_unique_def fresh_id_def new_admin_def)
  have second: "succeeds (orm_save (users_orm mem_env) (?u\<lparr>u_roles := rs\<rparr>)) ?d" for rs
    unfolding wp_def o
    by (subst mem_save_existing [where ok = t_up and get = t_users and orig = ?u])
      (use assms(1) in \<open>auto simp: columns_unique_def\<close>)
  have up: "t_up ?d" using assms(1) by simp
  have rest: "succeeds (bindE (admin_roles mem_env) (\<lambda>roles.
      bindE (orm_save (users_orm mem_env) (?u\<lparr>u_roles := Some roles\<rparr>)) (\<lambda>_. returnE ()))) ?d"
    using second by (simp add: admin_roles_def wp mem_queries [OF up])
  show ?thesis
    using assms rest
    by (simp add: seedUsers_def wp_bind wp_read mem_queries) (simp add: wp_def [of "orm_save _ (before_save _ _)"] first)
qed

lemma succeeds_seed_one_role:
  assumes "sound_table mem_roles d" "t_up d"
  shows "succeeds (seed_one_role mem_env mem_upserts x) d"
proof -
  let ?m = "upsert_role mem_upserts (so_name x) (so_is_restricted x)"
  have "upsert_ok mem_roles r_name (\<lambda>r. r\<lparr>r_is_restricted := so_is_restricted x\<rparr>)
      (\<lambda>r. r_is_restricted r = so_is_restricted x \<and> r_permissions r = []) {so_name x} d (?m d)"
    using mem_upsert_laws unfolding upsert_laws_def by blast
  then have "yields ?m (\<lambda>_. sound_table mem_roles) d"
    by (rule yields_upsert [OF _ assms(1)]) (simp_all add: mem_tables)
  moreover have "succeeds ?m d" using assms(2) by (simp add: mem_upserts_def succeeds_upsert)
  ultimately have "wp ?m (\<lambda>_ d. sound_table mem_roles d \<and> t_up d) (\<lambda>_ _. False) d" by (rule wp_total)
  then show ?thesis unfolding seed_one_role_def wp_then
  proof (rule wp_mono)
    fix d1 assume d1: "sound_table mem_roles d1 \<and> t_up d1"
    then show "succeeds (bindE (readE (orm_find_one (roles_orm mem_env) (\<lambda>r. r_name r = so_name x))) (\<lambda>found.
        case found of None \<Rightarrow> returnE ()
        | Some role \<Rightarrow>
            bindE (readE (orm_find (permissions_orm mem_env)
                     (if length (so_permission_codes x) = 0 then (\<lambda>p. True)
                      else (\<lambda>p. p_code p \<in> set (so_permission_codes x))))) (\<lambda>permissions.
            bindE (orm_save (roles_orm mem_env) (role\<lparr>r_permissions := permissions\<rparr>)) (\<lambda>_. returnE ())))) d1"
      using succeeds_save_role
      by (auto simp: wp mem_queries split: option.splits dest: find_member)
  qed simp
qed

definition db_empty :: mem_db where
  "db_empty = \<lparr>t_users = [], t_roles = [], t_permissions = [], t_api_keys = [], t_rules = [], t_up = True\<rparr>"

lemma db_empty_sound:
  "sound_table mem_permissions db_empty" "sound_table mem_rules db_empty" "sound_table mem_roles db_empty"
  "sound_table mem_users db_empty"
  by (simp_all add: sound_table_def mem_tables db_empty_def)

lemma seed_empty: "\<exists>d'. SeedService_run mem_env mem_upserts db_empty = (Inr (), d')"
proof -
  note env = mem_seed_env
  let ?P = mem_permissions and ?R = mem_rules and ?L = mem_roles and ?U = mem_users
  have db: "seed_db ?P ?R ?L ?U db_empty"
    by (rule sound_seed_db [OF seed_envD(8) [OF env] db_empty_sound])
  have "wp (seed_steps mem_env mem_upserts) (\<lambda>_ _. True) (\<lambda>_ _. False) db_empty"
    unfolding seed_steps_def wp_then
  proof (rule wp_mono [OF wp_total [OF seedPermissions_yields [OF env db]]], goal_cases)
    case 1
    show ?case by (simp add: seedPermissions_def mem_upserts_def succeeds_upsert db_empty_def)
  next
    case (2 u d1)
    then have d1: "seed_db ?P ?R ?L ?U d1" "permissions_seeded ?P d1" "accounts ?U d1 = {}" "t_up d1"
      by (simp_all add: accounts_def mem_tables db_empty_def)
    have "succeeds (seedEndpointPermissionRules mem_env mem_upserts) d1"
      unfolding seedEndpointPermissionRules_def wp_then
    proof (rule wp_mono [OF wp_total [OF rules_inv_start [OF env d1(1)]]], goal_cases)
      case 1
      show ?case using d1(4) by (simp add: mem_upserts_def succeeds_upsert)
    next
      case (2 u d2)
      show ?case
      proof (rule wp_forE_prefix [where I = "\<lambda>ys d. rules_inv ?P ?R ?L ?U d1 ys d \<and> t_up d"])
        show "rules_inv ?P ?R ?L ?U d1 [] d2 \<and> t_up d2" using 2 by simp
        fix ys x zs d3 assume "SEED_EPR = ys @ x # zs" "rules_inv ?P ?R ?L ?U d1 ys d3 \<and> t_up d3"
        then show "wp (seed_one_rule mem_env x) (\<lambda>_ d. rules_inv ?P ?R ?L ?U d1 (ys @ [x]) d \<and> t_up d) (\<lambda>_ _. False) d3"
          by (intro wp_total seed_one_rule_yields [OF env d1(2)] succeeds_seed_one_rule) (simp_all add: rules_inv_def)
      qed simp
    qed
    from wp_total [OF seedEndpointPermissionRules_yields [OF env d1(1,2)] this]
    show ?case
    proof (rule wp_mono, goal_cases)
      case (1 u d2)
      then have d2: "seed_db ?P ?R ?L ?U d2" "accounts ?U d2 = {}" "t_up d2" using d1(3) by simp_all
      have "succeeds (seedRoles mem_env mem_upserts) d2"
        using succeeds_seed_one_role [of d2] d2 by (simp add: seedRoles_def SEED_ROLES_def wp seed_db_def)
      from wp_total [OF seedRoles_yields [OF env d2(1)] this]
      show ?case
      proof (rule wp_mono, goal_cases)
        case (1 u d3)
        then have "t_up d3" "t_users d3 = []" using d2(2) by (simp_all add: accounts_def mem_tables)
        from succeeds_seedUsers [OF this] show ?case by (rule wp_mono) simp_all
      qed simp
    qed simp
  qed simp
  from wp_returns [OF this] obtain d1 where "seed_steps mem_env mem_upserts db_empty = (Inr (), d1)" by auto
  moreover have "tx_commit mem_env db_empty t = (Inr (), t)" for t by (simp add: mem_env_def)
  ultimately have "SeedService_run mem_env mem_upserts db_empty = (Inr (), d1)"
    unfolding SeedService_run_def catchE_def thenE_def bindE_def by (simp only: prod.case sum.case)
  then show ?thesis ..
qed

end
