(* ===== verification/SeedProperties.thy ===== *)
theory SeedProperties imports SeedExample begin

text \<open>
  What seeding guarantees: all of it or nothing, what a seeded database holds, that seeding again
  leaves the accounts alone, and which endpoints the seeded administrator reaches.
\<close>

text \<open>C38. Seeding is all or nothing. Whatever fails on the way, a statement, a lookup or the commit, the
  four tables are as before. If it succeeds, then every permission code of the data is in the
  database, every rule of the data is there, enabled and with its one code, the role
  \<open>SUPER_ADMIN\<close> is restricted and holds every permission of the database, those of other
  origin included, and the administrator is active with this role alone.\<close>

theorem seeding_all_or_nothing:
  assumes "seed_env E M P R L U" "sound_table P d" "sound_table R d" "sound_table L d" "sound_table U d"
    and "SeedService_run E M d = (outcome, d')"
  shows "case outcome of
      Inl e \<Rightarrow> rows P d' = rows P d \<and> rows R d' = rows R d \<and> rows L d' = rows L d \<and> rows U d' = rows U d
    | Inr _ \<Rightarrow> permissions_seeded P d' \<and> list_all (rule_seeded R d') SEED_EPR \<and>
        (\<exists>r. super_admin P L d' r \<and> admin_seeded U d' r)"
proof (cases outcome)
  case (Inl e)
  note r = seed_run_rows(1) [OF assms(6) _ Inl]
  have "rows P d' = rows P d" "rows R d' = rows R d" "rows L d' = rows L d" "rows U d' = rows U d"
    by (rule r, rule seed_envD [OF assms(1)])+
  with Inl show ?thesis by simp
next
  case (Inr u)
  have "seed_db P R L U d" by (rule sound_seed_db [OF seed_envD(8) [OF assms(1)] assms(2-5)])
  from seed_run_result [OF assms(1) this] assms(6) Inr show ?thesis
    by (simp add: seeded_tables_def rules_seeded_def)
qed

text \<open>C39. Seeding and the accounts: the first seeding adds one account, with the e-mail and the person of
  the data and the hash of its password, hashed once although the account is saved twice; every
  further seeding leaves identifiers, e-mails, passwords and persons of all users as they are, so
  a password the administrator has changed stays changed.\<close>

theorem seeding_keeps_accounts:
  assumes "seed_env E M P R L U" "sound_table P d" "sound_table R d" "sound_table L d" "sound_table U d"
    and "SeedService_run E M d = (Inr (), d')"
  shows "if admin_present U d then accounts U d' = accounts U d
    else \<exists>i. i \<notin> fst ` accounts U d \<and> accounts U d' = insert (admin_credentials E i) (accounts U d)"
proof -
  have "seed_db P R L U d" by (rule sound_seed_db [OF seed_envD(8) [OF assms(1)] assms(2-5)])
  from seed_run_result [OF assms(1) this assms(6)] show ?thesis by (simp add: seeded_tables_def accounts_after_def)
qed

text \<open>The endpoints behind \<open>AuthGuard\<close> whose key no rule of the data has.\<close>

definition unseeded_endpoints :: "endpoint list" where
  "unseeded_endpoints = [ep_apiKeys_changePermissions, ep_apiKeys_activate]"

lemma seed_covers:
  "list_all (\<lambda>ep. ep_guard ep = AuthGuard \<longrightarrow>
     ep \<in> set unseeded_endpoints \<or> ep_key ep = None \<or> the (ep_key ep) \<in> set (List.map sr_endpoint_key_name SEED_EPR)) endpoints"
  by (simp add: endpoints_def unseeded_endpoints_def endpoint_defs SEED_EPR_def seed_epr_def)

lemma unseeded_keys:
  "list_all (\<lambda>ep. \<exists>k. ep_key ep = Some k \<and> k \<noteq> '''' \<and> k \<notin> set (List.map sr_endpoint_key_name SEED_EPR)) unseeded_endpoints"
  by (simp add: unseeded_endpoints_def endpoint_defs SEED_EPR_def seed_epr_def)

lemma admin_codes:
  assumes "super_admin P L d r" "u_roles u = Some [r]"
  shows "set (user_permissionCodes u) = p_code ` rows P d"
  using assms by (auto simp: set_user_permissionCodes super_admin_def)

text \<open>C40. What the seeded administrator reaches: after a seeding every endpoint behind \<open>AuthGuard\<close> is open
  to the permission codes of the administrator, with two exceptions. No rule of the data has the key
  of \<open>PATCH /api-keys/change-permissions/:id\<close> or of \<open>PATCH /api-keys/activate/:id\<close>: unless such a
  rule was there before, these two are closed to every user, whatever the permissions.\<close>

theorem seeded_admin_reaches_endpoints:
  assumes "seed_env E M P R L U" "sound_table P d" "sound_table R d" "sound_table L d" "sound_table U d"
    and "SeedService_run E M d = (Inr (), d')"
    and "ep \<in> set endpoints" "ep_guard ep = AuthGuard"
  shows "if ep \<in> set unseeded_endpoints
     then ep_key ep \<in> (Some \<circ> e_endpoint_key_name) ` rows R d \<or> (\<forall>codes. \<not> endpoint_open R d' (ep_key ep) codes)
     else \<exists>u \<in> rows U d'. u_email u = su_email SEED_ADMIN_USER \<and> u_status u = ACTIVE \<and>
       endpoint_open R d' (ep_key ep) (user_permissionCodes u)"
proof -
  have "seed_db P R L U d" by (rule sound_seed_db [OF seed_envD(8) [OF assms(1)] assms(2-5)])
  from seed_run_result [OF assms(1) this assms(6)] have s: "seeded_tables E P R L U d d'" .
  show ?thesis
  proof (cases "ep \<in> set unseeded_endpoints")
    case True
    then obtain k where k: "ep_key ep = Some k" "k \<noteq> ''''" "k \<notin> sr_endpoint_key_name ` set SEED_EPR"
      using unseeded_keys by (auto simp: list_all_iff)
    have "e_endpoint_key_name ` rows R d' = e_endpoint_key_name ` rows R d \<union> sr_endpoint_key_name ` set SEED_EPR"
      using s by (simp add: seeded_tables_def rules_seeded_def)
    then have "k \<in> e_endpoint_key_name ` rows R d" if "k \<in> e_endpoint_key_name ` rows R d'" using that k(3) by blast
    with True k show ?thesis by (auto simp: endpoint_open_def)
  next
    case False
    from s obtain r u where r: "super_admin P L d' r" "u \<in> rows U d'" "u_email u = su_email SEED_ADMIN_USER"
      "u_status u = ACTIVE" "u_roles u = Some [r]"
      by (auto simp: seeded_tables_def admin_seeded_def)
    have "endpoint_open R d' (ep_key ep) (user_permissionCodes u)"
    proof (cases "ep_key ep")
      case (Some k)
      with False assms(7,8) have "k \<in> sr_endpoint_key_name ` set SEED_EPR"
        using seed_covers by (auto simp: list_all_iff)
      then obtain rule where rule: "rule \<in> set SEED_EPR" "k = sr_endpoint_key_name rule" by blast
      then obtain e where e: "e \<in> rows R d'" "e_endpoint_key_name e = k" "e_enabled e"
        "epr_permissionCodes e = [sr_permission_code rule]"
        using s by (auto simp: seeded_tables_def rules_seeded_def rule_seeded_def list_all_iff)
      have "sr_permission_code rule \<in> set (user_permissionCodes u)"
        using s rule(1) seed_distinct(3) unfolding admin_codes [OF r(1,5)] seeded_tables_def permissions_seeded_def
        by (auto simp: list_all_iff)
      with e Some show ?thesis by (auto simp: endpoint_open_def admits_def)
    qed (simp add: endpoint_open_def)
    with False r show ?thesis by auto
  qed
qed

section \<open>The empty database\<close>

theorem seeding_all_or_nothing_witness:
  "\<exists>d'. SeedService_run mem_env mem_upserts db_empty = (Inr (), d') \<and> permissions_seeded mem_permissions d' \<and>
     list_all (rule_seeded mem_rules d') SEED_EPR \<and>
     (\<exists>r. super_admin mem_permissions mem_roles d' r \<and> admin_seeded mem_users d' r)"
proof -
  obtain d' where d': "SeedService_run mem_env mem_upserts db_empty = (Inr (), d')" using seed_empty ..
  from seeding_all_or_nothing [OF mem_seed_env db_empty_sound this] d' show ?thesis by simp
qed

theorem seeding_keeps_accounts_witness:
  "\<exists>d' i. SeedService_run mem_env mem_upserts db_empty = (Inr (), d') \<and>
     accounts mem_users d' = {admin_credentials mem_env i}"
proof -
  obtain d' where d': "SeedService_run mem_env mem_upserts db_empty = (Inr (), d')" using seed_empty ..
  have none: "\<not> admin_present mem_users db_empty" "accounts mem_users db_empty = {}"
    by (simp_all add: admin_present_def accounts_def mem_tables db_empty_def)
  from seeding_keeps_accounts [OF mem_seed_env db_empty_sound d'] obtain i
    where "accounts mem_users d' = {admin_credentials mem_env i}"
    using none by auto
  with d' show ?thesis by blast
qed

theorem seeded_admin_reaches_endpoints_witness:
  "\<exists>d' u. SeedService_run mem_env mem_upserts db_empty = (Inr (), d') \<and> u \<in> rows mem_users d' \<and>
     u_email u = ''admin@admin.com'' \<and> endpoint_open mem_rules d' (ep_key ep_users_findAll) (user_permissionCodes u) \<and>
     {codes. endpoint_open mem_rules d' (ep_key ep_apiKeys_activate) codes} = {}"
proof -
  obtain d' where d': "SeedService_run mem_env mem_upserts db_empty = (Inr (), d')" using seed_empty ..
  note reach = seeded_admin_reaches_endpoints [OF mem_seed_env db_empty_sound d']
  have e: "ep_users_findAll \<in> set endpoints" "ep_apiKeys_activate \<in> set endpoints"
    by (simp_all add: endpoints_def)
  have g: "ep_guard ep_users_findAll = AuthGuard" "ep_guard ep_apiKeys_activate = AuthGuard"
    by (simp_all add: endpoint_defs)
  have s: "ep_users_findAll \<notin> set unseeded_endpoints" "ep_apiKeys_activate \<in> set unseeded_endpoints"
    by (simp_all add: unseeded_endpoints_def endpoint_defs)
  have m: "su_email SEED_ADMIN_USER = ''admin@admin.com''" "rows mem_rules db_empty = {}"
    by (simp_all add: SEED_ADMIN_USER_def mem_tables db_empty_def)
  from reach [OF e(1) g(1)] s(1) m(1) obtain u where u: "u \<in> rows mem_users d'" "u_email u = ''admin@admin.com''"
    "endpoint_open mem_rules d' (ep_key ep_users_findAll) (user_permissionCodes u)"
    by auto
  from reach [OF e(2) g(2)] s(2) m(2) have "{codes. endpoint_open mem_rules d' (ep_key ep_apiKeys_activate) codes} = {}"
    by simp
  with d' u show ?thesis by blast
qed

end
