(* ===== verification/StepOrders.thy ===== *)
theory StepOrders imports Http begin

text \<open>
  What every run of a computation obeys: a preorder on the state between its start and its
  end, whether it resolves or rejects. The locale derives the rules of the combinators once; a
  preorder on worlds is carried to the states of a guard and of a request.
\<close>

definition obeys :: "('s \<Rightarrow> 's \<Rightarrow> bool) \<Rightarrow> ('s, 'e, 'a) io \<Rightarrow> bool" where
  "obeys R m \<longleftrightarrow> (\<forall>s. R s (snd (m s)))"

lemma obeysD: "obeys R m \<Longrightarrow> m s = (x, t) \<Longrightarrow> R s t"
  unfolding obeys_def by (metis snd_conv)

lemma obeysI: "(\<And>s x t. m s = (x, t) \<Longrightarrow> R s t) \<Longrightarrow> obeys R m"
  unfolding obeys_def by (metis prod.collapse)

lemma obeys_wpI: "(\<And>s. wp m (\<lambda>_ t. R s t) (\<lambda>_ t. R s t) s) \<Longrightarrow> obeys R m"
  unfolding obeys_def by (intro allI) (rule wp_run [where Q = "R s" for s])

lemma wp_obeys: "obeys R m \<Longrightarrow> (\<And>t. R s t \<Longrightarrow> Q t) \<Longrightarrow> wp m (\<lambda>_. Q) (\<lambda>_. Q) s"
  by (rule run_wp) (auto dest: obeysD)

named_theorems obeys_rules \<open>introduction rules for obeys\<close>

lemma obeys_if [obeys_rules]: "obeys R m \<Longrightarrow> obeys R n \<Longrightarrow> obeys R (if b then m else n)"
  by simp

lemma obeys_option [obeys_rules]:
  "obeys R m \<Longrightarrow> (\<And>x. obeys R (n x)) \<Longrightarrow> obeys R (case v of None \<Rightarrow> m | Some x \<Rightarrow> n x)"
  by (cases v) simp_all

lemma obeys_sum [obeys_rules]:
  "(\<And>x. obeys R (m x)) \<Longrightarrow> (\<And>x. obeys R (n x)) \<Longrightarrow> obeys R (case v of Inl x \<Rightarrow> m x | Inr x \<Rightarrow> n x)"
  by (cases v) simp_all

lemma obeys_prod [obeys_rules]: "(\<And>x y. obeys R (m x y)) \<Longrightarrow> obeys R (case v of (x, y) \<Rightarrow> m x y)"
  by (cases v) simp

lemma obeys_let [obeys_rules]: "(\<And>x. obeys R (m x)) \<Longrightarrow> obeys R (Let v m)"
  by (simp add: Let_def)

locale step_order =
  fixes R :: "'s \<Rightarrow> 's \<Rightarrow> bool"
  assumes refl: "R s s" and trans: "R s t \<Longrightarrow> R t u \<Longrightarrow> R s u"
begin

lemma obeys_readonly: "readonly m \<Longrightarrow> obeys R m"
  by (simp add: readonly_def obeys_def refl)

lemma obeys_basic [obeys_rules]:
  "obeys R (returnE a)" "obeys R (throwE e)" "obeys R (readE g)" "obeys R (getE g')" "obeys R (liftE x)"
  by (simp_all add: obeys_readonly)

lemma obeys_bind [obeys_rules]:
  assumes "obeys R m" "\<And>a. obeys R (f a)"
  shows "obeys R (bindE m f)"
proof (rule obeysI)
  fix s x t assume "bindE m f s = (x, t)"
  then show "R s t"
    using obeysD [OF assms(1), of s] obeysD [OF assms(2)] trans
    by (auto simp: bindE_def split: prod.splits sum.splits)
qed

lemma obeys_then [obeys_rules]: "obeys R m \<Longrightarrow> obeys R n \<Longrightarrow> obeys R (thenE m n)"
  by (simp add: thenE_def obeys_bind)

lemma obeys_catch [obeys_rules]:
  assumes "obeys R m" "\<And>e. obeys R (h e)"
  shows "obeys R (catchE m h)"
proof (rule obeysI)
  fix s x t assume "catchE m h s = (x, t)"
  then show "R s t"
    using obeysD [OF assms(1), of s] obeysD [OF assms(2)] trans
    by (auto simp: catchE_def split: prod.splits sum.splits)
qed

lemma obeys_mapE [obeys_rules]: "(\<And>x. obeys R (f x)) \<Longrightarrow> obeys R (mapE f xs)"
  by (induction xs) (auto intro!: obeys_basic obeys_bind)

lemma obeys_forE [obeys_rules]: "(\<And>x. obeys R (f x)) \<Longrightarrow> obeys R (forE xs f)"
  by (induction xs) (auto intro!: obeys_basic obeys_bind)

end

section \<open>Worlds, guards and requests\<close>

locale world_order = step_order R for R :: "('r, 'd, 'q) world \<Rightarrow> ('r, 'd, 'q) world \<Rightarrow> bool"
begin

lemma obeys_rethrow_as [obeys_rules]: "obeys R m \<Longrightarrow> obeys R (rethrow_as cls msg c d m)"
  unfolding rethrow_as_def by (intro obeys_catch obeys_basic)

lemma obeys_swallow [obeys_rules]: "obeys R m \<Longrightarrow> obeys R (swallow m)"
  unfolding swallow_def by (intro obeys_catch obeys_basic)

end

text \<open>The order of the worlds inside the state of a guard and inside that of a request.\<close>

definition in_handler :: "('w \<Rightarrow> 'w \<Rightarrow> bool) \<Rightarrow> 'w \<times> 'q \<Rightarrow> 'w \<times> 'q \<Rightarrow> bool" where
  "in_handler R s t \<longleftrightarrow> R (fst s) (fst t)"

definition in_route :: "('w \<Rightarrow> 'w \<Rightarrow> bool) \<Rightarrow> ('w \<times> 'c) \<times> 'q \<Rightarrow> ('w \<times> 'c) \<times> 'q \<Rightarrow> bool" where
  "in_route R s t \<longleftrightarrow> R (fst (fst s)) (fst (fst t))"

sublocale world_order \<subseteq> guard: step_order "in_handler R"
  by unfold_locales (auto simp: in_handler_def intro: refl trans)

sublocale world_order \<subseteq> route: step_order "in_route R"
  by unfold_locales (auto simp: in_route_def intro: refl trans)

context world_order
begin

lemma guard_on_world [obeys_rules]: "obeys R m \<Longrightarrow> obeys (in_handler R) (on_world m)"
  by (auto simp: obeys_def in_handler_def on_world_def zoomE_def split: prod.splits) (metis snd_conv)

lemma guard_on_request [obeys_rules]: "obeys (in_handler R) (on_request m)"
  by (auto simp: obeys_def in_handler_def on_request_def zoomE_def refl split: prod.splits)

lemma route_services [obeys_rules]: "obeys R m \<Longrightarrow> obeys (in_route R) (services m)"
  by (auto simp: obeys_def in_route_def services_def zoomE_def split: prod.splits) (metis snd_conv)

lemma route_on_guard [obeys_rules]: "obeys (in_handler R) g \<Longrightarrow> obeys (in_route R) (on_guard g)"
  by (auto simp: obeys_def in_handler_def in_route_def on_guard_def zoomE_def split: prod.splits) (metis fst_conv snd_conv)

lemma route_response [obeys_rules]:
  "obeys (in_route R) (response_cookie n v co)" "obeys (in_route R) (response_clearCookie n pth)"
  "obeys (in_route R) request_user" "obeys (in_route R) request_user_of"
  unfolding request_user_of_def request_user_def
  by (auto simp: obeys_def in_route_def response_cookie_def response_clearCookie_def refl getE_def bindE_def returnE_def
      throwE_def split: option.splits)

text \<open>The whole cycle: middleware, guard, method, filter.\<close>

lemma serve_obeys:
  assumes "obeys (in_handler R) (run_guard E ep req)" "obeys (in_route R) m"
  shows "R w (snd (serve E ep url req m w))"
proof -
  have "obeys (in_route R) (guarded E ep req m)"
    unfolding guarded_def by (intro obeys_rules assms)
  then have "in_route R ((w, []), in_context) (snd (guarded E ep req m ((w, []), in_context)))"
    by (simp add: obeys_def)
  then show ?thesis
    by (auto simp: serve_def middleware_run new_request_def in_context_def in_route_def send_reply_def split: prod.splits)
qed

end

end
