(* ===== verification/Requests.thy ===== *)
theory Requests imports Controllers begin

text \<open>
  The requests the service answers: for every decorated method of the controllers a call with the
  parameters the framework takes from path, query and body, the endpoint that serves it, and the
  method it runs. Random values that a method draws are parameters of its call.
\<close>

datatype users_call =
  Register string register_dto
| FirstActivation string string string
| ActivateUser string
| DeactivateUser string
| LogIn string string string
| LogOut
| RefreshTokens
| UserCanDo string
| Me
| AssignRole string "string list"
| ForgotPassword string string
| ResetPassword string string
| FindUsers pagination_query

datatype sessions_call = UserSessions string | DeactivateSession string

datatype api_keys_call =
  ApiKeyCanDo string
| GenerateApiKey string api_key_dto
| FindApiKey string
| FindApiKeys pagination_query
| ChangeApiKeyPermissions string "string list"
| DeactivateApiKey string
| ActivateApiKey string

datatype rules_call =
  CreateRule epr_dto
| EditRule string epr_dto
| AssignRulePermissions string "string list"
| EnableRule string
| DisableRule string
| DeleteRule string
| FindRules pagination_query
| FindRule string
| EndpointPermissions string

datatype roles_call =
  CreateRole role_dto
| EditRole role_dto string
| AssignRolePermissions string "string list"
| DeleteRole string
| UnrestrictedRoles
| AllRoles
| FindRole string
| FindRoles pagination_query

datatype permissions_call =
  CreatePermission permission_dto
| EditPermission permission_dto string
| DeletePermission string
| PermissionDetails
| FindPermission string
| FindPermissions pagination_query

datatype call =
  UsersCall users_call
| SessionsCall sessions_call
| ApiKeysCall api_keys_call
| RulesCall rules_call
| RolesCall roles_call
| PermissionsCall permissions_call
| MetricsCall
| StatusCall

section \<open>Endpoints\<close>

fun users_endpoint :: "users_call \<Rightarrow> endpoint" where
  "users_endpoint (Register password dto) = ep_users_register"
| "users_endpoint (FirstActivation email password new_password) = ep_users_firstActivation"
| "users_endpoint (ActivateUser uid) = ep_users_activate"
| "users_endpoint (DeactivateUser uid) = ep_users_deactivate"
| "users_endpoint (LogIn sessionId email password) = ep_users_login"
| "users_endpoint LogOut = ep_users_logout"
| "users_endpoint RefreshTokens = ep_users_refreshToken"
| "users_endpoint (UserCanDo permission) = ep_users_canDo"
| "users_endpoint Me = ep_users_me"
| "users_endpoint (AssignRole uid rolesIds) = ep_users_assignRole"
| "users_endpoint (ForgotPassword token email) = ep_users_forgotPassword"
| "users_endpoint (ResetPassword token password) = ep_users_resetPassword"
| "users_endpoint (FindUsers query) = ep_users_findAll"

fun sessions_endpoint :: "sessions_call \<Rightarrow> endpoint" where
  "sessions_endpoint (UserSessions userId) = ep_sessions_getUserSessions"
| "sessions_endpoint (DeactivateSession sid) = ep_sessions_deactivateSession"

fun api_keys_endpoint :: "api_keys_call \<Rightarrow> endpoint" where
  "api_keys_endpoint (ApiKeyCanDo permission) = ep_apiKeys_canDo"
| "api_keys_endpoint (GenerateApiKey plainApiKey dto) = ep_apiKeys_generate"
| "api_keys_endpoint (FindApiKey kid) = ep_apiKeys_findOne"
| "api_keys_endpoint (FindApiKeys query) = ep_apiKeys_findAll"
| "api_keys_endpoint (ChangeApiKeyPermissions kid permissionsIds) = ep_apiKeys_changePermissions"
| "api_keys_endpoint (DeactivateApiKey kid) = ep_apiKeys_deactivate"
| "api_keys_endpoint (ActivateApiKey kid) = ep_apiKeys_activate"

fun rules_endpoint :: "rules_call \<Rightarrow> endpoint" where
  "rules_endpoint (CreateRule dto) = ep_epr_create"
| "rules_endpoint (EditRule rid dto) = ep_epr_edit"
| "rules_endpoint (AssignRulePermissions rid permissionsIds) = ep_epr_assignPermissions"
| "rules_endpoint (EnableRule rid) = ep_epr_enableRule"
| "rules_endpoint (DisableRule rid) = ep_epr_disableRule"
| "rules_endpoint (DeleteRule rid) = ep_epr_delete"
| "rules_endpoint (FindRules query) = ep_epr_findAll"
| "rules_endpoint (FindRule rid) = ep_epr_findOne"
| "rules_endpoint (EndpointPermissions key) = ep_epr_getEndpointPermissions"

fun roles_endpoint :: "roles_call \<Rightarrow> endpoint" where
  "roles_endpoint (CreateRole dto) = ep_roles_create"
| "roles_endpoint (EditRole dto rid) = ep_roles_edit"
| "roles_endpoint (AssignRolePermissions rid permissionsIds) = ep_roles_assignPermissions"
| "roles_endpoint (DeleteRole rid) = ep_roles_delete"
| "roles_endpoint UnrestrictedRoles = ep_roles_getUnrestrictedDetails"
| "roles_endpoint AllRoles = ep_roles_getAllDetails"
| "roles_endpoint (FindRole rid) = ep_roles_findOne"
| "roles_endpoint (FindRoles query) = ep_roles_findAll"

fun permissions_endpoint :: "permissions_call \<Rightarrow> endpoint" where
  "permissions_endpoint (CreatePermission dto) = ep_permissions_create"
| "permissions_endpoint (EditPermission dto pid) = ep_permissions_edit"
| "permissions_endpoint (DeletePermission pid) = ep_permissions_delete"
| "permissions_endpoint PermissionDetails = ep_permissions_getDetails"
| "permissions_endpoint (FindPermission pid) = ep_permissions_findOne"
| "permissions_endpoint (FindPermissions query) = ep_permissions_findAll"

fun call_endpoint :: "call \<Rightarrow> endpoint" where
  "call_endpoint (UsersCall c) = users_endpoint c"
| "call_endpoint (SessionsCall c) = sessions_endpoint c"
| "call_endpoint (ApiKeysCall c) = api_keys_endpoint c"
| "call_endpoint (RulesCall c) = rules_endpoint c"
| "call_endpoint (RolesCall c) = roles_endpoint c"
| "call_endpoint (PermissionsCall c) = permissions_endpoint c"
| "call_endpoint MetricsCall = ep_metrics"
| "call_endpoint StatusCall = ep_status"

section \<open>Methods\<close>

text \<open>What the controllers get from the container beside the services: the serializer, the validated
  configuration, the text of the metrics registry and the text of the status page.\<close>

record ('r, 'd, 'q) container =
  services_env :: "('r, 'd, 'q) env"
  serializer_of :: serializer
  metrics_conf :: "string \<Rightarrow> json option"
  metrics_registry :: "exn + string"
  status_text :: string

fun users_method :: "('r, 'd, 'q) env \<Rightarrow> serializer \<Rightarrow> request \<Rightarrow> users_call \<Rightarrow> ('r, 'd, 'q, json) route" where
  "users_method E S req (Register password dto) = UsersController_register E password dto"
| "users_method E S req (FirstActivation email password new_password) =
     UsersController_firstActivation E email password new_password"
| "users_method E S req (ActivateUser uid) = UsersController_activate E uid"
| "users_method E S req (DeactivateUser uid) = UsersController_deactivate E uid"
| "users_method E S req (LogIn sessionId email password) = UsersController_logIn E sessionId email password req"
| "users_method E S req LogOut = UsersController_logOut E"
| "users_method E S req RefreshTokens = UsersController_refreshToken E req"
| "users_method E S req (UserCanDo permission) = UsersController_canDo E permission"
| "users_method E S req Me = UsersController_me"
| "users_method E S req (AssignRole uid rolesIds) = UsersController_assignRole E S uid rolesIds"
| "users_method E S req (ForgotPassword token email) = UsersController_forgotPassword E token email"
| "users_method E S req (ResetPassword token password) = UsersController_resetPassword E token password"
| "users_method E S req (FindUsers query) = UsersController_findAll E S query"

fun sessions_method :: "('r, 'd, 'q) env \<Rightarrow> sessions_call \<Rightarrow> ('r, 'd, 'q, json) route" where
  "sessions_method E (UserSessions userId) = SessionsController_getUserSessions E userId"
| "sessions_method E (DeactivateSession sid) = SessionsController_deactivateSession E sid"

fun api_keys_method ::
  "('r, 'd, 'q) env \<Rightarrow> serializer \<Rightarrow> request \<Rightarrow> api_keys_call \<Rightarrow> ('r, 'd, 'q, json) route" where
  "api_keys_method E S req (ApiKeyCanDo permission) = ApiKeysController_canDo E req permission"
| "api_keys_method E S req (GenerateApiKey plainApiKey dto) = ApiKeysController_generate E plainApiKey dto"
| "api_keys_method E S req (FindApiKey kid) = ApiKeysController_findOne E S kid"
| "api_keys_method E S req (FindApiKeys query) = ApiKeysController_findAll E S query"
| "api_keys_method E S req (ChangeApiKeyPermissions kid permissionsIds) =
     ApiKeysController_changePermissions E S kid permissionsIds"
| "api_keys_method E S req (DeactivateApiKey kid) = ApiKeysController_deactivate E kid"
| "api_keys_method E S req (ActivateApiKey kid) = ApiKeysController_activate E kid"

fun rules_method :: "('r, 'd, 'q) env \<Rightarrow> serializer \<Rightarrow> rules_call \<Rightarrow> ('r, 'd, 'q, json) route" where
  "rules_method E S (CreateRule dto) = EprController_create E S dto"
| "rules_method E S (EditRule rid dto) = EprController_edit E S rid dto"
| "rules_method E S (AssignRulePermissions rid permissionsIds) = EprController_assignPermissions E S rid permissionsIds"
| "rules_method E S (EnableRule rid) = EprController_enableRule E rid"
| "rules_method E S (DisableRule rid) = EprController_disableRule E rid"
| "rules_method E S (DeleteRule rid) = EprController_delete E rid"
| "rules_method E S (FindRules query) = EprController_findAll E query"
| "rules_method E S (FindRule rid) = EprController_findOne E rid"
| "rules_method E S (EndpointPermissions key) = EprController_getEndpointPermissions E key"

fun roles_method :: "('r, 'd, 'q) env \<Rightarrow> roles_call \<Rightarrow> ('r, 'd, 'q, json) route" where
  "roles_method E (CreateRole dto) = RolesController_create E dto"
| "roles_method E (EditRole dto rid) = RolesController_edit E dto rid"
| "roles_method E (AssignRolePermissions rid permissionsIds) = RolesController_assignPermissions E rid permissionsIds"
| "roles_method E (DeleteRole rid) = RolesController_delete E rid"
| "roles_method E UnrestrictedRoles = RolesController_getUnrestrictedDetails E"
| "roles_method E AllRoles = RolesController_getAllDetails E"
| "roles_method E (FindRole rid) = RolesController_findOne E rid"
| "roles_method E (FindRoles query) = RolesController_findAll E query"

fun permissions_method :: "('r, 'd, 'q) env \<Rightarrow> serializer \<Rightarrow> permissions_call \<Rightarrow> ('r, 'd, 'q, json) route" where
  "permissions_method E S (CreatePermission dto) = PermissionsController_create E S dto"
| "permissions_method E S (EditPermission dto pid) = PermissionsController_edit E S dto pid"
| "permissions_method E S (DeletePermission pid) = PermissionsController_delete E pid"
| "permissions_method E S PermissionDetails = PermissionsController_getDetails E"
| "permissions_method E S (FindPermission pid) = PermissionsController_findOne E S pid"
| "permissions_method E S (FindPermissions query) = PermissionsController_findAll E S query"

fun call_method :: "('r, 'd, 'q) container \<Rightarrow> request \<Rightarrow> call \<Rightarrow> ('r, 'd, 'q, json) route" where
  "call_method C req (UsersCall c) = users_method (services_env C) (serializer_of C) req c"
| "call_method C req (SessionsCall c) = sessions_method (services_env C) c"
| "call_method C req (ApiKeysCall c) = api_keys_method (services_env C) (serializer_of C) req c"
| "call_method C req (RulesCall c) = rules_method (services_env C) (serializer_of C) c"
| "call_method C req (RolesCall c) = roles_method (services_env C) c"
| "call_method C req (PermissionsCall c) = permissions_method (services_env C) (serializer_of C) c"
| "call_method C req MetricsCall = MetricsController_getMetrics (metrics_conf C) (metrics_registry C)"
| "call_method C req StatusCall = AppController_status (status_text C)"

definition answer ::
  "('r, 'd, 'q) container \<Rightarrow> string \<Rightarrow> request \<Rightarrow> call \<Rightarrow> ('r, 'd, 'q) world \<Rightarrow> reply \<times> ('r, 'd, 'q) world" where
  "answer C url req c = serve (services_env C) (call_endpoint c) url req (call_method C req c)"

text \<open>Every call has an endpoint of the service, and every endpoint serves some call.\<close>

lemma call_endpoints: "call_endpoint c \<in> set endpoints"
proof (cases c)
  case (UsersCall x) then show ?thesis by (cases x) (simp_all add: endpoints_def)
next
  case (SessionsCall x) then show ?thesis by (cases x) (simp_all add: endpoints_def)
next
  case (ApiKeysCall x) then show ?thesis by (cases x) (simp_all add: endpoints_def)
next
  case (RulesCall x) then show ?thesis by (cases x) (simp_all add: endpoints_def)
next
  case (RolesCall x) then show ?thesis by (cases x) (simp_all add: endpoints_def)
next
  case (PermissionsCall x) then show ?thesis by (cases x) (simp_all add: endpoints_def)
qed (simp_all add: endpoints_def)

lemma endpoint_calls:
  "List.map call_endpoint
     ([StatusCall] @
      List.map PermissionsCall [CreatePermission pd, EditPermission pd i, DeletePermission i, PermissionDetails,
        FindPermission i, FindPermissions q] @
      List.map ApiKeysCall [ApiKeyCanDo i, GenerateApiKey i kd, FindApiKey i, FindApiKeys q, ChangeApiKeyPermissions i ids,
        DeactivateApiKey i, ActivateApiKey i] @
      List.map UsersCall [Register i ud, FirstActivation i i i, ActivateUser i, DeactivateUser i, LogIn i i i, LogOut,
        RefreshTokens, UserCanDo i, Me, AssignRole i ids, ForgotPassword i i, ResetPassword i i, FindUsers q] @
      List.map RolesCall [CreateRole rd, EditRole rd i, AssignRolePermissions i ids, DeleteRole i, UnrestrictedRoles,
        AllRoles, FindRole i, FindRoles q] @
      List.map SessionsCall [UserSessions i, DeactivateSession i] @ [MetricsCall] @
      List.map RulesCall [CreateRule ed, EditRule i ed, AssignRulePermissions i ids, EnableRule i, DisableRule i,
        DeleteRule i, FindRules q, FindRule i, EndpointPermissions i]) = endpoints"
  by (simp add: endpoints_def)

end
