(* ===== verification/ServiceOrders.thy ===== *)
theory ServiceOrders imports StepOrders Requests begin

text \<open>
  A contract for preorders on worlds and what follows from it for the whole service: when the
  primitive effects (cache commands, writes to the tables beside the users, mail, the refresh of
  session permissions) stay in the order, so do the guards and every call that does not concern
  users or sessions. The lemmas are proved once in the locale; each order interprets it.
\<close>

locale service_order = world_order R for R :: "('r, 'd, 'q) world \<Rightarrow> ('r, 'd, 'q) world \<Rightarrow> bool" +
  fixes E :: "('r, 'd, 'q) env" and spares :: "command \<Rightarrow> bool"
  assumes mail: "obeys R (on_mq (email_emit E chan body))" and templates: "obeys R (loadTemplate E file)"
    and writes: "spares c \<Longrightarrow> obeys R (raw_write E c)"
    and executes: "list_all spares cs \<Longrightarrow> obeys R (raw_exec E cs)"
    and cache_commands: "spares (DEL k)" "spares (SREM k x)" "spares (SADD k x)"
      "spares (SET (epr_redisKey k) doc opt)" "spares (SET (api_redisKey k) doc opt)"
    and tables: "obeys R (on_db (orm_save (permissions_orm E) p))" "obeys R (on_db (orm_remove (permissions_orm E) p))"
      "obeys R (on_db (orm_save (roles_orm E) role))" "obeys R (on_db (orm_remove (roles_orm E) role))"
      "obeys R (on_db (orm_save (rules_orm E) rule))" "obeys R (on_db (orm_remove (rules_orm E) rule))"
      "obeys R (on_db (orm_save (api_keys_orm E) key))"
    and key_transaction: "obeys R (transaction E (on_db (orm_save (api_keys_orm E) key)))"
    and session_refresh: "obeys R (refreshSessionPermissions E userId ps)"
begin

lemmas primitives [obeys_rules] = mail templates tables key_transaction session_refresh

lemma obeys_reads [obeys_rules]:
  "obeys R (on_db (readE f))" "obeys R (raw_get E k)" "obeys R (raw_mGet E ks)" "obeys R (raw_sMembers E k)"
  by (simp_all add: obeys_readonly)

lemma spares_concat: "(\<And>x. list_all spares (f x)) \<Longrightarrow> list_all spares (concat (List.map f xs))"
  by (induction xs) simp_all

lemma cache_lists:
  "list_all spares (List.map (\<lambda>k. DEL (g k)) ks @ [DEL i])" "list_all spares (epr_warm_commands rules)"
  "list_all spares (api_store_commands fp key)"
  "list_all spares (concat (List.map (\<lambda>key. api_store_commands (h key) key) xs))"
  "list_all spares (concat (List.map (\<lambda>fp. [DEL (api_redisKey fp), SREM api_index fp]) fps))"
  "list_all spares [DEL k, SREM i x]"
  by (auto simp: list_all_iff epr_warm_commands_def api_store_commands_def cache_commands)

lemmas cache_writes [obeys_rules] = cache_lists [THEN executes] cache_commands [THEN writes]

text \<open>Lookups that only read the database, and mails.\<close>

lemma obeys_lookups [obeys_rules]:
  "obeys R (permissions_findOne E i)" "obeys R (roles_findOne E i)" "obeys R (load_one E p)"
  "obeys R (users_findOne E i)" "obeys R (findByEmail E email)" "obeys R (api_findOne E i)" "obeys R (epr_findOne E i)"
  unfolding permissions_findOne_def permissions_repo roles_findOne_def roles_repo load_one_def users_findOne_def
    findByEmail_def users_repo api_findOne_def apiKeysRepository_findOneById_def epr_findOne_def
    rulesRepository_findOneById_def
  by (intro obeys_rules)+

lemma obeys_mail [obeys_rules]:
  "obeys R (sendRegistrationMail E email pw)" "obeys R (sendResetPasswordMail E email t)"
  "obeys R (confirmPasswordChange E email)"
  unfolding sendRegistrationMail_def sendResetPasswordMail_def confirmPasswordChange_def send_template_def sendMail_def
  by (intro obeys_rules)+

text \<open>Permissions.\<close>

lemma obeys_permissions [obeys_rules]:
  "obeys R (permissions_create E pdto u)" "obeys R (permissions_update E i pdto)" "obeys R (permissions_delete E i)"
  "obeys R (permissions_getDetails E)" "obeys R (permissions_findAll E q)"
  unfolding permissions_create_def permissions_update_def permissions_delete_def permissions_getDetails_def
    permissions_findAll_def permissions_repo
  by (intro obeys_rules)+

text \<open>Endpoint permission rules.\<close>

lemma obeys_rule_cache [obeys_rules]:
  "obeys R (epr_store E k codes)" "obeys R (invalidateRuleCache E k)" "obeys R (epr_warmUpCache E)"
  unfolding epr_store_def invalidateRuleCache_def epr_warmUpCache_def rulesRepository_findAllEnabled_def
  by (intro obeys_rules)+

lemma obeys_rules_service [obeys_rules]:
  "obeys R (loadRuleToRedis E k)" "obeys R (getPermissionsForEndpoint E k)"
  "obeys R (epr_onModuleInit E)" "obeys R (epr_handleCacheReconciliation E)"
  unfolding loadRuleToRedis_def getPermissionsForEndpoint_def epr_from_redis_def epr_from_db_def
    rulesRepository_findByEndpointKey_def epr_onModuleInit_def epr_handleCacheReconciliation_def epr_deleteStaleKeys_def
  by (intro obeys_rules)+

lemma obeys_rules_operations [obeys_rules]:
  "obeys R (epr_create E edto u)" "obeys R (epr_update E i edto)" "obeys R (epr_delete E i)" "obeys R (epr_findAll E q)"
  "obeys R (epr_assignPermissions E i ids)" "obeys R (enableRule E i)" "obeys R (disableRule E i)"
  unfolding epr_create_def epr_update_def epr_delete_def epr_findAll_def epr_assignPermissions_def enableRule_def
    disableRule_def rulesRepository_save_def rulesRepository_remove_def rulesRepository_findAll_def
  by (intro obeys_rules)+

text \<open>API keys.\<close>

lemma obeys_key_cache [obeys_rules]:
  "obeys R (loadApiKeyToRedis E key)" "obeys R (invalidateApiKeyCache E key)" "obeys R (api_backfill E fp key)"
  "obeys R (api_warmUpCache E)" "obeys R (computeHmac E plain)"
  unfolding loadApiKeyToRedis_def invalidateApiKeyCache_def api_backfill_def api_warmUpCache_def
    apiKeysRepository_findAllActive_def computeHmac_def
  by (intro obeys_rules)+

lemma obeys_key_lookup [obeys_rules]:
  "obeys R (findActiveByPlainKey E plain)" "obeys R (api_onModuleInit E)" "obeys R (api_handleCacheReconciliation E)"
  unfolding findActiveByPlainKey_def findActiveByFingerprint_def api_from_redis_def api_from_db_def
    apiKeysRepository_findByFingerprint_def api_onModuleInit_def api_handleCacheReconciliation_def
    api_deleteStaleKeys_def apiKeysRepository_findActiveFingerprintsIn_def
  by (intro obeys_rules)+

lemma obeys_key_operations [obeys_rules]:
  "obeys R (api_canDo E req c)" "obeys R (api_create E plain kdto u)" "obeys R (api_findAll E q)"
  "obeys R (api_deactivate E i)" "obeys R (api_activate E i)" "obeys R (api_changePermissions E i ids)"
  unfolding api_canDo_def api_create_def api_findAll_def api_deactivate_def api_activate_def api_changePermissions_def
    apiKeysRepository_save_def apiKeysRepository_findAll_def
  by (intro obeys_rules)+

text \<open>Roles.\<close>

lemma obeys_roles [obeys_rules]:
  "obeys R (refreshSessionPermissionsByRole E i)" "obeys R (roles_create E rdto u)" "obeys R (roles_update E i rdto)"
  "obeys R (roles_delete E i)" "obeys R (roles_getUnrestrictedDetails E)" "obeys R (roles_getAllDetails E)"
  "obeys R (roles_findAll E q)" "obeys R (roles_assignPermissions E i ids)"
  unfolding refreshSessionPermissionsByRole_def roles_create_def roles_update_def roles_delete_def
    roles_getUnrestrictedDetails_def roles_getAllDetails_def roles_findAll_def roles_assignPermissions_def
    rolesRepository_save_def rolesRepository_remove_def rolesRepository_findAll_def
    rolesRepository_findAllUnrestrictedForDetails_def rolesRepository_findAllForDetails_def
  by (intro obeys_rules)+

end

section \<open>Guards\<close>

lemma readonly_tokens [simp]:
  "readonly (generateToken E claims type)" "readonly (getPayload E token type)" "readonly (jwt_refreshToken E rt)"
proof -
  show g: "readonly (generateToken E claims type)" for claims and type
    by (rule readonlyI) (simp add: generateToken_def signToken_def wp split: sum.splits)
  show p: "readonly (getPayload E token type)" for token and type
    by (rule readonlyI) (simp add: wp split: sum.splits)
  have g': "wp (generateToken E c ty) Q F w"
    if "\<And>a. Q a w" "\<And>e. F e w" for c ty Q F and w :: "('a, 'b, 'c) world"
    by (rule wp_readonly [OF g]) (rule that)+
  show "readonly (jwt_refreshToken E rt)"
    by (rule readonlyI)
      (auto simp: jwt_refreshToken_def wp Let_def intro!: g' split: sum.splits)
qed

context service_order
begin

lemma obeys_checks [obeys_rules]:
  "obeys R (generateToken E claims type)" "obeys R (getPayload E token type)" "obeys R (jwt_refreshToken E rt)"
  "obeys R (read_session E sid)"
  by (simp_all add: obeys_readonly) (unfold read_session_def, intro obeys_rules)

lemma obeys_guard_checks [obeys_rules]:
  "obeys R (check_dynamic_permissions E key ps msg)" "obeys R (check_session E payload token)"
  unfolding check_dynamic_permissions_def gate_def check_session_def
  by (intro obeys_rules)+

lemma obeys_validateApiKey [obeys_rules]: "obeys R (validateApiKey E key req)"
  unfolding validateApiKey_def by (intro obeys_rules)

lemma obeys_run_guard: "obeys (in_handler R) (run_guard E ep req)"
proof -
  have user: "obeys (in_handler R) (set_request_user u)" for u
    unfolding set_request_user_def by (intro obeys_rules)
  show ?thesis
    unfolding run_guard_def authGuard_def apiKeyGuard_def microserviceGuard_def validateUserToken_def
    by (cases "ep_guard ep") (simp_all, (intro obeys_rules user)+)
qed

section \<open>Calls\<close>

lemma obeys_sessions_service [obeys_rules]:
  "obeys R (collect_sessions E i entries)" "obeys R (findUserSessions E userId)" "obeys R (logOut E a)"
  "obeys R (users_findAll E q)" "obeys R (users_canDo E a code)"
proof -
  show collect: "obeys R (collect_sessions E i entries)" for i and entries
    by (induction entries) (auto intro!: obeys_rules split: sum.split option.split)
  show "obeys R (findUserSessions E userId)" "obeys R (logOut E a)" "obeys R (users_findAll E q)" "obeys R (users_canDo E a code)"
    unfolding findUserSessions_def logOut_def users_findAll_def usersRepository_findAll_def users_canDo_def
    by (intro obeys_rules collect)+
qed

lemma obeys_token_cookies [obeys_rules]: "obeys (in_route R) (token_cookies E tokens)"
  unfolding token_cookies_def by (intro obeys_rules)

lemma obeys_other_calls:
  "obeys (in_route R) (api_keys_method E S req kc)" "obeys (in_route R) (rules_method E S ec)"
  "obeys (in_route R) (roles_method E rc)" "obeys (in_route R) (permissions_method E S pc)"
  "obeys (in_route R) (MetricsController_getMetrics conf registry)" "obeys (in_route R) (AppController_status txt)"
proof -
  show "obeys (in_route R) (api_keys_method E S req kc)"
    by (cases kc)
      (simp_all add: ApiKeysController_canDo_def ApiKeysController_generate_def ApiKeysController_findOne_def
        ApiKeysController_findAll_def ApiKeysController_changePermissions_def ApiKeysController_deactivate_def
        ApiKeysController_activate_def, (intro obeys_rules)+)
  show "obeys (in_route R) (rules_method E S ec)"
    by (cases ec)
      (simp_all add: EprController_create_def EprController_edit_def EprController_assignPermissions_def
        EprController_enableRule_def EprController_disableRule_def EprController_delete_def EprController_findAll_def
        EprController_findOne_def EprController_getEndpointPermissions_def, (intro obeys_rules)+)
  show "obeys (in_route R) (roles_method E rc)"
    by (cases rc)
      (simp_all add: RolesController_create_def RolesController_edit_def RolesController_assignPermissions_def
        RolesController_delete_def RolesController_getUnrestrictedDetails_def RolesController_getAllDetails_def
        RolesController_findOne_def RolesController_findAll_def, (intro obeys_rules)+)
  show "obeys (in_route R) (permissions_method E S pc)"
    by (cases pc)
      (simp_all add: PermissionsController_create_def PermissionsController_edit_def PermissionsController_delete_def
        PermissionsController_getDetails_def PermissionsController_findOne_def PermissionsController_findAll_def,
        (intro obeys_rules)+)
  show "obeys (in_route R) (MetricsController_getMetrics conf registry)" "obeys (in_route R) (AppController_status txt)"
    unfolding MetricsController_getMetrics_def AppController_status_def by (intro obeys_rules)+
qed

text \<open>What is left are the services that write users, sessions and reset tokens.\<close>

definition call_obeys :: "request \<Rightarrow> call \<Rightarrow> bool" where
  "call_obeys req c = (case c of
     UsersCall (Register pw dto) \<Rightarrow> \<forall>creator. obeys R (register E pw dto creator)
   | UsersCall (FirstActivation email pw new) \<Rightarrow> obeys R (firstActivation E email pw new)
   | UsersCall (ActivateUser uid) \<Rightarrow> obeys R (users_activate E uid)
   | UsersCall (DeactivateUser uid) \<Rightarrow> obeys R (users_deactivate E uid)
   | UsersCall (LogIn sid email pw) \<Rightarrow> obeys R (logIn E sid email pw req)
   | UsersCall RefreshTokens \<Rightarrow> \<forall>rt. obeys R (users_refreshToken E rt)
   | UsersCall (AssignRole uid ids) \<Rightarrow> obeys R (assignRole E uid ids)
   | UsersCall (ForgotPassword token email) \<Rightarrow> obeys R (forgotPassword E token email)
   | UsersCall (ResetPassword token pw) \<Rightarrow> obeys R (resetPassword E token pw)
   | SessionsCall (DeactivateSession sid) \<Rightarrow> obeys R (deactivateSession E sid)
   | _ \<Rightarrow> True)"

lemma answer_obeys:
  assumes "services_env C = E" "call_obeys req c"
  shows "R w (snd (answer C url req c w))"
proof -
  have "obeys (in_route R) (call_method C req c)"
  proof (cases c)
    case (UsersCall x)
    with assms show ?thesis
      by (cases x)
        (simp_all add: call_obeys_def UsersController_register_def UsersController_firstActivation_def
          UsersController_activate_def UsersController_deactivate_def UsersController_logIn_def
          UsersController_logOut_def UsersController_refreshToken_def UsersController_canDo_def UsersController_me_def
          UsersController_assignRole_def UsersController_forgotPassword_def UsersController_resetPassword_def
          UsersController_findAll_def,
         (intro obeys_rules; simp)+)
  next
    case (SessionsCall x)
    with assms show ?thesis
      by (cases x)
        (simp_all add: call_obeys_def SessionsController_getUserSessions_def SessionsController_deactivateSession_def,
         (intro obeys_rules; simp)+)
  qed (simp_all add: assms(1) obeys_other_calls)
  then show ?thesis unfolding answer_def assms(1) by (intro serve_obeys obeys_run_guard)
qed

end

end
