(* ===== verification/Runs.thy ===== *)
theory Runs imports ServiceOrders begin

text \<open>
  Runs of the whole service: requests in any order with any credentials, the jobs of its start and
  of every hour, and what happens outside it.
\<close>

record ('r, 'd, 'q) exchange =
  x_call :: call
  x_request :: request
  x_before :: "('r, 'd, 'q) world"
  x_reply :: reply

definition jobs :: "('r, 'd, 'q) env \<Rightarrow> ('r, 'd, 'q, unit) service list" where
  "jobs E = [api_onModuleInit E, epr_onModuleInit E, api_handleCacheReconciliation E, epr_handleCacheReconciliation E]"

text \<open>A run from \<open>w\<close>, with the exchanges of its requests in order. Requests are answered one after
  the other. \<open>out\<close> is what may happen between them: time passes, entries of Redis expire, the broker
  delivers, rows are edited by hand; the properties say how much of this they bear.\<close>

inductive run ::
  "('r, 'd, 'q) container \<Rightarrow> (('r, 'd, 'q) world \<Rightarrow> ('r, 'd, 'q) world \<Rightarrow> bool) \<Rightarrow> ('r, 'd, 'q) world \<Rightarrow>
   ('r, 'd, 'q) exchange list \<Rightarrow> ('r, 'd, 'q) world \<Rightarrow> bool" for C out w where
  run_start: "run C out w [] w"
| run_request: "run C out w xs w1 \<Longrightarrow> answer C url req c w1 = (rep, w2) \<Longrightarrow>
    run C out w (xs @ [\<lparr>x_call = c, x_request = req, x_before = w1, x_reply = rep\<rparr>]) w2"
| run_job: "run C out w xs w1 \<Longrightarrow> j \<in> set (jobs (services_env C)) \<Longrightarrow> run C out w xs (snd (j w1))"
| run_outside: "run C out w xs w1 \<Longrightarrow> out w1 w2 \<Longrightarrow> run C out w xs w2"

text \<open>An invariant of runs need only look at the calls that leave the order.\<close>

context service_order
begin

lemma run_invariant:
  assumes "run C out w xs w'" and E: "services_env C = E" and out: "\<And>w w'. out w w' \<Longrightarrow> R w w'"
    and start: "I [] w"
    and order: "\<And>xs w1 w2. I xs w1 \<Longrightarrow> R w1 w2 \<Longrightarrow> I xs w2"
    and more: "\<And>xs x w. I xs w \<Longrightarrow> I (xs @ [x]) w"
    and other: "\<And>xs w1 url req c rep w2. I xs w1 \<Longrightarrow> \<not> call_obeys req c \<Longrightarrow> answer C url req c w1 = (rep, w2) \<Longrightarrow>
      I (xs @ [\<lparr>x_call = c, x_request = req, x_before = w1, x_reply = rep\<rparr>]) w2"
  shows "I xs w'"
  using assms(1)
proof induction
  case run_start
  show ?case by (rule start)
next
  case (run_request xs w1 url req c rep w2)
  show ?case
  proof (cases "call_obeys req c")
    case True
    from answer_obeys [OF E True, of w1 url] run_request.hyps(2) have "R w1 w2" by simp
    then show ?thesis by (intro order [OF more [OF run_request.IH]])
  next
    case False
    from other [OF run_request.IH False run_request.hyps(2)] show ?thesis .
  qed
next
  case (run_job xs w1 j)
  have "obeys R j" using run_job.hyps(2) unfolding E jobs_def by (auto intro: obeys_rules)
  then have "R w1 (snd (j w1))" by (simp add: obeys_def)
  with run_job.IH show ?case by (rule order)
next
  case (run_outside xs w1 w2)
  then show ?case by (blast intro: order out)
qed

end

end
