(* ===== verification/PasswordOrigin.thy ===== *)
theory PasswordOrigin imports Runs UserAccounts begin

text \<open>
  Where passwords come from: the stored passwords and the reset links in Redis after an operation
  are those before it and the ones it has the right to add. Every operation but four adds none; a
  registration adds an account, a first activation and a reset with a link change one, and a
  request for a link adds the link of the account with the address.
\<close>

section \<open>Passwords and links\<close>

definition passwords :: "('d, user) table \<Rightarrow> 'd \<Rightarrow> (string \<times> string \<times> string) set" where
  "passwords T d = (\<lambda>u. (u_id u, u_email u, u_password u)) ` rows T d"

definition reset_links :: "redis_view \<Rightarrow> (string \<times> string) set" where
  "reset_links v = {(t, i). val v (reset_key t) = Some (ResetDoc \<lparr>rp_id = i\<rparr>)}"

text \<open>What an entity hook stores for a new password.\<close>

definition stored_password :: "('r, 'd, 'q) env \<Rightarrow> string \<Rightarrow> string" where
  "stored_password E pw = (if pw \<noteq> '''' then bcrypt_hashSync E pw 10 else pw)"

text \<open>From a table whose rows all have an identifier, at most the passwords \<open>N\<close> and the links \<open>M\<close> are
  added.\<close>

definition adds ::
  "('r \<Rightarrow> redis_view) \<Rightarrow> ('d, user) table \<Rightarrow> (string \<times> string \<times> string) set \<Rightarrow> (string \<times> string) set \<Rightarrow>
   ('r, 'd, 'q) world \<Rightarrow> ('r, 'd, 'q) world \<Rightarrow> bool" where
  "adds view T N M w w' \<longleftrightarrow>
     ('''' \<notin> fst ` passwords T (w_db w) \<longrightarrow>
        '''' \<notin> fst ` passwords T (w_db w') \<and> passwords T (w_db w') \<subseteq> passwords T (w_db w) \<union> N \<and>
        reset_links (view (w_redis w')) \<subseteq> reset_links (view (w_redis w)) \<union> M)"

abbreviation passwords_follow ::
  "('r \<Rightarrow> redis_view) \<Rightarrow> ('d, user) table \<Rightarrow> ('r, 'd, 'q) world \<Rightarrow> ('r, 'd, 'q) world \<Rightarrow> bool" where
  "passwords_follow view T \<equiv> adds view T {} {}"

lemma adds_refl: "adds view T N M w w"
  by (simp add: adds_def subset_iff)

lemma adds_trans: "adds view T N M w1 w2 \<Longrightarrow> adds view T N M w2 w3 \<Longrightarrow> adds view T N M w1 w3"
  unfolding adds_def by blast

lemma adds_mono: "adds view T N M w w' \<Longrightarrow> N \<subseteq> N' \<Longrightarrow> M \<subseteq> M' \<Longrightarrow> adds view T N' M' w w'"
  unfolding adds_def by blast

lemma adds_follow: "passwords_follow view T w w' \<Longrightarrow> adds view T N M w w'"
  by (erule adds_mono) simp_all

lemma adds_same:
  "rows T (w_db w') = rows T (w_db w) \<Longrightarrow> reset_links (view (w_redis w')) \<subseteq> reset_links (view (w_redis w)) \<Longrightarrow>
   adds view T N M w w'"
  by (auto simp: adds_def passwords_def)

text \<open>What the order needs of the libraries: Redis, the users' repository, transactions, and that
  the writes to the other tables leave the columns of the users and the keys of their table alone.\<close>

definition columns ::
  "('d, user) table \<Rightarrow> 'd \<Rightarrow> (string \<times> string \<times> string \<times> user_status \<times> string) set \<times> bool" where
  "columns T d = ((\<lambda>u. (u_id u, u_email u, u_person_id u, u_status u, u_password u)) ` rows T d, constraint T (rows T d))"

lemma passwords_columns: "passwords T d = (\<lambda>(i, email, p, s, h). (i, email, h)) ` fst (columns T d)"
  by (simp add: passwords_def columns_def image_image)

abbreviation spares_users :: "('d, user) table \<Rightarrow> ('d, exn, 'a) io \<Rightarrow> bool" where
  "spares_users T \<equiv> obeys (\<lambda>d d'. columns T d' = columns T d)"

definition tables_apart :: "('r, 'd, 'q) env \<Rightarrow> ('d, user) table \<Rightarrow> bool" where
  "tables_apart E T \<longleftrightarrow>
     (\<forall>p. spares_users T (orm_save (permissions_orm E) p)) \<and> (\<forall>p. spares_users T (orm_remove (permissions_orm E) p)) \<and>
     (\<forall>r. spares_users T (orm_save (roles_orm E) r)) \<and> (\<forall>r. spares_users T (orm_remove (roles_orm E) r)) \<and>
     (\<forall>r. spares_users T (orm_save (rules_orm E) r)) \<and> (\<forall>r. spares_users T (orm_remove (rules_orm E) r)) \<and>
     (\<forall>k. spares_users T (orm_save (api_keys_orm E) k))"

definition account_laws ::
  "('r, 'd, 'q) env \<Rightarrow> ('r \<Rightarrow> redis_view) \<Rightarrow> ('r \<Rightarrow> bool) \<Rightarrow> ('d, user) table \<Rightarrow> bool" where
  "account_laws E view up T \<longleftrightarrow>
     redis_laws (redis_api E) view up \<and> orm_laws (users_orm E) T \<and> users_table T \<and> tx_laws E T \<and> tables_apart E T"

lemma account_lawsD:
  assumes "account_laws E view up T"
  shows "redis_laws (redis_api E) view up" "orm_laws (users_orm E) T" "users_table T" "tx_laws E T" "tables_apart E T"
    "ident T = u_id" "assign T = (\<lambda>i e. e\<lparr>u_id := i\<rparr>)"
  using assms by (simp_all add: account_laws_def users_table_def)

section \<open>Effects that add nothing\<close>

lemma obeys_on_db:
  assumes "spares_users T m"
  shows "obeys (passwords_follow view T) (on_db m :: ('r, 'd, 'q, 'a) service)"
proof (rule obeysI)
  fix w w' :: "('r, 'd, 'q) world" and x assume "on_db m w = (x, w')"
  then obtain d where "m (w_db w) = (x, d)" "w' = w\<lparr>w_db := d\<rparr>" by (auto simp: on_db_def zoomE_def split: prod.splits)
  with obeysD [OF assms, of "w_db w"] have "passwords T (w_db w') = passwords T (w_db w)" "w_redis w' = w_redis w"
    by (simp_all add: passwords_columns)
  then show "passwords_follow view T w w'" by (simp add: adds_def)
qed

lemma adds_elsewhere:
  "obeys (adds view T N M) (on_mq m)" "obeys (adds view T N M) (loadTemplate E file)"
  by (auto simp: obeys_def on_mq_def zoomE_def loadTemplate_def intro!: adds_same adds_refl
      split: prod.splits option.splits sum.splits)

lemma adds_rows:
  "adds view T N M w w' \<Longrightarrow> rows T d = rows T (w_db w) \<or> rows T d = rows T (w_db w') \<Longrightarrow>
   adds view T N M w (w'\<lparr>w_db := d\<rparr>)"
  unfolding adds_def passwords_def by (elim disjE) simp_all

lemma adds_transaction:
  assumes "tx_laws E T" "obeys (adds view T N M) m"
  shows "obeys (adds view T N M) (transaction E m)"
proof (rule obeysI)
  fix w x w' assume run: "transaction E m w = (x, w')"
  obtain y w1 where m: "m w = (y, w1)" by fastforce
  with assms(2) have a: "adds view T N M w w1" by (rule obeysD)
  have "commit_ok T (w_db w) (w_db w1) (tx_commit E (w_db w) (w_db w1))"
    "rows T (tx_rollback E (w_db w) (w_db w1)) = rows T (w_db w)"
    using assms(1) by (simp_all add: tx_laws_def)
  with run m show "adds view T N M w w'"
    by (auto simp: transaction_def commit_ok_def intro!: adds_rows [OF a] split: prod.splits sum.splits)
qed

text \<open>Commands that write no reset link.\<close>

fun spares_links :: "command \<Rightarrow> bool" where
  "spares_links (SET k doc opt) = (\<forall>t. k \<noteq> reset_key t)"
| "spares_links c = True"

lemma spares_links_cmd: "spares_links c \<Longrightarrow> reset_links (exec_cmd c v) \<subseteq> reset_links v"
  by (cases c) (auto simp: reset_links_def split: if_splits)

lemma spares_links_all: "list_all spares_links cs \<Longrightarrow> reset_links (exec_all cs v) \<subseteq> reset_links v"
  by (induction cs arbitrary: v) (use spares_links_cmd in \<open>fastforce simp: exec_all_def\<close>)+

lemma adds_commands:
  assumes "redis_laws (redis_api E) view up"
  shows "spares_links c \<Longrightarrow> obeys (passwords_follow view T) (raw_write E c)"
    and "list_all spares_links cs \<Longrightarrow> obeys (passwords_follow view T) (raw_exec E cs)"
    and "obeys (passwords_follow view T) (raw_getDel E k)"
proof -
  show "obeys (passwords_follow view T) (raw_write E c)" if "spares_links c"
    by (rule obeys_wpI, rule wp_raw_write [OF assms]) (auto intro!: adds_same dest: subsetD [OF spares_links_cmd [OF that]])
  show "obeys (passwords_follow view T) (raw_exec E cs)" if "list_all spares_links cs"
    by (rule obeys_wpI, rule wp_raw_exec [OF assms]) (auto intro!: adds_same dest: subsetD [OF spares_links_all [OF that]])
  have del: "spares_links (DEL k)" by simp
  show "obeys (passwords_follow view T) (raw_getDel E k)"
    unfolding raw_getDel_def
    by (intro obeys_wpI, unfold wp_on_redis, intro wp_effect [OF redis_lawsD(4) [OF assms]])
      (auto intro!: adds_same dest: subsetD [OF spares_links_cmd [OF del]])
qed

lemma other_keys [simp]:
  "session_key sid \<noteq> reset_key t" "epr_redisKey k \<noteq> reset_key t" "api_redisKey fp \<noteq> reset_key t"
  by (simp_all add: session_key_def reset_key_def epr_redisKey_def api_redisKey_def)


section \<open>Users that are saved\<close>

text \<open>A lookup answers with a row that has run its \<open>AfterLoad\<close> hook, while the database works or not.\<close>

lemma wp_loaded:
  assumes "orm_laws (users_orm E) T"
    and "\<And>u. u \<in> rows T (w_db w) \<Longrightarrow> p u \<Longrightarrow> Q (Some (loadOriginalPassword u)) w" "Q None w" "\<And>e. F e w"
  shows "wp (load_one E p) Q F w"
  unfolding load_one_def wp_bind by (rule wp_db_find_one [OF assms(1)]) (simp_all add: wp assms)

lemma wp_found:
  assumes "orm_laws (users_orm E) T"
    and "\<And>u. u \<in> rows T (w_db w) \<Longrightarrow> u_id u = i \<Longrightarrow> Q (loadOriginalPassword u) w" "\<And>e. F e w"
  shows "wp (users_findOne E i) Q F w"
  unfolding users_findOne_def usersRepository_findOneById_def wp_bind
  by (rule wp_loaded [OF assms(1)]) (simp_all add: wp assms)

text \<open>Saving a user that was loaded: the row keeps its password, or holds the new one hashed.\<close>

lemma wp_resave:
  assumes laws: "account_laws E view up T" and u: "u \<in> rows T (w_db w)"
    and e: "u_id e = u_id u" "u_email e = u_email u" "u_originalPassword e = Some (u_password u)"
    and N: "u_password e \<noteq> u_password u \<Longrightarrow> (u_id u, u_email u, stored_password E (u_password e)) \<in> N"
    and Q: "\<And>e' w'. adds view T N {} w w' \<Longrightarrow> Q e' w'"
    and F: "\<And>x w'. adds view T N {} w w' \<Longrightarrow> F x w'"
  shows "wp (usersRepository_save E e) Q F w"
  unfolding usersRepository_save_def
proof (cases "u_id u = ''''")
  case True
  with u have "'''' \<in> fst ` passwords T (w_db w)" by (force simp: passwords_def)
  then have any: "adds view T N {} w w'" for w' by (simp add: adds_def)
  show "wp (on_db (orm_save (users_orm E) (before_save E e))) Q F w"
    by (rule wp_db_save [OF account_lawsD(2) [OF laws]])
      (auto intro!: F Q any)
next
  case False
  let ?e = "hashPasswordOnUpdate (bcrypt_hashSync E) e"
  have b: "before_save E e = ?e" "ident T ?e \<noteq> ''''" using False by (simp_all add: before_save_def e account_lawsD(6) [OF laws])
  have new: "(u_id ?e, u_email ?e, u_password ?e) \<in> passwords T (w_db w) \<union> N"
  proof (cases "u_password e = u_password u")
    case True
    with u show ?thesis by (auto simp: hashPasswordOnUpdate_def e passwords_def)
  qed (use N in \<open>auto simp: hashPasswordOnUpdate_def stored_password_def e\<close>)
  show "wp (on_db (orm_save (users_orm E) (before_save E e))) Q F w"
    unfolding b(1)
  proof (rule wp_db_save [OF account_lawsD(2) [OF laws]])
    fix e' d' assume d': "rows T d' = saved_rows T e' (rows T (w_db w))" and "ident T ?e \<noteq> '''' \<Longrightarrow> e' = ?e"
    with b(2) have e': "e' = ?e" by simp
    have "adds view T N {} w (w\<lparr>w_db := d'\<rparr>)"
      using new False by (auto simp: adds_def passwords_def d' saved_rows_def e' e account_lawsD(6) [OF laws])
    then show "Q e' (w\<lparr>w_db := d'\<rparr>)" by (rule Q)
  next
    fix x d' assume "rows T d' = rows T (w_db w)"
    then show "F x (w\<lparr>w_db := d'\<rparr>)" by (intro F adds_same) simp_all
  qed
qed


section \<open>The order\<close>

definition passwords_kept ::
  "('r, 'd, 'q) env \<Rightarrow> ('r \<Rightarrow> redis_view) \<Rightarrow> ('r \<Rightarrow> bool) \<Rightarrow> ('d, user) table \<Rightarrow> ('r, 'd, 'q) world \<Rightarrow> ('r, 'd, 'q) world \<Rightarrow> bool" where
  "passwords_kept E view up T w w' \<longleftrightarrow> (account_laws E view up T \<longrightarrow> passwords_follow view T w w')"

lemma passwords_keptI:
  "(account_laws E view up T \<Longrightarrow> obeys (passwords_follow view T) m) \<Longrightarrow> obeys (passwords_kept E view up T) m"
  by (auto simp: obeys_def passwords_kept_def)

lemma passwords_keptD: "account_laws E view up T \<Longrightarrow> passwords_kept E view up T = passwords_follow view T"
  by (intro ext) (simp add: passwords_kept_def)

lemma obeys_other_tables:
  assumes "account_laws E view up T"
  shows "obeys (passwords_follow view T) (on_db (orm_save (permissions_orm E) p))"
    "obeys (passwords_follow view T) (on_db (orm_remove (permissions_orm E) p))"
    "obeys (passwords_follow view T) (on_db (orm_save (roles_orm E) role))"
    "obeys (passwords_follow view T) (on_db (orm_remove (roles_orm E) role))"
    "obeys (passwords_follow view T) (on_db (orm_save (rules_orm E) rule))"
    "obeys (passwords_follow view T) (on_db (orm_remove (rules_orm E) rule))"
    "obeys (passwords_follow view T) (on_db (orm_save (api_keys_orm E) key))"
  using account_lawsD(5) [OF assms] unfolding tables_apart_def by (simp_all add: obeys_on_db)

lemma refresh_spares: "list_all spares_links (List.map (refresh_command (user_index i) ps) (zip sids raws))"
  by (auto simp: list_all_iff refresh_command_def split: option.splits sum.splits)

lemma obeys_session_refresh:
  assumes "redis_laws (redis_api E) view up"
  shows "obeys (passwords_follow view T) (refreshSessionPermissions E i ps)"
proof (rule obeys_wpI)
  fix w
  show "wp (refreshSessionPermissions E i ps) (\<lambda>_. passwords_follow view T w) (\<lambda>_. passwords_follow view T w) w"
    unfolding refreshSessionPermissions_def wp_bind
    by (intro wp_raw_sMembers [OF assms] wp_raw_mGet [OF assms])
      (auto simp: wp adds_refl intro!: wp_raw_mGet [OF assms] wp_raw_exec [OF assms] adds_same
        dest: subsetD [OF spares_links_all [OF refresh_spares]])
qed

interpretation kept_passwords: service_order "passwords_kept E view up T" E spares_links
  for E :: "('r, 'd, 'q) env" and view up T
proof unfold_locales
  let ?R = "passwords_kept E view up T"
  show "?R w w" for w by (simp add: passwords_kept_def adds_refl)
  show "?R w1 w3" if "?R w1 w2" "?R w2 w3" for w1 w2 w3
    using that adds_trans by (auto simp: passwords_kept_def)
  show "obeys ?R (on_mq (email_emit E chan body))" "obeys ?R (loadTemplate E tpl)" for chan body tpl
    by (intro passwords_keptI adds_elsewhere)+
  show "obeys ?R (raw_write E c)" if "spares_links c" for c
    using that by (intro passwords_keptI adds_commands(1) [OF account_lawsD(1)])
  show "obeys ?R (raw_exec E cs)" if "list_all spares_links cs" for cs
    using that by (intro passwords_keptI adds_commands(2) [OF account_lawsD(1)])
  show "obeys ?R (refreshSessionPermissions E i ps)" for i ps
    by (intro passwords_keptI obeys_session_refresh [OF account_lawsD(1)])
  show "obeys ?R (transaction E (on_db (orm_save (api_keys_orm E) key)))" for key
    by (intro passwords_keptI adds_transaction [OF account_lawsD(4)] obeys_other_tables)
qed (intro passwords_keptI obeys_other_tables | simp)+

text \<open>An account operation that keeps the password, step by step.\<close>

lemma obeys_resave:
  fixes f :: "user \<Rightarrow> user"
  assumes "\<And>u. u_id (f u) = u_id u \<and> u_email (f u) = u_email u \<and> u_password (f u) = u_password u \<and>
    u_originalPassword (f u) = u_originalPassword u"
  shows "account_laws E view up T \<Longrightarrow> u \<in> rows T (w_db w) \<Longrightarrow>
    wp (usersRepository_save E (f (loadOriginalPassword u))) (\<lambda>_. passwords_follow view T w) (\<lambda>_. passwords_follow view T w) w"
  by (rule wp_resave [where u = u]) (simp_all add: assms)

lemma follow_accounts:
  fixes E :: "('r, 'd, 'q) env"
  assumes laws: "account_laws E view up T"
  shows "obeys (passwords_follow view T) (users_activate E uid)" "obeys (passwords_follow view T) (users_deactivate E uid)"
    "obeys (passwords_follow view T) (assignRole E uid ids)"
proof -
  let ?R = "passwords_follow view T"
  note save = obeys_resave [OF _ laws]
  show "obeys ?R (users_activate E uid)"
    unfolding users_activate_def
    by (rule obeys_wpI, unfold wp_bind, rule wp_found [OF account_lawsD(2) [OF laws]])
      (auto simp: wp adds_refl intro!: save)
  show "obeys ?R (users_deactivate E uid)"
    unfolding users_deactivate_def
    by (rule obeys_wpI, unfold wp_bind, rule wp_found [OF account_lawsD(2) [OF laws]])
      (auto simp: wp adds_refl intro!: save)
  show "obeys ?R (assignRole E uid ids)"
  proof (unfold assignRole_def, rule obeys_wpI, unfold wp_bind, rule wp_found [OF account_lawsD(2) [OF laws]])
    fix w :: "('r, 'd, 'q) world" and u assume u: "u \<in> rows T (w_db w)"
    let ?W = "\<lambda>m. wp m (\<lambda>_. ?R w) (\<lambda>_. ?R w)"
    have saved: "?W (usersRepository_save E ((loadOriginalPassword u)\<lparr>u_roles := Some roles\<rparr>)) w" for roles
      by (rule save) (simp_all add: u)
    have refresh: "wp (swallow (refreshSessionPermissions E i ps)) (\<lambda>_. ?R w) (\<lambda>_. ?R w) w1" if "?R w w1" for i ps w1
      by (rule wp_obeys [OF kept_passwords.obeys_swallow [OF kept_passwords.session_refresh, of E view up T i ps,
              unfolded passwords_keptD [OF laws]]]) (rule adds_trans [OF that])
    show "wp (mapE (roles_findOne E) ids) (\<lambda>roles. wp (usersRepository_save E ((loadOriginalPassword u)\<lparr>u_roles := Some roles\<rparr>))
        (\<lambda>s. wp (thenE (swallow (refreshSessionPermissions E (u_id s) (user_permissionCodes s))) (returnE s)) (\<lambda>_. ?R w) (\<lambda>_. ?R w))
        (\<lambda>_. ?R w)) (\<lambda>_. ?R w) w"
      by (rule wp_readonly [OF readonly_mapE])
        (auto simp: adds_refl wp_then wp_return intro!: wp_mono [OF saved] refresh)
  qed (rule adds_refl)
qed


section \<open>Effects that add\<close>

text \<open>The accounts that an address, with the given password or without one, stands for.\<close>

definition activated ::
  "('r, 'd, 'q) env \<Rightarrow> ('d, user) table \<Rightarrow> 'd \<Rightarrow> string \<Rightarrow> string \<Rightarrow> string \<Rightarrow> (string \<times> string \<times> string) set" where
  "activated E T d email pw new =
     {(u_id u, email, stored_password E new) | u.
        u \<in> rows T d \<and> u_email u = email \<and> u_status u = PENDING \<and> bcrypt_compare E pw (u_password u)}"

definition reset_by ::
  "('r, 'd, 'q) env \<Rightarrow> redis_view \<Rightarrow> string \<Rightarrow> string \<Rightarrow> (string \<times> string \<times> string) set" where
  "reset_by E v token new = {(i, email, stored_password E new) | i email. (token, i) \<in> reset_links v}"

definition linked :: "('d, user) table \<Rightarrow> 'd \<Rightarrow> string \<Rightarrow> string \<Rightarrow> (string \<times> string) set" where
  "linked T d token email = {(token, u_id u) | u. u \<in> rows T d \<and> u_email u = email}"

lemma wp_adds_follow:
  assumes "obeys (passwords_follow view T) m" "adds view T N M w w1"
  shows "wp m (\<lambda>_. adds view T N M w) (\<lambda>_. adds view T N M w) w1"
  by (rule wp_obeys [OF assms(1)]) (rule adds_trans [OF assms(2) adds_follow])

lemma wp_firstActivation_adds:
  assumes laws: "account_laws E view up T"
  shows "wp (firstActivation E email pw new) (\<lambda>_. adds view T (activated E T (w_db w) email pw new) {} w)
    (\<lambda>_. adds view T (activated E T (w_db w) email pw new) {} w) w"
proof -
  let ?A = "adds view T (activated E T (w_db w) email pw new) {} w"
  have save: "wp (usersRepository_save E ((loadOriginalPassword u)\<lparr>u_password := new, u_status := ACTIVE\<rparr>)) (\<lambda>_. ?A) (\<lambda>_. ?A) w"
    if "u \<in> rows T (w_db w)" "u_email u = email" "u_status u = PENDING" "bcrypt_compare E pw (u_password u)" for u
    by (rule wp_resave [OF laws that(1)]) (use that in \<open>auto simp: activated_def\<close>)
  show ?thesis
    unfolding firstActivation_def findByEmail_def usersRepository_findOneByEmail_def wp_bind
    by (rule wp_loaded [OF account_lawsD(2) [OF laws]]) (simp_all add: wp adds_refl save)
qed

lemma reset_payload_read: "parse_or_null parse_reset raw = Inr (Some p) \<Longrightarrow> raw = Some (ResetDoc p)"
  by (cases raw; cases "the raw") (auto simp: parse_or_null_def truthy_def split: if_splits)

lemma wp_resetPassword_adds:
  assumes laws: "account_laws E view up T"
  shows "wp (resetPassword E token new) (\<lambda>_. adds view T (reset_by E (view (w_redis w)) token new) {} w)
    (\<lambda>_. adds view T (reset_by E (view (w_redis w)) token new) {} w) w"
proof -
  let ?A = "adds view T (reset_by E (view (w_redis w)) token new) {} w"
  note mail = kept_passwords.obeys_mail(2,3) [where E = E and view = view and up = up and T = T, unfolded passwords_keptD [OF laws]]
  have del: "spares_links (DEL (reset_key token))" by simp
  have gone: "?A (w\<lparr>w_redis := r'\<rparr>)"
    if "view r' = view (w_redis w) \<or> view r' = exec_cmd (DEL (reset_key token)) (view (w_redis w))" for r'
    by (rule adds_same) (use that in \<open>auto dest: subsetD [OF spares_links_cmd [OF del]]\<close>)
  have save: "wp (usersRepository_save E ((loadOriginalPassword u)\<lparr>u_password := new\<rparr>))
      (\<lambda>_. wp (confirmPasswordChange E (u_email u)) (\<lambda>_. ?A) (\<lambda>_. ?A)) (\<lambda>_. ?A) w1"
    if "?A w1" "u \<in> rows T (w_db w1)" "val (view (w_redis w)) (reset_key token) = Some (ResetDoc p)" "u_id u = rp_id p" for u p w1
  proof (rule wp_resave [OF laws that(2), where N = "reset_by E (view (w_redis w)) token new"])
    show "(u_id u, u_email u, stored_password E (u_password ((loadOriginalPassword u)\<lparr>u_password := new\<rparr>)))
        \<in> reset_by E (view (w_redis w)) token new"
      using that(3,4) by (cases p) (auto simp: reset_by_def reset_links_def)
  qed (auto intro!: wp_adds_follow [OF mail(2)] adds_trans [OF that(1)])
  show ?thesis
    unfolding resetPassword_def wp_bind
  proof (rule wp_raw_getDel [OF account_lawsD(1) [OF laws]])
    fix r' assume v: "view r' = exec_cmd (DEL (reset_key token)) (view (w_redis w))"
    let ?w = "w\<lparr>w_redis := r'\<rparr>" and ?doc = "val (view (w_redis w)) (reset_key token)"
    have w1: "?A ?w" by (rule gone) (simp add: v)
    show "wp (liftE (parse_or_null parse_reset ?doc)) (\<lambda>x. wp (case x of None \<Rightarrow> throwE reset_invalid
       | Some p \<Rightarrow>
           bindE (catchE (users_findOne E (rp_id p)) (\<lambda>error.
                    if is_NotFoundException error then
                      throwE (users_exception ''Invalid or expired reset password token''
                                users_error.RESET_PASSWORD_USER_NOT_FOUND UNAUTHORIZED None)
                    else throwE error)) (\<lambda>user.
           thenE (usersRepository_save E (user\<lparr>u_password := new\<rparr>))
           (thenE (confirmPasswordChange E (u_email user))
           (returnE ''Password reset successfully'')))) (\<lambda>_. ?A) (\<lambda>_. ?A)) (\<lambda>_. ?A) ?w"
      using reset_payload_read [of ?doc] w1
      by (auto simp: wp intro!: wp_found [OF account_lawsD(2) [OF laws]] save split: sum.splits option.splits)
  qed (rule gone)
qed

lemma wp_forgotPassword_adds:
  assumes laws: "account_laws E view up T"
  shows "wp (forgotPassword E token email) (\<lambda>_. adds view T {} (linked T (w_db w) token email) w)
    (\<lambda>_. adds view T {} (linked T (w_db w) token email) w) w"
proof -
  let ?A = "adds view T {} (linked T (w_db w) token email) w"
  note mail = kept_passwords.obeys_mail(2) [where E = E and view = view and up = up and T = T, unfolded passwords_keptD [OF laws]]
  have set: "wp (raw_write E (SET (reset_key token) (ResetDoc \<lparr>rp_id = u_id u\<rparr>) (PX t)))
      (\<lambda>_. wp (sendResetPasswordMail E email token) (\<lambda>_. ?A) (\<lambda>_. ?A)) (\<lambda>_. ?A) w"
    if "u \<in> rows T (w_db w)" "u_email u = email" for u t
  proof (rule wp_raw_write [OF account_lawsD(1) [OF laws]])
    have a: "?A (w\<lparr>w_redis := r'\<rparr>)"
      if "view r' = view (w_redis w) \<or> view r' = exec_cmd (SET (reset_key token) (ResetDoc \<lparr>rp_id = u_id u\<rparr>) (PX t)) (view (w_redis w))"
      for r'
      using that \<open>u \<in> rows T (w_db w)\<close> \<open>u_email u = email\<close>
      by (auto simp: adds_def reset_links_def linked_def reset_key_def split: if_splits)
    show "wp (sendResetPasswordMail E email token) (\<lambda>_. ?A) (\<lambda>_. ?A) (w\<lparr>w_redis := r'\<rparr>)"
      if "view r' = exec_cmd (SET (reset_key token) (ResetDoc \<lparr>rp_id = u_id u\<rparr>) (PX t)) (view (w_redis w))" for r'
      by (rule wp_adds_follow [OF mail]) (simp add: a that)
    show "?A (w\<lparr>w_redis := r'\<rparr>)"
      if "view r' = view (w_redis w) \<or> view r' = exec_cmd (SET (reset_key token) (ResetDoc \<lparr>rp_id = u_id u\<rparr>) (PX t)) (view (w_redis w))"
      for r' using that by (rule a)
  qed
  show ?thesis
    unfolding forgotPassword_def findByEmail_def usersRepository_findOneByEmail_def wp_bind
    by (rule wp_loaded [OF account_lawsD(2) [OF laws]])
      (auto simp: wp adds_refl set split: sum.splits)
qed


lemma wp_register_adds:
  assumes laws: "account_laws E view up T"
  shows "obeys (adds view T {(i, dto_email dto, stored_password E pw) | i. i \<noteq> ''''} {}) (register E pw dto creator)"
proof -
  let ?N = "{(i, dto_email dto, stored_password E pw) | i. i \<noteq> ''''}"
  let ?R = "adds view T ?N {}"
  note mail = kept_passwords.obeys_mail(1) [where E = E and view = view and up = up and T = T, unfolded passwords_keptD [OF laws]]
  have insert: "wp (usersRepository_save E (usersRepository_create dto roles pw creator))
      (\<lambda>user. wp (thenE (sendRegistrationMail E (u_email user) pw) (returnE (''User '' @ u_email user @ '' created'')))
         (\<lambda>_. ?R w) (\<lambda>_. ?R w)) (\<lambda>_. ?R w) w" for roles w
  proof -
    let ?u = "usersRepository_create dto roles pw creator"
    let ?e = "hasPasswordOnInsert (bcrypt_hashSync E) ?u"
    have e: "before_save E ?u = ?e" "ident T ?e = ''''" "u_email ?e = dto_email dto" "u_password ?e = stored_password E pw"
      by (simp_all add: before_save_def usersRepository_create_def account_lawsD(6) [OF laws] hasPasswordOnInsert_def stored_password_def)
    show ?thesis
      unfolding usersRepository_save_def e(1)
    proof (rule wp_db_save [OF account_lawsD(2) [OF laws]])
      fix e' d' assume d': "rows T d' = saved_rows T e' (rows T (w_db w))" "ident T e' \<noteq> ''''"
        and "ident T ?e = '''' \<Longrightarrow> e' = assign T (ident T e') ?e \<and> ident T e' \<notin> ident T ` rows T (w_db w)"
      with e(2) have e': "e' = ?e\<lparr>u_id := u_id e'\<rparr>" by (simp add: account_lawsD(6,7) [OF laws])
      have "(u_id e', u_email e', u_password e') \<in> ?N"
        using d'(2) by (subst (2 3) e') (simp add: e(3,4) account_lawsD(6) [OF laws] del: hook_fields)
      then have "?R w (w\<lparr>w_db := d'\<rparr>)"
        using d'(2) by (auto simp: adds_def passwords_def d'(1) saved_rows_def account_lawsD(6) [OF laws])
      then show "wp (thenE (sendRegistrationMail E (u_email e') pw) (returnE (''User '' @ u_email e' @ '' created'')))
         (\<lambda>_. ?R w) (\<lambda>_. ?R w) (w\<lparr>w_db := d'\<rparr>)"
        unfolding wp_then by (intro wp_mono [OF wp_adds_follow [OF mail]]) (simp_all add: wp_return)
    next
      fix x d' assume "rows T d' = rows T (w_db w)"
      then show "?R w (w\<lparr>w_db := d'\<rparr>)" by (intro adds_same) simp_all
    qed
  qed
  have body: "obeys ?R (bindE (mapE (roles_findOne E) (dto_rolesIds dto)) (\<lambda>roles.
          bindE (usersRepository_save E (usersRepository_create dto roles pw creator)) (\<lambda>user.
          thenE (sendRegistrationMail E (u_email user) pw)
          (returnE (''User '' @ u_email user @ '' created'')))))"
    by (rule obeys_wpI, unfold wp_bind, rule wp_readonly [OF readonly_mapE [OF readonly_roles_findOne]])
      (rule insert, rule adds_refl)
  show ?thesis
    unfolding register_def rethrow_as_def
    by (rule obeys_wpI, unfold wp_catch)
      (rule wp_mono [OF wp_obeys [OF adds_transaction [OF account_lawsD(4) [OF laws] body]]], auto simp: wp)
qed

text \<open>Every other call keeps the passwords and the links.\<close>

lemma kept_password_calls:
  assumes "\<not> service_order.call_obeys (passwords_kept E view up T) E req c"
  shows "(\<exists>pw dto. c = UsersCall (Register pw dto)) \<or> (\<exists>email pw new. c = UsersCall (FirstActivation email pw new)) \<or>
    (\<exists>token email. c = UsersCall (ForgotPassword token email)) \<or> (\<exists>token new. c = UsersCall (ResetPassword token new))"
proof (rule ccontr)
  let ?R = "passwords_kept E view up T"
  assume no: "\<not> ?thesis"
  have accounts: "obeys ?R (users_activate E uid)" "obeys ?R (users_deactivate E uid)" "obeys ?R (assignRole E uid ids)" for uid ids
    by (rule passwords_keptI, erule follow_accounts)+
  have sessions: "obeys ?R (logIn E sid email pw req)" "obeys ?R (users_refreshToken E rt)" "obeys ?R (deactivateSession E sid)"
    for sid email pw rt
    unfolding logIn_def issue_session_def users_refreshToken_def refresh_check_def refresh_store_def deactivateSession_def
    by (intro obeys_rules kept_passwords.writes; simp)+
  from no assms accounts sessions show False
    by (auto simp: kept_passwords.call_obeys_def split: call.splits users_call.splits sessions_call.splits)
qed


section \<open>Runs\<close>

text \<open>A request that a service answers alone adds what the service adds.\<close>

lemma answer_adds:
  assumes ep: "ep_guard (call_endpoint c) = Unguarded"
    and m: "call_method C req c = bindE (services m) (\<lambda>msg. returnE (message_json msg))"
    and adds: "wp m (\<lambda>_. R w) (\<lambda>_. R w) w"
  shows "R w (snd (answer C url req c w))"
  using adds unfolding answer_def serve_open [OF ep] m
  by (cases "m w") (auto simp: bindE_def services_run returnE_def send_reply_def wp_def split: sum.splits prod.splits)

text \<open>A link for the account \<open>i\<close> was drawn by a request for the address that the account had then.\<close>

definition link_asked :: "('d, user) table \<Rightarrow> ('r, 'd, 'q) exchange list \<Rightarrow> string \<times> string \<Rightarrow> bool" where
  "link_asked T xs = (\<lambda>(token, i).
     \<exists>y \<in> set xs. \<exists>email. x_call y = UsersCall (ForgotPassword token email) \<and> (token, i) \<in> linked T (w_db (x_before y)) token email)"

text \<open>The exchange \<open>x\<close>, after the exchanges \<open>ys\<close>, may set the password stored in an account: it
  registers the account, it is the first activation of the pending account and knows its old
  password, or it resets the password with a link asked for before.\<close>

definition sets_password ::
  "('r, 'd, 'q) env \<Rightarrow> ('d, user) table \<Rightarrow> ('r, 'd, 'q) exchange list \<Rightarrow> ('r, 'd, 'q) exchange \<Rightarrow>
   string \<times> string \<times> string \<Rightarrow> bool" where
  "sets_password E T ys x = (\<lambda>(i, email, h).
     case x_call x of
       UsersCall (Register pw dto) \<Rightarrow> dto_email dto = email \<and> h = stored_password E pw
     | UsersCall (FirstActivation address pw new) \<Rightarrow> (i, email, h) \<in> activated E T (w_db (x_before x)) address pw new
     | UsersCall (ResetPassword token new) \<Rightarrow> h = stored_password E new \<and> link_asked T ys (token, i)
     | _ \<Rightarrow> False)"

definition password_origin ::
  "('r, 'd, 'q) env \<Rightarrow> ('d, user) table \<Rightarrow> ('r, 'd, 'q) world \<Rightarrow> ('r, 'd, 'q) exchange list \<Rightarrow>
   string \<times> string \<times> string \<Rightarrow> bool" where
  "password_origin E T w xs k \<longleftrightarrow>
     k \<in> passwords T (w_db w) \<or> (\<exists>ys x zs. xs = ys @ x # zs \<and> sets_password E T ys x k)"

lemma password_origin_more: "password_origin E T w xs k \<Longrightarrow> password_origin E T w (xs @ [x]) k"
  unfolding password_origin_def by (metis append_Cons append_assoc)

lemma password_origin_last: "sets_password E T xs x k \<Longrightarrow> password_origin E T w (xs @ [x]) k"
  unfolding password_origin_def by blast

lemma link_asked_more: "link_asked T xs k \<Longrightarrow> link_asked T (xs @ [x]) k"
  by (cases k) (auto simp: link_asked_def)

text \<open>The invariant of runs: every password and every link has its origin.\<close>

definition origins ::
  "('r, 'd, 'q) env \<Rightarrow> ('r \<Rightarrow> redis_view) \<Rightarrow> ('d, user) table \<Rightarrow> ('r, 'd, 'q) world \<Rightarrow> ('r, 'd, 'q) exchange list \<Rightarrow>
   ('r, 'd, 'q) world \<Rightarrow> bool" where
  "origins E view T w xs w' \<longleftrightarrow> '''' \<notin> fst ` passwords T (w_db w') \<and>
     (\<forall>k \<in> passwords T (w_db w'). password_origin E T w xs k) \<and>
     (\<forall>k \<in> reset_links (view (w_redis w')). link_asked T xs k)"

lemma origins_more: "origins E view T w xs w' \<Longrightarrow> origins E view T w (xs @ [x]) w'"
  by (simp add: origins_def password_origin_more link_asked_more)

lemma origins_adds:
  assumes "origins E view T w xs w1" "adds view T N M w1 w2" "\<And>k. k \<in> N \<Longrightarrow> password_origin E T w xs k"
    "\<And>k. k \<in> M \<Longrightarrow> link_asked T xs k"
  shows "origins E view T w xs w2"
  using assms unfolding origins_def adds_def by blast

interpretation adding: world_order "adds view T N M" for view T N M
  by unfold_locales (rule adds_refl, rule adds_trans)

lemma register_adds:
  fixes C :: "('r, 'd, 'q) container"
  assumes laws: "account_laws (services_env C) view up T"
  shows "adds view T {(i, dto_email dto, stored_password (services_env C) pw) | i. i \<noteq> ''''} {} w
    (snd (answer C url req (UsersCall (Register pw dto)) w))"
proof -
  let ?E = "services_env C" and ?R = "adds view T {(i, dto_email dto, stored_password (services_env C) pw) | i. i \<noteq> ''''} {}"
  have "obeys (in_handler (passwords_follow view T)) (run_guard ?E ep_users_register req)"
    using kept_passwords.obeys_run_guard [where E = ?E and view = view and up = up and T = T]
    unfolding passwords_keptD [OF laws] .
  then have guard: "obeys (in_handler ?R) (run_guard ?E ep_users_register req)"
    by (auto simp: obeys_def in_handler_def intro: adds_follow)
  have "obeys (in_route ?R) (UsersController_register ?E pw dto)"
    unfolding UsersController_register_def by (intro obeys_rules wp_register_adds [OF laws])
  with guard show ?thesis by (simp add: answer_def adding.serve_obeys)
qed

lemma call_adds:
  fixes C :: "('r, 'd, 'q) container"
  assumes laws: "account_laws (services_env C) view up T"
    and other: "\<not> service_order.call_obeys (passwords_kept (services_env C) view up T) (services_env C) req c"
    and I: "origins (services_env C) view T w xs w1" and a: "answer C url req c w1 = (rep, w2)"
  shows "origins (services_env C) view T w (xs @ [\<lparr>x_call = c, x_request = req, x_before = w1, x_reply = rep\<rparr>]) w2"
    (is "origins ?E view T w ?xs w2")
proof -
  note more = origins_more [OF I, of "\<lparr>x_call = c, x_request = req, x_before = w1, x_reply = rep\<rparr>"]
  have w2: "w2 = snd (answer C url req c w1)" by (simp add: a)
  from kept_password_calls [OF other] show ?thesis
  proof (elim disjE exE)
    fix email pw new assume c: "c = UsersCall (FirstActivation email pw new)"
    have "adds view T (activated ?E T (w_db w1) email pw new) {} w1 w2"
      unfolding w2 by (rule answer_adds [where R = "adds view T (activated ?E T (w_db w1) email pw new) {}", OF _ _ wp_firstActivation_adds [OF laws]])
        (simp_all add: c ep_users_firstActivation_def endpoint_def UsersController_firstActivation_def)
    from more this show ?thesis
      by (rule origins_adds) (auto simp: c sets_password_def intro!: password_origin_last)
  next
    fix token email assume c: "c = UsersCall (ForgotPassword token email)"
    have "adds view T {} (linked T (w_db w1) token email) w1 w2"
      unfolding w2 by (rule answer_adds [where R = "adds view T {} (linked T (w_db w1) token email)", OF _ _ wp_forgotPassword_adds [OF laws]])
        (simp_all add: c ep_users_forgotPassword_def endpoint_def UsersController_forgotPassword_def)
    from more this show ?thesis
      by (rule origins_adds) (auto simp: c link_asked_def linked_def)
  next
    fix token new assume c: "c = UsersCall (ResetPassword token new)"
    have "adds view T (reset_by ?E (view (w_redis w1)) token new) {} w1 w2"
      unfolding w2 by (rule answer_adds [where R = "adds view T (reset_by ?E (view (w_redis w1)) token new) {}", OF _ _ wp_resetPassword_adds [OF laws]])
        (simp_all add: c ep_users_resetPassword_def endpoint_def UsersController_resetPassword_def)
    from more this show ?thesis
      by (rule origins_adds) (use I in \<open>auto simp: c sets_password_def reset_by_def origins_def intro!: password_origin_last\<close>)
  next
    fix pw dto assume c: "c = UsersCall (Register pw dto)"
    let ?N = "{(i, dto_email dto, stored_password ?E pw) | i. i \<noteq> ''''}"
    have "adds view T ?N {} w1 w2"
      unfolding w2 c by (rule register_adds [OF laws])
    from more this show ?thesis
      by (rule origins_adds) (auto simp: c sets_password_def intro!: password_origin_last)
  qed
qed

end
