(* ===== verification/SessionOrigin.thy ===== *)
theory SessionOrigin imports Runs UserSessions begin

text \<open>
  Where sessions come from: every operation of the service but a login leaves each session as it
  was, takes it away, or continues it as the session of the same user from the same address; a
  login opens one session, of an active account whose password it knows.
\<close>

section \<open>Sessions that continue\<close>

text \<open>Permissions and the time of the last refresh may change, and an active session may be
  deactivated; the rest stays, and nothing activates a session again.\<close>

definition continues :: "session \<Rightarrow> session \<Rightarrow> bool" where
  "continues s s' \<longleftrightarrow>
     s' = s\<lparr>s_permissions := s_permissions s', s_active := s_active s', s_last_refresh_at := s_last_refresh_at s'\<rparr> \<and>
     (s_active s' \<longrightarrow> s_active s)"

lemma continues_refl: "continues s s"
  by (simp add: continues_def)

lemma continues_trans: "continues s t \<Longrightarrow> continues t u \<Longrightarrow> continues s u"
  by (cases s; cases t; cases u) (auto simp: continues_def)

lemma continues_intros:
  "continues s (s\<lparr>s_permissions := ps\<rparr>)" "continues s (s\<lparr>s_active := False\<rparr>)"
  "continues s (s\<lparr>s_permissions := ps, s_last_refresh_at := x\<rparr>)"
  by (simp_all add: continues_def)

definition sessions_follow ::
  "('r \<Rightarrow> redis_view) \<Rightarrow> ('r, 'd, 'q) world \<Rightarrow> ('r, 'd, 'q) world \<Rightarrow> bool" where
  "sessions_follow view w w' \<longleftrightarrow>
     (\<forall>sid s'. sess view w' sid = Some s' \<longrightarrow> (\<exists>s. sess view w sid = Some s \<and> continues s s'))"

lemma sessions_followD:
  "sessions_follow view w w' \<Longrightarrow> sess view w' sid = Some s' \<Longrightarrow> \<exists>s. sess view w sid = Some s \<and> continues s s'"
  by (simp add: sessions_follow_def)

lemma follow_refl: "sessions_follow view w w"
  by (auto simp: sessions_follow_def intro: continues_refl)

lemma follow_trans: "sessions_follow view w1 w2 \<Longrightarrow> sessions_follow view w2 w3 \<Longrightarrow> sessions_follow view w1 w3"
  unfolding sessions_follow_def by (metis continues_trans)

lemma follow_same: "w_redis w' = w_redis w \<Longrightarrow> sessions_follow view w w'"
  by (auto simp: sessions_follow_def intro: continues_refl)

text \<open>Computations that do not reach Redis.\<close>

lemma follow_elsewhere:
  "obeys (sessions_follow view) (on_db m)" "obeys (sessions_follow view) (on_mq m')"
  "obeys (sessions_follow view) (loadTemplate E file)"
  by (auto simp: obeys_def on_db_def on_mq_def zoomE_def loadTemplate_def intro!: follow_same
      split: prod.splits option.splits sum.splits)

lemma follow_transaction:
  assumes "obeys (sessions_follow view) m"
  shows "obeys (sessions_follow view) (transaction E m)"
proof (rule obeysI)
  fix w x w' assume run: "transaction E m w = (x, w')"
  obtain y w1 where m: "m w = (y, w1)" by fastforce
  with run have "w_redis w' = w_redis w1" by (auto simp: transaction_def split: sum.splits prod.splits)
  with obeysD [OF assms m] show "sessions_follow view w w'"
    by (blast intro: follow_trans follow_same)
qed

section \<open>Commands\<close>

text \<open>A command that writes no session.\<close>

fun spares_sessions :: "command \<Rightarrow> bool" where
  "spares_sessions (SET k d opt) = (\<forall>sid. k \<noteq> session_key sid)"
| "spares_sessions _ = True"

lemma spares_session_at: "spares_sessions c \<Longrightarrow> session_at (exec_cmd c v) sid = Some s \<Longrightarrow> session_at v sid = Some s"
  by (cases c) (auto split: if_splits)

lemma spares_sessions_at:
  "list_all spares_sessions cs \<Longrightarrow> session_at (exec_all cs v) sid = Some s \<Longrightarrow> session_at v sid = Some s"
  by (induction cs arbitrary: v) (auto dest: spares_session_at)

lemma follow_view:
  assumes "\<And>sid s. session_at (view r') sid = Some s \<Longrightarrow> session_at (view (w_redis w)) sid = Some s"
  shows "sessions_follow view w (w\<lparr>w_redis := r'\<rparr>)"
  using assms by (auto simp: sessions_follow_def intro: continues_refl)

lemma follow_write:
  assumes "redis_laws (redis_api E) view up" "spares_sessions c"
  shows "obeys (sessions_follow view) (raw_write E c)"
  by (rule obeys_wpI, rule wp_raw_write [OF assms(1)]) (auto intro!: follow_view dest: spares_session_at [OF assms(2)])

lemma follow_exec:
  assumes "redis_laws (redis_api E) view up" "list_all spares_sessions cs"
  shows "obeys (sessions_follow view) (raw_exec E cs)"
  by (rule obeys_wpI, rule wp_raw_exec [OF assms(1)]) (auto intro!: follow_view dest: spares_sessions_at [OF assms(2)])

lemma follow_getDel:
  assumes "redis_laws (redis_api E) view up"
  shows "obeys (sessions_follow view) (raw_getDel E k)"
  unfolding raw_getDel_def
  by (rule obeys_wpI, unfold wp_on_redis, rule wp_effect [OF redis_lawsD(4) [OF assms]])
    (auto intro!: follow_view split: if_splits)

lemma cache_keys_spare [simp]:
  "epr_redisKey k \<noteq> session_key sid" "api_redisKey fp \<noteq> session_key sid"
  by (simp_all add: epr_redisKey_def api_redisKey_def session_key_def)

lemma reset_key_spares [simp]: "reset_key t \<noteq> session_key sid"
  by (simp add: reset_key_def session_key_def)

section \<open>The services that write sessions\<close>

lemma follow_refreshed:
  assumes "permissions_refreshed userId ps (view (w_redis w)) (view r')"
  shows "sessions_follow view w (w\<lparr>w_redis := r'\<rparr>)"
  unfolding sessions_follow_def
proof (intro allI impI)
  fix sid s' assume "sess view (w\<lparr>w_redis := r'\<rparr>) sid = Some s'"
  then show "\<exists>s. sess view w sid = Some s \<and> continues s s'"
    using assms by (auto simp: permissions_refreshed_def continues_intros continues_refl split: if_splits)
qed

lemma follow_refreshSessionPermissions:
  assumes "redis_laws (redis_api E) view up"
  shows "obeys (sessions_follow view) (refreshSessionPermissions E userId ps)"
  by (rule obeys_wpI, rule wp_refreshSessionPermissions [OF assms])
    (auto intro: follow_refreshed follow_view)

text \<open>A session that was read is written back changed.\<close>

lemma follow_write_back:
  assumes "redis_laws (redis_api E) view up" "sess view w sid = Some s" "continues s s'"
  shows "sessions_follow view w (snd (raw_write E (SET (session_key sid) (SessionDoc s') opt) w))"
proof (rule wp_run, rule wp_raw_write [OF assms(1)])
  fix r' assume v: "view r' = exec_cmd (SET (session_key sid) (SessionDoc s') opt) (view (w_redis w))"
  show "sessions_follow view w (w\<lparr>w_redis := r'\<rparr>)"
    using assms(2,3) by (auto simp: sessions_follow_def v continues_refl split: if_splits)
next
  fix r' assume "view r' = view (w_redis w) \<or>
    view r' = exec_cmd (SET (session_key sid) (SessionDoc s') opt) (view (w_redis w))"
  then show "sessions_follow view w (w\<lparr>w_redis := r'\<rparr>)"
    using assms(2,3) by (auto simp: sessions_follow_def continues_refl split: if_splits)
qed

lemma follow_deactivateSession:
  fixes E :: "('r, 'd, 'q) env"
  assumes "redis_laws (redis_api E) view up"
  shows "obeys (sessions_follow view) (deactivateSession E sid)"
proof (rule obeys_wpI)
  fix w :: "('r, 'd, 'q) world"
  let ?R = "sessions_follow view w"
  have "wp (case session_at (view (w_redis w)) sid of
      Some s \<Rightarrow> thenE (raw_write E (SET (session_key sid) (SessionDoc (s\<lparr>s_active := False\<rparr>)) KEEPTTL))
                  (returnE ''Session deactivated'')
    | None \<Rightarrow> returnE ''Session not found'') (\<lambda>_. ?R) (\<lambda>_. ?R) w"
  proof (cases "session_at (view (w_redis w)) sid")
    case (Some s)
    have "wp (raw_write E (SET (session_key sid) (SessionDoc (s\<lparr>s_active := False\<rparr>)) KEEPTTL)) (\<lambda>_. ?R) (\<lambda>_. ?R) w"
      using follow_write_back [OF assms Some continues_intros(2), of KEEPTTL]
      by (auto simp: wp_def split: prod.splits sum.splits)
    with Some show ?thesis by (simp add: wp)
  qed (simp add: wp follow_refl)
  then show "wp (deactivateSession E sid) (\<lambda>_. ?R) (\<lambda>_. ?R) w"
    unfolding deactivateSession_def wp_bind
    by (intro wp_read_session [OF assms]) (simp_all add: follow_refl)
qed

text \<open>A refresh writes back the session it has read.\<close>

lemma wp_refresh_check:
  assumes "redis_laws (redis_api E) view up"
  shows "wp (refresh_check E rt)
    (\<lambda>renewed w'. w' = w \<and> (\<exists>p s. payload_of E rt RefreshToken (w_now w) = Inr p \<and> fst renewed = the (pl_sid p) \<and>
       sess view w (fst renewed) = Some s \<and> s_active s \<and> continues s (snd renewed))) (\<lambda>_ w'. w' = w) w"
proof -
  have found: "wp (users_findOne E i) Q (\<lambda>_ w'. w' = w) w" if "\<And>u. Q u w" for i Q
  proof -
    have "readonly (users_findOne E i)"
      by (rule readonlyI)
        (auto simp: users_findOne_def usersRepository_findOneById_def load_one_def wp wp_on_db split: option.splits sum.splits)
    then show ?thesis by (rule wp_readonly) (use that in auto)
  qed
  show ?thesis unfolding refresh_check_def wp_bind
    by (auto simp: wp Let_def continues_intros split: sum.splits option.splits
        intro!: wp_read_session [OF assms] found)
qed

lemma follow_refreshToken:
  assumes laws: "redis_laws (redis_api E) view up"
  shows "obeys (sessions_follow view) (users_refreshToken E rt)"
proof (rule obeys_wpI)
  fix w
  show "wp (users_refreshToken E rt) (\<lambda>_. sessions_follow view w) (\<lambda>_. sessions_follow view w) w"
    unfolding users_refreshToken_def wp_bind
  proof (rule wp_mono [OF wp_refresh_check [OF laws]], elim conjE exE)
    fix renewed w' p s assume w': "w' = w" and s: "sess view w (fst renewed) = Some s" "continues s (snd renewed)"
    have "wp (raw_write E (SET (session_key (fst renewed)) (SessionDoc (snd renewed)) KEEPTTL))
        (\<lambda>_. sessions_follow view w) (\<lambda>_. sessions_follow view w) w"
      using follow_write_back [OF laws s, of KEEPTTL] by (auto simp: wp_def split: prod.splits sum.splits)
    then show "wp (refresh_store E rt renewed) (\<lambda>_. sessions_follow view w) (\<lambda>_. sessions_follow view w) w'"
      unfolding w' refresh_store_def wp_then
      by (rule wp_mono) (auto intro: wp_readonly)
  qed (simp add: follow_refl)
qed

section \<open>The order of the sessions\<close>

definition sessions_kept ::
  "('r, 'd, 'q) env \<Rightarrow> ('r \<Rightarrow> redis_view) \<Rightarrow> ('r \<Rightarrow> bool) \<Rightarrow> ('r, 'd, 'q) world \<Rightarrow> ('r, 'd, 'q) world \<Rightarrow> bool" where
  "sessions_kept E view up w w' \<longleftrightarrow> (redis_laws (redis_api E) view up \<longrightarrow> sessions_follow view w w')"

lemma keptI: "(redis_laws (redis_api E) view up \<Longrightarrow> obeys (sessions_follow view) m) \<Longrightarrow> obeys (sessions_kept E view up) m"
  by (auto simp: obeys_def sessions_kept_def)

lemma keptD: "redis_laws (redis_api E) view up \<Longrightarrow> sessions_kept E view up = sessions_follow view"
  by (intro ext) (simp add: sessions_kept_def)

interpretation kept_sessions: service_order "sessions_kept E view up" E spares_sessions
  for E :: "('r, 'd, 'q) env" and view up
proof unfold_locales
  show "sessions_kept E view up w w" for w by (simp add: sessions_kept_def follow_refl)
  show "sessions_kept E view up w1 w3" if "sessions_kept E view up w1 w2" "sessions_kept E view up w2 w3" for w1 w2 w3
    using that follow_trans by (auto simp: sessions_kept_def)
  show "obeys (sessions_kept E view up) (raw_write E c)" if "spares_sessions c" for c
    using that by (intro keptI follow_write)
  show "obeys (sessions_kept E view up) (raw_exec E cs)" if "list_all spares_sessions cs" for cs
    using that by (intro keptI follow_exec)
  show "obeys (sessions_kept E view up) (refreshSessionPermissions E i ps)" for i ps
    by (intro keptI follow_refreshSessionPermissions)
qed (intro keptI follow_elsewhere follow_transaction | simp)+

lemma kept_users [obeys_rules]:
  "obeys (sessions_kept E view up) (raw_getDel E k)" "obeys (sessions_kept E view up) (usersRepository_save E u)"
  by (auto simp: usersRepository_save_def intro: keptI follow_getDel follow_elsewhere)

text \<open>Every call but a login keeps the sessions.\<close>

lemma kept_calls: "\<not> service_order.call_obeys (sessions_kept E view up) E req c \<Longrightarrow> \<exists>sid email pw. c = UsersCall (LogIn sid email pw)"
proof (rule ccontr)
  let ?R = "sessions_kept E view up"
  assume bad: "\<not> service_order.call_obeys (sessions_kept E view up) E req c" and c: "\<nexists>sid email pw. c = UsersCall (LogIn sid email pw)"
  have tx: "obeys ?R (transaction E m)" if "obeys ?R m" for m :: "('a, 'b, 'c, string) service"
    using follow_transaction [of view m E] that by (auto simp: obeys_def sessions_kept_def)
  have ops: "obeys ?R (register E pw dto creator)" "obeys ?R (assignRole E uid ids)" "obeys ?R (forgotPassword E t email)"
    "obeys ?R (resetPassword E t pw)" "obeys ?R (firstActivation E email pw new)" "obeys ?R (users_activate E uid)"
    "obeys ?R (users_deactivate E uid)" for pw dto creator uid ids t email new
    unfolding register_def assignRole_def forgotPassword_def resetPassword_def firstActivation_def users_activate_def
      users_deactivate_def
    by (intro obeys_rules tx kept_sessions.writes; simp)+
  have "obeys ?R (users_refreshToken E rt)" "obeys ?R (deactivateSession E sid)" for rt sid
    by (auto intro: keptI follow_refreshToken follow_deactivateSession)
  with ops bad c show False
    by (auto simp: kept_sessions.call_obeys_def split: call.splits users_call.splits sessions_call.splits)
qed

section \<open>A login opens one session\<close>

text \<open>The session \<open>s\<close> goes back to a login of \<open>email\<close> with \<open>pw\<close> from \<open>req\<close> in the world \<open>w\<close>:
  the address belongs to an active account whose password it is, and the session is the one that
  the login makes of them, but for what a session may change.\<close>

definition login_session ::
  "('r, 'd, 'q) env \<Rightarrow> ('d, user) table \<Rightarrow> ('r, 'd, 'q) world \<Rightarrow> string \<Rightarrow> string \<Rightarrow> request \<Rightarrow> session \<Rightarrow> bool" where
  "login_session E T w email pw req s \<longleftrightarrow>
     (\<exists>u \<in> rows T (w_db w). u_email u = email \<and> bcrypt_compare E pw (u_password u) \<and> u_status u = ACTIVE \<and>
        continues (new_session E u req (w_now w)) s)"

definition opened ::
  "('r, 'd, 'q) env \<Rightarrow> ('r \<Rightarrow> redis_view) \<Rightarrow> ('d, user) table \<Rightarrow> string \<Rightarrow> string \<Rightarrow> string \<Rightarrow> request \<Rightarrow>
   ('r, 'd, 'q) world \<Rightarrow> ('r, 'd, 'q) world \<Rightarrow> bool" where
  "opened E view T sid email pw req w w' \<longleftrightarrow>
     (\<forall>i s'. sess view w' i = Some s' \<longrightarrow>
        (\<exists>s. sess view w i = Some s \<and> continues s s') \<or> (i = sid \<and> login_session E T w email pw req s'))"

lemma openedI:
  assumes "\<And>i s'. sess view w' i = Some s' \<Longrightarrow>
    (\<exists>s. sess view w i = Some s \<and> continues s s') \<or> (i = sid \<and> login_session E T w email pw req s')"
  shows "opened E view T sid email pw req w w'"
  using assms by (simp add: opened_def)

lemma opened_follow: "sessions_follow view w w' \<Longrightarrow> opened E view T sid email pw req w w'"
  by (auto simp: sessions_follow_def opened_def)

lemma opened_trans:
  assumes "opened E view T sid email pw req w w1" "sessions_follow view w1 w2"
  shows "opened E view T sid email pw req w w2"
proof (rule openedI)
  fix i s' assume "sess view w2 i = Some s'"
  then obtain s where s: "sess view w1 i = Some s" "continues s s'" using assms(2) by (auto simp: sessions_follow_def)
  with assms(1) consider s0 where "sess view w i = Some s0" "continues s0 s"
    | "i = sid" "login_session E T w email pw req s" unfolding opened_def by blast
  then show "(\<exists>s. sess view w i = Some s \<and> continues s s') \<or> (i = sid \<and> login_session E T w email pw req s')"
  proof cases
    case 1
    then show ?thesis using s(2) continues_trans by blast
  next
    case 2
    then have "login_session E T w email pw req s'"
      unfolding login_session_def using s(2) continues_trans by blast
    with 2 show ?thesis by blast
  qed
qed

lemma new_session_loaded: "new_session E (loadOriginalPassword u) req now = new_session E u req now"
  by (simp add: new_session_def loadOriginalPassword_def user_permissionCodes_def)

lemma wp_issue_session_opens:
  fixes E :: "('r, 'd, 'q) env"
  assumes laws: "redis_laws (redis_api E) view up"
    and new: "\<And>s'. continues (new_session E u req (w_now w)) s' \<Longrightarrow> login_session E T w email pw req s'"
  shows "wp (issue_session E sid u req) (\<lambda>_. opened E view T sid email pw req w) (\<lambda>_. opened E view T sid email pw req w) w"
proof -
  let ?O = "opened E view T sid email pw req w"
  have same: "?O w" by (simp add: opened_follow follow_refl)
  have token: "wp (generateToken E c ty) Q (\<lambda>_. ?O) w" if "\<And>a. Q a w" for c ty Q
    by (rule wp_readonly) (use that same in auto)
  have set: "wp (raw_write E (SET (session_key sid) (SessionDoc (new_session E u req (w_now w))) (PX t))) (\<lambda>_. ?O) (\<lambda>_. ?O) w" for t
    by (rule wp_raw_write [OF laws])
      (auto intro!: openedI new continues_refl split: if_splits)
  have later: "wp m (\<lambda>_. ?O) (\<lambda>_. ?O) w1" if "?O w1" "obeys (sessions_follow view) m" for w1 and m :: "('r, 'd, 'q, unit) service"
    by (rule wp_obeys [OF that(2)]) (rule opened_trans [OF that(1)])
  have last: "wp (liftE ttl) (\<lambda>a. wp (raw_write E (PEXPIRE i a)) (\<lambda>_. ?O) (\<lambda>_. ?O)) (\<lambda>_. ?O) w1" if "?O w1" for ttl i w1
    using that by (cases ttl) (auto simp: wp intro!: later follow_write [OF laws])
  have mid: "wp (raw_write E (SADD i x)) (\<lambda>_. wp (liftE ttl) (\<lambda>a. wp (raw_write E (PEXPIRE i a)) (\<lambda>_. ?O) (\<lambda>_. ?O)) (\<lambda>_. ?O))
      (\<lambda>_. ?O) w1" if "?O w1" for ttl i x w1
    by (rule wp_mono [OF later [OF that]]) (auto intro: last follow_write [OF laws])
  show ?thesis unfolding issue_session_def wp_rethrow_as wp_bind wp_then wp_return wp_get
    by (intro token) (cases "getTtlFromEnv E ''JWT_REFRESH_EXPIRES_IN''", auto simp: wp_lift same intro!: wp_mono [OF set] mid)
qed

lemma wp_logIn_opens:
  fixes E :: "('r, 'd, 'q) env"
  assumes laws: "redis_laws (redis_api E) view up" "orm_laws (users_orm E) T"
  shows "wp (logIn E sid email pw req) (\<lambda>_. opened E view T sid email pw req w) (\<lambda>_. opened E view T sid email pw req w) w"
proof -
  let ?O = "opened E view T sid email pw req w"
  have same: "?O w" by (simp add: opened_follow follow_refl)
  have issue: "wp (issue_session E sid (loadOriginalPassword u) req) (\<lambda>_. ?O) (\<lambda>_. ?O) w"
    if "u \<in> rows T (w_db w)" "u_email u = email" "bcrypt_compare E pw (u_password u)"
      "u_status u \<noteq> PENDING" "u_status u \<noteq> INACTIVE" for u
    using that by (intro wp_issue_session_opens [OF laws(1)])
      (auto simp: login_session_def new_session_loaded intro: user_status.exhaust)
  have found: "u_status (loadOriginalPassword u) = u_status u" "u_password (loadOriginalPassword u) = u_password u" for u
    by (simp_all add: loadOriginalPassword_def)
  show ?thesis
    unfolding logIn_def findByEmail_def usersRepository_findOneByEmail_def load_one_def wp_bind
    by (rule wp_db_find_one [OF laws(2)]) (simp_all add: wp found same issue)
qed

lemma answer_login_opens:
  fixes C :: "('r, 'd, 'q) container"
  assumes "redis_laws (redis_api (services_env C)) view up" "orm_laws (users_orm (services_env C)) T"
  shows "opened (services_env C) view T sid email pw req w (snd (answer C url req (UsersCall (LogIn sid email pw)) w))"
proof -
  let ?E = "services_env C" and ?O = "\<lambda>s. opened (services_env C) view T sid email pw req w (fst (fst s))"
  have "wp (services (logIn ?E sid email pw req)) (\<lambda>_. ?O) (\<lambda>_. ?O) ((w, []), in_context)"
    using wp_logIn_opens [OF assms, of sid email pw req w]
    by (simp add: wp_def services_run split: prod.splits sum.splits)
  then have "wp (UsersController_logIn ?E sid email pw req) (\<lambda>_. ?O) (\<lambda>_. ?O) ((w, []), in_context)"
    unfolding UsersController_logIn_def wp_bind
  proof (rule wp_mono)
    fix tokens and t :: "(('r, 'd, 'q) world \<times> cookie list) \<times> request_state" assume t: "?O t"
    have "obeys (in_route (sessions_kept ?E view up)) (thenE (token_cookies ?E tokens) (returnE (message_json ''Login successful'')))"
      by (intro obeys_rules)
    then show "wp (thenE (token_cookies ?E tokens) (returnE (message_json ''Login successful''))) (\<lambda>_. ?O) (\<lambda>_. ?O) t"
      by (rule wp_obeys) (use t in \<open>auto simp: in_route_def keptD [OF assms(1)] intro: opened_trans\<close>)
  qed
  then have "?O (snd (UsersController_logIn ?E sid email pw req ((w, []), in_context)))"
    by (simp add: wp_def split: prod.splits sum.splits)
  then show ?thesis
    by (cases "UsersController_logIn ?E sid email pw req ((w, []), in_context)")
      (auto simp: answer_def serve_open ep_users_login_def endpoint_def send_reply_def)
qed

section \<open>Runs\<close>

text \<open>The sessions at the end of a run: those of its start and those its logins opened.\<close>

definition session_origin ::
  "('r, 'd, 'q) env \<Rightarrow> ('r \<Rightarrow> redis_view) \<Rightarrow> ('d, user) table \<Rightarrow> ('r, 'd, 'q) world \<Rightarrow> ('r, 'd, 'q) exchange list \<Rightarrow>
   string \<Rightarrow> session \<Rightarrow> bool" where
  "session_origin E view T w xs sid s \<longleftrightarrow>
     (\<exists>s0. sess view w sid = Some s0 \<and> continues s0 s) \<or>
     (\<exists>x \<in> set xs. \<exists>email pw. x_call x = UsersCall (LogIn sid email pw) \<and>
        login_session E T (x_before x) email pw (x_request x) s)"

lemma origin_later:
  assumes "session_origin E view T w xs sid s" "continues s s'" "set xs \<subseteq> set ys"
  shows "session_origin E view T w ys sid s'"
  using assms continues_trans unfolding session_origin_def login_session_def by blast

lemma run_sessions:
  assumes laws: "redis_laws (redis_api (services_env C)) view up" "orm_laws (users_orm (services_env C)) T"
    and "run C out w xs w'" and out: "\<And>w w'. out w w' \<Longrightarrow> sessions_follow view w w'"
    and "sess view w' sid = Some s"
  shows "session_origin (services_env C) view T w xs sid s"
proof -
  let ?E = "services_env C"
  let ?I = "\<lambda>xs w'. \<forall>sid s. sess view w' sid = Some s \<longrightarrow> session_origin ?E view T w xs sid s"
  have "?I xs w'"
  proof (rule kept_sessions.run_invariant [OF assms(3) refl, where view = view and up = up and I = ?I])
    show "sessions_kept ?E view up w1 w2" if "out w1 w2" for w1 w2 using out [OF that] by (simp add: sessions_kept_def)
    show "?I [] w" by (auto simp: session_origin_def intro: continues_refl)
    show "?I xs w2" if "?I xs w1" "sessions_kept ?E view up w1 w2" for xs w1 w2
      using that unfolding keptD [OF laws(1)] by (auto dest!: sessions_followD intro: origin_later)
    show "?I (xs @ [x]) w1" if "?I xs w1" for xs x w1
      using that by (auto intro!: origin_later [where ys = "xs @ [x]" and xs = xs, OF _ continues_refl])
    fix xs w1 url req c rep w2
    assume I: "?I xs w1" and c: "\<not> service_order.call_obeys (sessions_kept ?E view up) ?E req c"
      and a: "answer C url req c w1 = (rep, w2)"
    from kept_calls [OF c] obtain i email pw where c: "c = UsersCall (LogIn i email pw)" by blast
    from answer_login_opens [OF laws, of i email pw req w1 url] a have o: "opened ?E view T i email pw req w1 w2" by (simp add: c)
    show "?I (xs @ [\<lparr>x_call = c, x_request = req, x_before = w1, x_reply = rep\<rparr>]) w2" (is "\<forall>sid s. _ \<longrightarrow> session_origin _ _ _ _ ?ys _ _")
    proof (intro allI impI)
      fix sid s assume "sess view w2 sid = Some s"
      with o consider s0 where "sess view w1 sid = Some s0" "continues s0 s"
        | "sid = i" "login_session ?E T w1 email pw req s" unfolding opened_def by blast
      then show "session_origin ?E view T w ?ys sid s"
      proof cases
        case 1
        with I have "session_origin ?E view T w xs sid s0" by blast
        then show ?thesis by (rule origin_later) (use 1 in auto)
      qed (auto simp: session_origin_def c)
    qed
  qed
  with assms(5) show ?thesis by blast
qed

end
