(* ===== verification/RunProperties.thy ===== *)
theory RunProperties imports SessionOrigin ControllerProperties begin

text \<open>
  The properties of whole runs: every request that reaches a method behind a guard of users goes
  back to a login with the right password, and a session that has ended stays ended.
\<close>

section \<open>What the guards let pass\<close>

lemma wp_on_world:
  "wp (on_world m) Q F (w, r) = wp m (\<lambda>a w'. Q a (w', r)) (\<lambda>e w'. F e (w', r)) w"
  by (simp add: on_world_def wp_zoom)

text \<open>The token of a request, where the guard of the endpoint looks for it.\<close>

definition guard_token :: "guard \<Rightarrow> request \<Rightarrow> string option" where
  "guard_token g req = (case g of
       AuthGuard \<Rightarrow> extractToken req
     | MicroserviceGuard \<Rightarrow> (case extractBearer req of Inr token \<Rightarrow> Some token | Inl e \<Rightarrow> None)
     | _ \<Rightarrow> None)"

definition admitted ::
  "('r, 'd, 'q) env \<Rightarrow> ('r \<Rightarrow> redis_view) \<Rightarrow> endpoint \<Rightarrow> request \<Rightarrow> ('r, 'd, 'q) world \<Rightarrow> request_state \<Rightarrow> bool" where
  "admitted E view ep req w r \<longleftrightarrow>
     (\<exists>token p s. guard_token (ep_guard ep) req = Some token \<and> payload_of E token AuthToken (w_now w) = Inr p \<and>
        sess view w (session_id_of p token) = Some s \<and> s_active s \<and> Some (s_email s) = pl_email p \<and>
        (ep_guard ep = AuthGuard \<longrightarrow> sameSubnetCheck (s_ip s) (getClientIp req)) \<and>
        r = \<lparr>rs_user = Some (auth_user_of s (session_id_of p token)),
             rs_store = Some (Some (auth_user_of s (session_id_of p token)))\<rparr>)"

lemma wp_check_session:
  assumes "redis_laws (redis_api E) view up"
    and "\<And>s. sess view w (session_id_of p token) = Some s \<Longrightarrow> s_active s \<Longrightarrow> Some (s_email s) = pl_email p \<Longrightarrow> Q s w"
  shows "wp (check_session E p token) Q (\<lambda>_ _. True) w"
  unfolding check_session_def wp_bind
  by (rule wp_read_session [OF assms(1)]) (auto simp: wp intro: assms(2) split: option.splits)

lemma wp_set_request_user:
  assumes "rs_store r \<noteq> None" "Q () (w, r\<lparr>rs_user := Some u, rs_store := Some (Some u)\<rparr>)"
  shows "wp (set_request_user u) Q F (w, r)"
  using assms by (auto simp: wp_def set_request_user_run)

lemma authGuard_passes:
  assumes "redis_laws (redis_api E) view up" "ep_guard ep = AuthGuard"
  shows "wp (run_guard E ep req) (\<lambda>_ (w', r'). admitted E view ep req w r') (\<lambda>_ _. True) (w, in_context)"
proof (cases "extractToken req")
  case (Some token)
  show ?thesis
  proof (cases "token = ''''")
    case False
    have dyn: "wp (on_world m) (\<lambda>_. wp (returnE True) (\<lambda>_ (w', r'). admitted E view ep req w r') (\<lambda>_ _. True)) (\<lambda>_ _. True) (w, r)"
      if "admitted E view ep req w r" for r and m :: "('a, 'b, 'c, unit) service"
      unfolding wp_on_world wp_return by (rule run_wp) (simp_all add: that)
    show ?thesis
      unfolding run_guard_def authGuard_def assms(2) guard.case Some option.case if_not_P [OF False] wp_bind wp_on_world wp_getPayload
      by (auto simp: wp_on_world wp_bind wp_then wp_throw wp_if split: sum.split
          intro!: wp_check_session [OF assms(1)] wp_set_request_user dyn)
        (auto simp: admitted_def guard_token_def assms(2) Some in_context_def)
  qed (simp add: run_guard_def authGuard_def assms(2) Some wp)
qed (simp add: run_guard_def authGuard_def assms(2) wp)

text \<open>The key check of \<open>MicroserviceGuard\<close> may fill the caches, but it keeps the clock.\<close>

lemma keeps_now:
  "keeps w_now (on_redis m)" "keeps w_now (on_db m')"
  by (auto simp: keeps_def on_redis_def on_db_def zoomE_def split: prod.splits)

lemma keeps_now_validateApiKey: "keeps w_now (validateApiKey E k req)"
  unfolding validateApiKey_def findActiveByPlainKey_def findActiveByFingerprint_def computeHmac_def api_from_redis_def
    api_from_db_def api_backfill_def apiKeysRepository_findByFingerprint_def check_dynamic_permissions_def gate_def
    getPermissionsForEndpoint_def epr_from_redis_def epr_from_db_def epr_store_def
    rulesRepository_findByEndpointKey_def raw_get_def raw_write_def raw_exec_def
  by (intro keeps_rules keeps_now)

lemma microserviceGuard_passes:
  fixes E :: "('r, 'd, 'q) env"
  assumes "redis_laws (redis_api E) view up" "ep_guard ep = MicroserviceGuard"
  shows "wp (run_guard E ep req)
    (\<lambda>_ (w', r'). \<exists>w1. sessions_follow view w w1 \<and> w_now w1 = w_now w \<and> admitted E view ep req w1 r') (\<lambda>_ _. True) (w, in_context)"
    (is "wp _ (\<lambda>_ (w', r'). ?Q r') _ _")
proof -
  have token: "wp (validateUserToken E req) (\<lambda>_ (w', r'). ?Q r') (\<lambda>_ _. True) (w1, in_context)"
    if w1: "sessions_follow view w w1" "w_now w1 = w_now w" for w1
  proof (cases "extractBearer req")
    case (Inr t)
    have "wp (validateUserToken E req) (\<lambda>_ (w', r'). admitted E view ep req w1 r') (\<lambda>_ _. True) (w1, in_context)"
      unfolding validateUserToken_def Inr wp_bind wp_lift sum.case wp_on_world wp_getPayload
      by (auto simp: wp_on_world split: sum.split intro!: wp_check_session [OF assms(1)] wp_set_request_user)
        (auto simp: admitted_def guard_token_def assms(2) Inr in_context_def)
    then show ?thesis by (rule wp_mono) (use w1 in auto)
  qed (simp add: validateUserToken_def wp)
  have "wp (validateApiKey E (ep_key ep) req) (\<lambda>_ w1. sessions_follow view w w1 \<and> w_now w1 = w_now w) (\<lambda>_ _. True) w"
    using kept_sessions.obeys_validateApiKey [of E view up "ep_key ep" req, unfolded keptD [OF assms(1)]]
      keeps_now_validateApiKey [of E "ep_key ep" req]
    by (intro run_wp) (auto dest: obeysD keepsD)
  then have "wp (on_world (validateApiKey E (ep_key ep) req))
      (\<lambda>_. wp (thenE (validateUserToken E req) (returnE True)) (\<lambda>_ (w', r'). ?Q r') (\<lambda>_ _. True)) (\<lambda>_ _. True) (w, in_context)"
    unfolding wp_on_world by (rule wp_mono) (auto simp: wp_then wp_return intro: token)
  then show ?thesis by (simp add: run_guard_def assms(2) microserviceGuard_def wp_then)
qed

text \<open>Behind a guard of users, a reply that is no failure was made by the method for the user of an
  active session.\<close>

lemma reply_admitted:
  assumes laws: "redis_laws (redis_api E) view up" and ep: "ep_guard ep = AuthGuard \<or> ep_guard ep = MicroserviceGuard"
    and run: "serve E ep url req m w = (rep, w')" "re_body rep = Reply j"
  shows "\<exists>w1 w2 r. sessions_follow view w w1 \<and> w_now w1 = w_now w \<and> admitted E view ep req w1 r \<and>
    serve E ep url req m w = send_reply E ep url (m ((w2, []), r))"
proof -
  obtain x w2 r where g: "run_guard E ep req (w, in_context) = (x, w2, r)" by (metis prod.collapse)
  have "\<not> (\<exists>e. x = Inl e)"
  proof
    assume "\<exists>e. x = Inl e"
    with g obtain e where "run_guard E ep req (w, in_context) = (Inl e, w2, r)" by blast
    from serve_denied [OF this, of url m] run show False by (auto simp: failure_reply_def)
  qed
  then obtain b where x: "x = Inr b" by (cases x) auto
  have adm: "\<exists>w1. sessions_follow view w w1 \<and> w_now w1 = w_now w \<and> admitted E view ep req w1 r"
  proof (cases "ep_guard ep = AuthGuard")
    case True
    from wp_runR [OF authGuard_passes [OF laws True] g [unfolded x]] show ?thesis
      by (auto intro: follow_refl)
  next
    case False
    with ep have "ep_guard ep = MicroserviceGuard" by simp
    from wp_runR [OF microserviceGuard_passes [OF laws this] g [unfolded x]] show ?thesis by simp
  qed
  have "b" using g ep unfolding x run_guard_def authGuard_def microserviceGuard_def
    by (auto simp: bindE_def thenE_def returnE_def throwE_def split: prod.splits sum.splits option.splits if_splits)
  with g x have "run_guard E ep req (w, in_context) = (Inr True, w2, r)" by simp
  from serve_admitted [OF this] adm show ?thesis by blast
qed

section \<open>Who acts\<close>

text \<open>C1. Whoever acts has logged in. Start the service with no session in Redis and let it answer any
  requests, in any order, with any cookies, headers and bodies, while jobs run, time passes and
  rows change. When a request to an endpoint behind \<open>AuthGuard\<close> or \<open>MicroserviceGuard\<close> is answered
  by its method, then earlier in the run there was a login with the e-mail and the right password of
  an account that was active; the method runs as that account, and behind \<open>AuthGuard\<close> the request
  comes from the network of the login. No other request opens a session: neither a refresh, nor a
  password reset, nor a change of roles or permissions.\<close>

theorem callers_have_logged_in:
  assumes "redis_laws (redis_api (services_env C)) view up" "orm_laws (users_orm (services_env C)) T"
    and "run C (sessions_follow view) w0 xs w" "\<forall>sid. sess view w0 sid = None"
    and "ep_guard (call_endpoint c) = AuthGuard \<or> ep_guard (call_endpoint c) = MicroserviceGuard"
    and "answer C url req c w = (rep, w')" "re_body rep = Reply j"
  shows "\<exists>x \<in> set xs. \<exists>sid email pw u w2 a.
    x_call x = UsersCall (LogIn sid email pw) \<and> u \<in> rows T (w_db (x_before x)) \<and> u_email u = email \<and>
    bcrypt_compare (services_env C) pw (u_password u) \<and> u_status u = ACTIVE \<and>
    (ep_guard (call_endpoint c) = AuthGuard \<longrightarrow> sameSubnetCheck (getClientIp (x_request x)) (getClientIp req)) \<and>
    a = \<lparr>au_id = u_id u, au_person_id = u_person_id u, au_email = email, au_session_id = sid\<rparr> \<and>
    answer C url req c w =
      send_reply (services_env C) (call_endpoint c) url
        (call_method C req c ((w2, []), \<lparr>rs_user = Some a, rs_store = Some (Some a)\<rparr>))"
proof -
  let ?E = "services_env C"
  from reply_admitted [OF assms(1,5), of url req "call_method C req c" w rep w'] assms(6,7)
  obtain w1 w2 r where f: "sessions_follow view w w1" and a: "admitted ?E view (call_endpoint c) req w1 r"
    and run: "answer C url req c w = send_reply ?E (call_endpoint c) url (call_method C req c ((w2, []), r))"
    by (auto simp: answer_def)
  from a obtain p token s sid where s: "sess view w1 sid = Some s"
      "ep_guard (call_endpoint c) = AuthGuard \<longrightarrow> sameSubnetCheck (s_ip s) (getClientIp req)"
      "r = \<lparr>rs_user = Some (auth_user_of s sid), rs_store = Some (Some (auth_user_of s sid))\<rparr>"
    unfolding admitted_def by blast
  from sessions_followD [OF f s(1)] obtain s0 where s0: "sess view w sid = Some s0" "continues s0 s" by blast
  from run_sessions [OF assms(1-3) _ s0(1)] assms(4) obtain x email pw where
    x: "x \<in> set xs" "x_call x = UsersCall (LogIn sid email pw)" "login_session ?E T (x_before x) email pw (x_request x) s0"
    by (auto simp: session_origin_def)
  from x(3) obtain u where u: "u \<in> rows T (w_db (x_before x))" "u_email u = email"
      "bcrypt_compare ?E pw (u_password u)" "u_status u = ACTIVE"
      "continues (new_session ?E u (x_request x) (w_now (x_before x))) s0"
    unfolding login_session_def by blast
  from continues_trans [OF u(5) s0(2)]
  have ip: "s_ip s = getClientIp (x_request x)" and acting: "auth_user_of s sid =
      \<lparr>au_id = u_id u, au_person_id = u_person_id u, au_email = email, au_session_id = sid\<rparr>"
    by (cases s; use u(2) in \<open>simp add: continues_def new_session_def getRequestData_def auth_user_of_def\<close>)+
  show ?thesis
    by (rule bexI [OF _ x(1)], rule exI [where x = sid], rule exI [where x = email], rule exI [where x = pw],
        rule exI [where x = u], rule exI [where x = w2], rule exI [where x = "auth_user_of s sid"])
      (use x(2) u(1-4) s(2,3) run ip acting in simp)
qed

section \<open>Ended sessions\<close>

text \<open>C3. The end of a session is final. When a session has been deactivated or logged out, then
  whatever requests the service answers afterwards, unless a login draws the same identifier again,
  a token of that session is refused: by every endpoint behind \<open>AuthGuard\<close> and behind
  \<open>MicroserviceGuard\<close>, whose methods do not run, and as a refresh token by the refresh endpoint. This
  also holds while Redis fails.\<close>

theorem ended_session_stays_ended:
  assumes "redis_laws (redis_api (services_env C)) view up" "orm_laws (users_orm (services_env C)) T"
    and "run C (sessions_follow view) w xs w'" "\<forall>s. sess view w sid = Some s \<longrightarrow> \<not> s_active s"
    and "\<forall>x \<in> set xs. \<forall>email pw. x_call x \<noteq> UsersCall (LogIn sid email pw)"
    and "answer C url req c w' = (rep, w'')"
    and "(\<exists>g token p. g = ep_guard (call_endpoint c) \<and> guard_token g req = Some token \<and>
        payload_of (services_env C) token AuthToken (w_now w') = Inr p \<and> session_id_of p token = sid) \<or>
      (\<exists>rt p. c = UsersCall RefreshTokens \<and> rq_cookies req ''refresh_token'' = Some rt \<and>
        payload_of (services_env C) rt RefreshToken (w_now w') = Inr p \<and> pl_sid p = Some sid)"
  shows "\<exists>body. re_body rep = Failure body"
proof (cases "re_body rep")
  case (Reply j)
  let ?E = "services_env C"
  have ended: "\<not> s_active s" if "sess view w' sid = Some s" for s
    using run_sessions [OF assms(1-3) _ that] assms(4,5) by (auto simp: session_origin_def continues_def)
  from assms(7) show ?thesis
  proof (elim disjE exE conjE)
    fix g token p assume g: "g = ep_guard (call_endpoint c)" "guard_token g req = Some token"
      and p: "payload_of ?E token AuthToken (w_now w') = Inr p" "session_id_of p token = sid"
    from g have "ep_guard (call_endpoint c) = AuthGuard \<or> ep_guard (call_endpoint c) = MicroserviceGuard"
      by (auto simp: guard_token_def split: guard.splits)
    from reply_admitted [OF assms(1) this, of url req "call_method C req c" w' rep w''] assms(6) Reply
    obtain w1 r where f: "sessions_follow view w' w1" "w_now w1 = w_now w'"
      "admitted ?E view (call_endpoint c) req w1 r"
      by (auto simp: answer_def)
    with g p obtain s where "sess view w1 sid = Some s" "s_active s" by (auto simp: admitted_def)
    with sessions_followD [OF f(1)] ended show ?thesis by (fastforce simp: continues_def)
  next
    fix rt p assume c: "c = UsersCall RefreshTokens" "rq_cookies req ''refresh_token'' = Some rt"
      and p: "payload_of ?E rt RefreshToken (w_now w') = Inr p" "pl_sid p = Some sid"
    have "wp (refresh_check ?E rt) (\<lambda>_ _. False) (\<lambda>_ _. True) w'"
      by (rule wp_mono [OF wp_refresh_check [OF assms(1)]]) (use p ended in auto)
    then obtain e w1 where "refresh_check ?E rt w' = (Inl e, w1)"
      by (auto simp: wp_def split: prod.splits sum.splits)
    then have "\<exists>e s. UsersController_refreshToken ?E req ((w', []), in_context) = (Inl e, s)"
      by (auto simp: UsersController_refreshToken_def c(2) throwE_def bindE_def services_run users_refreshToken_def)
    with assms(6) Reply show ?thesis
      by (auto simp: answer_def c(1) serve_open ep_users_refreshToken_def endpoint_def send_reply_def failure_reply_def
          split: prod.splits)
  qed
qed simp

section \<open>A run in memory\<close>

definition mem_container :: "(mem_redis, mem_db, email_body list) container" where
  "mem_container = \<lparr>services_env = mem_env, serializer_of = mem_serializer, metrics_conf = (\<lambda>_. None),
     metrics_registry = Inr '''', status_text = ''ok''\<rparr>"

definition world_fresh :: mem_world where
  "world_fresh = world0\<lparr>w_redis := \<lparr>m_strs = (\<lambda>_. None), m_sets = (\<lambda>_. []), m_up = True\<rparr>\<rparr>"

lemma world_fresh_ready:
  "guard_ready mem_env mem_view m_up mem_rules world_fresh" "users_ready mem_env mem_users world_fresh"
  "sess mem_view world_fresh sid = None" "w_now world_fresh = 0" "w_db world_fresh = db0"
proof -
  have view: "val (mem_view (w_redis world_fresh)) k = None" for k
    by (simp add: world_fresh_def val_mem_view)
  have "epr_cached (mem_env, mem_view, m_up, mem_rules) world_fresh = (\<lambda>_. None)"
    by (rule ext) (simp add: epr_cached_def view)
  moreover have "epr_ready (mem_env, mem_view, m_up, mem_rules) world_fresh"
    using world0_epr_ready by (simp add: epr_ready_def world_fresh_def)
  ultimately show "guard_ready mem_env mem_view m_up mem_rules world_fresh"
    by (simp add: guard_ready_def epr_cache.coherent_def sessions_wf_def view)
  show "sess mem_view world_fresh sid = None" by (simp add: session_at_def view)
  show "users_ready mem_env mem_users world_fresh" unfolding world_fresh_def by simp
  show "w_now world_fresh = 0" "w_db world_fresh = db0" by (simp_all add: world_fresh_def world0_def)
qed

lemma fresh_login: "\<exists>tk w1. logIn mem_env ''s9'' ''ana'' ''pw'' request0 world_fresh = (Inr tk, w1) \<and> w_now w1 = 0"
proof -
  note ready = world_fresh_ready
  have u: "user_ana \<in> rows mem_users (w_db world_fresh)" using world0_ana(1) by (simp add: ready(5) world0_def)
  have "logIn mem_env ''s9'' ''ana'' ''pw'' request0 world_fresh =
      issue_session mem_env ''s9'' (loadOriginalPassword user_ana) request0 world_fresh"
    using logIn_run(1) [OF ready(2) u world0_ana(2), of "''s9''" "''pw''" request0] world0_ana(4)
    by (simp add: mem_env_def user_ana_def)
  moreover have "wp (issue_session mem_env ''s9'' (loadOriginalPassword user_ana) request0) (\<lambda>_ w1. w_now w1 = 0) (\<lambda>_ _. False) world_fresh"
    by (rule wp_issue_session [OF guard_readyD(3) [OF ready(1)] mem_jwt_laws mem_ttl]) (simp_all add: ready(4) mem_signing)
  ultimately have "wp (logIn mem_env ''s9'' ''ana'' ''pw'' request0) (\<lambda>_ w1. w_now w1 = 0) (\<lambda>_ _. False) world_fresh"
    by (simp add: wp_def)
  from wp_returns [OF this] show ?thesis by blast
qed

theorem callers_have_logged_in_witness:
  "\<exists>rep1 w1 req2 rep2 w2 a w3 j.
     answer mem_container ''/users/login'' request0 (UsersCall (LogIn ''s9'' ''ana'' ''pw'')) world_fresh = (rep1, w1) \<and>
     answer mem_container ''/users/all'' req2 (UsersCall (FindUsers PaginationQueryDto)) w1 = (rep2, w2) \<and>
     re_body rep2 = Reply j \<and> au_id a = ''u1'' \<and> au_session_id a = ''s9'' \<and>
     (rep2, w2) = send_reply mem_env ep_users_findAll ''/users/all'' (UsersController_findAll mem_env mem_serializer
       PaginationQueryDto ((w3, []), \<lparr>rs_user = Some a, rs_store = Some (Some a)\<rparr>))"
proof -
  let ?C = mem_container and ?q = PaginationQueryDto
  note ready = world_fresh_ready
  obtain tk w1 where l: "logIn mem_env ''s9'' ''ana'' ''pw'' request0 world_fresh = (Inr tk, w1)" "w_now w1 = 0"
    using fresh_login by blast
  obtain rep1 where a1: "answer ?C ''/users/login'' request0 (UsersCall (LogIn ''s9'' ''ana'' ''pw'')) world_fresh = (rep1, w1)"
    using mem_cookie_options
    by (auto simp: answer_def mem_container_def serve_open ep_users_login_def endpoint_def UsersController_logIn_def
        bindE_def thenE_def services_run l(1) token_cookies_run returnE_def send_reply_def)
  define req2 where "req2 = \<lparr>rq_headers = (\<lambda>_. None), rq_cookies = [''auth_token'' \<mapsto> t_accessToken tk],
    rq_ip = Some ''10.0.0.77'', rq_remoteAddress = None\<rparr>"
  have ip: "getClientIp request0 = ''10.0.0.9''" "getClientIp req2 = ''10.0.0.77''"
    by (simp_all add: getClientIp_def forwarded_for_def request0_def req2_def or_else_def Let_def starts_with_def)
  have subnet: "sameSubnetCheck (getClientIp request0) (getClientIp req2)" unfolding ip by code_simp
  have rule: "\<forall>u \<in> rows mem_users (w_db world_fresh). u_email u = ''ana'' \<longrightarrow>
      endpoint_open mem_rules (w_db world_fresh) (Some ''users.find'') (user_permissionCodes u)"
    by (auto simp: ready(5) endpoint_open_def mem_tables world0_defs admits_def
        epr_permissionCodes_def user_permissionCodes_def)
  have t: "w_now w1 div 1000 < token_exp mem_env (token_expiresIn mem_env AuthToken) (w_now world_fresh)"
    "0 < token_exp mem_env (token_expiresIn mem_env AuthToken) (w_now world_fresh)" by (simp_all add: l(2) ready(4) mem_exp)
  have cookie: "extractToken req2 = Some (t_accessToken tk)" by (simp add: extractToken_def req2_def)
  note leaves = login_leaves [OF ready(1,2) mem_jwt_laws mem_ttl l(1)]
  have texts: "''ana'' \<noteq> ''''" "''s9'' \<noteq> ''''" by simp_all
  obtain w2 r where g: "authGuard mem_env (Some ''users.find'') req2 (w1, in_context) = (Inr True, w2, r)" "w_db w2 = db0"
    using login_opens_guard [OF ready(1,2) mem_jwt_laws mem_ttl l(1) texts t cookie subnet rule in_context_store(1)
        leaves(1,2) refl]
    unfolding ready(5) by blast
  have "ep_guard ep_users_findAll = AuthGuard" "ep_key ep_users_findAll = Some ''users.find''"
    by (simp_all add: ep_users_findAll_def endpoint_def)
  with g(1) have adm: "run_guard mem_env ep_users_findAll req2 (w1, in_context) = (Inr True, w2, r)"
    by (simp only: run_guard_def guard.case)
  have q: "1 \<le> q_page ?q" "1 \<le> q_limit ?q" by (simp_all add: PaginationQueryDto_def)
  obtain p where "users_findAll mem_env ?q w2 = (Inr p, w2)"
    using user_pages.findAll_page [OF world0_users_listing [OF g(2)] q] by simp
  then obtain j rep2 where a2: "answer ?C ''/users/all'' req2 (UsersCall (FindUsers ?q)) w1 = (rep2, w2)" "re_body rep2 = Reply j"
    by (auto simp: answer_def mem_container_def serve_admitted [OF adm] UsersController_findAll_def bindE_def services_run
        returnE_def send_reply_def)
  let ?x = "\<lparr>x_call = UsersCall (LogIn ''s9'' ''ana'' ''pw''), x_request = request0, x_before = world_fresh, x_reply = rep1\<rparr>"
  have run: "run ?C (sessions_follow mem_view) world_fresh ([] @ [?x]) w1" by (rule run_request [OF run_start a1])
  have laws: "redis_laws (redis_api (services_env ?C)) mem_view m_up" "orm_laws (users_orm (services_env ?C)) mem_users"
    by (simp_all add: mem_container_def mem_env_laws mem_redis_laws)
  have ep: "ep_guard (call_endpoint (UsersCall (FindUsers ?q))) = AuthGuard" by (simp add: ep_users_findAll_def endpoint_def)
  from callers_have_logged_in [OF laws run _ disjI1 [OF ep] a2] ready(3)
  obtain u a w3 where u: "u \<in> rows mem_users db0" "u_email u = ''ana''"
    "a = \<lparr>au_id = u_id u, au_person_id = u_person_id u, au_email = ''ana'', au_session_id = ''s9''\<rparr>"
    "answer ?C ''/users/all'' req2 (UsersCall (FindUsers ?q)) w1 =
      send_reply (services_env ?C) (call_endpoint (UsersCall (FindUsers ?q))) ''/users/all''
        (call_method ?C req2 (UsersCall (FindUsers ?q)) ((w3, []), \<lparr>rs_user = Some a, rs_store = Some (Some a)\<rparr>))"
    by (auto simp: ready(5))
  have "u_id u = ''u1''" using u(1,2) by (auto simp: mem_tables world0_defs)
  with u(3,4) a1 a2 show ?thesis
    by (intro exI [where x = rep1] exI [where x = w1] exI [where x = req2] exI [where x = rep2] exI [where x = w2]
        exI [where x = a] exI [where x = w3] exI [where x = j]) (simp add: mem_container_def)
qed

text \<open>Ana logs out, the status page is asked for, and her token no longer lists the users.\<close>

theorem ended_session_stays_ended_witness:
  "\<exists>w1 rep1 w2 rep2 w3 body. logOut mem_env auth_ana world0 = (Inr ''Logged out successfully'', w1) \<and>
     answer mem_container ''/'' request0 StatusCall w1 = (rep1, w2) \<and>
     answer mem_container ''/users/all'' request_ana (UsersCall (FindUsers PaginationQueryDto)) w2 = (rep2, w3) \<and>
     re_body rep2 = Failure body"
proof -
  let ?C = mem_container and ?c = "UsersCall (FindUsers PaginationQueryDto)"
  obtain r where l: "logOut mem_env auth_ana world0 = (Inr ''Logged out successfully'', world0\<lparr>w_redis := r\<rparr>)"
      "mem_view r = exec_all [DEL (session_key (au_session_id auth_ana)),
         SREM (user_index (au_id auth_ana)) (au_session_id auth_ana)] (mem_view (w_redis world0))"
    using logOut_run [OF world0_session_ready, of auth_ana] by blast
  let ?w = "world0\<lparr>w_redis := r\<rparr>"
  have gone: "\<forall>s. sess mem_view ?w ''s1'' = Some s \<longrightarrow> \<not> s_active s" by (simp add: l(2) auth_ana_def)
  obtain rep1 where a1: "answer ?C ''/'' request0 StatusCall ?w = (rep1, ?w)"
    by (auto simp: answer_def serve_open ep_status_def endpoint_def AppController_status_def returnE_def send_reply_def)
  obtain rep2 w3 where a2: "answer ?C ''/users/all'' request_ana ?c ?w = (rep2, w3)" by fastforce
  let ?x = "\<lparr>x_call = StatusCall, x_request = request0, x_before = ?w, x_reply = rep1\<rparr>"
  have run: "run ?C (sessions_follow mem_view) ?w ([] @ [?x]) ?w" by (rule run_request [OF run_start a1])
  have laws: "redis_laws (redis_api (services_env ?C)) mem_view m_up" "orm_laws (users_orm (services_env ?C)) mem_users"
    by (simp_all add: mem_container_def mem_env_laws mem_redis_laws)
  have calls: "\<forall>x \<in> set ([] @ [?x]). \<forall>email pw. x_call x \<noteq> UsersCall (LogIn ''s1'' email pw)" by simp
  have "ep_guard (call_endpoint ?c) = AuthGuard" by (simp add: ep_users_findAll_def endpoint_def)
  then have tok: "guard_token (ep_guard (call_endpoint ?c)) request_ana = Some access_ana"
    by (simp only: guard_token_def guard.case access_ana_token(2))
  have p: "payload_of (services_env ?C) access_ana AuthToken (w_now ?w) = Inr (signed_claims (''ana'', ''s1'') 3600)"
    using access_ana_payload by (simp add: mem_container_def world0_now)
  have sid: "session_id_of (signed_claims (''ana'', ''s1'') 3600) access_ana = ''s1''"
    by (simp add: session_id_of_def signed_claims_def)
  have token: "(\<exists>g token p. g = ep_guard (call_endpoint ?c) \<and> guard_token g request_ana = Some token \<and>
        payload_of (services_env ?C) token AuthToken (w_now ?w) = Inr p \<and> session_id_of p token = ''s1'') \<or>
      (\<exists>rt p. ?c = UsersCall RefreshTokens \<and> rq_cookies request_ana ''refresh_token'' = Some rt \<and>
        payload_of (services_env ?C) rt RefreshToken (w_now ?w) = Inr p \<and> pl_sid p = Some ''s1'')"
    by (rule disjI1, intro exI conjI) (rule refl tok p sid)+
  from ended_session_stays_ended [OF laws run gone calls a2 token] l(1) a1 a2 show ?thesis by blast
qed


section \<open>Addresses without dots\<close>

text \<open>C31. Clients with an IPv6 address are locked out. \<open>AuthGuard\<close> compares the address of a session with
  that of the request octet by octet; an address that has no dots fits no address, not even itself.
  A user who logged in from such an address keeps a session, and from then on, whatever requests the
  service answers, every endpoint behind \<open>AuthGuard\<close> refuses the tokens of the session, from the
  address of the login as from any other: \<open>getClientIp\<close> maps only the loopback address and IPv4
  addresses in IPv6 form.\<close>

theorem ipv6_sessions_locked_out:
  assumes "redis_laws (redis_api (services_env C)) view up" "orm_laws (users_orm (services_env C)) T"
    and "run C (sessions_follow view) w xs w'" "\<forall>s. sess view w sid = Some s \<longrightarrow> dot_free (s_ip s)"
    and "\<forall>x \<in> set xs. \<forall>email pw. x_call x = UsersCall (LogIn sid email pw) \<longrightarrow> dot_free (getClientIp (x_request x))"
    and "ep_guard (call_endpoint c) = AuthGuard" "extractToken req = Some token"
    and "payload_of (services_env C) token AuthToken (w_now w') = Inr p" "session_id_of p token = sid"
    and "answer C url req c w' = (rep, w'')"
  shows "\<exists>body. re_body rep = Failure body"
proof (cases "re_body rep")
  case (Reply j)
  let ?E = "services_env C"
  have dotless: "dot_free (s_ip s)" if "sess view w' sid = Some s" for s
  proof -
    from run_sessions [OF assms(1-3) _ that] consider s0 where "sess view w sid = Some s0" "continues s0 s"
      | x email pw where "x \<in> set xs" "x_call x = UsersCall (LogIn sid email pw)"
          "login_session ?E T (x_before x) email pw (x_request x) s"
      by (auto simp: session_origin_def)
    then show ?thesis
    proof cases
      case 1
      moreover from \<open>continues s0 s\<close> have "s_ip s = s_ip s0" by (cases s; cases s0) (simp add: continues_def)
      ultimately show ?thesis using assms(4) by simp
    next
      case 2
      then have "s_ip s = getClientIp (x_request x)"
        by (cases s) (auto simp: login_session_def continues_def new_session_def getRequestData_def)
      with 2 assms(5) show ?thesis by simp
    qed
  qed
  from reply_admitted [OF assms(1) disjI1 [OF assms(6)], of url req "call_method C req c" w' rep w''] assms(10) Reply
  obtain w1 r where f: "sessions_follow view w' w1" "w_now w1 = w_now w'" "admitted ?E view (call_endpoint c) req w1 r"
    by (auto simp: answer_def)
  with assms(6-9) obtain s where s: "sess view w1 sid = Some s" "sameSubnetCheck (s_ip s) (getClientIp req)"
    by (auto simp: admitted_def guard_token_def)
  from sessions_followD [OF f(1) s(1)] obtain s' where "sess view w' sid = Some s'" "continues s' s" by blast
  with dotless have "dot_free (s_ip s)" by (cases s; cases s') (fastforce simp: continues_def)
  with s(2) sameSubnetCheck_no_dot show ?thesis by blast
qed simp

text \<open>Ana's session, had she logged in from \<open>2001:db8::1\<close>: from that address she cannot list the users.\<close>

theorem ipv6_sessions_locked_out_witness:
  "\<exists>w req rep w'. sess mem_view w ''s1'' = Some (session_ana\<lparr>s_ip := ''2001:db8::1''\<rparr>) \<and>
     getClientIp req = ''2001:db8::1'' \<and> extractToken req = Some access_ana \<and>
     answer mem_container ''/users/all'' req (UsersCall (FindUsers PaginationQueryDto)) w = (rep, w') \<and>
     (\<exists>body. re_body rep = Failure body)"
proof -
  let ?C = mem_container and ?c = "UsersCall (FindUsers PaginationQueryDto)" and ?s = "session_ana\<lparr>s_ip := ''2001:db8::1''\<rparr>"
  let ?w = "world0\<lparr>w_redis := mem_cmd (SET (session_key ''s1'') (SessionDoc ?s) NO_OPTION) redis0\<rparr>"
  define req where "req = \<lparr>rq_headers = (\<lambda>_. None), rq_cookies = [''auth_token'' \<mapsto> access_ana],
    rq_ip = Some ''2001:db8::1'', rq_remoteAddress = None\<rparr>"
  have s: "sess mem_view ?w ''s1'' = Some ?s" by (simp add: session_at_def val_mem_view)
  have dots: "\<forall>s. sess mem_view ?w ''s1'' = Some s \<longrightarrow> dot_free (s_ip s)" unfolding s by (simp add: dot_free_def)
  have ip: "getClientIp req = ''2001:db8::1''"
    by (simp add: getClientIp_def forwarded_for_def req_def or_else_def Let_def starts_with_def)
  have tok: "extractToken req = Some access_ana" by (simp add: extractToken_def req_def)
  obtain rep w' where a: "answer ?C ''/users/all'' req ?c ?w = (rep, w')" by fastforce
  have laws: "redis_laws (redis_api (services_env ?C)) mem_view m_up" "orm_laws (users_orm (services_env ?C)) mem_users"
    by (simp_all add: mem_container_def mem_env_laws mem_redis_laws)
  have g: "ep_guard (call_endpoint ?c) = AuthGuard" by (simp add: ep_users_findAll_def endpoint_def)
  have p: "payload_of (services_env ?C) access_ana AuthToken (w_now ?w) = Inr (signed_claims (''ana'', ''s1'') 3600)"
    using access_ana_payload by (simp add: mem_container_def world0_now)
  have sid: "session_id_of (signed_claims (''ana'', ''s1'') 3600) access_ana = ''s1''"
    by (simp add: session_id_of_def signed_claims_def)
  have none: "\<forall>x \<in> set ([] :: (mem_redis, mem_db, email_body list) exchange list). \<forall>email pw.
      x_call x = UsersCall (LogIn ''s1'' email pw) \<longrightarrow> dot_free (getClientIp (x_request x))" by simp
  from ipv6_sessions_locked_out [OF laws run_start dots none g tok p sid a] s ip tok a show ?thesis by blast
qed

end
