(* ===== verification/PasswordProperties.thy ===== *)
theory PasswordProperties imports PasswordOrigin RunProperties UserProperties begin

text \<open>
  Who can set a password: over whole runs, a stored password other than those of the start was set
  by a registration, by the first activation of the account, or through a link mailed to its address.
\<close>

lemma run_origins:
  assumes laws: "account_laws (services_env C) view up T" and run: "run C (passwords_follow view T) w xs w'"
    and start: "'''' \<notin> fst ` passwords T (w_db w)" "reset_links (view (w_redis w)) = {}"
  shows "origins (services_env C) view T w xs w'"
proof (rule kept_passwords.run_invariant [OF run refl, where view = view and up = up and T = T])
  let ?E = "services_env C"
  show "passwords_kept ?E view up T w1 w2" if "passwords_follow view T w1 w2" for w1 w2
    using that by (simp add: passwords_kept_def)
  show "origins ?E view T w [] w"
    using start by (simp add: origins_def password_origin_def)
  show "origins ?E view T w xs w2" if "origins ?E view T w xs w1" "passwords_kept ?E view up T w1 w2" for xs w1 w2
    using that unfolding passwords_keptD [OF laws] by (blast intro: origins_adds)
  show "origins ?E view T w (xs @ [x]) w1" if "origins ?E view T w xs w1" for xs x w1
    using that by (rule origins_more)
qed (rule call_adds [OF laws])

text \<open>C2. Every password has an owner. Start the service with no reset link in Redis and let it answer
  any requests while jobs run, links expire, and rows change but for their passwords. An account
  whose stored password is not one it had at the start was registered with it, or the first
  activation of the pending account set it, by someone who knew the password before, or it was
  reset with a link that an earlier request drew for the address of that account. Nothing else sets
  a password: no login, no edit of roles, no activation, no refresh. This also holds while the
  database, Redis or the mail queue fail.\<close>

theorem passwords_have_owners:
  assumes "account_laws (services_env C) view up T" "run C (passwords_follow view T) w xs w'"
    and "\<forall>v \<in> rows T (w_db w). u_id v \<noteq> ''''" "reset_links (view (w_redis w)) = {}" "u \<in> rows T (w_db w')"
  shows "(\<exists>v \<in> rows T (w_db w). u_id v = u_id u \<and> u_email v = u_email u \<and> u_password v = u_password u) \<or>
    (\<exists>ys x zs. xs = ys @ x # zs \<and>
      ((\<exists>pw dto. x_call x = UsersCall (Register pw dto) \<and> dto_email dto = u_email u \<and>
          u_password u = stored_password (services_env C) pw) \<or>
       (\<exists>pw new. x_call x = UsersCall (FirstActivation (u_email u) pw new) \<and>
          u_password u = stored_password (services_env C) new \<and>
          (\<exists>v \<in> rows T (w_db (x_before x)). u_id v = u_id u \<and> u_email v = u_email u \<and> u_status v = PENDING \<and>
             bcrypt_compare (services_env C) pw (u_password v))) \<or>
       (\<exists>token new. x_call x = UsersCall (ResetPassword token new) \<and>
          u_password u = stored_password (services_env C) new \<and>
          (\<exists>y \<in> set ys. \<exists>v \<in> rows T (w_db (x_before y)).
             x_call y = UsersCall (ForgotPassword token (u_email v)) \<and> u_id v = u_id u))))"
proof -
  let ?E = "services_env C" and ?k = "(u_id u, u_email u, u_password u)"
  have "'''' \<notin> fst ` passwords T (w_db w)" using assms(3) by (auto simp: passwords_def)
  from run_origins [OF assms(1,2) this assms(4)] assms(5) have "password_origin ?E T w xs ?k"
    by (auto simp: origins_def passwords_def)
  then consider "?k \<in> passwords T (w_db w)" | ys x zs where "xs = ys @ x # zs" "sets_password ?E T ys x ?k"
    unfolding password_origin_def by blast
  then show ?thesis
  proof cases
    case 1
    then show ?thesis by (auto simp: passwords_def)
  next
    case 2
    show ?thesis
      by (rule disjI2, intro exI conjI, rule 2(1))
        (use 2(2) in \<open>auto simp: sets_password_def activated_def link_asked_def linked_def split: call.splits users_call.splits\<close>, blast)
  qed
qed

lemma mem_account_laws: "account_laws mem_env mem_view m_up mem_users"
proof -
  have "tables_apart mem_env mem_users"
    by (simp add: tables_apart_def obeys_def columns_def mem_users_def mem_table_def mem_env_def mem_orm_def Let_def)
  moreover have "users_table mem_users" using world0_users_ready by (simp add: users_ready_def)
  ultimately show ?thesis by (simp add: account_laws_def mem_env_laws mem_redis_laws mem_tx_laws)
qed

text \<open>Ana asks for a link and resets her password with it.\<close>

lemma mem_reset_answers:
  "\<exists>rep1 w1 rep2 w2 u. answer mem_container ''/'' request0 (UsersCall (ForgotPassword ''t1'' ''ana'')) world0 = (rep1, w1) \<and>
     answer mem_container ''/'' request0 (UsersCall (ResetPassword ''t1'' ''fresh'')) w1 = (rep2, w2) \<and>
     u \<in> rows mem_users (w_db w2) \<and> u_id u = ''u1'' \<and> u_password u = ''hash:fresh''"
proof -
  let ?C = mem_container and ?f = "UsersCall (ForgotPassword ''t1'' ''ana'')" and ?r = "UsersCall (ResetPassword ''t1'' ''fresh'')"
  have redis: "redis_laws (redis_api mem_env) mem_view m_up" by (simp add: mem_redis_laws)
  have E: "services_env ?C = mem_env" by (simp add: mem_container_def)
  obtain m w1 where f: "forgotPassword mem_env ''t1'' (u_email user_ana) world0 = (Inr m, w1)" "w_db w1 = db0"
    "m_up (w_redis w1)" "val (mem_view (w_redis w1)) (reset_key ''t1'') = Some (ResetDoc \<lparr>rp_id = ''u1''\<rparr>)"
    using mem_forgot world0_ana(2) by auto
  obtain m2 w2 where r: "resetPassword mem_env ''t1'' ''fresh'' w1 = (Inr m2, w2)" using mem_reset [OF f(2,3,4)] by blast
  have ready1: "users_ready mem_env mem_users w1" using world0_users_ready f(2) by (simp add: users_ready_def world0_defs)
  have "wp (resetPassword mem_env ''t1'' ''fresh'')
      (\<lambda>_ w2. \<exists>u \<in> rows mem_users (w_db w2). u_id u = ''u1'' \<and> u_password u = ''hash:fresh'') (\<lambda>_ _. True) w1"
  proof (rule wp_resetPassword [OF ready1 redis], goal_cases)
    case (1 p v w')
    have v: "u_id v = ''u1''" "u_password v \<noteq> ''fresh''"
      using 1(1-3) f(2,4) by (auto simp: mem_tables world0_defs)
    from 1(5) v show ?case
      by (auto simp: saved_rows_def hashPasswordOnUpdate_def mem_env_def)
  qed simp
  from wp_runR [OF this r] obtain u where
    u: "u \<in> rows mem_users (w_db w2)" "u_id u = ''u1''" "u_password u = ''hash:fresh''" by blast
  obtain rep1 where a1: "answer ?C ''/'' request0 ?f world0 = (rep1, w1)"
    using f(1) world0_ana(2) by (simp add: answer_def E serve_open ep_users_forgotPassword_def endpoint_def
        UsersController_forgotPassword_def bindE_def services_run returnE_def send_reply_def)
  obtain rep2 where a2: "answer ?C ''/'' request0 ?r w1 = (rep2, w2)"
    using r by (simp add: answer_def E serve_open ep_users_resetPassword_def endpoint_def
        UsersController_resetPassword_def bindE_def services_run returnE_def send_reply_def)
  from a1 a2 u show ?thesis by blast
qed

text \<open>Her new password is in the database, and the request for the link, for her address, is in the run.\<close>

theorem passwords_have_owners_witness:
  "\<exists>rep1 w1 rep2 w2 u. answer mem_container ''/'' request0 (UsersCall (ForgotPassword ''t1'' ''ana'')) world0 = (rep1, w1) \<and>
     answer mem_container ''/'' request0 (UsersCall (ResetPassword ''t1'' ''fresh'')) w1 = (rep2, w2) \<and>
     u \<in> rows mem_users (w_db w2) \<and> u_id u = ''u1'' \<and> u_password u = ''hash:fresh'' \<and>
     (\<exists>v \<in> rows mem_users (w_db world0). u_email v = ''ana'' \<and> u_id v = u_id u)"
proof -
  let ?C = mem_container and ?f = "UsersCall (ForgotPassword ''t1'' ''ana'')" and ?r = "UsersCall (ResetPassword ''t1'' ''fresh'')"
  obtain rep1 w1 rep2 w2 u where a1: "answer ?C ''/'' request0 ?f world0 = (rep1, w1)"
    and a2: "answer ?C ''/'' request0 ?r w1 = (rep2, w2)"
    and u: "u \<in> rows mem_users (w_db w2)" "u_id u = ''u1''" "u_password u = ''hash:fresh''"
    using mem_reset_answers by blast
  let ?x = "\<lparr>x_call = ?f, x_request = request0, x_before = world0, x_reply = rep1\<rparr>"
    and ?y = "\<lparr>x_call = ?r, x_request = request0, x_before = w1, x_reply = rep2\<rparr>"
  have run: "run ?C (passwords_follow mem_view mem_users) world0 (([] @ [?x]) @ [?y]) w2"
    by (rule run_request [OF run_request [OF run_start a1] a2])
  have laws: "account_laws (services_env ?C) mem_view m_up mem_users" by (simp add: mem_container_def mem_account_laws)
  have ids: "\<forall>v \<in> rows mem_users (w_db world0). u_id v \<noteq> ''''" using world0_users_ready by (simp add: users_ready_def)
  have links: "reset_links (mem_view (w_redis world0)) = {}"
    by (auto simp: reset_links_def val_mem_view world0_def redis0_def reset_key_def session_key_def)
  have old: "u_password v \<noteq> ''hash:fresh''" if "v \<in> rows mem_users (w_db world0)" for v
    using that by (auto simp: mem_tables world0_defs)
  from passwords_have_owners [OF laws run ids links u(1)]
  have "\<exists>v \<in> rows mem_users (w_db world0). u_email v = ''ana'' \<and> u_id v = u_id u"
    using old u(3) by (auto simp: append_eq_Cons_conv Cons_eq_append_conv)
  with a1 a2 u show ?thesis by blast
qed

end
