(* ===== verification/AccountRuns.thy ===== *)
theory AccountRuns imports PasswordProperties begin

text \<open>
  The accounts over whole runs: every operation of the service keeps the table of users sound and
  every account in it, whatever fails.
\<close>

section \<open>The order of the accounts\<close>

definition sound_users :: "('d, user) table \<Rightarrow> 'd \<Rightarrow> bool" where
  "sound_users T d \<longleftrightarrow> constraint T (rows T d) \<and> (\<forall>u \<in> rows T d. u_id u \<noteq> '''')"

definition accounts_follow :: "('d, user) table \<Rightarrow> ('r, 'd, 'q) world \<Rightarrow> ('r, 'd, 'q) world \<Rightarrow> bool" where
  "accounts_follow T w w' \<longleftrightarrow>
     (sound_users T (w_db w) \<longrightarrow> sound_users T (w_db w') \<and> accounts_kept (rows T (w_db w)) (rows T (w_db w')))"

lemma accounts_kept_refl: "accounts_kept S S"
  by (auto simp: accounts_kept_def)

lemma accounts_refl: "accounts_follow T w w"
  by (simp add: accounts_follow_def accounts_kept_refl)

lemma accounts_trans: "accounts_follow T w1 w2 \<Longrightarrow> accounts_follow T w2 w3 \<Longrightarrow> accounts_follow T w1 w3"
  unfolding accounts_follow_def using accounts_kept_trans by blast

lemma accounts_rows: "rows T (w_db w') = rows T (w_db w) \<Longrightarrow> accounts_follow T w w'"
  by (simp add: accounts_follow_def sound_users_def accounts_kept_refl)

lemma accounts_rows_after: "accounts_follow T w w' \<Longrightarrow> rows T d = rows T (w_db w) \<or> rows T d = rows T (w_db w') \<Longrightarrow>
    accounts_follow T w (w'\<lparr>w_db := d\<rparr>)"
  by (elim disjE) (simp_all add: accounts_follow_def sound_users_def accounts_kept_refl)

lemma accounts_columns:
  assumes "columns T (w_db w') = columns T (w_db w)"
  shows "accounts_follow T w w'"
proof -
  let ?f = "\<lambda>u. (u_id u, u_email u, u_person_id u, u_status u, u_password u)"
  have c: "?f ` rows T (w_db w') = ?f ` rows T (w_db w)" "constraint T (rows T (w_db w')) = constraint T (rows T (w_db w))"
    using assms by (simp_all add: columns_def)
  have same: "\<exists>v \<in> S. ?f v = ?f u" if "?f ` S = ?f ` S'" "u \<in> S'" for u S S'
    using that by (metis (mono_tags, lifting) imageE imageI)
  have "accounts_kept (rows T (w_db w)) (rows T (w_db w'))"
    unfolding accounts_kept_def using same [OF c(1)] by fastforce
  moreover have "\<forall>u \<in> rows T (w_db w'). u_id u \<noteq> ''''" if "\<forall>u \<in> rows T (w_db w). u_id u \<noteq> ''''"
    using same [OF c(1) [symmetric]] that by fastforce
  ultimately show ?thesis by (simp add: accounts_follow_def sound_users_def c(2))
qed

lemma obeys_on_table:
  assumes "spares_users T m"
  shows "obeys (accounts_follow T) (on_db m :: ('r, 'd, 'q, 'a) service)"
proof (rule obeysI)
  fix w w' :: "('r, 'd, 'q) world" and x assume "on_db m w = (x, w')"
  then obtain d where "m (w_db w) = (x, d)" "w' = w\<lparr>w_db := d\<rparr>" by (auto simp: on_db_def zoomE_def split: prod.splits)
  with obeysD [OF assms, of "w_db w"] show "accounts_follow T w w'" by (intro accounts_columns) simp
qed

lemma obeys_off_db:
  "obeys (accounts_follow T) (on_redis m)" "obeys (accounts_follow T) (on_mq m')" "obeys (accounts_follow T) (loadTemplate E file)"
  by (auto simp: obeys_def on_redis_def on_mq_def zoomE_def loadTemplate_def intro!: accounts_rows
      split: prod.splits option.splits sum.splits)

lemma accounts_transaction:
  assumes "tx_laws E T" "obeys (accounts_follow T) m"
  shows "obeys (accounts_follow T) (transaction E m)"
proof (rule obeysI)
  fix w x w' assume run: "transaction E m w = (x, w')"
  obtain y w1 where m: "m w = (y, w1)" by fastforce
  with assms(2) have a: "accounts_follow T w w1" by (rule obeysD)
  have "commit_ok T (w_db w) (w_db w1) (tx_commit E (w_db w) (w_db w1))"
    "rows T (tx_rollback E (w_db w) (w_db w1)) = rows T (w_db w)"
    using assms(1) by (simp_all add: tx_laws_def)
  with run m show "accounts_follow T w w'"
    by (auto simp: transaction_def commit_ok_def intro!: accounts_rows_after [OF a] split: prod.splits sum.splits)
qed

definition accounts_last ::
  "('r, 'd, 'q) env \<Rightarrow> ('r \<Rightarrow> redis_view) \<Rightarrow> ('r \<Rightarrow> bool) \<Rightarrow> ('d, user) table \<Rightarrow> ('r, 'd, 'q) world \<Rightarrow> ('r, 'd, 'q) world \<Rightarrow> bool" where
  "accounts_last E view up T w w' \<longleftrightarrow> (account_laws E view up T \<longrightarrow> accounts_follow T w w')"

lemma accounts_lastI:
  "(account_laws E view up T \<Longrightarrow> obeys (accounts_follow T) m) \<Longrightarrow> obeys (accounts_last E view up T) m"
  by (auto simp: obeys_def accounts_last_def)

lemma accounts_lastD: "account_laws E view up T \<Longrightarrow> accounts_last E view up T = accounts_follow T"
  by (intro ext) (simp add: accounts_last_def)

lemma obeys_table_writes:
  assumes "account_laws E view up T"
  shows "obeys (accounts_follow T) (on_db (orm_save (permissions_orm E) p))"
    "obeys (accounts_follow T) (on_db (orm_remove (permissions_orm E) p))"
    "obeys (accounts_follow T) (on_db (orm_save (roles_orm E) role))"
    "obeys (accounts_follow T) (on_db (orm_remove (roles_orm E) role))"
    "obeys (accounts_follow T) (on_db (orm_save (rules_orm E) rule))"
    "obeys (accounts_follow T) (on_db (orm_remove (rules_orm E) rule))"
    "obeys (accounts_follow T) (on_db (orm_save (api_keys_orm E) key))"
  using account_lawsD(5) [OF assms] unfolding tables_apart_def by (simp_all add: obeys_on_table)

lemma accounts_redis:
  "obeys (accounts_follow T) (raw_write E c)" "obeys (accounts_follow T) (raw_exec E cs)" "obeys (accounts_follow T) (raw_getDel E k)"
  unfolding raw_write_def raw_exec_def raw_getDel_def by (rule obeys_off_db)+

lemma accounts_session_refresh:
  assumes "redis_laws (redis_api E) view up"
  shows "obeys (accounts_follow T) (refreshSessionPermissions E i ps)"
  by (rule obeys_wpI, rule wp_refreshSessionPermissions [OF assms]) (auto intro: accounts_rows)

interpretation lasting_accounts: service_order "accounts_last E view up T" E "\<lambda>_. True"
  for E :: "('r, 'd, 'q) env" and view up T
proof unfold_locales
  let ?R = "accounts_last E view up T"
  show "?R w w" for w by (simp add: accounts_last_def accounts_refl)
  show "?R w1 w3" if "?R w1 w2" "?R w2 w3" for w1 w2 w3
    using that accounts_trans by (auto simp: accounts_last_def)
  show "obeys ?R (refreshSessionPermissions E i ps)" for i ps
    by (intro accounts_lastI accounts_session_refresh [OF account_lawsD(1)])
  show "obeys ?R (transaction E (on_db (orm_save (api_keys_orm E) key)))" for key
    by (intro accounts_lastI accounts_transaction [OF account_lawsD(4)] obeys_table_writes)
qed ((rule accounts_lastI, (erule obeys_table_writes | rule accounts_redis obeys_off_db)) | rule TrueI)+

section \<open>The operations on users\<close>

text \<open>A loaded user is saved with the identity kept and a status it may move to.\<close>

lemma wp_update_user:
  assumes laws: "account_laws E view up T" and u: "u \<in> rows T (w_db w)"
    and e: "u_id e = u_id u" "u_email e = u_email u" "u_person_id e = u_person_id u" "status_move (u_status u) (u_status e)"
    and Q: "\<And>e' w'. accounts_follow T w w' \<Longrightarrow> Q e' w'" and F: "\<And>x w'. accounts_follow T w w' \<Longrightarrow> F x w'"
  shows "wp (usersRepository_save E e) Q F w"
  unfolding usersRepository_save_def
proof (rule wp_db_save [OF account_lawsD(2) [OF laws]])
  let ?S = "rows T (w_db w)"
  fix e' d'
  assume d': "rows T d' = saved_rows T e' ?S" "ident T e' \<noteq> ''''" "constraint T ?S \<Longrightarrow> constraint T (saved_rows T e' ?S)"
    and old: "ident T (before_save E e) \<noteq> '''' \<Longrightarrow> e' = before_save E e"
  have "accounts_follow T w (w\<lparr>w_db := d'\<rparr>)"
    unfolding accounts_follow_def
  proof
    assume sound: "sound_users T (w_db w)"
    with u have id: "u_id u \<noteq> ''''" by (simp add: sound_users_def)
    with old have e': "e' = hashPasswordOnUpdate (bcrypt_hashSync E) e" by (simp add: before_save_def e account_lawsD(6) [OF laws])
    have "inj_on u_id ?S" using sound account_lawsD(3) [OF laws] by (simp add: sound_users_def users_table_def)
    moreover have "account_change ?S (insert e' {x \<in> ?S. u_id x \<noteq> u_id u})"
      by (rule change_row [OF u]) (simp_all add: e' e)
    ultimately have "accounts_kept ?S (rows T d')"
      using account_change_kept by (simp add: d'(1) saved_rows_def account_lawsD(6) [OF laws] e' e)
    moreover have "sound_users T d'"
      using sound d' by (auto simp: sound_users_def saved_rows_def account_lawsD(6) [OF laws])
    ultimately show "sound_users T (w_db (w\<lparr>w_db := d'\<rparr>)) \<and> accounts_kept ?S (rows T (w_db (w\<lparr>w_db := d'\<rparr>)))" by simp
  qed
  then show "Q e' (w\<lparr>w_db := d'\<rparr>)" by (rule Q)
next
  fix x d' assume "rows T d' = rows T (w_db w)"
  then show "F x (w\<lparr>w_db := d'\<rparr>)" by (intro F accounts_rows) simp
qed

lemma wp_insert_user:
  assumes laws: "account_laws E view up T" and e: "u_id e = ''''"
    and Q: "\<And>e' w'. accounts_follow T w w' \<Longrightarrow> Q e' w'" and F: "\<And>x w'. accounts_follow T w w' \<Longrightarrow> F x w'"
  shows "wp (usersRepository_save E e) Q F w"
  unfolding usersRepository_save_def
proof (rule wp_db_save [OF account_lawsD(2) [OF laws]])
  let ?S = "rows T (w_db w)"
  fix e' d'
  assume d': "rows T d' = saved_rows T e' ?S" "ident T e' \<noteq> ''''" "constraint T ?S \<Longrightarrow> constraint T (saved_rows T e' ?S)"
    and new: "ident T (before_save E e) = '''' \<Longrightarrow> e' = assign T (ident T e') (before_save E e) \<and> ident T e' \<notin> ident T ` ?S"
  have "u_id e' \<notin> u_id ` ?S" using new by (simp add: before_save_def e account_lawsD(6) [OF laws])
  then have "?S \<subseteq> rows T d'" by (auto simp: d'(1) saved_rows_def account_lawsD(6) [OF laws]) (metis imageI)
  then have "accounts_kept ?S (rows T d')" by (auto simp: accounts_kept_def)
  then have "accounts_follow T w (w\<lparr>w_db := d'\<rparr>)"
    using d' by (auto simp: accounts_follow_def sound_users_def saved_rows_def account_lawsD(6) [OF laws])
  then show "Q e' (w\<lparr>w_db := d'\<rparr>)" by (rule Q)
next
  fix x d' assume "rows T d' = rows T (w_db w)"
  then show "F x (w\<lparr>w_db := d'\<rparr>)" by (intro F accounts_rows) simp
qed

lemma wp_then_follow:
  assumes "obeys (accounts_follow T) m" "accounts_follow T w w1"
  shows "wp m (\<lambda>_. accounts_follow T w) (\<lambda>_. accounts_follow T w) w1"
  by (rule wp_obeys [OF assms(1)]) (rule accounts_trans [OF assms(2)])

lemma wp_update:
  assumes "account_laws E view up T" "accounts_follow T w0 w" "u \<in> rows T (w_db w)"
    "u_id e = u_id u" "u_email e = u_email u" "u_person_id e = u_person_id u" "status_move (u_status u) (u_status e)"
  shows "wp (usersRepository_save E e) (\<lambda>_. accounts_follow T w0) (\<lambda>_. accounts_follow T w0) w"
  by (rule wp_update_user [OF assms(1,3-7)]) (rule accounts_trans [OF assms(2)], assumption)+

lemma obeys_account_operations:
  fixes E :: "('r, 'd, 'q) env"
  assumes laws: "account_laws E view up T"
  shows "obeys (accounts_follow T) (users_activate E uid)" "obeys (accounts_follow T) (users_deactivate E uid)"
    "obeys (accounts_follow T) (assignRole E uid ids)" "obeys (accounts_follow T) (firstActivation E email pw new)"
    "obeys (accounts_follow T) (resetPassword E token new)"
proof -
  let ?R = "accounts_follow T"
  note orm = account_lawsD(2) [OF laws] and save = wp_update [OF laws]
  note mail = lasting_accounts.obeys_mail(3) [where E = E and view = view and up = up and T = T, unfolded accounts_lastD [OF laws]]
  show "obeys ?R (users_activate E uid)"
    unfolding users_activate_def
    by (rule obeys_wpI, unfold wp_bind, rule wp_found [OF orm]) (auto simp: wp accounts_refl status_on intro!: save)
  show "obeys ?R (users_deactivate E uid)"
    unfolding users_deactivate_def
    by (rule obeys_wpI, unfold wp_bind, rule wp_found [OF orm]) (auto simp: wp accounts_refl status_off intro!: save)
  show "obeys ?R (firstActivation E email pw new)"
    unfolding firstActivation_def findByEmail_def usersRepository_findOneByEmail_def
    by (rule obeys_wpI, unfold wp_bind, rule wp_loaded [OF orm]) (auto simp: wp accounts_refl status_first intro!: save)
  show "obeys ?R (assignRole E uid ids)"
    unfolding assignRole_def
  proof (rule obeys_wpI, unfold wp_bind, rule wp_found [OF orm])
    fix w :: "('r, 'd, 'q) world" and u assume u: "u \<in> rows T (w_db w)"
    have saved: "wp (usersRepository_save E ((loadOriginalPassword u)\<lparr>u_roles := Some roles\<rparr>)) (\<lambda>_. ?R w) (\<lambda>_. ?R w) w" for roles
      by (rule save [OF accounts_refl u]) (simp_all add: status_same)
    note refresh = wp_then_follow [OF lasting_accounts.obeys_swallow [OF lasting_accounts.session_refresh,
          where E = E and view = view and up = up and T = T, unfolded accounts_lastD [OF laws]]]
    show "wp (mapE (roles_findOne E) ids) (\<lambda>roles. wp (usersRepository_save E ((loadOriginalPassword u)\<lparr>u_roles := Some roles\<rparr>))
        (\<lambda>s. wp (thenE (swallow (refreshSessionPermissions E (u_id s) (user_permissionCodes s))) (returnE s)) (\<lambda>_. ?R w) (\<lambda>_. ?R w))
        (\<lambda>_. ?R w)) (\<lambda>_. ?R w) w"
      by (rule wp_readonly [OF readonly_mapE])
        (auto simp: accounts_refl wp_then wp_return intro!: wp_mono [OF saved] refresh)
  qed (rule accounts_refl)
  show "obeys ?R (resetPassword E token new)"
    unfolding resetPassword_def
  proof (rule obeys_wpI, unfold wp_bind, rule wp_mono [OF wp_then_follow [OF accounts_redis(3) accounts_refl]])
    fix w w1 :: "('r, 'd, 'q) world" and raw assume w1: "?R w w1"
    show "wp (liftE (parse_or_null parse_reset raw)) (\<lambda>x. wp (case x of None \<Rightarrow> throwE reset_invalid
       | Some p \<Rightarrow>
           bindE (catchE (users_findOne E (rp_id p)) (\<lambda>error.
                    if is_NotFoundException error then
                      throwE (users_exception ''Invalid or expired reset password token''
                                users_error.RESET_PASSWORD_USER_NOT_FOUND UNAUTHORIZED None)
                    else throwE error)) (\<lambda>user.
           thenE (usersRepository_save E (user\<lparr>u_password := new\<rparr>))
           (thenE (confirmPasswordChange E (u_email user))
           (returnE ''Password reset successfully'')))) (\<lambda>_. ?R w) (\<lambda>_. ?R w)) (\<lambda>_. ?R w) w1"
      by (auto simp: wp w1 status_same intro!: wp_found [OF orm] wp_mono [OF save [OF w1]] wp_then_follow [OF mail]
          split: sum.splits option.splits)
  qed
qed

lemma obeys_account_creation:
  fixes E :: "('r, 'd, 'q) env"
  assumes laws: "account_laws E view up T"
  shows "obeys (accounts_follow T) (register E pw dto creator)"
proof -
  let ?R = "accounts_follow T"
  note mail = lasting_accounts.obeys_mail(1) [where E = E and view = view and up = up and T = T, unfolded accounts_lastD [OF laws]]
  have "obeys ?R (usersRepository_save E (usersRepository_create dto roles pw creator))" for roles
    by (rule obeys_wpI, rule wp_insert_user [OF laws]) (simp_all add: usersRepository_create_def)
  then have create: "obeys (accounts_last E view up T) (usersRepository_save E (usersRepository_create dto roles pw creator))" for roles
    by (simp add: accounts_lastD [OF laws])
  have tx: "obeys (accounts_last E view up T) (transaction E m)" if "obeys (accounts_last E view up T) m" for m :: "('r, 'd, 'q, string) service"
    using that accounts_transaction [OF account_lawsD(4) [OF laws]] by (simp add: accounts_lastD [OF laws])
  have "obeys (accounts_last E view up T) (register E pw dto creator)"
    unfolding register_def by (intro obeys_rules tx create)
  then show ?thesis by (simp add: accounts_lastD [OF laws])
qed

text \<open>Every call keeps the accounts.\<close>

lemma all_calls_last: "service_order.call_obeys (accounts_last E view up T) E req c"
proof -
  let ?R = "accounts_last E view up T"
  have "obeys ?R (users_activate E uid)" "obeys ?R (users_deactivate E uid)" "obeys ?R (assignRole E uid ids)"
    "obeys ?R (firstActivation E email pw new)" "obeys ?R (resetPassword E token new)" "obeys ?R (register E pw dto creator)"
    for uid ids email pw new token dto creator
    by (rule accounts_lastI, (erule obeys_account_operations | erule obeys_account_creation))+
  moreover have "obeys ?R (logIn E sid email pw req)" "obeys ?R (users_refreshToken E rt)" "obeys ?R (deactivateSession E sid)"
    "obeys ?R (forgotPassword E token email)" for sid email pw rt token
    unfolding logIn_def issue_session_def users_refreshToken_def refresh_check_def refresh_store_def deactivateSession_def forgotPassword_def
    by (intro obeys_rules lasting_accounts.writes; simp)+
  ultimately show ?thesis
    by (simp add: lasting_accounts.call_obeys_def split: call.splits users_call.splits sessions_call.splits)
qed

section \<open>Runs\<close>

text \<open>C18. Accounts last. Whatever requests the service answers, in any order and with any outcome,
  while jobs run, dependencies fail, and whatever happens outside keeps the accounts too: no
  account disappears, none changes its identifier, address or person, an account that has been
  activated never becomes pending again, and identifiers, addresses and persons stay unique.\<close>

theorem accounts_outlive_requests:
  assumes "account_laws (services_env C) view up T" "run C (accounts_follow T) w xs w'" "sound_users T (w_db w)"
  shows "sound_users T (w_db w') \<and> inj_on u_email (rows T (w_db w')) \<and> inj_on u_person_id (rows T (w_db w')) \<and>
    (\<forall>u \<in> rows T (w_db w). \<exists>u' \<in> rows T (w_db w'). u_id u' = u_id u \<and> u_email u' = u_email u \<and>
       u_person_id u' = u_person_id u \<and> (u_status u \<noteq> PENDING \<longrightarrow> u_status u' \<noteq> PENDING))"
proof -
  have "accounts_follow T w w'"
  proof (rule lasting_accounts.run_invariant [OF assms(2) refl, where view = view and up = up and T = T and I = "\<lambda>_. accounts_follow T w"])
    show "accounts_last (services_env C) view up T w1 w2" if "accounts_follow T w1 w2" for w1 w2
      using that by (simp add: accounts_last_def)
    show "accounts_follow T w w2" if "accounts_follow T w w1" "accounts_last (services_env C) view up T w1 w2" for w1 w2
      using that accounts_trans unfolding accounts_lastD [OF assms(1)] by blast
  qed (simp_all add: accounts_refl all_calls_last)
  with assms(3) account_lawsD(3) [OF assms(1)] show ?thesis
    by (simp add: accounts_follow_def sound_users_def users_table_def accounts_kept_def)
qed

text \<open>Bob activates his account; his account and Ana's are in the table ever after.\<close>

theorem accounts_outlive_requests_witness:
  "\<exists>rep w1. answer mem_container ''/users/first-activation'' request0 (UsersCall (FirstActivation ''bob'' ''tmp'' ''new'')) world0 = (rep, w1) \<and>
     (\<exists>u \<in> rows mem_users (w_db w1). u_id u = ''u2'' \<and> u_email u = ''bob'') \<and>
     (\<exists>u \<in> rows mem_users (w_db w1). u_id u = ''u1'' \<and> u_status u \<noteq> PENDING)"
proof -
  let ?C = mem_container and ?c = "UsersCall (FirstActivation ''bob'' ''tmp'' ''new'')"
  obtain rep w1 where a: "answer ?C ''/users/first-activation'' request0 ?c world0 = (rep, w1)" by fastforce
  have run: "run ?C (accounts_follow mem_users) world0 ([] @ [\<lparr>x_call = ?c, x_request = request0, x_before = world0, x_reply = rep\<rparr>]) w1"
    by (rule run_request [OF run_start a])
  have laws: "account_laws (services_env ?C) mem_view m_up mem_users" by (simp add: mem_container_def mem_account_laws)
  have sound: "sound_users mem_users (w_db world0)" using world0_users_ready by (simp add: sound_users_def users_ready_def)
  have bob: "user_new \<in> rows mem_users (w_db world0)" "u_id user_new = ''u2''" "u_email user_new = ''bob''"
    by (simp_all add: mem_tables world0_defs)
  have last: "\<exists>u' \<in> rows mem_users (w_db w1). u_id u' = u_id u \<and> u_email u' = u_email u \<and> (u_status u \<noteq> PENDING \<longrightarrow> u_status u' \<noteq> PENDING)"
    if "u \<in> rows mem_users (w_db world0)" for u
    using accounts_outlive_requests [OF laws run sound] that by blast
  from last [OF bob(1)] last [OF world0_ana(1)] a show ?thesis
    unfolding bob world0_ana by auto
qed

end
