(* ===== verification/Support.thy ===== *)
theory Support imports Metrics begin

text \<open>
  The support code of \<open>src/src/common\<close>: what \<open>serializeError\<close> puts in the log lines, and the life of
  the Redis connection in \<open>RedisService\<close>.
\<close>

section \<open>serializeError\<close>

text \<open>What is logged of a thrown value; the text of the stack is the engine's and is left out.\<close>

datatype error_log =
  Error_Log (el_name: "string option") (el_message: string) (el_details: "http_response option")
    (el_cause: "error_log option")

text \<open>\<open>error.getResponse()\<close> of an \<open>HttpException\<close>. That of a service exception is the object its
  constructor passes on; its status code is not a part of \<open>http_response\<close>.\<close>

fun getResponse :: "exn \<Rightarrow> http_response option" where
  "getResponse (ServiceException _ m code _ _) = Some (ObjectResponse (OneMessage m) (Some code))"
| "getResponse (HttpException _ r _ _ _) = Some r"
| "getResponse _ = None"

function serializeError :: "exn \<Rightarrow> error_log" where
  "serializeError err =
     (if \<not> is_error err then Error_Log None (error_message err) None None
      else Error_Log (Some (constructor_name err)) (error_message err) (getResponse err)
        (case error_cause err of None \<Rightarrow> None | Some c \<Rightarrow> Some (serializeError c)))"
  by pat_completeness auto
termination
  by (relation "measure size") (auto dest: cause_size)

declare serializeError.simps [simp del]

text \<open>The names and messages of a log entry and the entries in it.\<close>

fun logged :: "error_log \<Rightarrow> (string option \<times> string) list" where
  "logged (Error_Log n m d c) = (n, m) # (case c of None \<Rightarrow> [] | Some l \<Rightarrow> logged l)"

lemma error_cause_error: "error_cause e = Some c \<Longrightarrow> is_error c"
  by (auto simp: error_cause_def split: option.splits if_splits)

text \<open>The log line holds the whole cause chain that the exceptions report.\<close>

lemma logged_chain:
  "is_error e \<Longrightarrow> logged (serializeError e) = List.map (\<lambda>(n, m). (Some n, m)) (getCauseChain e)"
proof (induction e rule: serializeError.induct)
  case (1 e)
  show ?case
  proof (cases "error_cause e")
    case None
    then show ?thesis using 1 by (simp add: serializeError.simps [of e] getCauseChain.simps [of e])
  next
    case (Some c)
    with 1 error_cause_error [OF Some] show ?thesis
      by (simp add: serializeError.simps [of e] getCauseChain.simps [of e])
  qed
qed

section \<open>RedisService\<close>

text \<open>The listener for errors of the connection.\<close>

definition on_redis_error :: "exn \<Rightarrow> metrics \<Rightarrow> metrics" where
  "on_redis_error err m =
     m\<lparr>dependencyErrorsTotal := count_up (''redis'', ''connection'', error_type err) (dependencyErrorsTotal m)\<rparr>"

text \<open>The state is the metrics, the client of the service when it has one, and the rest. Creating a
  client, connecting and quitting are the library's.\<close>

definition redis_onModuleInit ::
  "(string \<Rightarrow> string option) \<Rightarrow> (string \<Rightarrow> 'c) \<Rightarrow> ('c \<Rightarrow> ('s, exn, unit) io) \<Rightarrow> (metrics \<times> 'c option \<times> 's, exn, unit) io" where
  "redis_onModuleInit get createClient connect =
     (\<lambda>(m, c, s).
        let url = text_or (get ''REDIS_URL'') '''' in
        if url = '''' then (Inl (JsError ''Error'' ''Missing REDIS_URL on .env file'' None None), m, c, s)
        else recordDependencyCall ''redis'' ''connect''
               (\<lambda>(m, c, s). case connect (createClient url) s of (r, s') \<Rightarrow> (r, m, c, s'))
               (m, Some (createClient url), s))"

definition redis_onModuleDestroy :: "('c \<Rightarrow> ('s, exn, unit) io) \<Rightarrow> (metrics \<times> 'c option \<times> 's, exn, unit) io" where
  "redis_onModuleDestroy quit =
     (\<lambda>(m, c, s). case c of None \<Rightarrow> (Inr (), m, c, s)
        | Some client \<Rightarrow> (case quit client s of (r, s') \<Rightarrow> (r, m, c, s')))"

lemma redis_without_url:
  "get ''REDIS_URL'' = None \<or> get ''REDIS_URL'' = Some '''' \<Longrightarrow>
   redis_onModuleInit get createClient connect (m, c, s) =
     (Inl (JsError ''Error'' ''Missing REDIS_URL on .env file'' None None), m, c, s)"
  by (auto simp: redis_onModuleInit_def text_or_def)

text \<open>With an address the service starts exactly when the client connects; a failure is counted and
  stops the start, and the client is kept in both cases, so that it is closed at the end.\<close>

lemma redis_connects:
  assumes "get ''REDIS_URL'' = Some url" "url \<noteq> ''''" "connect (createClient url) s = (r, s')"
  shows "\<exists>m'. redis_onModuleInit get createClient connect (m, c, s) = (r, m', Some (createClient url), s') \<and>
    (\<forall>e. r = Inl e \<longrightarrow> dependencyErrorsTotal m' (''redis'', ''connect'', error_type e) =
       Suc (dependencyErrorsTotal m (''redis'', ''connect'', error_type e)))"
  using assms by (cases r) (simp_all add: redis_onModuleInit_def text_or_def recordDependencyCall_def count_up_def)

lemma redis_closes_what_it_opened:
  assumes "redis_onModuleInit get createClient connect (m, None, s) = (r, m1, c1, s1)"
  shows "redis_onModuleDestroy quit (m1, c1, s1) =
    (if text_or (get ''REDIS_URL'') '''' = '''' then (Inr (), m1, c1, s1)
     else case quit (createClient (text_or (get ''REDIS_URL'') '''')) s1 of (q, s2) \<Rightarrow> (q, m1, c1, s2))"
  using assms by (auto simp: redis_onModuleInit_def redis_onModuleDestroy_def recordDependencyCall_def Let_def
      split: prod.splits sum.splits if_splits)

end
