(* ===== verification/Spec2Isabelle.thy ===== *)
theory Spec2Isabelle
  imports EprProperties ApiKeyProperties SessionProperties UserProperties RoleProperties OutboxProperties
    ControllerProperties DtoProperties EnvValidation SeedProperties AccountRuns Support
begin

text \<open>
  A model of the authentication microservice under \<open>src/src\<close>, and the theorems that make it correct.

  \<^bold>\<open>The program.\<close> The service keeps users, roles, permissions, API keys and endpoint permission
  rules in a relational database (TypeORM), and open sessions, password-reset tokens and two
  permission caches in Redis. A request passes the middleware that opens a request context, one of
  three guards, the validation pipe, a method of a controller and, when anything throws, the
  exception filter. Guards and controllers call the services; the services call each other, the
  repositories and Redis. A subscriber of the database writes an outbox of audit events, which jobs
  publish to a broker and clean up; two hourly jobs rebuild the caches; a command seeds the database.

  \<^bold>\<open>How it is modelled.\<close> An \<open>async\<close> method is a function from a state to a result and a state,
  \<open>('s, exn, 'a) io\<close> of \<open>Prelude\<close>: \<open>Inr\<close> is the resolved value, \<open>Inl\<close> what was thrown, and the state
  at the throw is kept, as the code keeps it. \<open>await\<close> is \<open>bindE\<close>, \<open>try/catch\<close> is \<open>catchE\<close>. The
  definitions have the names of the methods, prefixed by the service where two services share one
  (\<open>roles_update\<close>, \<open>epr_update\<close>, \<open>UsersController_logIn\<close>). The world (\<open>Env\<close>) is the state of Redis,
  database and broker, the clock and the template cache. A method runs to its end before the next
  one starts, except where two requests or jobs interleave by intent: the publishers of the outbox
  (\<open>OutboxSteps\<close>), and the split operations of the two race properties (\<open>deactivation_race\<close>,
  \<open>refresh_logout_race\<close>). Times are unbounded integers of milliseconds, as no computation of the code
  comes near the exactness bound of a JavaScript number; strings are lists of characters; numbers of
  request bodies are integers (a fraction fails \<open>IsInt\<close>, which the model leaves to the library).

  \<^bold>\<open>Code outside the repository\<close> is a parameter: the records \<open>env\<close>, \<open>orm\<close>, \<open>redis_api\<close>, \<open>outbox_env\<close>,
  \<open>serializer\<close>, \<open>validation_lib\<close> and \<open>upserts\<close> hold the operations of Redis, TypeORM, the broker,
  bcrypt, HMAC, jsonwebtoken, the user-agent parser, \<open>ms\<close>, class-validator and class-transformer.
  What the code relies on is stated as documented behaviour: \<open>redis_laws\<close> (an answer is that of the
  store, a failed command has happened or not), \<open>orm_laws\<close> (finds, saves and deletions against the
  rows of a table, any of which may fail), \<open>role_query_laws\<close> (the users that a condition on their roles
  selects), \<open>collation_laws\<close>, \<open>tx_laws\<close>, \<open>jwt_laws\<close>, \<open>outbox_laws\<close> (among them what a locking query
  with a condition, an order and a limit answers),
  \<open>emit_laws\<close>, \<open>serializer_laws\<close>, \<open>number_laws\<close>, \<open>errors_laws\<close>, \<open>conversion_laws\<close>, \<open>upsert_laws\<close>,
  \<open>frame_laws\<close>. Every law is proved for an in-memory instance (\<open>Redis\<close>, \<open>Env\<close>, \<open>Container\<close>, \<open>SeedExample\<close>,
  \<open>DtoProperties\<close>, \<open>OutboxProperties\<close>), on which the witnesses run. Failing dependencies are part of
  the laws, so that theorems without a readiness hypothesis (\<open>users_ready\<close>, \<open>session_ready\<close>,
  \<open>epr_ready\<close>, \<open>api_ready\<close>, \<open>guard_ready\<close>: Redis and the database answer) hold while they fail; a
  theorem that needs them says so in its text. Services that swallow a failure of Redis have their own
  facts: roles are saved whatever Redis does (\<open>redis_blind\<close> of \<open>Frames\<close>), and a rule disabled while it is
  down stays open (\<open>disabled_rule_stays_open\<close>). When time passes, the keys of Redis age with the clock
  (\<open>elapsed\<close> of \<open>Redis\<close>, \<open>later\<close> of \<open>GuardFrames\<close>; in the runs of \<open>Runs\<close> entries expire at any moment).

  \<^bold>\<open>Theories and sources.\<close>
  \<^item> \<open>Prelude\<close>, \<open>Frames\<close>, \<open>StepOrders\<close>: computations with their weakest-precondition rules (collected in
    \<open>wp\<close>), what a computation leaves alone (\<open>keeps\<close>, \<open>keeps_rules\<close>), and what all of its runs obey
    (\<open>obeys\<close>, \<open>obeys_rules\<close>, in the locales \<open>step_order\<close> and \<open>world_order\<close>).
  \<^item> \<open>JsString\<close>, \<open>Regex\<close>: the string functions and regular expressions of JavaScript that are used.
  \<^item> \<open>Exceptions\<close> (\<open>common/exceptions\<close>, \<open>common/filters\<close>, the exception files of the services), \<open>Utils\<close>
    (\<open>common/utils\<close>), \<open>Support\<close> (\<open>logger-format.util.ts\<close>, \<open>redis.service.ts\<close>), \<open>Metrics\<close>
    (\<open>observability\<close>).
  \<^item> \<open>Entities\<close> (\<open>entities\<close>), \<open>Redis\<close>, \<open>Orm\<close>, \<open>Env\<close>: the data, the contracts of the two stores, the world.
  \<^item> \<open>Pagination\<close> (\<open>pagination.dto.ts\<close> and the \<open>findAll\<close> of the repositories, locale \<open>paged_listing\<close>),
    \<open>Permissions\<close>, \<open>Roles\<close>, \<open>Sessions\<close>, \<open>Jwt\<close>, \<open>Email\<close>, \<open>Users\<close>, \<open>Epr\<close>, \<open>ApiKeys\<close>: one theory per service of
    \<open>services\<close> and \<open>clients\<close>, with its repository and the job that reconciles its cache.
  \<^item> \<open>PermissionCache\<close>: the contract of a read-through permission cache (locale \<open>permission_cache\<close>),
    which \<open>EprCache\<close> and \<open>ApiKeys\<close> interpret on the code.
  \<^item> \<open>Guards\<close> (\<open>common/guards\<close>, \<open>common/context\<close>, \<open>middlewares\<close>), \<open>Http\<close> and \<open>Controllers\<close> (the
    controllers and the request cycle of \<open>app.module.ts\<close>), \<open>Dto\<close> (\<open>interfaces/DTO\<close>,
    \<open>common/validators\<close>, the pipe of \<open>main.ts\<close>), \<open>EnvValidation\<close> (\<open>config\<close>), \<open>Seed\<close> (\<open>database/seed\<close>),
    \<open>Outbox\<close> (\<open>cron/outbox-*\<close>).
  \<^item> \<open>Requests\<close>, \<open>Runs\<close>: every request as a value, the reply \<open>answer\<close> computes for it, and runs of the
    whole service; \<open>ServiceOrders\<close> derives once, in the locale \<open>service_order\<close>, that every service
    stays in an order on worlds whose primitive effects do.

  \<^bold>\<open>What is shown.\<close>
  \<^item> \<open>RunProperties\<close> (over \<open>SessionOrigin\<close>): in any run, whoever reaches a method behind a guard of users
    has logged in with the right password of an active account, a session that ended stays ended, and
    clients with an IPv6 address are locked out.
    \<open>PasswordProperties\<close> (over \<open>PasswordOrigin\<close>): who can set a password. \<open>AccountRuns\<close>: accounts
    outlive every request. Each is an interpretation of \<open>service_order\<close> (sessions, passwords and reset
    links, accounts) with the few calls that leave the order looked at by hand; \<open>account_laws\<close> and
    \<open>tables_apart\<close> say what they ask of the libraries.
  \<^item> \<open>EprProperties\<close>, \<open>ApiKeyProperties\<close> (over \<open>EprCache\<close>, \<open>ApiKeyCache\<close>): the caches answer as the
    database, every operation keeps them coherent, closing a rule or a key takes effect at once, and
    the two ways in which a deactivated key comes back.
  \<^item> \<open>SessionProperties\<close>, \<open>UserProperties\<close>, \<open>RoleProperties\<close> (over \<open>UserSessions\<close>, \<open>UserAccounts\<close>): the
    decision of a login, rotation of tokens, the life of an account, atomic registration, single use
    of reset tokens, and the propagation of roles into open sessions, with Redis up and down.
  \<^item> \<open>GuardProperties\<close>, \<open>ControllerProperties\<close> (over \<open>GuardFrames\<close>): what a guard admits, which endpoints
    an anonymous request reaches, the life of the cookies from login to the end of the session, what
    the replies disclose.
  \<^item> \<open>DtoProperties\<close>, \<open>EnvValidation\<close>: what an accepted body and an accepted configuration are, the
    password expression against its message, which it is stricter than, replies to refused bodies.
  \<^item> \<open>OutboxProperties\<close> (over \<open>OutboxSteps\<close>): no event is lost or stuck under any interleaving of
    publishers, the publisher refines the step relation and delivers the oldest events first, passing
    over locked ones, the cleanup ends.
  \<^item> \<open>SeedProperties\<close> (over \<open>SeedSteps\<close>): seeding is all or nothing, a second seeding leaves the
    accounts alone, and what the seeded administrator reaches.

  \<^bold>\<open>Termination.\<close> Recursion over cause chains, validation trees, templates and lists has measures. The
  cleanup loop of the outbox has no bound in the code: it is a \<open>partial_function (option)\<close>, and
  \<open>handleOutboxCleanup_ends\<close> proves that it returns. No fuel is used.

  \<^bold>\<open>Not modelled.\<close> Dependency injection and module files; \<open>main.ts\<close> but for the pipe (CORS, proxies,
  the API document); the logging transports and the lines written to them; \<open>seed.command.ts\<close> and the
  email module (connection set-up of the framework); decorators that only feed the API document;
  \<open>propagateAxiosError\<close>, which nothing calls; observed durations and the text format of the metrics;
  the text of the status page. These are calls of libraries without logic of the program.
\<close>

end
